(* ===== verification/Prelude.thy ===== *)
theory Prelude
  imports Main "HOL-Library.AList" "HOL-Library.Word"
begin

text \<open>
  Shared vocabulary of the development.

  \<^item> Go's \<open>int\<close>/\<open>int64\<close> arithmetic: \<open>i64\<close> wraps an exact result into the
    64-bit two's-complement range, \<open>go_quot\<close> truncates towards zero.
  \<^item> Go maps: where the code iterates over a map, it is an association list with distinct keys
    whose order stands for the (unspecified) iteration order; where it does not, a HOL map.
  \<^item> The newest \<open>n\<close> elements of a history (\<open>last_n\<close>) and the reading of a circular
    buffer as that history (\<open>circ_contents\<close>), shared by every ring buffer of the code.
  \<^item> The interfaces that several components implement, as locales: \<open>kv_store\<close>
    (lookup, store, delete), \<open>step_invariant\<close> (operations that keep an invariant) and
    \<open>bounded_history\<close> (a buffer that keeps the newest elements).
\<close>

named_theorems i64_simps \<open>removal of the 64-bit wrap under range hypotheses\<close>
named_theorems hist_simps \<open>facts on the newest elements of a history\<close>

section \<open>Machine integers\<close>

definition i64 :: "int \<Rightarrow> int" where
  "i64 x = (x + 2 ^ 63) mod 2 ^ 64 - 2 ^ 63"

definition in_i64 :: "int \<Rightarrow> bool" where
  "in_i64 x \<longleftrightarrow> - (2 ^ 63) \<le> x \<and> x < 2 ^ 63"

definition go_quot :: "int \<Rightarrow> int \<Rightarrow> int" where
  "go_quot a b = sgn a * sgn b * (\<bar>a\<bar> div \<bar>b\<bar>)"

lemma i64_id [i64_simps]: "in_i64 x \<Longrightarrow> i64 x = x"
  by (simp add: i64_def in_i64_def)

lemma i64_range [simp]: "in_i64 (i64 x)"
  by (simp add: i64_def in_i64_def)

lemma go_quot_nonneg [simp]: "0 \<le> a \<Longrightarrow> 0 < b \<Longrightarrow> go_quot a b = a div b"
  by (auto simp: go_quot_def sgn_if)

section \<open>Strings\<close>

text \<open>\<open>strings.ToLower\<close> on the ASCII letters; other letters are left as they are.\<close>

definition ascii_lower :: "char \<Rightarrow> char" where
  "ascii_lower c = (let n = (of_char c :: nat) in if 65 \<le> n \<and> n \<le> 90 then char_of (n + 32) else c)"

section \<open>Loops that may fail\<close>

fun fold_opt :: "('a \<Rightarrow> 'b \<Rightarrow> 'b option) \<Rightarrow> 'a list \<Rightarrow> 'b \<Rightarrow> 'b option" where
  "fold_opt f [] b = Some b"
| "fold_opt f (x # xs) b = (case f x b of None \<Rightarrow> None | Some b' \<Rightarrow> fold_opt f xs b')"

section \<open>Association lists as Go maps\<close>

abbreviation unique_keys :: "('k \<times> 'v) list \<Rightarrow> bool" where
  "unique_keys m \<equiv> distinct (map fst m)"

lemma map_of_update [simp]: "map_of (AList.update k v m) = (map_of m)(k \<mapsto> v)"
  by (simp add: update_conv')

lemma map_of_delete [simp]: "map_of (AList.delete k m) = (map_of m)(k := None)"
  by (simp add: delete_conv')

lemma unique_keys_update [intro]: "unique_keys m \<Longrightarrow> unique_keys (AList.update k v m)"
  by (rule distinct_update)

lemma unique_keys_delete [intro]: "unique_keys m \<Longrightarrow> unique_keys (AList.delete k m)"
  by (rule distinct_delete)

lemma unique_keys_eq:
  "unique_keys m \<Longrightarrow> (k, v) \<in> set m \<Longrightarrow> (k, w) \<in> set m \<Longrightarrow> v = w"
  by (metis eq_key_imp_eq_value)

section \<open>The newest elements of a history\<close>

definition last_n :: "nat \<Rightarrow> 'a list \<Rightarrow> 'a list" where
  "last_n n xs = drop (length xs - n) xs"

lemma length_last_n [simp, hist_simps]: "length (last_n n xs) = min n (length xs)"
  by (simp add: last_n_def)

lemma last_n_all [hist_simps]: "length xs \<le> n \<Longrightarrow> last_n n xs = xs"
  by (simp add: last_n_def)

lemma last_n_Nil [simp]: "last_n n [] = []"
  by (simp add: last_n_def)

lemma last_n_snoc [hist_simps]:
  "0 < n \<Longrightarrow> last_n n (last_n n xs @ [x]) = last_n n (xs @ [x])"
  by (cases "length xs \<le> n") (auto simp: last_n_def Suc_diff_le)

lemma last_n_snoc_full [hist_simps]:
  "length xs = n \<Longrightarrow> 0 < n \<Longrightarrow> last_n n (xs @ [x]) = tl xs @ [x]"
  by (cases xs) (auto simp: last_n_def)

section \<open>Circular buffers\<close>

text \<open>
  A buffer of fixed length with a write position and a count of the filled slots. While it is not
  full the live elements are the first \<open>cnt\<close> slots; once full, the oldest one is at the write
  position.
\<close>

definition circ_contents :: "'a list \<Rightarrow> nat \<Rightarrow> nat \<Rightarrow> 'a list" where
  "circ_contents buf pos cnt =
     (if cnt < length buf then take cnt buf else drop pos buf @ take pos buf)"

definition circ_ok :: "'a list \<Rightarrow> nat \<Rightarrow> nat \<Rightarrow> bool" where
  "circ_ok buf pos cnt \<longleftrightarrow>
     0 < length buf \<and> cnt \<le> length buf \<and> pos < length buf \<and> (cnt < length buf \<longrightarrow> pos = cnt)"

lemma circ_ok_empty [simp]: "0 < length buf \<Longrightarrow> circ_ok buf 0 0"
  by (simp add: circ_ok_def)

lemma circ_contents_empty [simp]: "0 < length buf \<Longrightarrow> circ_contents buf 0 0 = []"
  by (simp add: circ_contents_def)

lemma length_circ_contents [simp]: "circ_ok buf pos cnt \<Longrightarrow> length (circ_contents buf pos cnt) = cnt"
  by (auto simp: circ_contents_def circ_ok_def)

lemma circ_ok_push:
  "circ_ok buf pos cnt \<Longrightarrow>
   circ_ok (buf[pos := v]) (Suc pos mod length buf) (if cnt < length buf then Suc cnt else cnt)"
  by (auto simp: circ_ok_def)

lemma circ_contents_push:
  assumes "circ_ok buf pos cnt"
  shows "circ_contents (buf[pos := v]) (Suc pos mod length buf)
           (if cnt < length buf then Suc cnt else cnt)
         = last_n (length buf) (circ_contents buf pos cnt @ [v])"
proof (cases "cnt < length buf")
  case True
  with assms have pos: "pos = cnt" by (simp add: circ_ok_def)
  have upd: "take (Suc cnt) (buf[cnt := v]) = take cnt buf @ [v]"
    using True by (simp add: take_Suc_conv_app_nth)
  show ?thesis
  proof (cases "Suc cnt < length buf")
    case True
    then show ?thesis using upd pos by (simp add: circ_contents_def last_n_def)
  next
    case False
    with True have "Suc cnt = length buf" by simp
    then show ?thesis using upd pos by (simp add: circ_contents_def last_n_def)
  qed
next
  case False
  with assms have pos: "pos < length buf" by (simp add: circ_ok_def)
  let ?old = "drop pos buf @ take pos buf"
  have new: "last_n (length buf) (?old @ [v]) = drop (Suc pos) buf @ take pos buf @ [v]"
    using pos by (subst last_n_snoc_full) (auto simp: Cons_nth_drop_Suc [symmetric])
  have old: "circ_contents buf pos cnt = ?old"
    using False by (simp add: circ_contents_def)
  have lhs: "circ_contents (buf[pos := v]) (Suc pos mod length buf) cnt
             = drop (Suc pos) buf @ take pos buf @ [v]"
  proof (cases "Suc pos < length buf")
    case True
    then show ?thesis using False pos
      by (simp add: circ_contents_def take_Suc_conv_app_nth)
  next
    case notlast: False
    with pos have "Suc pos = length buf" by simp
    then show ?thesis using False pos
      by (simp add: circ_contents_def upd_conv_take_nth_drop)
  qed
  show ?thesis using False by (simp del: append_assoc add: lhs old new)
qed

text \<open>Reading backwards from the write position: the \<open>i\<close>-th newest element.\<close>

lemma circ_nth_back:
  assumes ok: "circ_ok buf pos cnt" and i: "i < cnt"
  shows "buf ! ((pos + length buf - 1 - i) mod length buf)
         = circ_contents buf pos cnt ! (cnt - 1 - i)"
proof (cases "cnt < length buf")
  case True
  with ok have pos: "pos = cnt" by (simp add: circ_ok_def)
  have "(pos + length buf - 1 - i) mod length buf = cnt - 1 - i"
    using pos i True by (simp add: mod_if)
  then show ?thesis using True i by (simp add: circ_contents_def)
next
  case False
  with ok have full: "cnt = length buf" and pos: "pos < length buf" by (auto simp: circ_ok_def)
  show ?thesis
  proof (cases "i < pos")
    case True
    then have "(pos + length buf - 1 - i) mod length buf = pos - 1 - i"
      using pos full i by (simp add: mod_if)
    moreover have "length buf - 1 - i - (length buf - pos) = pos - 1 - i"
      and "\<not> length buf - 1 - i < length buf - pos"
      using True pos by auto
    ultimately show ?thesis using full True pos
      by (simp add: circ_contents_def nth_append)
  next
    case ge: False
    then have "(pos + length buf - 1 - i) mod length buf = pos + length buf - 1 - i"
      using pos full i by (simp add: mod_if)
    moreover have "length buf - 1 - i < length buf - pos"
      and "pos + (length buf - 1 - i) = pos + length buf - 1 - i"
      using ge pos full i by auto
    ultimately show ?thesis using full pos
      by (simp add: circ_contents_def nth_append)
  qed
qed

section \<open>Interfaces\<close>

text \<open>A store of values under keys, as every per-process table of the kernel uses one.\<close>

locale kv_store =
  fixes lookup :: "'m \<Rightarrow> 'k \<Rightarrow> 'v option"
    and store :: "'k \<Rightarrow> 'v \<Rightarrow> 'm \<Rightarrow> 'm"
    and remove :: "'k \<Rightarrow> 'm \<Rightarrow> 'm"
  assumes lookup_store: "lookup (store k v m) j = (if j = k then Some v else lookup m j)"
    and lookup_remove: "lookup (remove k m) j = (if j = k then None else lookup m j)"
begin

lemma store_overwrites: "lookup (store k v (store k w m)) = lookup (store k v m)"
  by (rule ext) (simp add: lookup_store)

lemma store_commutes:
  "k \<noteq> k' \<Longrightarrow> lookup (store k v (store k' v' m)) = lookup (store k' v' (store k v m))"
  by (rule ext) (simp add: lookup_store)

lemma remove_then_absent: "lookup (remove k m) k = None"
  by (simp add: lookup_remove)

lemma remove_store: "lookup m k = None \<Longrightarrow> lookup (remove k (store k v m)) = lookup m"
  by (rule ext) (simp add: lookup_remove lookup_store)

end

text \<open>An operation set that keeps an invariant, as long as the calls satisfy a precondition.\<close>

locale step_invariant =
  fixes step :: "'op \<Rightarrow> 's \<Rightarrow> 's"
    and ok :: "'op \<Rightarrow> bool"
    and inv :: "'s \<Rightarrow> bool"
  assumes step_inv: "inv s \<Longrightarrow> ok op \<Longrightarrow> inv (step op s)"
begin

lemma run_inv: "inv s \<Longrightarrow> \<forall>op \<in> set ops. ok op \<Longrightarrow> inv (fold step ops s)"
  by (induction ops arbitrary: s) (simp_all add: step_inv)

lemma run_inv_total: "inv s \<Longrightarrow> (\<And>op. ok op) \<Longrightarrow> inv (fold step ops s)"
  using run_inv by blast

end

text \<open>
  A bounded buffer that, pushed to, keeps the newest \<open>cap\<close> elements. The client lemma says what
  it holds after any sequence of pushes.
\<close>

locale bounded_history =
  fixes push :: "'a \<Rightarrow> 'b \<Rightarrow> 'b"
    and contents :: "'b \<Rightarrow> 'a list"
    and cap :: "'b \<Rightarrow> nat"
    and wf :: "'b \<Rightarrow> bool"
  assumes push_contents: "wf b \<Longrightarrow> contents (push v b) = last_n (cap b) (contents b @ [v])"
    and push_wf: "wf b \<Longrightarrow> wf (push v b)"
    and push_cap: "wf b \<Longrightarrow> cap (push v b) = cap b"
    and cap_pos: "wf b \<Longrightarrow> 0 < cap b"
    and contents_bound: "wf b \<Longrightarrow> length (contents b) \<le> cap b"
begin

lemma fold_push_wf: "wf b \<Longrightarrow> wf (fold push vs b) \<and> cap (fold push vs b) = cap b"
  by (induction vs arbitrary: b) (simp_all add: push_wf push_cap)

lemma fold_push_contents:
  "wf b \<Longrightarrow> contents (fold push vs b) = last_n (cap b) (contents b @ vs)"
proof (induction vs rule: rev_induct)
  case Nil
  then show ?case by (simp add: last_n_all contents_bound)
next
  case (snoc v vs)
  then have "contents (fold push (vs @ [v]) b)
             = last_n (cap b) (last_n (cap b) (contents b @ vs) @ [v])"
    by (simp add: push_contents fold_push_wf)
  also have "\<dots> = last_n (cap b) ((contents b @ vs) @ [v])"
    by (rule last_n_snoc) (rule cap_pos [OF snoc.prems])
  finally show ?case by simp
qed

lemma fold_push_bound: "wf b \<Longrightarrow> length (contents (fold push vs b)) \<le> cap b"
  using contents_bound fold_push_wf by metis

end

section \<open>Refinement of step relations\<close>

text \<open>
  Runs of a labelled step relation, and the contract between a detailed and an abstract one: an
  invariant of the detailed system, and every step from it is the step of the abstract system
  with the same label between the abstracted states.
\<close>

inductive lrun :: "('s \<Rightarrow> 'l \<Rightarrow> 's \<Rightarrow> bool) \<Rightarrow> 's \<Rightarrow> 'l list \<Rightarrow> 's \<Rightarrow> bool" for lstep where
  lrun_nil: "lrun lstep s [] s"
| lrun_snoc: "lrun lstep s ls s' \<Longrightarrow> lstep s' l s'' \<Longrightarrow> lrun lstep s (ls @ [l]) s''"

locale refinement =
  fixes cstep :: "'c \<Rightarrow> 'l \<Rightarrow> 'c \<Rightarrow> bool"
    and astep :: "'a \<Rightarrow> 'l \<Rightarrow> 'a \<Rightarrow> bool"
    and cinv :: "'c \<Rightarrow> bool"
    and abst :: "'c \<Rightarrow> 'a"
  assumes step_inv: "cstep s l s' \<Longrightarrow> cinv s \<Longrightarrow> cinv s'"
    and step_refines: "cstep s l s' \<Longrightarrow> cinv s \<Longrightarrow> astep (abst s) l (abst s')"
begin

lemma run_cinv: "lrun cstep s ls s' \<Longrightarrow> cinv s \<Longrightarrow> cinv s'"
  by (induction rule: lrun.induct) (auto intro: step_inv)

lemma run_refines: "lrun cstep s ls s' \<Longrightarrow> cinv s \<Longrightarrow> lrun astep (abst s) ls (abst s')"
  by (induction rule: lrun.induct) (auto intro: lrun_nil lrun_snoc step_refines run_cinv)

end

end
