(* ===== verification/KTypes.thy ===== *)
theory KTypes
  imports Prelude
begin

text \<open>
  The vocabulary every layer shares (\<open>internal/types/types.go\<close>): identifiers, error codes,
  signals, process states and driver errors.

  Identifiers are drawn from counters that only grow by one per allocation; they are \<open>nat\<close>s
  (\<open>int\<close> for file descriptors), so the model does not describe a counter that has run
  through all of its \<open>2^63\<close> values. A Go \<open>error\<close> is kept as its category (\<open>ErrCode\<close>), the
  operation and the device; the formatted message text is not modelled.
\<close>

section \<open>Identifiers\<close>

type_synonym PID = nat
type_synonym FD = int
type_synonym CtxID = nat
type_synonym MsgSeq = nat
type_synonym TID = nat
type_synonym CoID = nat

section \<open>Error codes\<close>

datatype ErrCode =
    ErrTimeout | ErrNotFound | ErrPermission | ErrInternal | ErrDriver | ErrInvalid
  | ErrIsDirectory | ErrBrokenPipe | ErrServiceUnavailable | ErrAlreadyMounted
  | ErrResourceExhausted | ErrRateLimit | ErrForceKilled | ErrDeviceDisconnected

text \<open>
  \<open>kernel.SyscallError\<close> and \<open>types.DriverError\<close>: an error a caller sees names the operation, the
  process or device and the code. Errors that are not one of the two (Go's \<open>errors.New\<close>,
  \<open>fmt.Errorf\<close>) are \<open>PlainError\<close>.
\<close>

datatype go_error =
    SyscallError string PID ErrCode
  | DriverError (de_op: string) (de_device: string) (de_code: ErrCode)
  | PlainError string

fun driver_errcode :: "go_error \<Rightarrow> ErrCode" where
  "driver_errcode (DriverError opn dev c) = c"
| "driver_errcode (SyscallError opn p c) = ErrDriver"
| "driver_errcode (PlainError m) = ErrDriver"

section \<open>Signals\<close>

text \<open>\<open>type Signal int\<close>: any integer can reach the kernel; five of them are signals.\<close>

type_synonym Signal = int

definition SIGTERM :: Signal where "SIGTERM = 1"
definition SIGKILL :: Signal where "SIGKILL = 2"
definition SIGINT :: Signal where "SIGINT = 3"
definition SIGPAUSE :: Signal where "SIGPAUSE = 4"
definition SIGRESUME :: Signal where "SIGRESUME = 5"

lemmas signal_defs = SIGTERM_def SIGKILL_def SIGINT_def SIGPAUSE_def SIGRESUME_def

definition sig_valid :: "Signal \<Rightarrow> bool" where
  "sig_valid s \<longleftrightarrow> SIGTERM \<le> s \<and> s \<le> SIGRESUME"

definition sig_is_termination :: "Signal \<Rightarrow> bool" where
  "sig_is_termination s \<longleftrightarrow> s = SIGTERM \<or> s = SIGKILL \<or> s = SIGINT"

definition sig_blockable :: "Signal \<Rightarrow> bool" where
  "sig_blockable s \<longleftrightarrow> s \<noteq> SIGKILL"

lemma sig_valid_cases:
  "sig_valid s \<Longrightarrow> s = SIGTERM \<or> s = SIGKILL \<or> s = SIGINT \<or> s = SIGPAUSE \<or> s = SIGRESUME"
  by (auto simp: sig_valid_def signal_defs)

lemma sig_valid_signals [simp]:
  "sig_valid SIGTERM" "sig_valid SIGKILL" "sig_valid SIGINT" "sig_valid SIGPAUSE" "sig_valid SIGRESUME"
  by (simp_all add: sig_valid_def signal_defs)

lemma termination_signals [simp]:
  "sig_is_termination SIGTERM" "sig_is_termination SIGKILL" "sig_is_termination SIGINT"
  "\<not> sig_is_termination SIGPAUSE" "\<not> sig_is_termination SIGRESUME"
  by (simp_all add: sig_is_termination_def signal_defs)

lemma signals_distinct [simp]:
  "SIGTERM \<noteq> SIGKILL" "SIGKILL \<noteq> SIGTERM" "SIGTERM \<noteq> SIGPAUSE" "SIGPAUSE \<noteq> SIGTERM"
  "SIGTERM \<noteq> SIGRESUME" "SIGRESUME \<noteq> SIGTERM" "SIGKILL \<noteq> SIGPAUSE" "SIGPAUSE \<noteq> SIGKILL"
  "SIGKILL \<noteq> SIGRESUME" "SIGRESUME \<noteq> SIGKILL" "SIGPAUSE \<noteq> SIGRESUME" "SIGRESUME \<noteq> SIGPAUSE"
  "SIGINT \<noteq> SIGTERM" "SIGTERM \<noteq> SIGINT" "SIGINT \<noteq> SIGKILL" "SIGKILL \<noteq> SIGINT"
  "SIGINT \<noteq> SIGPAUSE" "SIGPAUSE \<noteq> SIGINT" "SIGINT \<noteq> SIGRESUME" "SIGRESUME \<noteq> SIGINT"
  by (simp_all add: signal_defs)

section \<open>Who asked for a kill\<close>

datatype KillOrigin =
    OriginEmpty | OriginCLI | OriginDashboard | OriginTop | OriginCompose | OriginParentCascade
  | OriginSupervisor | OriginWatchdog | OriginOSSignal | OriginInit | OriginResume | OriginUnknown
  | OriginOther string

section \<open>Process states\<close>

datatype ProcessState = StateCreated | StateRunning | StateZombie | StateDead | StateSuspended

text \<open>The constructors in the order of the \<open>iota\<close> constants.\<close>

instantiation ProcessState :: linorder
begin

primrec state_code :: "ProcessState \<Rightarrow> nat" where
  "state_code StateCreated = 0"
| "state_code StateRunning = 1"
| "state_code StateZombie = 2"
| "state_code StateDead = 3"
| "state_code StateSuspended = 4"

definition less_eq_ProcessState :: "ProcessState \<Rightarrow> ProcessState \<Rightarrow> bool" where
  "less_eq_ProcessState a b \<longleftrightarrow> state_code a \<le> state_code b"

definition less_ProcessState :: "ProcessState \<Rightarrow> ProcessState \<Rightarrow> bool" where
  "less_ProcessState a b \<longleftrightarrow> state_code a < state_code b"

instance
proof
  fix a b c :: ProcessState
  show "a < b \<longleftrightarrow> a \<le> b \<and> \<not> b \<le> a" and "a \<le> a" and "a \<le> b \<or> b \<le> a"
    by (auto simp: less_eq_ProcessState_def less_ProcessState_def)
  show "a \<le> b \<Longrightarrow> b \<le> c \<Longrightarrow> a \<le> c"
    by (simp add: less_eq_ProcessState_def)
  show "a \<le> b \<Longrightarrow> b \<le> a \<Longrightarrow> a = b"
    by (cases a; cases b) (simp_all add: less_eq_ProcessState_def)
qed

end

text \<open>A process that can no longer run: no signal, message or descriptor reaches it.\<close>

definition is_gone :: "ProcessState \<Rightarrow> bool" where
  "is_gone s \<longleftrightarrow> s = StateZombie \<or> s = StateDead"

lemma is_gone_simps [simp]:
  "is_gone StateZombie" "is_gone StateDead" "\<not> is_gone StateCreated" "\<not> is_gone StateRunning"
  "\<not> is_gone StateSuspended"
  by (simp_all add: is_gone_def)

end
