(* ===== verification/XSync.thy ===== *)
theory XSync
  imports KTypes
begin

text \<open>
  The concurrency containers (\<open>internal/xsync\<close>): the ring buffer of captured lines, the named
  registry and the locked map. Each method of the code holds its lock for its whole body, so
  each is one function of the model. Go's maps are association lists with distinct keys, in the
  order an iteration would visit them.
\<close>

section \<open>Ring buffer (\<open>ringbuf.go\<close>)\<close>

record 'a RingBuffer =
  rb_buf :: "'a list"
  rb_cap :: nat
  rb_start :: nat
  rb_size :: nat

text \<open>\<open>zero\<close> is the zero value \<open>make\<close> fills the slots with.\<close>

definition NewRingBuffer :: "'a \<Rightarrow> int \<Rightarrow> 'a RingBuffer" where
  "NewRingBuffer zero capacity =
     (let c = nat (if capacity < 1 then 1 else capacity)
      in \<lparr>rb_buf = replicate c zero, rb_cap = c, rb_start = 0, rb_size = 0\<rparr>)"

definition rb_push :: "'a \<Rightarrow> 'a RingBuffer \<Rightarrow> 'a RingBuffer" where
  "rb_push v r =
     (let idx = (rb_start r + rb_size r) mod rb_cap r;
          r' = r\<lparr>rb_buf := (rb_buf r)[idx := v]\<rparr>
      in if rb_size r < rb_cap r then r'\<lparr>rb_size := rb_size r + 1\<rparr>
         else r'\<lparr>rb_start := (rb_start r + 1) mod rb_cap r\<rparr>)"

definition rb_snapshot :: "'a RingBuffer \<Rightarrow> 'a list" where
  "rb_snapshot r = map (\<lambda>i. rb_buf r ! ((rb_start r + i) mod rb_cap r)) [0..<rb_size r]"

definition rb_len :: "'a RingBuffer \<Rightarrow> nat" where
  "rb_len r = rb_size r"

definition rb_ok :: "'a RingBuffer \<Rightarrow> bool" where
  "rb_ok r \<longleftrightarrow> 0 < rb_cap r \<and> length (rb_buf r) = rb_cap r \<and> rb_size r \<le> rb_cap r \<and>
     rb_start r < rb_cap r \<and> (rb_size r < rb_cap r \<longrightarrow> rb_start r = 0)"

lemma NewRingBuffer_ok: "rb_ok (NewRingBuffer z c)"
  by (auto simp: rb_ok_def NewRingBuffer_def Let_def)

lemma NewRingBuffer_empty: "rb_snapshot (NewRingBuffer z c) = []"
  by (simp add: rb_snapshot_def NewRingBuffer_def Let_def)

lemma rb_push_ok: "rb_ok r \<Longrightarrow> rb_ok (rb_push v r)"
  by (auto simp: rb_ok_def rb_push_def Let_def)

text \<open>The write position, and the buffer read as a circular one.\<close>

lemma rb_snapshot_circ:
  assumes "rb_ok r"
  shows "rb_snapshot r
         = circ_contents (rb_buf r) ((rb_start r + rb_size r) mod rb_cap r) (rb_size r)"
proof (cases "rb_size r < rb_cap r")
  case True
  with assms show ?thesis
    by (auto simp: rb_ok_def rb_snapshot_def circ_contents_def intro!: nth_equalityI)
next
  case False
  with assms have full: "rb_size r = rb_cap r" "length (rb_buf r) = rb_cap r"
    and st: "rb_start r < rb_cap r"
    by (auto simp: rb_ok_def)
  have nth: "rb_buf r ! ((rb_start r + i) mod rb_cap r)
             = (drop (rb_start r) (rb_buf r) @ take (rb_start r) (rb_buf r)) ! i"
    if "i < rb_cap r" for i
    using that st full by (auto simp: nth_append mod_if add.commute)
  show ?thesis
    using full st by (auto simp: rb_snapshot_def circ_contents_def nth intro!: nth_equalityI)
qed

lemma rb_circ_ok:
  "rb_ok r \<Longrightarrow> circ_ok (rb_buf r) ((rb_start r + rb_size r) mod rb_cap r) (rb_size r)"
  by (auto simp: rb_ok_def circ_ok_def)

lemma rb_push_snapshot:
  assumes "rb_ok r"
  shows "rb_snapshot (rb_push v r) = last_n (rb_cap r) (rb_snapshot r @ [v])"
proof -
  let ?p = "(rb_start r + rb_size r) mod rb_cap r"
  have len: "length (rb_buf r) = rb_cap r" using assms by (simp add: rb_ok_def)
  have pos: "(rb_start (rb_push v r) + rb_size (rb_push v r)) mod rb_cap r = Suc ?p mod rb_cap r"
    using assms by (auto simp: rb_push_def Let_def rb_ok_def mod_Suc_eq mod_if)
  have rest: "rb_cap (rb_push v r) = rb_cap r" "rb_buf (rb_push v r) = (rb_buf r)[?p := v]"
    "rb_size (rb_push v r) = (if rb_size r < rb_cap r then Suc (rb_size r) else rb_size r)"
    by (simp_all add: rb_push_def Let_def)
  show ?thesis
    using circ_contents_push [OF rb_circ_ok [OF assms], of v]
    unfolding rb_snapshot_circ [OF rb_push_ok [OF assms]] rb_snapshot_circ [OF assms]
      rest(1) pos len
    by (simp only: rest)
qed

interpretation rb: bounded_history rb_push rb_snapshot rb_cap rb_ok
proof
  fix b :: "'a RingBuffer" and v
  assume ok: "rb_ok b"
  show "rb_snapshot (rb_push v b) = last_n (rb_cap b) (rb_snapshot b @ [v])"
    using ok by (rule rb_push_snapshot)
  show "rb_ok (rb_push v b)" using ok by (rule rb_push_ok)
  show "rb_cap (rb_push v b) = rb_cap b" by (simp add: rb_push_def Let_def)
  show "0 < rb_cap b" using ok by (simp add: rb_ok_def)
  show "length (rb_snapshot b) \<le> rb_cap b" using ok by (simp add: rb_snapshot_def rb_ok_def)
qed

text \<open>
  Whatever is pushed to a fresh ring buffer of a requested capacity (below one means one), the
  snapshot is the newest pushes, oldest first, and as many as the capacity allows.
\<close>

theorem ring_buffer_keeps_newest:
  "rb_snapshot (fold rb_push vs (NewRingBuffer z c)) = last_n (nat (max 1 c)) vs"
proof -
  have "rb_cap (NewRingBuffer z c) = nat (max 1 c)"
    by (auto simp: NewRingBuffer_def Let_def max_def)
  then show ?thesis
    by (simp add: rb.fold_push_contents NewRingBuffer_ok NewRingBuffer_empty)
qed

section \<open>Named registry (\<open>registry.go\<close>)\<close>

type_synonym 'a Registry = "(string \<times> 'a) list"

definition NewRegistry :: "'a Registry" where
  "NewRegistry = []"

definition reg_register :: "string \<Rightarrow> 'a \<Rightarrow> 'a Registry \<Rightarrow> go_error + 'a Registry" where
  "reg_register name item r =
     (case map_of r name of
        Some _ \<Rightarrow> Inl (PlainError ''already registered'')
      | None \<Rightarrow> Inr (AList.update name item r))"

definition reg_get :: "'a Registry \<Rightarrow> string \<Rightarrow> 'a option" where
  "reg_get r name = map_of r name"

definition reg_list :: "'a Registry \<Rightarrow> 'a list" where
  "reg_list r = map snd r"

definition reg_unregister :: "string \<Rightarrow> 'a Registry \<Rightarrow> go_error + 'a Registry" where
  "reg_unregister name r =
     (case map_of r name of
        None \<Rightarrow> Inl (PlainError ''not registered'')
      | Some _ \<Rightarrow> Inr (AList.delete name r))"

text \<open>\<open>Range\<close>: the callback with its state, stopped when it returns \<open>false\<close>.\<close>

fun reg_range :: "(string \<Rightarrow> 'a \<Rightarrow> 's \<Rightarrow> bool \<times> 's) \<Rightarrow> 'a Registry \<Rightarrow> 's \<Rightarrow> 's" where
  "reg_range fn [] s = s"
| "reg_range fn ((name, item) # r) s =
     (case fn name item s of (go, s') \<Rightarrow> if go then reg_range fn r s' else s')"

lemma reg_range_fold:
  "(\<And>n i s. fst (fn n i s)) \<Longrightarrow> reg_range fn r s = fold (\<lambda>(n, i) s. snd (fn n i s)) r s"
  by (induction r arbitrary: s) (auto split: prod.splits dest: meta_spec simp: case_prod_beta)

section \<open>Locked map (\<open>syncmap.go\<close>)\<close>

type_synonym ('k, 'v) SyncMap = "('k \<times> 'v) list"

definition NewSyncMap :: "('k, 'v) SyncMap" where
  "NewSyncMap = []"

definition sm_load :: "('k, 'v) SyncMap \<Rightarrow> 'k \<Rightarrow> 'v option" where
  "sm_load m k = map_of m k"

definition sm_store :: "'k \<Rightarrow> 'v \<Rightarrow> ('k, 'v) SyncMap \<Rightarrow> ('k, 'v) SyncMap" where
  "sm_store k v m = AList.update k v m"

definition sm_delete :: "'k \<Rightarrow> ('k, 'v) SyncMap \<Rightarrow> ('k, 'v) SyncMap" where
  "sm_delete k m = AList.delete k m"

fun sm_range :: "('k \<Rightarrow> 'v \<Rightarrow> 's \<Rightarrow> bool \<times> 's) \<Rightarrow> ('k, 'v) SyncMap \<Rightarrow> 's \<Rightarrow> 's" where
  "sm_range fn [] s = s"
| "sm_range fn ((k, v) # m) s =
     (case fn k v s of (go, s') \<Rightarrow> if go then sm_range fn m s' else s')"

definition sm_load_or_store :: "'k \<Rightarrow> 'v \<Rightarrow> ('k, 'v) SyncMap \<Rightarrow> ('v \<times> bool) \<times> ('k, 'v) SyncMap" where
  "sm_load_or_store k v m =
     (case map_of m k of
        Some w \<Rightarrow> ((w, True), m)
      | None \<Rightarrow> ((v, False), AList.update k v m))"

definition sm_load_and_delete :: "'k \<Rightarrow> ('k, 'v) SyncMap \<Rightarrow> 'v option \<times> ('k, 'v) SyncMap" where
  "sm_load_and_delete k m =
     (case map_of m k of
        Some v \<Rightarrow> (Some v, AList.delete k m)
      | None \<Rightarrow> (None, m))"

definition sm_len :: "('k, 'v) SyncMap \<Rightarrow> nat" where
  "sm_len m = length m"

interpretation sm: kv_store sm_load sm_store sm_delete
  by unfold_locales (auto simp: sm_load_def sm_store_def sm_delete_def)

lemma sm_load_or_store_load:
  "sm_load (snd (sm_load_or_store k v m)) j
   = (if j = k then Some (fst (fst (sm_load_or_store k v m))) else sm_load m j)"
  by (auto simp: sm_load_or_store_def sm_load_def split: option.splits)

lemma sm_load_and_delete_load:
  "fst (sm_load_and_delete k m) = sm_load m k \<and>
   sm_load (snd (sm_load_and_delete k m)) j = (if j = k then None else sm_load m j)"
  by (auto simp: sm_load_and_delete_def sm_load_def split: option.splits)

lemma sm_unique_keys [intro]:
  "unique_keys m \<Longrightarrow> unique_keys (sm_store k v m)"
  "unique_keys m \<Longrightarrow> unique_keys (sm_delete k m)"
  "unique_keys m \<Longrightarrow> unique_keys (snd (sm_load_or_store k v m))"
  "unique_keys m \<Longrightarrow> unique_keys (snd (sm_load_and_delete k m))"
  by (auto simp: sm_store_def sm_delete_def sm_load_or_store_def sm_load_and_delete_def
      split: option.splits)

end
