(* ===== verification/ProcState.thy ===== *)
theory ProcState
  imports XSync
begin

text \<open>
  One process of the kernel (\<open>kernel/process.go\<close>): its lifecycle, signal state, child list,
  pause and suspend bookkeeping, usage ledger and history rings. Every method of the code runs
  under \<open>p.mu\<close>, so each is one function on the record below.

  Channels are modelled by what an observer can tell: \<open>Done\<close> (capacity one, non-blocking sends)
  by the buffered value, the broadcast channels \<open>terminated\<close> and \<open>resumedCh\<close> by whether
  they are closed, the context by whether it is cancelled. \<open>resumedCh\<close> is replaced at each
  resume, so the record holds the number of the current instance and the instances closed so far.
  A signal handler is a client's closure: it is named by a number, and its delivery is recorded.
  Times are nanoseconds; Go's zero \<open>time.Time\<close> is \<open>None\<close>. Token counters are Go \<open>int\<close>s
  and wrap at 64 bits.
\<close>

section \<open>The process record\<close>

datatype ExitStatus = ExitStatus (exit_Code: int) (exit_Reason: string) (exit_Result: string) (exit_Err: "go_error option")

definition ExitOK :: int where "ExitOK = 0"
definition ExitError :: int where "ExitError = 1"
definition ExitSuspended :: int where "ExitSuspended = 2"
definition ExitContextFull :: int where "ExitContextFull = 3"

datatype TokenSnapshot = TokenSnapshot (ts_Step: int) (ts_Tokens: int) (ts_DeltaMs: int)

datatype LogEntry = LogEntry (le_Timestamp: int) (le_PID: PID) (le_Step: int) (le_Category: string)
  (le_Content: string) (le_ToolPath: string)

type_synonym handler = nat

record Process =
  pr_PID :: PID
  pr_UUID :: string
  pr_PPID :: PID
  pr_ParentUUID :: string
  pr_State :: ProcessState
  pr_Children :: "PID list"
  pr_Done :: "ExitStatus option"
  pr_CreatedAt :: int
  pr_DeadAt :: "int option"
  pr_Exit :: "ExitStatus option"
  pr_Result :: string
  pr_failedChildren :: int
  pr_sigHandlers :: "Signal \<rightharpoonup> handler"
  pr_blockedSignals :: "Signal set"
  pr_pendingSignals :: "Signal set"
  pr_handled :: "(handler \<times> Signal) list"
  pr_paused :: bool
  pr_pausedAt :: "int option"
  pr_pausedTotal :: int
  pr_suspendRequested :: bool
  pr_SuspendReason :: string
  pr_ResumeAt :: "int option"
  pr_resumedCh :: nat
  pr_closedCh :: "nat set"
  pr_terminated :: bool
  pr_cancelled :: bool
  pr_shutdownStarted :: bool
  pr_LastHeartbeat :: "int option"
  pr_GracePeriod :: int
  pr_StreamTokensUsed :: int
  pr_StreamInputTokens :: int
  pr_UsageProvenance :: string
  pr_ToolCallCount :: int
  pr_ContextBudget :: int
  pr_ContextWindow :: int
  pr_LoopThreshold :: int
  pr_CoarseLoopThreshold :: int
  pr_LastCompletedStep :: int
  pr_ResumedFromStep :: int
  pr_PrimaryDevice :: string
  pr_tokenHistory :: "TokenSnapshot list"
  pr_tokenHistIdx :: nat
  pr_tokenHistLen :: nat
  pr_logHistory :: "LogEntry list"
  pr_logHistIdx :: nat
  pr_logHistLen :: nat
  pr_Intent :: string
  pr_Skills :: "string list"
  pr_AgentTemplate :: string
  pr_TraceID :: string
  pr_SpanID :: string
  pr_ParentSpanID :: string
  pr_TokensUsed :: int
  pr_MCPMounts :: "string list"
  pr_FDTable :: "(FD \<times> bool) list"
  pr_CtxID :: CtxID
  pr_StepTimeout :: int
  pr_IPCPersist :: bool
  pr_checkpointErr :: bool
  pr_DebugChan :: bool
  pr_LogChan :: bool
  pr_stepWriter :: bool
  pr_eventWriter :: bool
  pr_rawWriter :: bool
  pr_reapOnce :: bool
  pr_writebackOnce :: bool

text \<open>
  \<open>NewProcess\<close>: the PID and the UUID come from the allocator and the \<open>uuid\<close> package, the
  creation time from the clock.
\<close>

definition NewProcess :: "PID \<Rightarrow> string \<Rightarrow> PID \<Rightarrow> string \<Rightarrow> string list \<Rightarrow> int \<Rightarrow> Process" where
  "NewProcess pid uuid ppid intent skills now =
     \<lparr>pr_PID = pid, pr_UUID = uuid, pr_PPID = ppid, pr_ParentUUID = [], pr_State = StateCreated,
      pr_Children = [], pr_Done = None, pr_CreatedAt = now, pr_DeadAt = None, pr_Exit = None,
      pr_Result = [], pr_failedChildren = 0, pr_sigHandlers = Map.empty, pr_blockedSignals = {},
      pr_pendingSignals = {}, pr_handled = [], pr_paused = False, pr_pausedAt = None,
      pr_pausedTotal = 0, pr_suspendRequested = False, pr_SuspendReason = [], pr_ResumeAt = None,
      pr_resumedCh = 0, pr_closedCh = {}, pr_terminated = False, pr_cancelled = False,
      pr_shutdownStarted = False, pr_LastHeartbeat = None, pr_GracePeriod = 0,
      pr_StreamTokensUsed = 0, pr_StreamInputTokens = 0, pr_UsageProvenance = [],
      pr_ToolCallCount = 0, pr_ContextBudget = 0, pr_ContextWindow = 0, pr_LoopThreshold = 0,
      pr_CoarseLoopThreshold = 0, pr_LastCompletedStep = 0, pr_ResumedFromStep = 0,
      pr_PrimaryDevice = [], pr_tokenHistory = [], pr_tokenHistIdx = 0, pr_tokenHistLen = 0,
      pr_logHistory = [], pr_logHistIdx = 0, pr_logHistLen = 0, pr_Intent = intent, pr_Skills = skills,
      pr_AgentTemplate = [], pr_TraceID = [], pr_SpanID = [], pr_ParentSpanID = [], pr_TokensUsed = 0,
      pr_MCPMounts = [], pr_FDTable = [], pr_CtxID = 0, pr_StepTimeout = 0, pr_IPCPersist = False,
      pr_checkpointErr = False, pr_DebugChan = True, pr_LogChan = True, pr_stepWriter = False,
      pr_eventWriter = False, pr_rawWriter = False, pr_reapOnce = False, pr_writebackOnce = False\<rparr>"

section \<open>Lifecycle\<close>

fun validTransitions :: "ProcessState \<Rightarrow> ProcessState list" where
  "validTransitions StateCreated = [StateRunning]"
| "validTransitions StateRunning = [StateZombie, StateSuspended]"
| "validTransitions StateZombie = [StateDead]"
| "validTransitions StateSuspended = [StateRunning, StateDead]"
| "validTransitions StateDead = []"

definition transitionLocked :: "ProcessState \<Rightarrow> Process \<Rightarrow> go_error + Process" where
  "transitionLocked target p =
     (if target \<in> set (validTransitions (pr_State p)) then Inr (p\<lparr>pr_State := target\<rparr>)
      else Inl (SyscallError ''transition'' (pr_PID p) ErrInternal))"

definition Transition :: "ProcessState \<Rightarrow> Process \<Rightarrow> go_error + Process" where
  "Transition target p = transitionLocked target p"

definition Start :: "Process \<Rightarrow> go_error + Process" where
  "Start p = Transition StateRunning p"

definition Terminate :: "ExitStatus \<Rightarrow> Process \<Rightarrow> go_error + Process" where
  "Terminate exit p =
     (case transitionLocked StateZombie p of
        Inl e \<Rightarrow> Inl e
      | Inr p' \<Rightarrow> Inr (p'\<lparr>pr_Exit := Some exit, pr_terminated := True\<rparr>))"

definition Reap :: "Process \<Rightarrow> go_error + Process" where
  "Reap p = Transition StateDead p"

definition closeTerminated :: "Process \<Rightarrow> Process" where
  "closeTerminated p = p\<lparr>pr_terminated := True\<rparr>"

definition Cancel :: "Process \<Rightarrow> Process" where
  "Cancel p = p\<lparr>pr_cancelled := True\<rparr>"

definition IsCancelled :: "Process \<Rightarrow> bool" where
  "IsCancelled p = pr_cancelled p"

text \<open>A non-blocking send on the one-slot \<open>Done\<close> channel: dropped when a value is waiting.\<close>

definition send_done :: "ExitStatus \<Rightarrow> Process \<Rightarrow> Process" where
  "send_done exit p = (case pr_Done p of None \<Rightarrow> p\<lparr>pr_Done := Some exit\<rparr> | Some _ \<Rightarrow> p)"

definition Finish :: "string \<Rightarrow> int \<Rightarrow> go_error option \<Rightarrow> Process \<Rightarrow> Process" where
  "Finish result code err p =
     (let p1 = p\<lparr>pr_Result := result\<rparr>;
          exit = ExitStatus code result [] err;
          p2 = (case Terminate exit p1 of Inl _ \<Rightarrow> p1 | Inr q \<Rightarrow> q)
      in send_done exit p2)"

definition RequestSuspend :: "Process \<Rightarrow> Process" where
  "RequestSuspend p = p\<lparr>pr_suspendRequested := True\<rparr>"

definition Suspend :: "Process \<Rightarrow> go_error + Process" where
  "Suspend p = Transition StateSuspended p"

text \<open>
  \<open>Unsuspend\<close> clears the request only after the transition succeeded, then hands out a fresh
  channel and closes the one the waiters hold.
\<close>

definition Unsuspend :: "Process \<Rightarrow> go_error + Process" where
  "Unsuspend p =
     (case Transition StateRunning p of
        Inl e \<Rightarrow> Inl e
      | Inr p1 \<Rightarrow>
          let p2 = p1\<lparr>pr_suspendRequested := False\<rparr>;
              oldCh = pr_resumedCh p2
          in Inr (p2\<lparr>pr_resumedCh := oldCh + 1, pr_closedCh := insert oldCh (pr_closedCh p2)\<rparr>))"

section \<open>Children\<close>

definition AddChild :: "PID \<Rightarrow> Process \<Rightarrow> Process" where
  "AddChild pid p = p\<lparr>pr_Children := pr_Children p @ [pid]\<rparr>"

definition MarkFailedChild :: "Process \<Rightarrow> Process" where
  "MarkFailedChild p = p\<lparr>pr_failedChildren := i64 (pr_failedChildren p + 1)\<rparr>"

definition RemoveChild :: "PID \<Rightarrow> Process \<Rightarrow> Process" where
  "RemoveChild pid p = p\<lparr>pr_Children := remove1 pid (pr_Children p)\<rparr>"

definition GetChildren :: "Process \<Rightarrow> PID list" where
  "GetChildren p = pr_Children p"

section \<open>Signal state\<close>

datatype signalDisposition = dispBlocked | dispHandler handler | dispDefault

definition resolveSignalDisposition :: "Signal \<Rightarrow> Process \<Rightarrow> signalDisposition \<times> Process" where
  "resolveSignalDisposition sig p =
     (if sig \<in> pr_blockedSignals p
      then (dispBlocked, p\<lparr>pr_pendingSignals := insert sig (pr_pendingSignals p)\<rparr>)
      else if \<not> sig_blockable sig then (dispDefault, p)
      else case pr_sigHandlers p sig of
             Some h \<Rightarrow> (dispHandler h, p)
           | None \<Rightarrow> (dispDefault, p))"

definition SetHandler :: "Signal \<Rightarrow> handler \<Rightarrow> Process \<Rightarrow> Process" where
  "SetHandler sig h p = p\<lparr>pr_sigHandlers := (pr_sigHandlers p)(sig \<mapsto> h)\<rparr>"

definition GetHandler :: "Signal \<Rightarrow> Process \<Rightarrow> handler option" where
  "GetHandler sig p = pr_sigHandlers p sig"

definition BlockSignal :: "Signal \<Rightarrow> Process \<Rightarrow> Process" where
  "BlockSignal sig p = p\<lparr>pr_blockedSignals := insert sig (pr_blockedSignals p)\<rparr>"

definition UnblockSignal :: "Signal \<Rightarrow> Process \<Rightarrow> bool \<times> Process" where
  "UnblockSignal sig p =
     (sig \<in> pr_pendingSignals p, p\<lparr>pr_blockedSignals := pr_blockedSignals p - {sig}\<rparr>)"

definition IsBlocked :: "Signal \<Rightarrow> Process \<Rightarrow> bool" where
  "IsBlocked sig p \<longleftrightarrow> sig \<in> pr_blockedSignals p"

definition AddPending :: "Signal \<Rightarrow> Process \<Rightarrow> Process" where
  "AddPending sig p = p\<lparr>pr_pendingSignals := insert sig (pr_pendingSignals p)\<rparr>"

definition HasPending :: "Signal \<Rightarrow> Process \<Rightarrow> bool" where
  "HasPending sig p \<longleftrightarrow> sig \<in> pr_pendingSignals p"

definition ClearPending :: "Signal \<Rightarrow> Process \<Rightarrow> Process" where
  "ClearPending sig p = p\<lparr>pr_pendingSignals := pr_pendingSignals p - {sig}\<rparr>"

text \<open>Clearing also closes the pause channel, so a paused goroutine is released.\<close>

definition ClearSignalState :: "Process \<Rightarrow> Process" where
  "ClearSignalState p =
     p\<lparr>pr_sigHandlers := Map.empty, pr_blockedSignals := {}, pr_pendingSignals := {},
       pr_paused := False\<rparr>"

section \<open>Pause, heartbeat and usage\<close>

definition Pause :: "int \<Rightarrow> Process \<Rightarrow> Process" where
  "Pause now p = (if \<not> pr_paused p then p\<lparr>pr_paused := True, pr_pausedAt := Some now\<rparr> else p)"

definition Resume :: "int \<Rightarrow> Process \<Rightarrow> Process" where
  "Resume now p =
     (if pr_paused p then
        let p1 = (case pr_pausedAt p of
                    Some t \<Rightarrow> p\<lparr>pr_pausedTotal := i64 (pr_pausedTotal p + (now - t))\<rparr>
                  | None \<Rightarrow> p)
        in p1\<lparr>pr_paused := False, pr_pausedAt := None\<rparr>
      else p)"

definition IsPaused :: "Process \<Rightarrow> bool" where
  "IsPaused p = pr_paused p"

definition TouchHeartbeat :: "int \<Rightarrow> Process \<Rightarrow> Process" where
  "TouchHeartbeat now p = p\<lparr>pr_LastHeartbeat := Some now\<rparr>"

definition provenanceRank :: "string \<Rightarrow> nat option" where
  "provenanceRank s =
     (if s = ''estimated'' then Some 1
      else if s = ''cli_stream'' then Some 2
      else if s = ''api_response'' then Some 3
      else None)"

definition mergeProvenance :: "string \<Rightarrow> string \<Rightarrow> string" where
  "mergeProvenance cur incoming =
     (if incoming = [] then cur
      else if cur = [] then incoming
      else if cur = incoming then cur
      else case provenanceRank cur of
             None \<Rightarrow> incoming
           | Some cr \<Rightarrow>
               (case provenanceRank incoming of
                  None \<Rightarrow> cur
                | Some ir \<Rightarrow> if ir < cr then incoming else cur))"

definition AddStreamUsage :: "int \<Rightarrow> int \<Rightarrow> string \<Rightarrow> Process \<Rightarrow> Process" where
  "AddStreamUsage tokensDelta inputTokens prov p =
     (let p1 = p\<lparr>pr_StreamTokensUsed := i64 (pr_StreamTokensUsed p + tokensDelta)\<rparr>;
          p2 = (if inputTokens > 0 then p1\<lparr>pr_StreamInputTokens := inputTokens\<rparr> else p1)
      in p2\<lparr>pr_UsageProvenance := mergeProvenance (pr_UsageProvenance p2) prov\<rparr>)"

definition IncToolCallCount :: "Process \<Rightarrow> Process" where
  "IncToolCallCount p = p\<lparr>pr_ToolCallCount := i64 (pr_ToolCallCount p + 1)\<rparr>"

section \<open>Effective settings\<close>

definition DefaultGracePeriod :: int where "DefaultGracePeriod = 10 * 1000000000"
definition DefaultTokenLimit :: int where "DefaultTokenLimit = 200000"
definition DefaultLoopThreshold :: int where "DefaultLoopThreshold = 30"
definition DefaultCoarseLoopThreshold :: int where "DefaultCoarseLoopThreshold = 60"

definition effectiveGracePeriod :: "Process \<Rightarrow> int" where
  "effectiveGracePeriod p = (if pr_GracePeriod p > 0 then pr_GracePeriod p else DefaultGracePeriod)"

definition contextCapacityConfigured :: "Process \<Rightarrow> bool" where
  "contextCapacityConfigured p \<longleftrightarrow> pr_ContextWindow p > 0 \<and> pr_ContextBudget p > 0"

definition effectiveContextTokenLimit :: "Process \<Rightarrow> int" where
  "effectiveContextTokenLimit p =
     (if contextCapacityConfigured p then pr_ContextBudget p else DefaultTokenLimit)"

text \<open>A negative threshold is a request to disable the track and passes through unchanged.\<close>

definition effectiveLoopThreshold :: "Process \<Rightarrow> int" where
  "effectiveLoopThreshold p =
     (if pr_LoopThreshold p \<noteq> 0 then pr_LoopThreshold p else DefaultLoopThreshold)"

definition effectiveCoarseLoopThreshold :: "Process \<Rightarrow> int" where
  "effectiveCoarseLoopThreshold p =
     (if pr_CoarseLoopThreshold p \<noteq> 0 then pr_CoarseLoopThreshold p else DefaultCoarseLoopThreshold)"

section \<open>History rings\<close>

text \<open>
  The rings are allocated at the first append; \<open>make\<close> fills the slots with zero values. Both
  histories are read back in time order.
\<close>

definition tokenHistoryCap :: nat where "tokenHistoryCap = 50"
definition logHistoryCap :: nat where "logHistoryCap = 256"

definition AppendTokenSnapshot :: "int \<Rightarrow> int \<Rightarrow> int \<Rightarrow> Process \<Rightarrow> Process" where
  "AppendTokenSnapshot step tokens deltaMs p =
     (let buf = (if pr_tokenHistory p = [] then replicate tokenHistoryCap (TokenSnapshot 0 0 0)
                 else pr_tokenHistory p)
      in p\<lparr>pr_tokenHistory := buf[pr_tokenHistIdx p := TokenSnapshot step tokens deltaMs],
           pr_tokenHistIdx := (pr_tokenHistIdx p + 1) mod tokenHistoryCap,
           pr_tokenHistLen := (if pr_tokenHistLen p < tokenHistoryCap then pr_tokenHistLen p + 1
                               else pr_tokenHistLen p)\<rparr>)"

definition GetTokenHistory :: "Process \<Rightarrow> TokenSnapshot list" where
  "GetTokenHistory p =
     (if pr_tokenHistLen p = 0 then []
      else if pr_tokenHistLen p < tokenHistoryCap then take (pr_tokenHistLen p) (pr_tokenHistory p)
      else drop (pr_tokenHistIdx p) (pr_tokenHistory p) @ take (pr_tokenHistIdx p) (pr_tokenHistory p))"

definition zeroLogEntry :: LogEntry where
  "zeroLogEntry = LogEntry 0 0 0 [] [] []"

definition AppendLogHistory :: "LogEntry \<Rightarrow> Process \<Rightarrow> Process" where
  "AppendLogHistory entry p =
     (let buf = (if pr_logHistory p = [] then replicate logHistoryCap zeroLogEntry
                 else pr_logHistory p)
      in p\<lparr>pr_logHistory := buf[pr_logHistIdx p := entry],
           pr_logHistIdx := (pr_logHistIdx p + 1) mod logHistoryCap,
           pr_logHistLen := (if pr_logHistLen p < logHistoryCap then pr_logHistLen p + 1
                             else pr_logHistLen p)\<rparr>)"

definition GetLogHistory :: "Process \<Rightarrow> LogEntry list" where
  "GetLogHistory p =
     (if pr_logHistLen p = 0 then []
      else if pr_logHistLen p < logHistoryCap then take (pr_logHistLen p) (pr_logHistory p)
      else drop (pr_logHistIdx p) (pr_logHistory p) @ take (pr_logHistIdx p) (pr_logHistory p))"

text \<open>Both rings are circular buffers that are absent until first used.\<close>

definition lazy_circ_ok :: "nat \<Rightarrow> 'a list \<Rightarrow> nat \<Rightarrow> nat \<Rightarrow> bool" where
  "lazy_circ_ok cap buf pos cnt \<longleftrightarrow>
     (buf = [] \<and> pos = 0 \<and> cnt = 0) \<or> (length buf = cap \<and> circ_ok buf pos cnt)"

definition token_ring_ok :: "Process \<Rightarrow> bool" where
  "token_ring_ok p = lazy_circ_ok tokenHistoryCap (pr_tokenHistory p) (pr_tokenHistIdx p) (pr_tokenHistLen p)"

definition log_ring_ok :: "Process \<Rightarrow> bool" where
  "log_ring_ok p = lazy_circ_ok logHistoryCap (pr_logHistory p) (pr_logHistIdx p) (pr_logHistLen p)"

lemma lazy_circ_push:
  fixes v z :: 'a
  assumes "lazy_circ_ok cap buf pos cnt" and "0 < cap"
  defines "buf' \<equiv> (if buf = [] then replicate cap z else buf)[pos := v]"
    and "cnt' \<equiv> (if cnt < cap then Suc cnt else cnt)"
  shows "lazy_circ_ok cap buf' (Suc pos mod cap) cnt'"
    and "circ_contents buf' (Suc pos mod cap) cnt'
         = last_n cap ((if cnt = 0 then [] else circ_contents buf pos cnt) @ [v])"
proof -
  let ?b = "if buf = [] then replicate cap z else buf"
  have ok: "circ_ok ?b pos cnt" and len: "length ?b = cap"
    using assms(1,2) by (auto simp: lazy_circ_ok_def)
  show "lazy_circ_ok cap buf' (Suc pos mod cap) cnt'"
    using circ_ok_push [OF ok, of v] len by (simp add: buf'_def cnt'_def lazy_circ_ok_def)
  have "circ_contents ?b pos cnt = (if cnt = 0 then [] else circ_contents buf pos cnt)"
    using assms(1,2) by (auto simp: lazy_circ_ok_def circ_contents_def)
  then show "circ_contents buf' (Suc pos mod cap) cnt'
             = last_n cap ((if cnt = 0 then [] else circ_contents buf pos cnt) @ [v])"
    using circ_contents_push [OF ok, of v] len by (simp add: buf'_def cnt'_def)
qed

lemma GetTokenHistory_circ:
  "token_ring_ok p \<Longrightarrow> GetTokenHistory p =
     (if pr_tokenHistLen p = 0 then []
      else circ_contents (pr_tokenHistory p) (pr_tokenHistIdx p) (pr_tokenHistLen p))"
  by (auto simp: token_ring_ok_def lazy_circ_ok_def GetTokenHistory_def circ_contents_def)

lemma GetLogHistory_circ:
  "log_ring_ok p \<Longrightarrow> GetLogHistory p =
     (if pr_logHistLen p = 0 then []
      else circ_contents (pr_logHistory p) (pr_logHistIdx p) (pr_logHistLen p))"
  by (auto simp: log_ring_ok_def lazy_circ_ok_def GetLogHistory_def circ_contents_def)

lemma caps_pos [simp]: "0 < tokenHistoryCap" "0 < logHistoryCap"
  by (simp_all add: tokenHistoryCap_def logHistoryCap_def)

lemma AppendTokenSnapshot_ok:
  "token_ring_ok p \<Longrightarrow> token_ring_ok (AppendTokenSnapshot st tk d p)"
  using lazy_circ_push(1) [where cap = tokenHistoryCap and buf = "pr_tokenHistory p" and pos = "pr_tokenHistIdx p" and cnt = "pr_tokenHistLen p"
      and z = "TokenSnapshot 0 0 0" and v = "TokenSnapshot st tk d"]
  by (simp add: token_ring_ok_def AppendTokenSnapshot_def Let_def split: if_splits)

lemma AppendTokenSnapshot_history:
  assumes "token_ring_ok p"
  shows "GetTokenHistory (AppendTokenSnapshot st tk d p)
         = last_n tokenHistoryCap (GetTokenHistory p @ [TokenSnapshot st tk d])"
proof -
  have "pr_tokenHistLen (AppendTokenSnapshot st tk d p) \<noteq> 0"
    by (auto simp: AppendTokenSnapshot_def Let_def tokenHistoryCap_def)
  then show ?thesis
    using lazy_circ_push(2) [where cap = tokenHistoryCap and buf = "pr_tokenHistory p" and pos = "pr_tokenHistIdx p" and cnt = "pr_tokenHistLen p"
      and z = "TokenSnapshot 0 0 0" and v = "TokenSnapshot st tk d"] assms AppendTokenSnapshot_ok [OF assms]
    by (simp add: GetTokenHistory_circ token_ring_ok_def AppendTokenSnapshot_def Let_def split: if_splits)
qed

lemma AppendLogHistory_ok: "log_ring_ok p \<Longrightarrow> log_ring_ok (AppendLogHistory e p)"
  using lazy_circ_push(1) [where cap = logHistoryCap and buf = "pr_logHistory p" and pos = "pr_logHistIdx p" and cnt = "pr_logHistLen p"
      and z = "zeroLogEntry" and v = "e"]
  by (simp add: log_ring_ok_def AppendLogHistory_def Let_def split: if_splits)

lemma AppendLogHistory_history:
  assumes "log_ring_ok p"
  shows "GetLogHistory (AppendLogHistory e p) = last_n logHistoryCap (GetLogHistory p @ [e])"
proof -
  have "pr_logHistLen (AppendLogHistory e p) \<noteq> 0"
    by (auto simp: AppendLogHistory_def Let_def logHistoryCap_def)
  then show ?thesis
    using lazy_circ_push(2) [where cap = logHistoryCap and buf = "pr_logHistory p" and pos = "pr_logHistIdx p" and cnt = "pr_logHistLen p"
      and z = "zeroLogEntry" and v = "e"] assms AppendLogHistory_ok [OF assms]
    by (simp add: GetLogHistory_circ log_ring_ok_def AppendLogHistory_def Let_def split: if_splits)
qed

lemma history_bound:
  "token_ring_ok p \<Longrightarrow> length (GetTokenHistory p) \<le> tokenHistoryCap"
  "log_ring_ok p \<Longrightarrow> length (GetLogHistory p) \<le> logHistoryCap"
  by (auto simp: GetTokenHistory_def GetLogHistory_def token_ring_ok_def log_ring_ok_def lazy_circ_ok_def)

interpretation tok: bounded_history "\<lambda>(st, tk, d). AppendTokenSnapshot st tk d"
  "\<lambda>p. map (\<lambda>t. (ts_Step t, ts_Tokens t, ts_DeltaMs t)) (GetTokenHistory p)"
  "\<lambda>_. tokenHistoryCap" token_ring_ok
  by unfold_locales
    (auto simp: AppendTokenSnapshot_history AppendTokenSnapshot_ok last_n_def drop_map
      history_bound(1) [unfolded tokenHistoryCap_def] tokenHistoryCap_def)

interpretation log: bounded_history AppendLogHistory GetLogHistory "\<lambda>_. logHistoryCap" log_ring_ok
  by unfold_locales (simp_all add: AppendLogHistory_history AppendLogHistory_ok history_bound)

lemma NewProcess_rings:
  "token_ring_ok (NewProcess pid u pp i sk t)" "log_ring_ok (NewProcess pid u pp i sk t)"
  "GetTokenHistory (NewProcess pid u pp i sk t) = []" "GetLogHistory (NewProcess pid u pp i sk t) = []"
  by (simp_all add: token_ring_ok_def log_ring_ok_def lazy_circ_ok_def NewProcess_def
      GetTokenHistory_def GetLogHistory_def)

text \<open>
  The log a process reports is the newest 256 of the entries appended since it was created, in
  the order they were appended.
\<close>

theorem log_history_newest:
  "GetLogHistory (fold AppendLogHistory es (NewProcess pid u pp i sk t)) = last_n 256 es"
  using log.fold_push_contents [of "NewProcess pid u pp i sk t" es]
  by (simp add: NewProcess_rings logHistoryCap_def)

section \<open>Provenance of the usage counters\<close>

lemma mergeProvenance_rank:
  assumes "provenanceRank a = Some i" and "provenanceRank b = Some j"
  shows "provenanceRank (mergeProvenance a b) = Some (min i j)"
  using assms by (auto simp: mergeProvenance_def provenanceRank_def split: if_splits)

text \<open>
  Merging any sequence of recognised labels into an empty one leaves the label of the lowest
  fidelity among them, whatever the order.
\<close>

theorem mergeProvenance_lowest:
  assumes "ls \<noteq> []" and "\<forall>l \<in> set ls. provenanceRank l \<noteq> None"
  shows "provenanceRank (fold (\<lambda>l c. mergeProvenance c l) ls [])
         = Some (Min (set (map (\<lambda>l. the (provenanceRank l)) ls)))"
  using assms
proof (induction ls rule: rev_induct)
  case Nil
  then show ?case by simp
next
  case (snoc l ls)
  let ?f = "\<lambda>l c. mergeProvenance c l"
  obtain j where j: "provenanceRank l = Some j" using snoc.prems by auto
  show ?case
  proof (cases "ls = []")
    case True
    with j show ?thesis by (auto simp: mergeProvenance_def)
  next
    case False
    with snoc have "provenanceRank (fold ?f ls [])
        = Some (Min (set (map (\<lambda>l. the (provenanceRank l)) ls)))" by simp
    from mergeProvenance_rank [OF this j] False show ?thesis
      by (simp add: j min.commute)
  qed
qed

theorem mergeProvenance_lowest_witness:
  "provenanceRank (fold (\<lambda>l c. mergeProvenance c l) [''api_response'', ''cli_stream''] []) = Some 2"
proof -
  have "\<forall>l \<in> set [''api_response'', ''cli_stream'']. provenanceRank l \<noteq> None"
    by (simp add: provenanceRank_def)
  from mergeProvenance_lowest [OF _ this] show ?thesis
    by (simp add: provenanceRank_def)
qed

section \<open>Signal state: basic facts\<close>

lemma resolve_keeps_state [simp]:
  "pr_State (snd (resolveSignalDisposition sig p)) = pr_State p"
  "pr_blockedSignals (snd (resolveSignalDisposition sig p)) = pr_blockedSignals p"
  "pr_sigHandlers (snd (resolveSignalDisposition sig p)) = pr_sigHandlers p"
  "pr_PID (snd (resolveSignalDisposition sig p)) = pr_PID p"
  by (auto simp: resolveSignalDisposition_def split: option.splits)

lemma resolve_not_blocked:
  "sig \<notin> pr_blockedSignals p \<Longrightarrow> snd (resolveSignalDisposition sig p) = p"
  by (auto simp: resolveSignalDisposition_def split: option.splits)

lemma resolve_SIGKILL:
  "SIGKILL \<notin> pr_blockedSignals p \<Longrightarrow> resolveSignalDisposition SIGKILL p = (dispDefault, p)"
  by (simp add: resolveSignalDisposition_def sig_blockable_def)

section \<open>Lifecycle: basic facts\<close>

lemma transitionLocked_Inr:
  "transitionLocked t p = Inr q \<longleftrightarrow>
     t \<in> set (validTransitions (pr_State p)) \<and> q = p\<lparr>pr_State := t\<rparr>"
  by (auto simp: transitionLocked_def)

lemmas lifecycle_defs = Transition_def Start_def Terminate_def Reap_def Suspend_def Unsuspend_def

lemma transition_from_gone:
  "is_gone s \<Longrightarrow> t \<in> set (validTransitions s) \<Longrightarrow> s = StateZombie \<and> t = StateDead"
  by (cases s) auto

end
