(* ===== verification/History.thy ===== *)
theory History
  imports ProcState "HOL-Library.Multiset" "HOL-Library.Option_ord" "HOL-Library.Product_Lexorder"
    "HOL-Library.List_Lexorder" "HOL-Library.Char_ord"
begin

text \<open>
  Snapshots of processes: the bounded history of reaped ones (\<open>kernel/process_history.go\<close>), the
  matrix of field combinations a snapshot may have (\<open>kernel/invariant.go\<close>), the normalisation of
  stale snapshots at startup (\<open>kernel/history_reconcile.go\<close>) and the merged listing of live and
  historical processes (\<open>kernel/proc_query.go\<close>). Of \<open>vfs.ProcInfo\<close> the record has the fields these
  functions read. Time instants are nanoseconds, \<open>None\<close> is the zero time.
\<close>

record ProcInfo =
  pi_PID :: PID
  pi_UUID :: string
  pi_PPID :: PID
  pi_ParentUUID :: string
  pi_State :: ProcessState
  pi_ExitReason :: string
  pi_ExitCode :: int
  pi_ExitCodeSet :: bool
  pi_SuspendReason :: string
  pi_ResumeAt :: "int option"
  pi_ResumedFromStep :: int
  pi_TokensUsed :: int
  pi_IsPaused :: bool
  pi_PausedAt :: "int option"
  pi_PausedTotal :: int
  pi_CreatedAt :: "int option"
  pi_DeadAt :: "int option"
  pi_Result :: string

section \<open>The snapshot of a process (\<open>GetProcInfo\<close>)\<close>

definition procInfo :: "Process \<Rightarrow> ProcInfo" where
  "procInfo p =
     \<lparr>pi_PID = pr_PID p, pi_UUID = pr_UUID p, pi_PPID = pr_PPID p, pi_ParentUUID = pr_ParentUUID p,
      pi_State = pr_State p,
      pi_ExitReason = (case pr_Exit p of Some e \<Rightarrow> exit_Reason e | None \<Rightarrow> []),
      pi_ExitCode = (case pr_Exit p of Some e \<Rightarrow> exit_Code e | None \<Rightarrow> 0),
      pi_ExitCodeSet = (pr_Exit p \<noteq> None),
      pi_SuspendReason = pr_SuspendReason p, pi_ResumeAt = pr_ResumeAt p,
      pi_ResumedFromStep = pr_ResumedFromStep p,
      pi_TokensUsed = i64 (pr_TokensUsed p + pr_StreamTokensUsed p),
      pi_IsPaused = (pr_paused p \<or> pr_State p = StateSuspended), pi_PausedAt = pr_pausedAt p,
      pi_PausedTotal = pr_pausedTotal p, pi_CreatedAt = Some (pr_CreatedAt p), pi_DeadAt = pr_DeadAt p,
      pi_Result = pr_Result p\<rparr>"

section \<open>The field matrix (\<open>invariant.go\<close>)\<close>

text \<open>\<open>None\<close> is no violation; the error names the state and the field.\<close>

definition str_prefix :: "string \<Rightarrow> string \<Rightarrow> bool" where
  "str_prefix p s = (take (length p) s = p)"

definition ValidateProcInfoInvariant :: "ProcInfo \<Rightarrow> string option" where
  "ValidateProcInfoInvariant i =
     (case pi_State i of
        StateCreated \<Rightarrow>
          if pi_SuspendReason i \<noteq> [] then Some ''Created SuspendReason''
          else if pi_ExitReason i \<noteq> [] then Some ''Created ExitReason''
          else if pi_ResumedFromStep i \<noteq> 0 then Some ''Created ResumedFromStep''
          else None
      | StateRunning \<Rightarrow>
          if pi_SuspendReason i \<noteq> [] then Some ''Running SuspendReason''
          else if pi_ExitReason i \<noteq> [] then Some ''Running ExitReason''
          else None
      | StateSuspended \<Rightarrow>
          if pi_SuspendReason i = [] then Some ''Suspended SuspendReason''
          else if pi_ExitReason i \<noteq> [] \<and> \<not> str_prefix ''suspended'' (pi_ExitReason i) then Some ''Suspended ExitReason''
          else None
      | StateZombie \<Rightarrow>
          if pi_SuspendReason i \<noteq> [] then Some ''Zombie SuspendReason''
          else if pi_ExitReason i = [] then Some ''Zombie ExitReason''
          else None
      | StateDead \<Rightarrow>
          if pi_SuspendReason i \<noteq> [] then Some ''Dead SuspendReason''
          else if pi_ExitReason i = [] then Some ''Dead ExitReason''
          else None)"

section \<open>The history (\<open>process_history.go\<close>)\<close>

record ProcessHistory =
  ph_entries :: "ProcInfo list"
  ph_removedUUIDs :: "string set"
  ph_maxSize :: nat

definition NewProcessHistory :: "nat \<Rightarrow> ProcessHistory" where
  "NewProcessHistory n = \<lparr>ph_entries = [], ph_removedUUIDs = {}, ph_maxSize = n\<rparr>"

definition isTerminalHistoryState :: "ProcessState \<Rightarrow> bool" where
  "isTerminalHistoryState s \<longleftrightarrow> s = StateDead"

definition ph_Add :: "ProcInfo \<Rightarrow> ProcessHistory \<Rightarrow> ProcessHistory" where
  "ph_Add info h =
     (let es = ph_entries h @ [info]
      in h\<lparr>ph_entries := (if length es > ph_maxSize h then drop (length es - ph_maxSize h) es else es)\<rparr>)"

text \<open>The backward search: the index of the most recent entry that satisfies a predicate.\<close>

fun find_back :: "('a \<Rightarrow> bool) \<Rightarrow> 'a list \<Rightarrow> nat option" where
  "find_back P [] = None"
| "find_back P (x # xs) =
     (case find_back P xs of Some i \<Rightarrow> Some (Suc i) | None \<Rightarrow> if P x then Some 0 else None)"

definition ph_Upsert :: "ProcInfo \<Rightarrow> ProcessHistory \<Rightarrow> ProcessHistory" where
  "ph_Upsert info h =
     (if pi_UUID info = [] then h
      else case find_back (\<lambda>e. pi_UUID e = pi_UUID info) (ph_entries h) of
             Some i \<Rightarrow>
               if isTerminalHistoryState (pi_State (ph_entries h ! i)) \<and> \<not> isTerminalHistoryState (pi_State info)
               then h else h\<lparr>ph_entries := (ph_entries h)[i := info]\<rparr>
           | None \<Rightarrow> ph_Add info h)"

definition ph_List :: "ProcessHistory \<Rightarrow> ProcInfo list" where
  "ph_List h = ph_entries h"

definition FindByPID :: "PID \<Rightarrow> ProcessHistory \<Rightarrow> ProcInfo option" where
  "FindByPID pid h = map_option (\<lambda>i. ph_entries h ! i) (find_back (\<lambda>e. pi_PID e = pid) (ph_entries h))"

definition FindByUUID :: "string \<Rightarrow> ProcessHistory \<Rightarrow> ProcInfo option" where
  "FindByUUID uuid h =
     (if uuid = [] then None
      else map_option (\<lambda>i. ph_entries h ! i) (find_back (\<lambda>e. pi_UUID e = uuid) (ph_entries h)))"

definition RemoveByUUID :: "string \<Rightarrow> ProcessHistory \<Rightarrow> bool \<times> ProcessHistory" where
  "RemoveByUUID uuid h =
     (if uuid = [] then (False, h)
      else
        let es = filter (\<lambda>e. pi_UUID e \<noteq> uuid) (ph_entries h);
            removed = (length es \<noteq> length (ph_entries h))
        in (removed,
            if removed then h\<lparr>ph_entries := es, ph_removedUUIDs := insert uuid (ph_removedUUIDs h)\<rparr> else h))"

definition HasEverSeen :: "string \<Rightarrow> ProcessHistory \<Rightarrow> bool" where
  "HasEverSeen uuid h =
     (uuid \<noteq> [] \<and> ((\<exists>e \<in> set (ph_entries h). pi_UUID e = uuid) \<or> uuid \<in> ph_removedUUIDs h))"

definition SeedRemovedUUIDs :: "string set \<Rightarrow> ProcessHistory \<Rightarrow> ProcessHistory" where
  "SeedRemovedUUIDs us h = h\<lparr>ph_removedUUIDs := ph_removedUUIDs h \<union> us\<rparr>"

text \<open>\<open>parseProcessState\<close>: any unknown word is dead.\<close>

definition parseProcessState :: "string \<Rightarrow> ProcessState" where
  "parseProcessState s =
     (if s = ''created'' then StateCreated else if s = ''running'' then StateRunning
      else if s = ''zombie'' then StateZombie else if s = ''dead'' then StateDead
      else if s = ''suspended'' then StateSuspended else StateDead)"

section \<open>Stale snapshots (\<open>history_reconcile.go\<close>)\<close>

definition exitReasonInterrupted :: string where "exitReasonInterrupted = ''interrupted''"

text \<open>
  \<open>live\<close> tells whether the UUID is in the process table, \<open>mtime\<close> what \<open>os.Stat\<close> says of the
  snapshot's file.
\<close>

definition reconcile_DeadAt :: "int option \<Rightarrow> int \<Rightarrow> ProcInfo \<Rightarrow> int option" where
  "reconcile_DeadAt mtime now info =
     (case pi_DeadAt info of
        Some t \<Rightarrow> Some t
      | None \<Rightarrow>
          let d = (case mtime of Some t \<Rightarrow> t | None \<Rightarrow> now)
          in (case pi_CreatedAt info of
                Some c \<Rightarrow> if d < c then Some c else Some d
              | None \<Rightarrow> Some d))"

definition reconcileStaleHistoryEntry :: "bool \<Rightarrow> int option \<Rightarrow> int \<Rightarrow> ProcInfo \<Rightarrow> ProcInfo \<times> bool" where
  "reconcileStaleHistoryEntry live mtime now info =
     (if pi_State info \<notin> {StateCreated, StateRunning, StateZombie} then (info, False)
      else if live then (info, False)
      else (info\<lparr>pi_State := StateDead, pi_DeadAt := reconcile_DeadAt mtime now info,
                  pi_ExitReason := (if pi_ExitReason info = [] then exitReasonInterrupted else pi_ExitReason info),
                  pi_SuspendReason := [], pi_IsPaused := False, pi_PausedAt := None\<rparr>, True))"

section \<open>The merged listing (\<open>proc_query.go\<close>)\<close>

definition shouldReplaceHistoryEntry :: "ProcInfo \<Rightarrow> ProcInfo \<Rightarrow> bool" where
  "shouldReplaceHistoryEntry cur cand =
     (let curTerminal = isTerminalHistoryState (pi_State cur);
          candTerminal = isTerminalHistoryState (pi_State cand)
      in if candTerminal \<noteq> curTerminal then candTerminal else True)"

fun list_active :: "ProcInfo list \<Rightarrow> string set \<Rightarrow> ProcInfo list \<Rightarrow> string set \<times> ProcInfo list" where
  "list_active [] seen res = (seen, res)"
| "list_active (p # ps) seen res =
     (if pi_UUID p \<noteq> [] then
        if pi_UUID p \<in> seen then list_active ps seen res
        else list_active ps (insert (pi_UUID p) seen) (res @ [p])
      else list_active ps seen (res @ [p]))"

fun list_historical ::
  "string set \<Rightarrow> ProcInfo list \<Rightarrow> (string \<Rightarrow> nat option) \<Rightarrow> ProcInfo list \<Rightarrow> ProcInfo list" where
  "list_historical seen [] histIdx res = res"
| "list_historical seen (q # ps) histIdx res =
     (let p = q\<lparr>pi_PID := 0\<rparr>
      in if pi_UUID p = [] then list_historical seen ps histIdx (res @ [p])
         else if pi_UUID p \<in> seen then list_historical seen ps histIdx res
         else case histIdx (pi_UUID p) of
                Some idx \<Rightarrow>
                  if shouldReplaceHistoryEntry (res ! idx) p
                  then list_historical seen ps histIdx (res[idx := p])
                  else list_historical seen ps histIdx res
              | None \<Rightarrow> list_historical seen ps (histIdx(pi_UUID p \<mapsto> length res)) (res @ [p]))"

text \<open>The comparator chain: creation time, UUID, PID; the sort is stable.\<close>

definition list_key :: "ProcInfo \<Rightarrow> int option \<times> string \<times> nat" where
  "list_key p = (pi_CreatedAt p, pi_UUID p, pi_PID p)"

definition ListAllProcs :: "ProcInfo list \<Rightarrow> ProcessHistory \<Rightarrow> ProcInfo list" where
  "ListAllProcs active h =
     (case list_active active {} [] of
        (seen, res) \<Rightarrow> sort_key list_key (list_historical seen (ph_List h) Map.empty res))"

section \<open>One snapshot per UUID\<close>

lemma find_back_Some:
  "find_back P xs = Some i \<Longrightarrow> i < length xs \<and> P (xs ! i) \<and> (\<forall>j. i < j \<longrightarrow> j < length xs \<longrightarrow> \<not> P (xs ! j))"
proof (induction xs arbitrary: i)
  case (Cons x xs)
  show ?case
  proof (cases "find_back P xs")
    case None
    then have "\<forall>j < length xs. \<not> P (xs ! j)"
    proof (induction xs)
      case (Cons y ys)
      then show ?case by (auto simp: less_Suc_eq_0_disj split: option.splits if_splits)
    qed simp
    with None Cons.prems show ?thesis by (auto simp: less_Suc_eq_0_disj nth_Cons' split: if_splits)
  next
    case (Some j)
    with Cons show ?thesis by (auto simp: nth_Cons')
  qed
qed simp

lemma find_back_None: "find_back P xs = None \<longleftrightarrow> (\<forall>x \<in> set xs. \<not> P x)"
  by (induction xs) (auto split: option.splits)

definition history_ok :: "ProcessHistory \<Rightarrow> bool" where
  "history_ok h \<longleftrightarrow> length (ph_entries h) \<le> ph_maxSize h \<and> distinct (map pi_UUID (ph_entries h)) \<and>
     [] \<notin> set (map pi_UUID (ph_entries h))"

lemma ph_Upsert_ok: "history_ok h \<Longrightarrow> history_ok (ph_Upsert info h) \<and> ph_maxSize (ph_Upsert info h) = ph_maxSize h"
proof (cases "find_back (\<lambda>e. pi_UUID e = pi_UUID info) (ph_entries h)")
  case None
  assume ok: "history_ok h"
  from None have "pi_UUID info \<notin> set (map pi_UUID (ph_entries h))" by (auto simp: find_back_None)
  with None ok show ?thesis
    by (auto simp: ph_Upsert_def ph_Add_def history_ok_def Let_def drop_map [symmetric] distinct_drop
        dest!: in_set_dropD)
next
  case (Some i)
  assume ok: "history_ok h"
  from find_back_Some [OF Some] have i: "i < length (ph_entries h)" "pi_UUID (ph_entries h ! i) = pi_UUID info" by auto
  have "map pi_UUID ((ph_entries h)[i := info]) = map pi_UUID (ph_entries h)"
    using i by (metis list_update_id map_update nth_map)
  then have "distinct (map pi_UUID ((ph_entries h)[i := info])) = distinct (map pi_UUID (ph_entries h))"
    and "set (map pi_UUID ((ph_entries h)[i := info])) = set (map pi_UUID (ph_entries h))" by simp_all
  with Some ok show ?thesis by (simp add: ph_Upsert_def history_ok_def del: set_map)
qed

lemma ph_Upsert_entries:
  "e \<in> set (ph_entries (ph_Upsert info h)) \<Longrightarrow> e \<in> set (ph_entries h) \<or> e = info"
  by (auto simp: ph_Upsert_def ph_Add_def Let_def split: if_splits option.splits
      dest!: in_set_dropD set_update_subset_insert [THEN subsetD])

lemma distinct_lookup:
  "distinct (map f xs) \<Longrightarrow> i < length xs \<Longrightarrow> find_back (\<lambda>e. f e = f (xs ! i)) xs = Some i"
  by (cases "find_back (\<lambda>e. f e = f (xs ! i)) xs")
    (auto simp: find_back_None distinct_conv_nth dest: find_back_Some)


definition demo_info :: "string \<Rightarrow> ProcessState \<Rightarrow> ProcInfo" where
  "demo_info u st = \<lparr>pi_PID = 1, pi_UUID = u, pi_PPID = 0, pi_ParentUUID = [], pi_State = st, pi_ExitReason = ''done'',
     pi_ExitCode = 0, pi_ExitCodeSet = True, pi_SuspendReason = [], pi_ResumeAt = None, pi_ResumedFromStep = 0,
     pi_TokensUsed = 0, pi_IsPaused = False, pi_PausedAt = None, pi_PausedTotal = 0, pi_CreatedAt = Some 5,
     pi_DeadAt = None, pi_Result = []\<rparr>"


section \<open>Normalisation\<close>

text \<open>
  A stale snapshot (created, running or zombie, its process not live) is rewritten into one that
  satisfies the field matrix, keeps a recorded exit reason, is dead no earlier than it was created
  unless the disk said so, and is left alone by the next normalisation.
\<close>

lemma reconcile_restores_invariant:
  assumes "pi_State info \<in> {StateCreated, StateRunning, StateZombie}"
  shows "case reconcileStaleHistoryEntry False mtime now info of (info', changed) \<Rightarrow>
    changed \<and> ValidateProcInfoInvariant info' = None \<and> pi_UUID info' = pi_UUID info \<and>
    pi_ExitReason info' = (if pi_ExitReason info = [] then ''interrupted'' else pi_ExitReason info) \<and>
    (case (pi_DeadAt info, pi_CreatedAt info, pi_DeadAt info') of
       (None, Some c, d) \<Rightarrow> (\<exists>t. d = Some t \<and> c \<le> t)
     | (None, None, d) \<Rightarrow> d \<noteq> None
     | (Some t, _, d) \<Rightarrow> d = Some t) \<and>
    reconcileStaleHistoryEntry live mtime' now' info' = (info', False)"
  using assms
  by (auto simp: reconcileStaleHistoryEntry_def ValidateProcInfoInvariant_def exitReasonInterrupted_def
      reconcile_DeadAt_def Let_def split: option.splits)

section \<open>The listing does not depend on the iteration order\<close>

abbreviation uuids :: "ProcInfo list \<Rightarrow> string list" where
  "uuids ps \<equiv> filter (\<lambda>u. u \<noteq> []) (map pi_UUID ps)"

lemma list_active_distinct:
  "distinct (uuids ps) \<Longrightarrow> set (uuids ps) \<inter> seen = {} \<Longrightarrow>
   list_active ps seen res = (seen \<union> set (uuids ps), res @ ps)"
  by (induction ps arbitrary: seen res) auto

text \<open>The historical part, appended to the active one, is the same for any active part of that length.\<close>

definition hist_idx_ok :: "nat \<Rightarrow> string set \<Rightarrow> (string \<Rightarrow> nat option) \<Rightarrow> ProcInfo list \<Rightarrow> bool" where
  "hist_idx_ok n seen m R \<longleftrightarrow>
     (\<forall>u i. m u = Some i \<longrightarrow> n \<le> i \<and> i < n + length R \<and> pi_UUID (R ! (i - n)) = u) \<and>
     (\<forall>j < length R. pi_PID (R ! j) = 0 \<and>
        (pi_UUID (R ! j) \<noteq> [] \<longrightarrow> m (pi_UUID (R ! j)) = Some (n + j) \<and> pi_UUID (R ! j) \<notin> seen))"

lemma hist_idx_ok_snoc:
  assumes "hist_idx_ok n seen m R" and "pi_PID p = 0"
  shows "pi_UUID p = [] \<Longrightarrow> hist_idx_ok n seen m (R @ [p])"
    and "pi_UUID p \<noteq> [] \<Longrightarrow> pi_UUID p \<notin> seen \<Longrightarrow> m (pi_UUID p) = None \<Longrightarrow>
         hist_idx_ok n seen (m(pi_UUID p \<mapsto> n + length R)) (R @ [p])"
  using assms by (fastforce simp: hist_idx_ok_def nth_append less_Suc_eq)+

lemma hist_idx_ok_update:
  assumes ok: "hist_idx_ok n seen m R" and m: "m (pi_UUID p) = Some i" and pid: "pi_PID p = 0"
  shows "hist_idx_ok n seen m (R[i - n := p])"
proof -
  from ok m have i: "n \<le> i" "i - n < length R" "pi_UUID (R ! (i - n)) = pi_UUID p"
    by (auto simp: hist_idx_ok_def less_diff_conv2 add.commute)
  have same: "pi_UUID (R[i - n := p] ! j) = pi_UUID (R ! j)" if "j < length R" for j
    using that i by (cases "j = i - n") auto
  have "pi_PID (R[i - n := p] ! j) = 0" if "j < length R" for j
    using that ok pid by (cases "j = i - n") (auto simp: hist_idx_ok_def)
  with ok same show ?thesis unfolding hist_idx_ok_def by (simp add: nat_diff_split) (metis add_diff_inverse_nat nat_add_left_cancel_less not_le)
qed

lemma hist_idx_okD:
  "hist_idx_ok n seen m R \<Longrightarrow> j < length R \<Longrightarrow> pi_UUID (R ! j) \<noteq> [] \<Longrightarrow>
   m (pi_UUID (R ! j)) = Some (n + j) \<and> pi_UUID (R ! j) \<notin> seen"
  by (simp add: hist_idx_ok_def)

lemma distinct_filter_nth:
  assumes "\<And>i j. i < j \<Longrightarrow> j < length xs \<Longrightarrow> Q (xs ! i) \<Longrightarrow> xs ! i \<noteq> xs ! j"
  shows "distinct (filter Q xs)"
  using assms
proof (induction xs)
  case (Cons x xs)
  have "Q x \<Longrightarrow> x \<notin> set xs"
    using Cons.prems [of 0 "Suc _"] by (auto simp: in_set_conv_nth)
  moreover have "distinct (filter Q xs)"
    by (rule Cons.IH) (use Cons.prems [of "Suc _" "Suc _"] in auto)
  ultimately show ?case by auto
qed simp

lemma hist_idx_ok_distinct:
  assumes "hist_idx_ok n seen m R"
  shows "distinct (uuids R)" and "set (uuids R) \<inter> seen = {}"
proof -
  have "map pi_UUID R ! i \<noteq> map pi_UUID R ! j" if "i < j" "j < length (map pi_UUID R)" "map pi_UUID R ! i \<noteq> []" for i j
  proof
    assume eq: "map pi_UUID R ! i = map pi_UUID R ! j"
    have ij: "i < length R" "j < length R" using that by auto
    have e: "pi_UUID (R ! i) = pi_UUID (R ! j)" using eq ij by simp
    have ne: "pi_UUID (R ! i) \<noteq> []" using that(3) ij(1) by simp
    have "Some (n + i) = Some (n + j)"
      using conjunct1 [OF hist_idx_okD [OF assms ij(1) ne]] conjunct1 [OF hist_idx_okD [OF assms ij(2) ne [unfolded e]]]
      unfolding e by (rule trans [OF sym])
    with that show False by simp
  qed
  then show "distinct (uuids R)" by (rule distinct_filter_nth)
  show "set (uuids R) \<inter> seen = {}" using assms by (auto simp: hist_idx_ok_def in_set_conv_nth)
qed

lemma list_historical_split:
  assumes "length A = length A'" and "hist_idx_ok (length A) seen m R"
  shows "\<exists>X. list_historical seen hs m (A @ R) = A @ X \<and> list_historical seen hs m (A' @ R) = A' @ X \<and>
             (\<forall>x \<in> set X. pi_PID x = 0) \<and> distinct (uuids X) \<and> set (uuids X) \<inter> seen = {}"
  using assms(2)
proof (induction hs arbitrary: m R)
  case Nil
  then show ?case using hist_idx_ok_distinct [OF Nil] by (auto simp: hist_idx_ok_def in_set_conv_nth)
next
  case (Cons q hs)
  let ?p = "q\<lparr>pi_PID := 0\<rparr>"
  have pid: "pi_PID ?p = 0" by simp
  consider (empty) "pi_UUID q = []" | (act) "pi_UUID q \<noteq> []" "pi_UUID q \<in> seen"
    | (fresh) "pi_UUID q \<noteq> []" "pi_UUID q \<notin> seen" "m (pi_UUID q) = None"
    | (again) i where "pi_UUID q \<noteq> []" "pi_UUID q \<notin> seen" "m (pi_UUID q) = Some i" by blast
  then show ?case
  proof cases
    case empty
    from Cons.IH [OF hist_idx_ok_snoc(1) [OF Cons.prems pid]] empty show ?thesis by simp
  next
    case act
    from Cons.IH [OF Cons.prems] act show ?thesis by simp
  next
    case fresh
    have "hist_idx_ok (length A) seen (m(pi_UUID q \<mapsto> length A + length R)) (R @ [?p])"
      using hist_idx_ok_snoc(2) [OF Cons.prems pid] fresh by simp
    from Cons.IH [OF this] fresh assms(1) show ?thesis by (simp add: Let_def del: fun_upd_apply)
  next
    case again
    from again(3) Cons.prems have i: "length A \<le> i" "i < length A + length R" by (auto simp: hist_idx_ok_def)
    have "hist_idx_ok (length A) seen m (R[i - length A := ?p])"
      by (rule hist_idx_ok_update [OF Cons.prems]) (simp_all add: again)
    note IH = Cons.IH [OF this] Cons.IH [OF Cons.prems]
    have step: "list_historical seen (q # hs) m (B @ R) =
        (if shouldReplaceHistoryEntry (R ! (i - length A)) ?p
         then list_historical seen hs m (B @ R[i - length A := ?p]) else list_historical seen hs m (B @ R))"
      if "length B = length A" for B
      using again i that by (simp add: Let_def nth_append list_update_append)
    show ?thesis
      unfolding step [OF refl] step [OF assms(1) [symmetric]] using IH by (simp split: if_splits)
  qed
qed

lemma short_filters_eq:
  assumes "mset xs = mset ys" and "length (filter Q xs) \<le> 1"
  shows "filter Q xs = filter Q ys"
proof -
  have m: "mset (filter Q ys) = mset (filter Q xs)" using assms(1) by simp
  have "filter Q xs = [] \<or> (\<exists>a. filter Q xs = [a])"
    using assms(2) by (cases "filter Q xs") auto
  then show ?thesis
  proof (elim disjE exE)
    assume "filter Q xs = []"
    with m show ?thesis by (metis mset_zero_iff)
  next
    fix a assume "filter Q xs = [a]"
    with m show ?thesis by (metis mset_single_iff mset_single_iff_right mset.simps add_mset_eq_singleton_iff)
  qed
qed

lemma sort_key_cong_filters:
  assumes "\<And>k. filter (\<lambda>x. f x = k) xs = filter (\<lambda>x. f x = k) ys"
  shows "sort_key f xs = sort_key f ys"
proof (rule properties_for_sort_key)
  show "mset (sort_key f ys) = mset xs"
  proof (rule multiset_eqI)
    fix a
    have "count (mset zs) a = count (mset (filter (\<lambda>x. f x = f a) zs)) a" for zs by simp
    with assms [of "f a"] show "count (mset (sort_key f ys)) a = count (mset xs) a"
      by (metis mset_sort)
  qed
  show "filter (\<lambda>x. f k = f x) (sort_key f ys) = filter (\<lambda>x. f k = f x) xs" for k
    using sort_key_stable [of f "f k" ys] assms [of "f k"] by (simp add: eq_commute [of "f k"])
qed simp

text \<open>
  The listing of all processes is the same whatever order the process table is visited in (as
  long as live PIDs are distinct and not 0, and live UUIDs distinct); it is sorted by creation time,
  UUID and PID, has at most one entry per UUID, and a live process wins over its history.
\<close>

lemma list_all_procs_deterministic:
  assumes "mset active' = mset active" and "distinct (map pi_PID active)" and "0 \<notin> set (map pi_PID active)"
    and "distinct (uuids active)"
  shows "ListAllProcs active' h = ListAllProcs active h \<and> sorted (map list_key (ListAllProcs active h)) \<and>
    distinct (uuids (ListAllProcs active h)) \<and> set active \<subseteq> set (ListAllProcs active h)"
proof -
  have len: "length active = length active'" using assms(1) by (metis size_mset)
  have um: "mset (uuids active') = mset (uuids active)" using assms(1) by simp
  then have us: "set (uuids active') = set (uuids active)" and ud: "distinct (uuids active')"
    using assms(4) by (metis set_mset_mset, metis mset_eq_imp_distinct_iff)
  let ?seen = "set (uuids active)"
  have "hist_idx_ok (length active) ?seen Map.empty []" by (simp add: hist_idx_ok_def)
  from list_historical_split [OF len this, of "ph_List h"] obtain X where
    X: "list_historical ?seen (ph_List h) Map.empty active = active @ X"
       "list_historical ?seen (ph_List h) Map.empty active' = active' @ X"
    and pid: "\<forall>x \<in> set X. pi_PID x = 0" and dX: "distinct (uuids X)" "set (uuids X) \<inter> ?seen = {}" by auto
  have L: "ListAllProcs active h = sort_key list_key (active @ X)"
    using X(1) list_active_distinct [OF assms(4), of "{}" "[]"] by (simp add: ListAllProcs_def)
  have L': "ListAllProcs active' h = sort_key list_key (active' @ X)"
    using X(2) list_active_distinct [OF ud, of "{}" "[]"] us by (simp add: ListAllProcs_def)
  have "filter (\<lambda>x. list_key x = k) active = filter (\<lambda>x. list_key x = k) active'" for k
  proof (rule short_filters_eq [OF assms(1) [symmetric]])
    have "distinct (map pi_PID (filter (\<lambda>x. list_key x = k) active))" using assms(2) by (simp add: distinct_map_filter)
    moreover have "set (map pi_PID (filter (\<lambda>x. list_key x = k) active)) \<subseteq> {snd (snd k)}"
      by (auto simp: list_key_def)
    ultimately show "length (filter (\<lambda>x. list_key x = k) active) \<le> 1"
      by (metis card_mono card.empty card_insert_if distinct_card empty_iff finite.intros length_map One_nat_def)
  qed
  then have "ListAllProcs active' h = ListAllProcs active h"
    unfolding L L' by (intro sort_key_cong_filters) simp
  moreover have "distinct (uuids (ListAllProcs active h))"
  proof -
    have "mset (uuids (ListAllProcs active h)) = mset (uuids active @ uuids X)" by (simp add: L)
    moreover have "distinct (uuids active @ uuids X)" using assms(4) dX by (auto simp: Int_commute)
    ultimately show ?thesis by (metis mset_eq_imp_distinct_iff)
  qed
  ultimately show ?thesis by (simp add: L)
qed

end
