(* ===== verification/MsgQueue.thy ===== *)
theory MsgQueue
  imports XSync
begin

text \<open>
  The per-process message queue (\<open>kernel/ipc.go\<close>, \<open>MessageQueue\<close>). A call of the code is several
  critical sections with a select between them, so beside the sequential operations the theory
  has the interleaving of any number of senders, receivers and closers as a transition system:
  each action is one critical section, one non-blocking signal or one select. \<open>notify\<close> is a channel
  of capacity one, so it is a flag.
\<close>

record Message =
  m_FromPID :: PID
  m_ToPID :: PID
  m_Seq :: MsgSeq
  m_Data :: string
  m_CreatedAt :: int
  m_TraceID :: string
  m_SpanID :: string

text \<open>The persistence file is the list of records appended to it.\<close>

record MessageQueue =
  q_messages :: "Message list"
  q_notify :: bool
  q_closed :: bool
  q_persistFile :: "Message list option"

definition newMessageQueue :: MessageQueue where
  "newMessageQueue = \<lparr>q_messages = [], q_notify = False, q_closed = False, q_persistFile = None\<rparr>"

section \<open>Critical sections\<close>

text \<open>\<open>enqueue\<close> under the lock; \<open>wr\<close> tells whether the best-effort write of the record succeeds.\<close>

definition enqueue_locked :: "bool \<Rightarrow> Message \<Rightarrow> MessageQueue \<Rightarrow> go_error + MessageQueue" where
  "enqueue_locked wr msg q =
     (if q_closed q then Inl (PlainError ''message queue closed'')
      else
        let q1 = q\<lparr>q_messages := q_messages q @ [msg]\<rparr>
        in Inr (case q_persistFile q1 of
                  None \<Rightarrow> q1
                | Some recs \<Rightarrow> if wr then q1\<lparr>q_persistFile := Some (recs @ [msg])\<rparr> else q1))"

text \<open>The non-blocking send on \<open>notify\<close>.\<close>

definition q_signal :: "MessageQueue \<Rightarrow> MessageQueue" where
  "q_signal q = q\<lparr>q_notify := True\<rparr>"

definition enqueue :: "bool \<Rightarrow> Message \<Rightarrow> MessageQueue \<Rightarrow> go_error + MessageQueue" where
  "enqueue wr msg q =
     (case enqueue_locked wr msg q of Inl e \<Rightarrow> Inl e | Inr q' \<Rightarrow> Inr (q_signal q'))"

datatype deq_outcome = DqClosed | DqMsg Message MessageQueue | DqEmpty

definition dequeue_check :: "MessageQueue \<Rightarrow> deq_outcome" where
  "dequeue_check q =
     (if q_closed q then DqClosed
      else case q_messages q of
             msg # rest \<Rightarrow> DqMsg msg (q\<lparr>q_messages := rest\<rparr>)
           | [] \<Rightarrow> DqEmpty)"

definition close_locked :: "MessageQueue \<Rightarrow> MessageQueue" where
  "close_locked q = q\<lparr>q_closed := True, q_persistFile := None\<rparr>"

definition q_close :: "MessageQueue \<Rightarrow> MessageQueue" where
  "q_close q = q_signal (close_locked q)"

text \<open>
  \<open>dequeue\<close> with nobody else running: \<open>None\<close> is a call that blocks. When both the context and
  the token are ready the select may take either, which \<open>prefer_ctx\<close> decides.
\<close>

function dequeue ::
  "bool \<Rightarrow> bool \<Rightarrow> MessageQueue \<Rightarrow> (go_error + Message) option \<times> MessageQueue" where
  "dequeue cancelled prefer_ctx q =
     (case dequeue_check q of
        DqClosed \<Rightarrow> (Some (Inl (PlainError ''message queue closed'')), q)
      | DqMsg msg q' \<Rightarrow> (Some (Inr msg), q')
      | DqEmpty \<Rightarrow>
          if cancelled \<and> (prefer_ctx \<or> \<not> q_notify q)
          then (Some (Inl (PlainError ''context canceled'')), q)
          else if q_notify q then dequeue cancelled prefer_ctx (q\<lparr>q_notify := False\<rparr>)
          else (None, q))"
  by pat_completeness auto

termination
  by (relation "measure (\<lambda>(_, _, q). if q_notify q then 1 else 0)") auto

declare dequeue.simps [simp del]

lemma dequeue_outcomes:
  "q_closed q \<Longrightarrow> dequeue c p q = (Some (Inl (PlainError ''message queue closed'')), q)"
  "\<not> q_closed q \<Longrightarrow> q_messages q = m # ms \<Longrightarrow> dequeue c p q = (Some (Inr m), q\<lparr>q_messages := ms\<rparr>)"
  by (simp_all add: dequeue.simps dequeue_check_def)

lemma dequeue_empty:
  assumes "\<not> q_closed q" and "q_messages q = []"
  shows "fst (dequeue c p q) = (if c then Some (Inl (PlainError ''context canceled'')) else None)"
proof -
  have "fst (dequeue c p (q\<lparr>q_notify := False\<rparr>))
        = (if c then Some (Inl (PlainError ''context canceled'')) else None)"
    using assms by (simp add: dequeue.simps dequeue_check_def)
  with assms show ?thesis
    by (cases c; cases p) (simp_all add: dequeue.simps [of _ _ q] dequeue_check_def)
qed

section \<open>Interleavings\<close>

datatype rpc = RIdle | RAtCheck | RWaiting | RGot Message | RClosed | RCancelled

text \<open>
  \<open>ms_pend\<close> counts the calls between their unlock and their signal; \<open>ms_sent\<close> and \<open>ms_got\<close> record
  what was accepted and what was handed out, in order.
\<close>

record mq_sys =
  ms_q :: MessageQueue
  ms_pend :: nat
  ms_pc :: "TID \<Rightarrow> rpc"
  ms_sent :: "Message list"
  ms_got :: "Message list"

definition mq_init :: mq_sys where
  "mq_init = \<lparr>ms_q = newMessageQueue, ms_pend = 0, ms_pc = (\<lambda>_. RIdle), ms_sent = [], ms_got = []\<rparr>"

datatype mq_action =
    MSend bool Message | MSignal | MClose
  | MCall TID | MCheck TID | MWake TID | MCancel TID

fun mq_act :: "mq_action \<Rightarrow> mq_sys \<Rightarrow> mq_sys option" where
  "mq_act (MSend wr m) s =
     (case enqueue_locked wr m (ms_q s) of
        Inl _ \<Rightarrow> Some s
      | Inr q \<Rightarrow> Some (s\<lparr>ms_q := q, ms_pend := ms_pend s + 1, ms_sent := ms_sent s @ [m]\<rparr>))"
| "mq_act MSignal s =
     (if ms_pend s = 0 then None else Some (s\<lparr>ms_q := q_signal (ms_q s), ms_pend := ms_pend s - 1\<rparr>))"
| "mq_act MClose s = Some (s\<lparr>ms_q := close_locked (ms_q s), ms_pend := ms_pend s + 1\<rparr>)"
| "mq_act (MCall r) s =
     (if ms_pc s r = RAtCheck \<or> ms_pc s r = RWaiting then None
      else Some (s\<lparr>ms_pc := (ms_pc s)(r := RAtCheck)\<rparr>))"
| "mq_act (MCheck r) s =
     (if ms_pc s r \<noteq> RAtCheck then None
      else case dequeue_check (ms_q s) of
             DqClosed \<Rightarrow> Some (s\<lparr>ms_pc := (ms_pc s)(r := RClosed)\<rparr>)
           | DqMsg m q \<Rightarrow> Some (s\<lparr>ms_q := q, ms_pc := (ms_pc s)(r := RGot m), ms_got := ms_got s @ [m]\<rparr>)
           | DqEmpty \<Rightarrow> Some (s\<lparr>ms_pc := (ms_pc s)(r := RWaiting)\<rparr>))"
| "mq_act (MWake r) s =
     (if ms_pc s r = RWaiting \<and> q_notify (ms_q s)
      then Some (s\<lparr>ms_q := (ms_q s)\<lparr>q_notify := False\<rparr>, ms_pc := (ms_pc s)(r := RAtCheck)\<rparr>)
      else None)"
| "mq_act (MCancel r) s =
     (if ms_pc s r = RWaiting then Some (s\<lparr>ms_pc := (ms_pc s)(r := RCancelled)\<rparr>) else None)"

fun receiver_of :: "mq_action \<Rightarrow> TID option" where
  "receiver_of (MCall r) = Some r"
| "receiver_of (MCheck r) = Some r"
| "receiver_of (MWake r) = Some r"
| "receiver_of (MCancel r) = Some r"
| "receiver_of (MSend wr m) = None"
| "receiver_of MSignal = None"
| "receiver_of MClose = None"

fun mq_run :: "mq_action list \<Rightarrow> mq_sys \<Rightarrow> mq_sys option" where
  "mq_run [] s = Some s"
| "mq_run (a # as) s = (case mq_act a s of None \<Rightarrow> None | Some s' \<Rightarrow> mq_run as s')"

text \<open>What the queue goes through when only the threads in \<open>R\<close> receive from it.\<close>

inductive mq_reach :: "TID set \<Rightarrow> mq_sys \<Rightarrow> bool" for R where
  start: "mq_reach R mq_init"
| act: "mq_reach R s \<Longrightarrow> mq_act a s = Some s' \<Longrightarrow> set_option (receiver_of a) \<subseteq> R \<Longrightarrow> mq_reach R s'"

lemma mq_run_reach:
  "mq_reach R s \<Longrightarrow> mq_run as s = Some s' \<Longrightarrow> \<forall>a \<in> set as. set_option (receiver_of a) \<subseteq> R \<Longrightarrow> mq_reach R s'"
  by (induction as arbitrary: s) (auto split: option.splits intro: mq_reach.act)

lemma enqueue_locked_Inr:
  "enqueue_locked wr m q = Inr q' \<Longrightarrow>
   \<not> q_closed q \<and> q_messages q' = q_messages q @ [m] \<and> q_notify q' = q_notify q \<and> q_closed q' = q_closed q"
  by (auto simp: enqueue_locked_def Let_def split: if_splits option.splits)

lemma dequeue_check_simps:
  "dequeue_check q = DqClosed \<longleftrightarrow> q_closed q"
  "dequeue_check q = DqEmpty \<longleftrightarrow> \<not> q_closed q \<and> q_messages q = []"
  "dequeue_check q = DqMsg m q' \<longleftrightarrow>
     \<not> q_closed q \<and> (\<exists>ms. q_messages q = m # ms \<and> q' = q\<lparr>q_messages := ms\<rparr>)"
  by (auto simp: dequeue_check_def split: list.splits)

text \<open>
  C4: whatever the interleaving, and however many threads send and receive, the messages handed
  out followed by those still queued are the messages accepted, in their order: none is lost,
  duplicated or overtaken.
\<close>

theorem mq_fifo:
  assumes "mq_reach R s"
  shows "ms_sent s = ms_got s @ q_messages (ms_q s)"
  using assms
proof induction
  case start
  then show ?case by (simp add: mq_init_def newMessageQueue_def)
next
  case (act s a s')
  then show ?case
    by (cases a)
      (auto simp: q_signal_def close_locked_def dequeue_check_simps dest!: enqueue_locked_Inr
        split: sum.splits if_splits deq_outcome.splits)
qed

definition demo_msg :: "MsgSeq \<Rightarrow> Message" where
  "demo_msg n = \<lparr>m_FromPID = 1, m_ToPID = 2, m_Seq = n, m_Data = ''x'', m_CreatedAt = 0,
     m_TraceID = [], m_SpanID = []\<rparr>"

lemmas mq_exec = mq_init_def newMessageQueue_def enqueue_locked_def dequeue_check_def q_signal_def
  close_locked_def

theorem mq_fifo_witness:
  "\<exists>s. mq_run [MSend True (demo_msg 1), MSignal, MSend True (demo_msg 2), MCall 0, MCheck 0] mq_init = Some s \<and>
       ms_sent s = ms_got s @ q_messages (ms_q s) \<and> ms_got s = [demo_msg 1] \<and> q_messages (ms_q s) = [demo_msg 2]"
proof -
  obtain s where run: "mq_run [MSend True (demo_msg 1), MSignal, MSend True (demo_msg 2), MCall 0, MCheck 0]
      mq_init = Some s" and s: "ms_got s = [demo_msg 1]" "q_messages (ms_q s) = [demo_msg 2]"
    by (simp add: mq_exec)
  from mq_run_reach [OF mq_reach.start run, of "{0}"] have "mq_reach {0} s" by auto
  from mq_fifo [OF this] run s show ?thesis by blast
qed

section \<open>Wake-ups\<close>

text \<open>
  With one receiver, a waiting receiver with something to see always has a token, or a call that is
  about to put one.
\<close>

lemma mq_single_token:
  assumes "mq_reach {r} s"
  shows "ms_pc s r = RWaiting \<longrightarrow> q_messages (ms_q s) \<noteq> [] \<or> q_closed (ms_q s)
         \<longrightarrow> q_notify (ms_q s) \<or> 0 < ms_pend s"
  using assms
proof induction
  case start
  then show ?case by (simp add: mq_init_def)
next
  case (act s a s')
  then show ?case
    by (cases a)
      (auto simp: q_signal_def close_locked_def dequeue_check_simps dest!: enqueue_locked_Inr
        split: sum.splits if_splits deq_outcome.splits)
qed

text \<open>
  With one receiver no wake-up is lost: whenever it waits while a message is queued or the
  queue is closed, the pending signal, its own wake-up and its own check are enough for its call
  to return, with the oldest message or the closed error.
\<close>

lemma mq_single_receiver_progress:
  assumes "mq_reach {r} s" and "ms_pc s r = RWaiting" and "q_messages (ms_q s) \<noteq> [] \<or> q_closed (ms_q s)"
  shows "\<exists>acts s'. set acts \<subseteq> {MSignal, MWake r, MCheck r} \<and> mq_run acts s = Some s' \<and>
           ms_pc s' r = (if q_closed (ms_q s) then RClosed else RGot (hd (q_messages (ms_q s))))"
proof -
  have fin: "\<exists>s'. mq_run [MWake r, MCheck r] t = Some s' \<and>
          ms_pc s' r = (if q_closed (ms_q t) then RClosed else RGot (hd (q_messages (ms_q t))))"
    if "ms_pc t r = RWaiting" "q_notify (ms_q t)" "q_messages (ms_q t) \<noteq> [] \<or> q_closed (ms_q t)" for t
    using that by (auto simp: dequeue_check_def split: list.splits)
  show ?thesis
  proof (cases "q_notify (ms_q s)")
    case True
    from fin [OF assms(2) this assms(3)] show ?thesis
      by (metis empty_subsetI insert_subset insertI1 insertI2 list.set)
  next
    case False
    let ?t = "s\<lparr>ms_q := q_signal (ms_q s), ms_pend := ms_pend s - 1\<rparr>"
    from False mq_single_token [OF assms(1)] assms(2,3) have sig: "mq_act MSignal s = Some ?t" by auto
    have "ms_pc ?t r = RWaiting" "q_notify (ms_q ?t)" "q_messages (ms_q ?t) \<noteq> [] \<or> q_closed (ms_q ?t)"
      using assms(2,3) by (simp_all add: q_signal_def)
    from fin [OF this] obtain s' where "mq_run [MWake r, MCheck r] ?t = Some s'"
      "ms_pc s' r = (if q_closed (ms_q s) then RClosed else RGot (hd (q_messages (ms_q s))))"
      by (auto simp: q_signal_def)
    with sig have "mq_run [MSignal, MWake r, MCheck r] s = Some s'" by simp
    moreover have "set [MSignal, MWake r, MCheck r] \<subseteq> {MSignal, MWake r, MCheck r}" by simp
    ultimately show ?thesis
      using \<open>ms_pc s' r = _\<close> by blast
  qed
qed

text \<open>
  With two threads receiving on one queue, \<open>close\<close> wakes only one: the other can be left
  waiting on a closed queue with no token and no signal to come, and from there nothing but the
  cancellation of its own context or another \<open>close\<close> changes that.
\<close>

lemma mq_close_strands_second_receiver:
  "\<exists>s. mq_reach {0, 1} s \<and> q_closed (ms_q s) \<and> ms_pc s 1 = RWaiting \<and> \<not> q_notify (ms_q s) \<and> ms_pend s = 0 \<and>
     (\<forall>acts s'. MCancel 1 \<notin> set acts \<longrightarrow> MClose \<notin> set acts \<longrightarrow> mq_run acts s = Some s' \<longrightarrow> ms_pc s' 1 = RWaiting)"
proof -
  let ?acts = "[MCall 0, MCheck 0, MCall 1, MCheck 1, MClose, MSignal, MWake 0, MCheck 0]"
  obtain s where run: "mq_run ?acts mq_init = Some s"
    and s: "q_closed (ms_q s)" "ms_pc s 1 = RWaiting" "\<not> q_notify (ms_q s)" "ms_pend s = 0"
    by (simp add: mq_exec)
  have "ms_pc s' 1 = RWaiting"
    if "mq_run acts t = Some s'" "MCancel 1 \<notin> set acts" "MClose \<notin> set acts"
      and "q_closed (ms_q t)" "ms_pc t 1 = RWaiting" "\<not> q_notify (ms_q t)" "ms_pend t = 0" for acts t s'
    using that
  proof (induction acts arbitrary: t)
    case (Cons a acts)
    then obtain t' where t': "mq_act a t = Some t'" "mq_run acts t' = Some s'" by (auto split: option.splits)
    with Cons.prems have "q_closed (ms_q t')" "ms_pc t' 1 = RWaiting" "\<not> q_notify (ms_q t')" "ms_pend t' = 0"
      by (cases a; auto simp: enqueue_locked_def dequeue_check_def split: if_splits)+
    with Cons t' show ?case by simp
  qed simp
  with s have "\<forall>acts s'. MCancel 1 \<notin> set acts \<longrightarrow> MClose \<notin> set acts \<longrightarrow> mq_run acts s = Some s'
      \<longrightarrow> ms_pc s' 1 = RWaiting" by blast
  moreover have "mq_reach {0, 1} s" by (rule mq_run_reach [OF mq_reach.start run]) auto
  ultimately show ?thesis using s by blast
qed

end
