(* ===== verification/Kernel.thy ===== *)
theory Kernel
  imports History MsgQueue
begin

text \<open>
  The kernel's process table and the operations that end, suspend and reap a process
  (\<open>kernel/proc_query.go\<close>, \<open>kernel/reason.go\<close>, \<open>kernel/suspend.go\<close>, \<open>kernel/reap.go\<close>).

  A \<open>*Process\<close> is represented by its PID, the record in the table being the object; a process
  that has been removed from the table is no longer observed. What the kernel calls outside itself
  (drivers, writers, callbacks, stores, loggers of the dashboard) and the events it emits are one
  trace, in order. What other goroutines and drivers answer is the environment \<open>kenv\<close>: the clock,
  how the reasoning goroutine that an operation waits for ends, what an unmount returns and
  whether the LLM device can be reopened, and the agent template the immune monitor has for a PID. A call that blocks is a separate step.
\<close>

section \<open>Events and outgoing calls\<close>

datatype arg = ANat nat | AInt int | AStr string | ABool bool | AOrigin KillOrigin | ASig Signal
  | AState ProcessState | AErr go_error

datatype Event = Event (ev_PID: PID) (ev_Syscall: string) (ev_Args: "(string \<times> arg) list") (ev_Err: "go_error option")

text \<open>\<open>debug.SpanStatus\<close>.\<close>

datatype SpanStatus = SpanOK | SpanERROR | SpanTIMEOUT

datatype outcall =
    OEvent (oc_event: Event)
  | OSaveProcInfo PID | OWriteMeta PID string | OCloseFile PID FD
  | ORecordResult PID string bool int | ORecordCombo PID "string list" bool int
  | OUnmount PID string | ORecordState PID string | OOnError PID go_error
  | OOnComplete PID string ExitStatus | OOnProcessExit PID int bool
  | OEndSpan PID SpanStatus | OStartSpan PID string string string | OStopRecording PID | OCloseWriter PID string | ORemoveScratch PID
  | OCloseDebug PID | OCloseLog PID | ORemovePersisted PID | OClearThreads PID | OClearCoroutines PID
  | OSaveCtxProfile PID | OCtxFree CtxID | OWriteback PID | OHistoryUpsert PID
  | OStartReason PID FD int | OCooperation string string string

datatype subsystem =
    SubCallbacks | SubMounts | SubImmune | SubRecorder | SubReputation | SubSynergy | SubSpans
  | SubWriteback | SubHistory | SubContext

text \<open>
  How the goroutine that \<open>wg.Wait\<close> waits for ends: there is none, it leaves by the suspend path of
  its deferred function, or it finishes the process with some status.
\<close>

datatype goroutine_exit = GNone | GSuspendExit | GFinish ExitStatus

record kenv =
  e_now :: int
  e_goroutine :: "PID \<Rightarrow> goroutine_exit"
  e_unmount :: "string \<Rightarrow> go_error option \<times> int"
  e_reopen :: "PID \<Rightarrow> go_error + FD"
  e_spanID :: string
  e_template :: "PID \<Rightarrow> string"

text \<open>Who asked for a kill, carried down every termination path (\<open>proc_query.go\<close>).\<close>

datatype KillAttribution = KillAttribution (ka_Origin: KillOrigin) (ka_Requester: string)
  (ka_RootPID: PID) (ka_RootOrigin: KillOrigin) (ka_Escalation: string)

record kernel =
  k_procTable :: "(PID, Process) SyncMap"
  k_msgQueues :: "(PID, MessageQueue) SyncMap"
  k_msgSeq :: MsgSeq
  k_reapCh :: "PID list"
  k_reaperGo :: "PID list"
  k_procHistory :: ProcessHistory
  k_subsystems :: "subsystem set"
  k_recording :: "PID set"
  k_shutdowns :: "(PID \<times> int \<times> KillAttribution) list"
  k_trace :: "outcall list"

definition reapChCap :: nat where "reapChCap = 64"

definition NewKernel :: "subsystem set \<Rightarrow> kernel" where
  "NewKernel subs =
     \<lparr>k_procTable = NewSyncMap, k_msgQueues = NewSyncMap, k_msgSeq = 0, k_reapCh = [], k_reaperGo = [],
      k_procHistory = NewProcessHistory 1000, k_subsystems = subs, k_recording = {}, k_shutdowns = [], k_trace = []\<rparr>"

definition out :: "outcall \<Rightarrow> kernel \<Rightarrow> kernel" where
  "out c k = k\<lparr>k_trace := k_trace k @ [c]\<rparr>"

definition out_if :: "bool \<Rightarrow> outcall \<Rightarrow> kernel \<Rightarrow> kernel" where
  "out_if b c k = (if b then out c k else k)"

text \<open>\<open>emitEvent\<close>, without breakpoints and recording.\<close>

definition emitEvent ::
  "PID \<Rightarrow> string \<Rightarrow> (string \<times> arg) list \<Rightarrow> go_error option \<Rightarrow> kernel \<Rightarrow> kernel" where
  "emitEvent pid syscall args err k = out (OEvent (Event pid syscall args err)) k"

section \<open>The process table (\<open>proc_query.go\<close>)\<close>

definition AddProcess :: "Process \<Rightarrow> kernel \<Rightarrow> kernel" where
  "AddProcess p k = k\<lparr>k_procTable := sm_store (pr_PID p) p (k_procTable k)\<rparr>"

definition GetProcess :: "kernel \<Rightarrow> PID \<Rightarrow> Process option" where
  "GetProcess k pid = sm_load (k_procTable k) pid"

definition RemoveProcess :: "PID \<Rightarrow> kernel \<Rightarrow> kernel" where
  "RemoveProcess pid k = k\<lparr>k_procTable := sm_delete pid (k_procTable k)\<rparr>"

definition ListProcesses :: "kernel \<Rightarrow> Process list" where
  "ListProcesses k = sm_range (\<lambda>_ p ps. (True, ps @ [p])) (k_procTable k) []"

text \<open>The full scan: the first match wins, a second one is only logged.\<close>

definition GetProcessByUUID :: "kernel \<Rightarrow> string \<Rightarrow> Process option" where
  "GetProcessByUUID k uuid =
     (if uuid = [] then None
      else fst (sm_range (\<lambda>_ p (found, dup).
             (True, if pr_UUID p = uuid
                    then (case found of None \<Rightarrow> (Some p, dup) | Some f \<Rightarrow> (found, if dup = None then Some p else dup))
                    else (found, dup)))
             (k_procTable k) (None, None)))"

text \<open>Writing through the pointer.\<close>

definition putProc :: "PID \<Rightarrow> Process \<Rightarrow> kernel \<Rightarrow> kernel" where
  "putProc pid p k =
     (case GetProcess k pid of
        None \<Rightarrow> k
      | Some _ \<Rightarrow> k\<lparr>k_procTable := sm_store pid p (k_procTable k)\<rparr>)"

definition updProc :: "PID \<Rightarrow> (Process \<Rightarrow> Process) \<Rightarrow> kernel \<Rightarrow> kernel" where
  "updProc pid f k = (case GetProcess k pid of None \<Rightarrow> k | Some p \<Rightarrow> putProc pid (f p) k)"

definition GetProcInfo :: "kernel \<Rightarrow> PID \<Rightarrow> ProcInfo option" where
  "GetProcInfo k pid = map_option procInfo (GetProcess k pid)"

definition ListProcs :: "kernel \<Rightarrow> ProcInfo list" where
  "ListProcs k = sm_range (\<lambda>_ p infos. (True, infos @ [procInfo p])) (k_procTable k) []"

text \<open>\<open>GetProcInfo\<close> fails only for an unknown PID; the snapshot is then saved.\<close>

definition saveProcInfo :: "PID \<Rightarrow> kernel \<Rightarrow> kernel" where
  "saveProcInfo pid k = out_if (GetProcess k pid \<noteq> None) (OSaveProcInfo pid) k"

section \<open>Finishing (\<open>reason.go\<close>)\<close>

text \<open>The first locked section: usage folding, result backfill, the reason of a failed exit.\<close>

definition finish_locked :: "ExitStatus \<Rightarrow> Process \<Rightarrow> ExitStatus \<times> Process" where
  "finish_locked exit p =
     (let p1 = (if pr_StreamTokensUsed p > 0
                then p\<lparr>pr_TokensUsed := i64 (pr_TokensUsed p + pr_StreamTokensUsed p),
                       pr_StreamTokensUsed := 0, pr_StreamInputTokens := 0\<rparr>
                else p);
          p2 = (if pr_Result p1 = [] \<and> exit_Code exit \<noteq> 0 \<and> exit_Reason exit \<noteq> []
                then p1\<lparr>pr_Result := exit_Reason exit\<rparr> else p1);
          exit' = ExitStatus (exit_Code exit) (exit_Reason exit) (pr_Result p2) (exit_Err exit);
          p3 = (if exit_Code exit \<noteq> 0 then p2\<lparr>pr_SuspendReason := []\<rparr> else p2)
      in (exit', p3))"

text \<open>An unmount was forced when the driver says so, or when it failed after the whole grace.\<close>

definition unmount_forced :: "go_error option \<Rightarrow> int \<Rightarrow> bool" where
  "unmount_forced err duration_ms =
     ((case err of Some (DriverError opn dev c) \<Rightarrow> c = ErrForceKilled | _ \<Rightarrow> False) \<or>
      (err \<noteq> None \<and> duration_ms \<ge> 4900))"

definition finish_unmount :: "kenv \<Rightarrow> PID \<Rightarrow> string \<Rightarrow> kernel \<Rightarrow> kernel" where
  "finish_unmount env pid path k =
     (case e_unmount env path of (err, dur) \<Rightarrow>
        emitEvent pid ''Unmount''
          ([(''path'', AStr path), (''auto'', ABool True)] @
           (if unmount_forced err dur
            then [(''forced'', ABool True), (''reason'', AStr ''sigterm_ignored'')] else [])) err
          (out (OUnmount pid path) k))"

text \<open>Sending a PID to the reaper; when the channel is full a goroutine reaps the process.\<close>

definition push_reap :: "PID \<Rightarrow> kernel \<Rightarrow> kernel" where
  "push_reap pid k =
     (if length (k_reapCh k) < reapChCap then k\<lparr>k_reapCh := k_reapCh k @ [pid]\<rparr>
      else k\<lparr>k_reaperGo := k_reaperGo k @ [pid]\<rparr>)"

definition terminate_ignore :: "ExitStatus \<Rightarrow> Process \<Rightarrow> Process" where
  "terminate_ignore exit p = (case Terminate exit p of Inl _ \<Rightarrow> p | Inr q \<Rightarrow> q)"

definition finish_feed :: "PID \<Rightarrow> Process \<Rightarrow> ExitStatus \<Rightarrow> kernel \<Rightarrow> kernel" where
  "finish_feed pid p exit k =
     out_if (SubSynergy \<in> k_subsystems k \<and> pr_Skills p \<noteq> [])
       (ORecordCombo pid (pr_Skills p) (exit_Code exit = 0) (pr_TokensUsed p))
       (out_if (SubReputation \<in> k_subsystems k \<and> pr_AgentTemplate p \<noteq> [])
          (ORecordResult pid (pr_AgentTemplate p) (exit_Code exit = 0) (pr_TokensUsed p)) k)"

definition finish_callbacks :: "PID \<Rightarrow> Process \<Rightarrow> ExitStatus \<Rightarrow> kernel \<Rightarrow> kernel" where
  "finish_callbacks pid p exit k =
     (let k1 = (if SubCallbacks \<in> k_subsystems k
                then out (OOnComplete pid (pr_Result p) exit)
                       (case exit_Err exit of Some e \<Rightarrow> out (OOnError pid e) k | None \<Rightarrow> k)
                else k)
      in out_if (SubImmune \<in> k_subsystems k) (OOnProcessExit pid (pr_TokensUsed p) (exit_Code exit = 0)) k1)"

definition finishProcess :: "kenv \<Rightarrow> PID \<Rightarrow> ExitStatus \<Rightarrow> kernel \<Rightarrow> kernel" where
  "finishProcess env pid exit k =
     (case GetProcess k pid of
        None \<Rightarrow> k
      | Some p0 \<Rightarrow>
          (let (exit', p) = finish_locked exit p0;
               k1 = finish_feed pid p exit' (putProc pid p k);
               k2 = (if SubMounts \<in> k_subsystems k1 then fold (finish_unmount env pid) (pr_MCPMounts p) k1 else k1);
               k3 = saveProcInfo pid (updProc pid (terminate_ignore exit') k2);
               k4 = out_if (SubRecorder \<in> k_subsystems k3 \<and> pid \<in> k_recording k3) (ORecordState pid (exit_Reason exit')) k3;
               k5 = finish_callbacks pid p exit' k4;
               k6 = updProc pid (send_done exit') k5;
               ppid = pr_PPID p
           in if ppid > 0 \<and> GetProcess k6 ppid = None then push_reap pid k6 else k6))"

section \<open>Suspending (\<open>suspend.go\<close>)\<close>

definition notifySuspendDone :: "PID \<Rightarrow> kernel \<Rightarrow> kernel" where
  "notifySuspendDone pid k =
     updProc pid (\<lambda>p. send_done (case pr_Exit p of Some e \<Rightarrow> e
                                 | None \<Rightarrow> ExitStatus ExitSuspended ''suspended'' [] None) p) k"

text \<open>\<open>proc.wg.Wait()\<close>: the goroutine runs to its end, in one of the ways the environment gives.\<close>

definition wgWait :: "kenv \<Rightarrow> PID \<Rightarrow> kernel \<Rightarrow> kernel" where
  "wgWait env pid k =
     (case e_goroutine env pid of
        GNone \<Rightarrow> k
      | GSuspendExit \<Rightarrow> notifySuspendDone pid k
      | GFinish exit \<Rightarrow> finishProcess env pid exit k)"

text \<open>The fields written once the transition succeeded.\<close>

definition suspended_fields :: "int \<Rightarrow> string \<Rightarrow> int \<Rightarrow> Process \<Rightarrow> Process" where
  "suspended_fields now reason exitCode p =
     p\<lparr>pr_SuspendReason := reason, pr_pausedAt := Some now,
       pr_Exit := Some (ExitStatus exitCode (''suspended: '' @ reason) [] None)\<rparr>"

definition suspendProcess :: "kenv \<Rightarrow> PID \<Rightarrow> string \<Rightarrow> int \<Rightarrow> kernel \<Rightarrow> go_error option \<times> kernel" where
  "suspendProcess env pid reason exitCode k =
     (case GetProcess k pid of
        None \<Rightarrow> (None, k)
      | Some p0 \<Rightarrow>
          (let p = p0\<lparr>pr_FDTable := [], pr_checkpointErr := False\<rparr>;
               k1 = fold (\<lambda>(fd, live) k. out_if live (OCloseFile pid fd) k) (pr_FDTable p0) (putProc pid p k)
           in case Suspend p of
                Inl _ \<Rightarrow> (Some (SyscallError ''Suspend'' pid ErrInternal), k1)
              | Inr p1 \<Rightarrow>
                  (let q = suspended_fields (e_now env) reason exitCode p1;
                       k2 = emitEvent pid ''Suspend'' [(''pid'', ANat pid), (''reason'', AStr reason)] None (putProc pid q k1);
                       k3 = out (OWriteMeta pid ''suspend'') (saveProcInfo pid k2)
                   in (None, out_if (SubCallbacks \<in> k_subsystems k3)
                               (OOnComplete pid [] (ExitStatus exitCode (''suspended: '' @ reason) [] None)) k3))))"

definition KSuspend :: "kenv \<Rightarrow> PID \<Rightarrow> kernel \<Rightarrow> go_error option \<times> kernel" where
  "KSuspend env pid k =
     (case GetProcess k pid of
        None \<Rightarrow> (Some (SyscallError ''Suspend'' pid ErrNotFound), k)
      | Some p \<Rightarrow>
          if pr_State p \<noteq> StateRunning then (Some (SyscallError ''Suspend'' pid ErrInvalid), k)
          else
            (let k1 = updProc pid (\<lambda>p. Cancel (RequestSuspend p)
                        \<lparr>pr_Exit := Some (ExitStatus ExitSuspended ''suspended: user_suspended'' [] None)\<rparr>) k
             in suspendProcess env pid ''user_suspended'' ExitSuspended (wgWait env pid k1)))"

definition selfSuspend :: "kenv \<Rightarrow> PID \<Rightarrow> string \<Rightarrow> int \<Rightarrow> kernel \<Rightarrow> go_error option \<times> kernel" where
  "selfSuspend env pid reason exitCode k =
     suspendProcess env pid reason exitCode (updProc pid RequestSuspend k)"

section \<open>Reaping (\<open>reap.go\<close>, \<open>suspend.go\<close>)\<close>

text \<open>Children of a dying parent: live ones go to PID 0, zombies to the reaper.\<close>

definition orphan_child :: "PID \<Rightarrow> PID \<Rightarrow> kernel \<Rightarrow> kernel" where
  "orphan_child parentPID childPID k =
     (case GetProcess k childPID of
        None \<Rightarrow> k
      | Some child \<Rightarrow>
          (case pr_State child of
             StateZombie \<Rightarrow> push_reap childPID k
           | StateDead \<Rightarrow> k
           | _ \<Rightarrow> emitEvent childPID ''Reparent''
                    [(''child_pid'', ANat childPID), (''old_ppid'', ANat parentPID), (''new_ppid'', ANat 0)] None
                    (putProc childPID (child\<lparr>pr_PPID := 0\<rparr>) k)))"

definition handleOrphanChildren :: "PID \<Rightarrow> kernel \<Rightarrow> kernel" where
  "handleOrphanChildren pid k =
     (case GetProcess k pid of
        None \<Rightarrow> k
      | Some p \<Rightarrow> fold (orphan_child pid) (GetChildren p) k)"

definition closeMsgQueue :: "PID \<Rightarrow> kernel \<Rightarrow> kernel" where
  "closeMsgQueue pid k = k\<lparr>k_msgQueues := snd (sm_load_and_delete pid (k_msgQueues k))\<rparr>"

text \<open>Closing the writers and the debug and log channels: each field is cleared under the lock first.\<close>

definition closeWriters :: "bool \<Rightarrow> PID \<Rightarrow> kernel \<Rightarrow> kernel" where
  "closeWriters withRaw pid k =
     (case GetProcess k pid of
        None \<Rightarrow> k
      | Some p \<Rightarrow>
          (let q = p\<lparr>pr_stepWriter := False, pr_eventWriter := False,
                     pr_rawWriter := pr_rawWriter p \<and> \<not> withRaw\<rparr>
           in out_if (withRaw \<and> pr_rawWriter p) (OCloseWriter pid ''raw'')
                (out_if (pr_eventWriter p) (OCloseWriter pid ''event'') (putProc pid q k))))"

definition closeChannels :: "PID \<Rightarrow> kernel \<Rightarrow> kernel" where
  "closeChannels pid k =
     (case GetProcess k pid of
        None \<Rightarrow> k
      | Some p \<Rightarrow>
          out_if (pr_LogChan p) (OCloseLog pid)
            (out_if (pr_DebugChan p) (OCloseDebug pid)
               (putProc pid (p\<lparr>pr_DebugChan := False, pr_LogChan := False\<rparr>) k)))"

definition reap_ignore :: "Process \<Rightarrow> Process" where
  "reap_ignore p = (case Reap p of Inl _ \<Rightarrow> p | Inr q \<Rightarrow> q)"

definition clearRuntime :: "PID \<Rightarrow> kernel \<Rightarrow> kernel" where
  "clearRuntime pid k =
     out (OClearCoroutines pid) (out (OClearThreads pid) (updProc pid ClearSignalState k))"

text \<open>
  The status of the closed span. An error wrapping a \<open>SyscallError\<close> or a \<open>DriverError\<close> is the error
  itself here.
\<close>

fun str_contains :: "string \<Rightarrow> string \<Rightarrow> bool" where
  "str_contains [] sub \<longleftrightarrow> sub = []"
| "str_contains (c # s) sub \<longleftrightarrow> str_prefix sub (c # s) \<or> str_contains s sub"

definition is_timeout_err :: "go_error \<Rightarrow> bool" where
  "is_timeout_err e =
     (case e of SyscallError opn p c \<Rightarrow> c = ErrTimeout | DriverError opn d c \<Rightarrow> c = ErrTimeout | PlainError m \<Rightarrow> False)"

definition span_status :: "ExitStatus option \<Rightarrow> SpanStatus" where
  "span_status ex =
     (case ex of
        None \<Rightarrow> SpanOK
      | Some e \<Rightarrow>
          (case exit_Err e of
             None \<Rightarrow> SpanOK
           | Some er \<Rightarrow> if is_timeout_err er \<or> str_contains (map ascii_lower (exit_Reason e)) ''timeout''
                        then SpanTIMEOUT else SpanERROR))"

text \<open>The body of \<open>reapOnce\<close>, in the order of its numbered steps, in three stages.\<close>

definition reap_spans :: "PID \<Rightarrow> Process \<Rightarrow> kernel \<Rightarrow> kernel" where
  "reap_spans pid p0 k =
     (let k0 = out_if (pr_TraceID p0 \<noteq> [] \<and> SubSpans \<in> k_subsystems k)
                 (OEndSpan pid (span_status (pr_Exit p0))) k
      in if SubRecorder \<in> k_subsystems k0 \<and> pid \<in> k_recording k0
         then out (OStopRecording pid) (k0\<lparr>k_recording := k_recording k0 - {pid}\<rparr>) else k0)"

definition reap_quiesce :: "kenv \<Rightarrow> PID \<Rightarrow> Process \<Rightarrow> kernel \<Rightarrow> kernel" where
  "reap_quiesce env pid p0 k =
     wgWait env pid (updProc pid Cancel (handleOrphanChildren pid (reap_spans pid p0 k)))"

definition reap_files :: "PID \<Rightarrow> kernel \<Rightarrow> kernel" where
  "reap_files pid k =
     (let stepOpen = (case GetProcess k pid of Some p \<Rightarrow> pr_stepWriter p | None \<Rightarrow> False);
          k1 = out_if stepOpen (OCloseWriter pid ''step'') (out (OWriteMeta pid ''reap'') (closeWriters True pid k))
      in out (ORemoveScratch pid) (updProc pid (\<lambda>p. p\<lparr>pr_checkpointErr := False\<rparr>) k1))"

definition reap_release :: "PID \<Rightarrow> Process \<Rightarrow> kernel \<Rightarrow> kernel" where
  "reap_release pid p0 k =
     (let k1 = closeMsgQueue pid (closeChannels pid k);
          k2 = out_if (pr_IPCPersist p0 \<and> (case pr_Exit p0 of Some e \<Rightarrow> exit_Code e = 0 | None \<Rightarrow> False)) (ORemovePersisted pid) k1;
          k3 = clearRuntime pid k2
      in out (OCtxFree (pr_CtxID p0)) (out_if (SubContext \<in> k_subsystems k3 \<and> pr_CtxID p0 > 0) (OSaveCtxProfile pid) k3))"

definition reap_body :: "kenv \<Rightarrow> PID \<Rightarrow> Process \<Rightarrow> kernel \<Rightarrow> kernel" where
  "reap_body env pid p0 k =
     saveProcInfo pid
       (updProc pid (\<lambda>p. (reap_ignore p)\<lparr>pr_DeadAt := Some (e_now env)\<rparr>)
          (reap_release pid p0 (reap_files pid (reap_quiesce env pid p0 k))))"

definition reapProcess :: "kenv \<Rightarrow> PID \<Rightarrow> kernel \<Rightarrow> kernel" where
  "reapProcess env pid k =
     (case GetProcess k pid of
        None \<Rightarrow> k
      | Some p \<Rightarrow>
          (let k1 = (if pr_reapOnce p then k
                     else reap_body env pid p (putProc pid (p\<lparr>pr_reapOnce := True\<rparr>) k))
           in case GetProcess k1 pid of
                None \<Rightarrow> k1
              | Some p1 \<Rightarrow>
                  if SubWriteback \<in> k_subsystems k1 \<and> \<not> pr_writebackOnce p1
                  then out_if (pr_Exit p1 \<noteq> None) (OWriteback pid) (putProc pid (p1\<lparr>pr_writebackOnce := True\<rparr>) k1)
                  else k1))"

definition reapSuspendedProcess :: "PID \<Rightarrow> kernel \<Rightarrow> kernel" where
  "reapSuspendedProcess pid k =
     (case GetProcess k pid of
        None \<Rightarrow> k
      | Some p \<Rightarrow>
          if pr_reapOnce p then k
          else
            (let k1 = putProc pid (p\<lparr>pr_reapOnce := True\<rparr>) k;
                 k2 = clearRuntime pid (closeMsgQueue pid (closeChannels pid k1));
                 k3 = out_if (SubContext \<in> k_subsystems k2 \<and> pr_CtxID p > 0) (OCtxFree (pr_CtxID p)) k2;
                 k4 = out_if (pr_stepWriter p) (OCloseWriter pid ''step'') (closeWriters False pid k3)
             in saveProcInfo pid k4))"

definition withEscalation :: "string \<Rightarrow> KillAttribution \<Rightarrow> KillAttribution" where
  "withEscalation reason a =
     KillAttribution (ka_Origin a) (ka_Requester a) (ka_RootPID a) (ka_RootOrigin a) reason"

definition killAttrArgs :: "KillAttribution \<Rightarrow> (string \<times> arg) list" where
  "killAttrArgs a =
     [(''origin'', AOrigin (if ka_Origin a = OriginEmpty then OriginUnknown else ka_Origin a)),
      (''requester'', AStr (ka_Requester a))] @
     (if ka_RootPID a \<noteq> 0 then [(''root_pid'', ANat (ka_RootPID a))] else []) @
     (if ka_RootOrigin a \<noteq> OriginEmpty then [(''root_origin'', AOrigin (ka_RootOrigin a))] else []) @
     (if ka_Escalation a \<noteq> [] then [(''escalation'', AStr (ka_Escalation a))] else [])"

definition killEventArgs :: "PID \<Rightarrow> Signal \<Rightarrow> KillAttribution \<Rightarrow> (string \<times> arg) list" where
  "killEventArgs pid sig a = killAttrArgs a @ [(''pid'', ANat pid), (''signal'', ASig sig)]"

definition sig_string :: "Signal \<Rightarrow> string" where
  "sig_string s =
     (if s = SIGTERM then ''SIGTERM'' else if s = SIGKILL then ''SIGKILL'' else if s = SIGINT then ''SIGINT''
      else if s = SIGPAUSE then ''SIGPAUSE'' else if s = SIGRESUME then ''SIGRESUME'' else ''UNKNOWN'')"

text \<open>
  The terminal fields of a process killed while suspended; the current \<open>resumedCh\<close> is closed so that
  nobody stays parked on it.
\<close>

definition killed_fields :: "int \<Rightarrow> ExitStatus \<Rightarrow> Process \<Rightarrow> Process" where
  "killed_fields now exit p =
     p\<lparr>pr_Exit := Some exit, pr_DeadAt := Some now, pr_ResumeAt := None,
       pr_closedCh := insert (pr_resumedCh p) (pr_closedCh p)\<rparr>"

definition killSuspendedProcess ::
  "kenv \<Rightarrow> PID \<Rightarrow> Signal \<Rightarrow> string \<Rightarrow> KillAttribution \<Rightarrow> kernel \<Rightarrow> go_error option \<times> kernel" where
  "killSuspendedProcess env pid sig syscall attr k =
     (case GetProcess k pid of
        None \<Rightarrow> (None, k)
      | Some p \<Rightarrow>
          (case Transition StateDead p of
             Inl _ \<Rightarrow> (Some (SyscallError syscall pid ErrInternal), k)
           | Inr p1 \<Rightarrow>
               (let exit = ExitStatus 1 (sig_string sig @ '' while suspended'') [] None;
                    p2 = killed_fields (e_now env) exit p1;
                    k1 = emitEvent pid syscall (killEventArgs pid sig attr @ [(''action'', AStr ''killed_suspended'')])
                           None (putProc pid p2 k);
                    k2 = putProc pid (closeTerminated (send_done exit p2)) k1
                in (None, reapSuspendedProcess pid k2))))"

section \<open>Waiting (\<open>reap.go\<close>)\<close>

text \<open>
  \<open>Wait\<close>: looking the process up and the entry event, then the receive from \<open>Done\<close>, which blocks
  (\<open>None\<close>) while the channel is empty.
\<close>

definition Wait_enter :: "PID \<Rightarrow> kernel \<Rightarrow> go_error option \<times> kernel" where
  "Wait_enter pid k =
     (case GetProcess k pid of
        None \<Rightarrow> (Some (SyscallError ''Wait'' pid ErrNotFound), k)
      | Some _ \<Rightarrow> (None, emitEvent pid ''Wait'' [(''pid'', ANat pid)] None k))"

definition Wait_recv :: "kenv \<Rightarrow> PID \<Rightarrow> kernel \<Rightarrow> (ExitStatus \<times> kernel) option" where
  "Wait_recv env pid k =
     (case GetProcess k pid of
        None \<Rightarrow> None
      | Some p \<Rightarrow>
          (case pr_Done p of
             None \<Rightarrow> None
           | Some exit \<Rightarrow>
               Some (exit, reapProcess env pid
                       (emitEvent pid ''Wait'' [(''pid'', ANat pid), (''action'', AStr ''completed'')] None
                          (putProc pid (p\<lparr>pr_Done := None\<rparr>) k)))))"

text \<open>
  \<open>WaitChildInReason\<close>: an unknown child is answered at once; then one pass of its select: which ready case it takes is the argument. The result
  is \<open>None\<close> while the loop goes on.
\<close>

definition WaitChild_enter :: "PID \<Rightarrow> kernel \<Rightarrow> (ExitStatus \<times> bool) option \<times> kernel" where
  "WaitChild_enter child k =
     (case GetProcess k child of
        None \<Rightarrow> (Some (ExitStatus 0 [] [] None, False), k)
      | Some _ \<Rightarrow> (None, emitEvent child ''Wait'' [(''pid'', ANat child)] None k))"

datatype wait_sel = SelDone | SelParentDone | SelTick

definition WaitChild_step ::
  "kenv \<Rightarrow> PID \<Rightarrow> PID \<Rightarrow> wait_sel \<Rightarrow> kernel \<Rightarrow> ((ExitStatus \<times> bool) option \<times> kernel) option" where
  "WaitChild_step env parent child sel k =
     (case sel of
        SelTick \<Rightarrow> Some (None, updProc parent (TouchHeartbeat (e_now env)) k)
      | SelParentDone \<Rightarrow>
          (case GetProcess k parent of
             Some pp \<Rightarrow>
               if pr_cancelled pp
               then Some (Some (ExitStatus 0 [] [] None, True),
                          emitEvent child ''Wait'' [(''pid'', ANat child), (''action'', AStr ''parent_cancelled'')] None k)
               else None
           | None \<Rightarrow> None)
      | SelDone \<Rightarrow>
          (case GetProcess k child of
             None \<Rightarrow> None
           | Some c \<Rightarrow>
               (case pr_Done c of
                  None \<Rightarrow> None
                | Some exit \<Rightarrow>
                    (let k1 = putProc child (c\<lparr>pr_Done := None\<rparr>) k
                     in if is_gone (pr_State c)
                        then Some (Some (exit, False), reapProcess env child
                               (emitEvent child ''Wait'' [(''pid'', ANat child), (''action'', AStr ''completed'')] None k1))
                        else Some (None, emitEvent child ''Wait''
                               [(''pid'', ANat child), (''action'', AStr ''discard_midstate''),
                                (''exit_code'', AInt (exit_Code exit)), (''exit_reason'', AStr (exit_Reason exit))] None k1)))))"

definition KReap :: "kenv \<Rightarrow> PID \<Rightarrow> kernel \<Rightarrow> kernel" where
  "KReap env pid k =
     (case GetProcess k pid of
        None \<Rightarrow> k
      | Some p \<Rightarrow> if pr_State p = StateZombie then reapProcess env pid k else k)"

text \<open>One receive of the reaper goroutine from \<open>reapCh\<close>, and one run of a fallback goroutine.\<close>

definition reaper_recv :: "kenv \<Rightarrow> kernel \<Rightarrow> kernel" where
  "reaper_recv env k =
     (case k_reapCh k of
        [] \<Rightarrow> k
      | pid # rest \<Rightarrow> KReap env pid (k\<lparr>k_reapCh := rest\<rparr>))"

definition reaper_fallback :: "kenv \<Rightarrow> kernel \<Rightarrow> kernel" where
  "reaper_fallback env k =
     (case k_reaperGo k of
        [] \<Rightarrow> k
      | pid # rest \<Rightarrow> reapProcess env pid (k\<lparr>k_reaperGo := rest\<rparr>))"

definition DeadProcessTTL :: int where "DeadProcessTTL = 60 * 1000000000"

definition expired_dead :: "int \<Rightarrow> int \<Rightarrow> Process \<Rightarrow> bool" where
  "expired_dead now ttl p =
     (pr_State p = StateDead \<and> (case pr_DeadAt p of None \<Rightarrow> False | Some t \<Rightarrow> now - t > ttl))"

definition history_upsert :: "Process \<Rightarrow> kernel \<Rightarrow> kernel" where
  "history_upsert p k =
     out (OHistoryUpsert (pr_PID p))
       (k\<lparr>k_procHistory := ph_Upsert (procInfo p) (k_procHistory k)\<rparr>)"

definition remove_expired :: "PID \<Rightarrow> kernel \<Rightarrow> kernel" where
  "remove_expired pid k =
     (case GetProcess k pid of
        None \<Rightarrow> RemoveProcess pid k
      | Some p \<Rightarrow> RemoveProcess pid (saveProcInfo pid (history_upsert p k)))"

definition cleanupExpiredDead :: "int \<Rightarrow> int \<Rightarrow> kernel \<Rightarrow> kernel" where
  "cleanupExpiredDead now ttl k =
     fold remove_expired
       (sm_range (\<lambda>pid p acc. (True, if expired_dead now ttl p then acc @ [pid] else acc)) (k_procTable k) []) k"

end
