(* ===== verification/Signals.thy ===== *)
theory Signals
  imports Kernel
begin

text \<open>
  Suspending and resuming subtrees (\<open>kernel/subtree.go\<close>), signal delivery (\<open>kernel/signal.go\<close>),
  killing (\<open>kernel/proc_query.go\<close>) and the two-phase shutdown (\<open>kernel/shutdown.go\<close>). The calls
  are sequential: nothing is spawned between the passes of a walk; the lock \<open>resumeMu\<close>, which
  serialises the walks, has no counterpart.
\<close>

section \<open>Collecting a subtree\<close>

definition subtreeMaxDepth :: nat where "subtreeMaxDepth = 32"

definition children_of :: "kernel \<Rightarrow> PID \<Rightarrow> PID list" where
  "children_of k pid = (case GetProcess k pid of Some p \<Rightarrow> GetChildren p | None \<Rightarrow> [])"

text \<open>
  What one child reference leads to: the child, or, when it has been reaped, the live processes
  whose parent UUID is the one its history snapshot records.
\<close>

definition child_targets :: "kernel \<Rightarrow> PID \<Rightarrow> PID list" where
  "child_targets k cpid =
     (case GetProcess k cpid of
        Some _ \<Rightarrow> [cpid]
      | None \<Rightarrow>
          if SubHistory \<notin> k_subsystems k then []
          else (case FindByPID cpid (k_procHistory k) of
                  None \<Rightarrow> []
                | Some pi \<Rightarrow>
                    if pi_UUID pi = [] then []
                    else sm_range (\<lambda>pid gc acc. (True, if pr_ParentUUID gc = pi_UUID pi then acc @ [pid] else acc))
                           (k_procTable k) []))"

text \<open>
  The closure \<open>visit\<close>; the first argument is the depth still allowed plus one, so that a visit at
  depth 33 is \<open>visit k 0\<close>.
\<close>

primrec visit :: "kernel \<Rightarrow> nat \<Rightarrow> PID \<Rightarrow> PID set \<times> PID list \<Rightarrow> PID set \<times> PID list" where
  "visit k 0 pid st = st"
| "visit k (Suc n) pid st =
     (case st of (visited, pids) \<Rightarrow>
        if pid \<in> visited then st
        else fold (visit k n) (concat (map (child_targets k) (children_of k pid)))
               (insert pid visited, pids @ [pid]))"

definition collectSubtreePIDs :: "kernel \<Rightarrow> PID \<Rightarrow> PID list" where
  "collectSubtreePIDs k root = snd (visit k (subtreeMaxDepth + 1) root ({}, []))"

section \<open>Suspending a subtree\<close>

definition suspendOneForSubtree :: "kenv \<Rightarrow> string \<Rightarrow> PID \<Rightarrow> kernel \<Rightarrow> go_error option \<times> kernel" where
  "suspendOneForSubtree env reason pid k =
     (case GetProcess k pid of
        None \<Rightarrow> (None, k)
      | Some p \<Rightarrow>
          if pr_State p \<noteq> StateRunning then (None, k)
          else suspendProcess env pid reason ExitSuspended
                 (wgWait env pid (updProc pid (\<lambda>p. Cancel (RequestSuspend p)) k)))"

definition suspend_node :: "kenv \<Rightarrow> PID \<Rightarrow> nat \<times> kernel \<Rightarrow> nat \<times> kernel" where
  "suspend_node env pid st =
     (case st of (n, k) \<Rightarrow>
        case GetProcess k pid of
          None \<Rightarrow> (n, k)
        | Some p \<Rightarrow>
            if pr_State p \<noteq> StateRunning then (n, k)
            else (case suspendOneForSubtree env ''user_paused'' pid k of
                    (Some _, k') \<Rightarrow> (n, k')
                  | (None, k') \<Rightarrow> (n + 1, k')))"

definition suspend_pass :: "kenv \<Rightarrow> PID \<Rightarrow> kernel \<Rightarrow> nat \<times> kernel" where
  "suspend_pass env root k = fold (suspend_node env) (collectSubtreePIDs k root) (0, k)"

fun suspend_passes :: "kenv \<Rightarrow> nat \<Rightarrow> PID \<Rightarrow> nat \<times> kernel \<Rightarrow> nat \<times> kernel" where
  "suspend_passes env 0 root st = st"
| "suspend_passes env (Suc n) root (tot, k) =
     (case suspend_pass env root k of (passAffected, k') \<Rightarrow>
        if passAffected = 0 then (tot, k') else suspend_passes env n root (tot + passAffected, k'))"

definition suspendSubtree :: "kenv \<Rightarrow> PID \<Rightarrow> kernel \<Rightarrow> nat \<times> kernel" where
  "suspendSubtree env root k = suspend_passes env 3 root (0, k)"

definition SuspendSubtree :: "kenv \<Rightarrow> PID \<Rightarrow> kernel \<Rightarrow> (go_error + nat) \<times> kernel" where
  "SuspendSubtree env root k =
     (case GetProcess k root of
        None \<Rightarrow> (Inl (SyscallError ''SuspendSubtree'' root ErrNotFound), k)
      | Some _ \<Rightarrow> (case suspendSubtree env root k of (n, k') \<Rightarrow> (Inr n, k')))"

section \<open>Resuming a subtree\<close>

text \<open>
  What is written once \<open>Unsuspend\<close> succeeded: the suspend fields are cleared, the pause is accounted,
  a stale receipt is drained from \<open>Done\<close>.
\<close>

definition resumed_fields :: "int \<Rightarrow> Process \<Rightarrow> Process" where
  "resumed_fields now p =
     (let p1 = p\<lparr>pr_SuspendReason := [], pr_ResumeAt := None\<rparr>;
          p2 = (case pr_pausedAt p1 of
                  Some t \<Rightarrow> p1\<lparr>pr_pausedTotal := i64 (pr_pausedTotal p1 + (now - t)), pr_pausedAt := None\<rparr>
                | None \<Rightarrow> p1)
      in p2\<lparr>pr_Exit := None, pr_Done := None\<rparr>)"

definition rollbackQuotaWakeResume :: "int \<Rightarrow> Process \<Rightarrow> Process" where
  "rollbackQuotaWakeResume now p =
     (case Suspend p of
        Inl _ \<Rightarrow> p
      | Inr q \<Rightarrow> suspended_fields now ''quota_exhausted'' ExitSuspended q)"

definition resume_start_step :: "Process \<Rightarrow> int" where
  "resume_start_step p =
     (if pr_ResumedFromStep p = 0
      then if pr_LastCompletedStep p > 0 then pr_LastCompletedStep p + 1 else 0
      else pr_ResumedFromStep p)"

definition resumeOneForSubtreeMode :: "kenv \<Rightarrow> bool \<Rightarrow> PID \<Rightarrow> kernel \<Rightarrow> go_error option \<times> kernel" where
  "resumeOneForSubtreeMode env quotaWake pid k =
     (case GetProcess k pid of
        None \<Rightarrow> (Some (PlainError ''unsuspend''), k)
      | Some p0 \<Rightarrow>
          (case Unsuspend p0 of
             Inl e \<Rightarrow> (Some (PlainError ''unsuspend''), k)
           | Inr p1 \<Rightarrow>
               (let p2 = resumed_fields (e_now env) p1;
                    k1 = saveProcInfo pid (putProc pid p2 k)
                in if pr_PrimaryDevice p2 = []
                   then (None, emitEvent pid ''Resume'' [(''pid'', ANat pid), (''action'', AStr ''awaiting_script_driver'')] None k1)
                   else
                     (let p3 = p2\<lparr>pr_cancelled := False, pr_LastHeartbeat := Some (e_now env)\<rparr>;
                          k2 = putProc pid p3 k1
                      in case e_reopen env pid of
                           Inl err \<Rightarrow>
                             if quotaWake
                             then (Some (PlainError ''reopen llm device''),
                                   putProc pid (rollbackQuotaWakeResume (e_now env) p3) k2)
                             else (Some (PlainError ''reopen llm device''),
                                   finishProcess env pid (ExitStatus 1 ''resume_failed'' [] None)
                                     (emitEvent pid ''Resume'' [(''pid'', ANat pid), (''action'', AStr ''resume_failed''),
                                        (''error'', AErr err)] (Some err) k2))
                         | Inr llmFD \<Rightarrow>
                             (None, emitEvent pid ''Resume'' [(''pid'', ANat pid), (''action'', AStr ''resumed_subtree'')] None
                                (out (OStartReason pid llmFD (resume_start_step p3))
                                   (putProc pid (p3\<lparr>pr_FDTable := AList.update llmFD False (pr_FDTable p3)\<rparr>) k2)))))))"

definition resumeOneForSubtree :: "kenv \<Rightarrow> PID \<Rightarrow> kernel \<Rightarrow> go_error option \<times> kernel" where
  "resumeOneForSubtree env pid k = resumeOneForSubtreeMode env False pid k"

definition resumeOneForSubtreeQuotaWake :: "kenv \<Rightarrow> PID \<Rightarrow> kernel \<Rightarrow> go_error option \<times> kernel" where
  "resumeOneForSubtreeQuotaWake env pid k = resumeOneForSubtreeMode env True pid k"

definition emitResumeSkipped :: "PID \<Rightarrow> bool \<Rightarrow> bool \<Rightarrow> ProcessState \<Rightarrow> kernel \<Rightarrow> kernel" where
  "emitResumeSkipped pid isFailed exitUnknown state k =
     emitEvent pid ''Resume''
       ([(''pid'', ANat pid), (''action'', AStr ''skipped''), (''reason'', AState state)] @
        (if isFailed then [(''skipped_failed'', ABool True)]
         else case state of
                StateDead \<Rightarrow> [(''skipped_dead'', ABool True)]
              | StateZombie \<Rightarrow> [(''skipped_zombie'', ABool True)]
              | StateRunning \<Rightarrow> [(''skipped_running'', ABool True)]
              | _ \<Rightarrow> []) @
        (if exitUnknown then [(''exit_unknown'', ABool True)] else [])) None k"

record resume_acc =
  ra_affected :: nat
  ra_skipped :: nat
  ra_allRunning :: bool
  ra_kernel :: kernel

definition resume_node :: "kenv \<Rightarrow> PID \<Rightarrow> resume_acc \<Rightarrow> resume_acc" where
  "resume_node env pid a =
     (case GetProcess (ra_kernel a) pid of
        None \<Rightarrow> a\<lparr>ra_skipped := ra_skipped a + 1\<rparr>
      | Some p \<Rightarrow>
          (case pr_State p of
             StateSuspended \<Rightarrow>
               (case resumeOneForSubtree env pid (ra_kernel a) of
                  (Some _, k') \<Rightarrow> a\<lparr>ra_allRunning := False, ra_skipped := ra_skipped a + 1, ra_kernel := k'\<rparr>
                | (None, k') \<Rightarrow> a\<lparr>ra_allRunning := False, ra_affected := ra_affected a + 1, ra_kernel := k'\<rparr>)
           | StateDead \<Rightarrow>
               a\<lparr>ra_allRunning := False, ra_skipped := ra_skipped a + 1,
                 ra_kernel := emitResumeSkipped pid
                   (case pr_Exit p of Some e \<Rightarrow> exit_Code e \<noteq> 0 | None \<Rightarrow> False) (pr_Exit p = None) StateDead (ra_kernel a)\<rparr>
           | StateZombie \<Rightarrow>
               a\<lparr>ra_allRunning := False, ra_skipped := ra_skipped a + 1,
                 ra_kernel := emitResumeSkipped pid False False StateZombie (ra_kernel a)\<rparr>
           | StateRunning \<Rightarrow> a\<lparr>ra_skipped := ra_skipped a + 1\<rparr>
           | StateCreated \<Rightarrow> a\<lparr>ra_allRunning := False, ra_skipped := ra_skipped a + 1\<rparr>))"

definition resumeSubtreeLocked :: "kenv \<Rightarrow> PID \<Rightarrow> kernel \<Rightarrow> (nat \<times> nat) \<times> kernel" where
  "resumeSubtreeLocked env root k =
     (let pids = collectSubtreePIDs k root;
          a = fold (resume_node env) pids \<lparr>ra_affected = 0, ra_skipped = 0, ra_allRunning = True, ra_kernel = k\<rparr>;
          k' = (if ra_affected a = 0 \<and> ra_allRunning a \<and> pids \<noteq> []
                then emitEvent root ''Resume'' [(''pid'', ANat root), (''action'', AStr ''noop_all_running''),
                       (''skipped'', ANat (ra_skipped a))] None (ra_kernel a)
                else ra_kernel a)
      in ((ra_affected a, ra_skipped a), k'))"

definition ResumeSubtree :: "kenv \<Rightarrow> PID \<Rightarrow> kernel \<Rightarrow> (go_error + nat \<times> nat) \<times> kernel" where
  "ResumeSubtree env root k =
     (if root = 0 then (Inl (SyscallError ''ResumeSubtree'' root ErrInvalid), k)
      else case GetProcess k root of
             None \<Rightarrow> (Inl (SyscallError ''ResumeSubtree'' root ErrNotFound), k)
           | Some _ \<Rightarrow> (case resumeSubtreeLocked env root k of (r, k') \<Rightarrow> (Inr r, k')))"

section \<open>Delivering a signal\<close>

definition unknownAttribution :: KillAttribution where
  "unknownAttribution = KillAttribution OriginUnknown [] 0 OriginEmpty []"

text \<open>The result is the action label, the extra arguments of the event and the error.\<close>

definition defaultSignalAction ::
  "kenv \<Rightarrow> PID \<Rightarrow> Signal \<Rightarrow> KillAttribution \<Rightarrow> kernel
   \<Rightarrow> (string \<times> (string \<times> arg) list \<times> go_error option) \<times> kernel" where
  "defaultSignalAction env pid sig attr k =
     (if sig = SIGTERM then
        (case GetProcess k pid of
           None \<Rightarrow> ((''shutdown_already_started'', [], None), k)
         | Some p \<Rightarrow>
             if pr_shutdownStarted p then ((''shutdown_already_started'', [], None), k)
             else ((''shutdown_initiated'', [], None),
                   (putProc pid (Cancel (p\<lparr>pr_shutdownStarted := True\<rparr>)) k)
                     \<lparr>k_shutdowns := k_shutdowns k @ [(pid, effectiveGracePeriod p, attr)]\<rparr>))
      else if sig = SIGKILL then ((''terminated'', [], None), updProc pid Cancel k)
      else if sig_is_termination sig then ((''terminated'', [], None), updProc pid Cancel k)
      else if sig = SIGPAUSE then
        (case suspendSubtree env pid k of
           (affected, k') \<Rightarrow> ((''suspended_subtree'', [(''affected'', ANat affected)], None), k'))
      else if sig = SIGRESUME then
        (case ResumeSubtree env pid k of
           (Inl err, k') \<Rightarrow> ((''resume_failed'', [(''err'', AErr err)], Some err), k')
         | (Inr (affected, skipped), k') \<Rightarrow>
             ((''resumed_subtree'', [(''affected'', ANat affected), (''skipped'', ANat skipped)], None), k'))
      else ((''ignored'', [], None), k))"

definition deliverSignal ::
  "kenv \<Rightarrow> PID \<Rightarrow> Signal \<Rightarrow> KillAttribution \<Rightarrow> kernel
   \<Rightarrow> (string \<times> (string \<times> arg) list \<times> go_error option) \<times> kernel" where
  "deliverSignal env pid sig attr k =
     (case GetProcess k pid of
        None \<Rightarrow> ((''ignored'', [], None), k)
      | Some p \<Rightarrow>
          (case resolveSignalDisposition sig p of
             (dispBlocked, p') \<Rightarrow> ((''blocked_pending'', [], None), putProc pid p' k)
           | (dispHandler h, p') \<Rightarrow>
               ((''handler'', [], None), putProc pid (p'\<lparr>pr_handled := pr_handled p' @ [(h, sig)]\<rparr>) k)
           | (dispDefault, p') \<Rightarrow> defaultSignalAction env pid sig attr (putProc pid p' k)))"

definition KSignal :: "kenv \<Rightarrow> PID \<Rightarrow> Signal \<Rightarrow> kernel \<Rightarrow> go_error option \<times> kernel" where
  "KSignal env pid sig k =
     (let ev = (\<lambda>action extra err k. emitEvent pid ''Signal''
                  ([(''pid'', ANat pid), (''signal'', ASig sig), (''action'', AStr action)] @ extra) err k)
      in if \<not> sig_valid sig then (Some (SyscallError ''Signal'' pid ErrInvalid), k)
         else case GetProcess k pid of
                None \<Rightarrow> (Some (SyscallError ''Signal'' pid ErrNotFound), k)
              | Some p \<Rightarrow>
                  if is_gone (pr_State p) then (Some (SyscallError ''Signal'' pid ErrNotFound), k)
                  else if pr_State p = StateSuspended then
                    (if sig_is_termination sig
                     then killSuspendedProcess env pid sig ''Signal'' unknownAttribution k
                     else if sig = SIGPAUSE then (None, ev ''noop_already_suspended'' [] None k)
                     else if sig = SIGRESUME then
                       (case ResumeSubtree env pid k of
                          (Inl err, k') \<Rightarrow> (Some (SyscallError ''Signal'' pid ErrInternal), k')
                        | (Inr (affected, skipped), k') \<Rightarrow>
                            (None, ev ''resumed_subtree'' [(''affected'', ANat affected), (''skipped'', ANat skipped)] None k'))
                     else (None, ev ''noop_suspended'' [] None k))
                  else
                    (case deliverSignal env pid sig unknownAttribution k of
                       ((action, extra, err), k') \<Rightarrow>
                         (case err of
                            Some _ \<Rightarrow> (Some (SyscallError ''Signal'' pid ErrInternal), ev action extra err k')
                          | None \<Rightarrow> (None, ev action extra err k'))))"

section \<open>Killing\<close>

definition KillWithOrigin ::
  "kenv \<Rightarrow> PID \<Rightarrow> Signal \<Rightarrow> KillAttribution \<Rightarrow> kernel \<Rightarrow> go_error option \<times> kernel" where
  "KillWithOrigin env pid sig attr k =
     (let ev = (\<lambda>extra err k. emitEvent pid ''Kill'' (killEventArgs pid sig attr @ extra) err k)
      in if \<not> sig_valid sig then (Some (SyscallError ''Kill'' pid ErrInvalid), k)
         else case GetProcess k pid of
                None \<Rightarrow> (Some (SyscallError ''Kill'' pid ErrNotFound), k)
              | Some p \<Rightarrow>
                  (let k1 = ev [] None k
                   in if is_gone (pr_State p) then (None, ev [(''action'', AStr ''noop'')] None k1)
                      else if pr_State p = StateSuspended then
                        (if sig_is_termination sig then killSuspendedProcess env pid sig ''Kill'' attr k1
                         else (None, ev [(''action'', AStr ''noop_suspended'')] None k1))
                      else
                        (case deliverSignal env pid sig attr k1 of
                           ((action, extra, err), k2) \<Rightarrow>
                             (case err of
                                Some _ \<Rightarrow> (Some (SyscallError ''Kill'' pid ErrInternal), ev ((''action'', AStr action) # extra) err k2)
                              | None \<Rightarrow> (None, ev ((''action'', AStr action) # extra) err k2)))))"

definition Kill :: "kenv \<Rightarrow> PID \<Rightarrow> Signal \<Rightarrow> kernel \<Rightarrow> go_error option \<times> kernel" where
  "Kill env pid sig k = KillWithOrigin env pid sig unknownAttribution k"

text \<open>
  The shutdown goroutine: its entry event, then its select, which goes on when the process has
  terminated or the timer fires (\<open>timer\<close>), and blocks otherwise.
\<close>

definition twoPhaseShutdown_start :: "PID \<Rightarrow> int \<Rightarrow> kernel \<Rightarrow> kernel" where
  "twoPhaseShutdown_start pid grace k =
     emitEvent pid ''Shutdown'' [(''phase'', AStr ''sigterm_sent''), (''grace_period_ms'', AInt (go_quot grace 1000000))] None k"

definition twoPhaseShutdown_end ::
  "kenv \<Rightarrow> PID \<Rightarrow> int \<Rightarrow> KillAttribution \<Rightarrow> bool \<Rightarrow> kernel \<Rightarrow> kernel option" where
  "twoPhaseShutdown_end env pid grace attr timer k =
     (let ev = (\<lambda>phase k. emitEvent pid ''Shutdown'' [(''phase'', AStr phase), (''grace_period_ms'', AInt (go_quot grace 1000000))] None k)
      in if timer
         then Some (snd (KillWithOrigin env pid SIGKILL (withEscalation ''grace_timeout'' attr) (ev ''grace_timeout'' k)))
         else case GetProcess k pid of
                None \<Rightarrow> None
              | Some p \<Rightarrow> if pr_terminated p then Some (ev ''grace_completed'' k) else None)"

section \<open>Signalling a tree\<close>

definition descendantAttribution :: "PID \<Rightarrow> KillAttribution \<Rightarrow> KillAttribution" where
  "descendantAttribution procPID attr =
     (let rootPID = (if ka_RootPID attr = 0 then procPID else ka_RootPID attr);
          rootOrigin = (if ka_RootOrigin attr = OriginEmpty
                        then (if ka_Origin attr = OriginEmpty then OriginUnknown else ka_Origin attr)
                        else ka_RootOrigin attr)
      in KillAttribution OriginParentCascade (ka_Requester attr) rootPID rootOrigin [])"

text \<open>The recursion follows the child lists without a visited set; \<open>None\<close> is running out of fuel.\<close>

primrec signalTreeRecursive ::
  "kenv \<Rightarrow> nat \<Rightarrow> Signal \<Rightarrow> KillAttribution \<Rightarrow> PID \<Rightarrow> nat \<times> kernel \<Rightarrow> (nat \<times> kernel) option" where
  "signalTreeRecursive env 0 sig attr pid st = None"
| "signalTreeRecursive env (Suc n) sig attr pid st =
     (case st of (affected, k) \<Rightarrow>
        case GetProcess k pid of
          None \<Rightarrow> Some st
        | Some p \<Rightarrow>
            if is_gone (pr_State p) then Some st
            else
              (case KillWithOrigin env pid sig attr k of
                 (err, k1) \<Rightarrow>
                   fold_opt (signalTreeRecursive env n sig (descendantAttribution pid attr)) (children_of k1 pid)
                     (if err = None then affected + 1 else affected, k1)))"

definition emitSignalTreeEventByPID :: "PID \<Rightarrow> Signal \<Rightarrow> nat \<Rightarrow> nat \<Rightarrow> go_error option \<Rightarrow> kernel \<Rightarrow> kernel" where
  "emitSignalTreeEventByPID pid sig affected skipped err k =
     (case GetProcess k pid of
        None \<Rightarrow> k
      | Some _ \<Rightarrow>
          emitEvent pid ''SignalTree''
            ([(''pid'', ANat pid), (''signal'', ASig sig), (''affected'', ANat affected), (''skipped'', ANat skipped)] @
             (case err of Some e \<Rightarrow> [(''err'', AErr e)] | None \<Rightarrow> [])) err k)"

definition SignalTreeWithOrigin ::
  "kenv \<Rightarrow> nat \<Rightarrow> PID \<Rightarrow> Signal \<Rightarrow> KillAttribution \<Rightarrow> kernel \<Rightarrow> ((go_error option \<times> nat) \<times> kernel) option" where
  "SignalTreeWithOrigin env fuel pid sig attr k =
     (if \<not> sig_valid sig then Some ((Some (SyscallError ''SignalTree'' pid ErrInvalid), 0), k)
      else if sig = SIGPAUSE then
        Some (case SuspendSubtree env pid k of
                (Inl e, k') \<Rightarrow> ((Some e, 0), emitSignalTreeEventByPID pid sig 0 0 (Some e) k')
              | (Inr n, k') \<Rightarrow> ((None, n), emitSignalTreeEventByPID pid sig n 0 None k'))
      else if sig = SIGRESUME then
        Some (case ResumeSubtree env pid k of
                (Inl e, k') \<Rightarrow> ((Some e, 0), emitSignalTreeEventByPID pid sig 0 0 (Some e) k')
              | (Inr (a, s), k') \<Rightarrow> ((None, a + s), emitSignalTreeEventByPID pid sig a s None k'))
      else case GetProcess k pid of
             None \<Rightarrow> Some ((Some (SyscallError ''SignalTree'' pid ErrNotFound), 0), k)
           | Some _ \<Rightarrow>
               map_option (\<lambda>(n, k'). ((None, n), k')) (signalTreeRecursive env fuel sig attr pid (0, k)))"

definition SignalTree :: "kenv \<Rightarrow> nat \<Rightarrow> PID \<Rightarrow> Signal \<Rightarrow> kernel \<Rightarrow> ((go_error option \<times> nat) \<times> kernel) option" where
  "SignalTree env fuel pid sig k = SignalTreeWithOrigin env fuel pid sig unknownAttribution k"

section \<open>Blocking signals\<close>

definition SigBlock :: "PID \<Rightarrow> Signal \<Rightarrow> kernel \<Rightarrow> go_error option \<times> kernel" where
  "SigBlock pid sig k =
     (if \<not> sig_valid sig then (Some (SyscallError ''SigBlock'' pid ErrInvalid), k)
      else if \<not> sig_blockable sig then (Some (SyscallError ''SigBlock'' pid ErrInvalid), k)
      else case GetProcess k pid of
             None \<Rightarrow> (Some (SyscallError ''SigBlock'' pid ErrNotFound), k)
           | Some p \<Rightarrow>
               if is_gone (pr_State p) then (Some (SyscallError ''SigBlock'' pid ErrNotFound), k)
               else (None, emitEvent pid ''SigBlock'' [(''pid'', ANat pid), (''signal'', ASig sig)] None
                             (putProc pid (BlockSignal sig p) k)))"

definition SigUnblock :: "kenv \<Rightarrow> PID \<Rightarrow> Signal \<Rightarrow> kernel \<Rightarrow> go_error option \<times> kernel" where
  "SigUnblock env pid sig k =
     (if \<not> sig_valid sig then (Some (SyscallError ''SigUnblock'' pid ErrInvalid), k)
      else case GetProcess k pid of
             None \<Rightarrow> (Some (SyscallError ''SigUnblock'' pid ErrNotFound), k)
           | Some p \<Rightarrow>
               if is_gone (pr_State p) then (Some (SyscallError ''SigUnblock'' pid ErrNotFound), k)
               else
                 (case UnblockSignal sig p of
                    (hasPending, p1) \<Rightarrow>
                      (let k1 = emitEvent pid ''SigUnblock''
                                  [(''pid'', ANat pid), (''signal'', ASig sig), (''had_pending'', ABool hasPending)] None
                                  (putProc pid p1 k)
                       in if hasPending then KSignal env pid sig (updProc pid (ClearPending sig) k1)
                          else (None, k1))))"

end
