(* ===== verification/KernelInv.thy ===== *)
theory KernelInv
  imports Signals
begin

text \<open>
  What every kernel operation keeps of every process: \<open>evo p q\<close> says that \<open>q\<close> is a legal later
  stage of \<open>p\<close>, \<open>evolves k k'\<close> that this holds across the process table. The relation is
  preserved by every operation of the lifecycle and signal theories, and lifted to any sequence of
  them by a transition system whose actions are those operations.
\<close>

section \<open>Legal evolution of a process\<close>

definition legal :: "(ProcessState \<times> ProcessState) set" where
  "legal = {(s, t). t \<in> set (validTransitions s)}"

text \<open>
  The invariant of one process: a zombie has its exit status recorded and its waiters released,
  only a process that is gone has released them, SIGKILL is not blocked, and every resume channel
  handed out earlier is closed, the current one only once the process is dead.
\<close>

definition proc_ok :: "Process \<Rightarrow> bool" where
  "proc_ok p \<longleftrightarrow>
     (pr_State p = StateZombie \<longrightarrow> pr_Exit p \<noteq> None \<and> pr_terminated p) \<and>
     (pr_terminated p \<longrightarrow> is_gone (pr_State p)) \<and>
     SIGKILL \<notin> pr_blockedSignals p \<and>
     {..<pr_resumedCh p} \<subseteq> pr_closedCh p \<and> pr_closedCh p \<subseteq> {..pr_resumedCh p} \<and>
     (pr_resumedCh p \<in> pr_closedCh p \<longrightarrow> pr_State p = StateDead)"

definition evo :: "Process \<Rightarrow> Process \<Rightarrow> bool" where
  "evo p q \<longleftrightarrow>
     pr_PID q = pr_PID p \<and> pr_UUID q = pr_UUID p \<and> (pr_State p, pr_State q) \<in> legal\<^sup>* \<and>
     (pr_terminated p \<longrightarrow> pr_terminated q) \<and> (pr_reapOnce p \<longrightarrow> pr_reapOnce q) \<and>
     (pr_shutdownStarted p \<longrightarrow> pr_shutdownStarted q) \<and>
     pr_resumedCh p \<le> pr_resumedCh q \<and> pr_closedCh p \<subseteq> pr_closedCh q \<and>
     (proc_ok p \<longrightarrow> proc_ok q)"

lemma legal_step: "t \<in> set (validTransitions s) \<Longrightarrow> (s, t) \<in> legal\<^sup>*"
  by (rule r_into_rtrancl) (simp add: legal_def)

lemma legal_terminal [simp]: "(StateDead, t) \<notin> legal" "(StateZombie, t) \<in> legal \<longleftrightarrow> t = StateDead"
  by (auto simp: legal_def)

lemma legal_from_dead: "(StateDead, t) \<in> legal\<^sup>* \<Longrightarrow> t = StateDead"
  by (erule converse_rtranclE) auto

lemma legal_from_zombie: "(StateZombie, t) \<in> legal\<^sup>* \<Longrightarrow> t = StateZombie \<or> t = StateDead"
  by (erule converse_rtranclE) (auto dest: legal_from_dead)

lemma legal_gone: "(s, t) \<in> legal\<^sup>* \<Longrightarrow> is_gone s \<Longrightarrow> is_gone t"
  by (auto simp: is_gone_def dest: legal_from_dead legal_from_zombie)

lemma evo_refl [simp]: "evo p p"
  by (simp add: evo_def)

lemma evo_trans: "evo p q \<Longrightarrow> evo q r \<Longrightarrow> evo p r"
  unfolding evo_def by (elim conjE, intro conjI) (auto intro: rtrancl_trans)

lemma NewProcess_proc_ok [simp]: "proc_ok (NewProcess pid u pp i sk t)"
  by (simp add: proc_ok_def NewProcess_def)

text \<open>The updates of one process the operations are made of.\<close>

named_theorems evo_intros \<open>legal evolution by the operations of one process\<close>

text \<open>An update that touches none of the fields of the relation.\<close>

lemma evo_frame:
  assumes "pr_PID q = pr_PID p" "pr_UUID q = pr_UUID p" "pr_State q = pr_State p" "pr_terminated q = pr_terminated p"
    "pr_reapOnce p \<longrightarrow> pr_reapOnce q" "pr_shutdownStarted p \<longrightarrow> pr_shutdownStarted q"
    "pr_resumedCh q = pr_resumedCh p" "pr_closedCh q = pr_closedCh p"
    "pr_State p = StateZombie \<longrightarrow> pr_Exit p \<noteq> None \<longrightarrow> pr_Exit q \<noteq> None"
    "SIGKILL \<notin> pr_blockedSignals p \<longrightarrow> SIGKILL \<notin> pr_blockedSignals q"
  shows "evo p q"
  using assms by (simp add: evo_def proc_ok_def)

lemma evo_simple [evo_intros, simp]:
  "evo p (Cancel p)" "evo p (RequestSuspend p)" "evo p (ClearSignalState p)" "evo p (TouchHeartbeat t p)"
  "evo p (ClearPending sig p)" "evo p (p\<lparr>pr_Done := d\<rparr>)" "evo p (p\<lparr>pr_handled := hs\<rparr>)"
  "evo p (p\<lparr>pr_checkpointErr := b\<rparr>)" "evo p (p\<lparr>pr_PPID := pp\<rparr>)" "evo p (p\<lparr>pr_writebackOnce := b\<rparr>)"
  "evo p (p\<lparr>pr_reapOnce := True\<rparr>)" "evo p (p\<lparr>pr_DebugChan := b, pr_LogChan := c\<rparr>)"
  "evo p (p\<lparr>pr_stepWriter := a, pr_eventWriter := b, pr_rawWriter := c\<rparr>)" "evo p (p\<lparr>pr_DeadAt := t'\<rparr>)"
  "evo p (p\<lparr>pr_FDTable := fds\<rparr>)" "evo p (p\<lparr>pr_FDTable := fds, pr_checkpointErr := b\<rparr>)"
  "evo p (p\<lparr>pr_cancelled := b, pr_LastHeartbeat := h\<rparr>)" "evo p (p\<lparr>pr_Exit := Some ex\<rparr>)"
  by (rule evo_frame;
      simp add: Cancel_def RequestSuspend_def ClearSignalState_def TouchHeartbeat_def ClearPending_def)+

lemma evo_send_done [evo_intros, simp]: "evo p (send_done ex p)"
  by (simp add: send_done_def split: option.split)

lemma evo_resolve: "evo p (snd (resolveSignalDisposition sig p))"
  by (rule evo_frame) (auto simp: resolveSignalDisposition_def split: option.splits)

lemma evo_BlockSignal: "sig \<noteq> SIGKILL \<Longrightarrow> evo p (BlockSignal sig p)"
  by (rule evo_frame) (auto simp: BlockSignal_def)

lemma evo_UnblockSignal: "evo p (snd (UnblockSignal sig p))"
  by (rule evo_frame) (auto simp: UnblockSignal_def)

lemma evo_shutdownStarted [simp]: "evo p (Cancel (p\<lparr>pr_shutdownStarted := True\<rparr>))"
  by (rule evo_frame) (auto simp: Cancel_def)

lemma evo_terminate [evo_intros, simp]: "evo p (terminate_ignore ex p)"
proof (cases "pr_State p = StateRunning")
  case True
  then show ?thesis
    by (auto simp: terminate_ignore_def Terminate_def transitionLocked_def evo_def proc_ok_def intro: legal_step)
next
  case False
  then show ?thesis
    by (cases "pr_State p") (auto simp: terminate_ignore_def Terminate_def transitionLocked_def)
qed

lemma evo_Start: "evo p (case Start p of Inl e \<Rightarrow> p | Inr q \<Rightarrow> q)"
  by (cases "pr_State p") (auto simp: Start_def Transition_def transitionLocked_def evo_def proc_ok_def intro: legal_step)

lemma evo_reap_ignore [evo_intros, simp]: "evo p (reap_ignore p)"
  by (cases "pr_State p")
    (auto simp: reap_ignore_def Reap_def Transition_def transitionLocked_def evo_def proc_ok_def intro: legal_step)

lemma evo_finish_locked: "evo p (snd (finish_locked ex p))"
  by (rule evo_frame) (simp_all add: finish_locked_def Let_def)

lemma Suspend_Inr: "Suspend p = Inr q \<longleftrightarrow> pr_State p = StateRunning \<and> q = p\<lparr>pr_State := StateSuspended\<rparr>"
  by (cases "pr_State p") (auto simp: Suspend_def Transition_def transitionLocked_def)

lemma Unsuspend_Inr:
  "Unsuspend p = Inr q \<longleftrightarrow> (pr_State p = StateCreated \<or> pr_State p = StateSuspended) \<and>
     q = p\<lparr>pr_State := StateRunning, pr_suspendRequested := False, pr_resumedCh := pr_resumedCh p + 1,
           pr_closedCh := insert (pr_resumedCh p) (pr_closedCh p)\<rparr>"
  by (cases "pr_State p") (auto simp: Unsuspend_def Transition_def transitionLocked_def Let_def)

lemma evo_suspend: "Suspend p = Inr q \<Longrightarrow> evo p (suspended_fields now reason ec q)"
  by (auto simp: Suspend_Inr suspended_fields_def evo_def proc_ok_def intro: legal_step)

lemma evo_unsuspend: "Unsuspend p = Inr q \<Longrightarrow> evo p (resumed_fields now q)"
  by (auto simp: Unsuspend_Inr resumed_fields_def Let_def evo_def proc_ok_def intro: legal_step split: option.splits
      elim: less_SucE)

lemma evo_rollback: "evo p (rollbackQuotaWakeResume now p)"
  by (auto simp: rollbackQuotaWakeResume_def split: sum.split dest: evo_suspend)

lemma evo_killed:
  assumes "Transition StateDead p = Inr p1" and "pr_State p = StateSuspended"
  shows "evo p (killed_fields now ex p1)"
    and "evo (killed_fields now ex p1) (closeTerminated (send_done ex' (killed_fields now ex p1)))"
  using assms
  by (auto simp: Transition_def transitionLocked_Inr killed_fields_def closeTerminated_def send_done_def evo_def proc_ok_def
      intro: legal_step split: option.split)

section \<open>Legal evolution of the table\<close>

fun evolve_entry :: "Process option \<Rightarrow> Process option \<Rightarrow> bool" where
  "evolve_entry None None = True"
| "evolve_entry None (Some q) = False"
| "evolve_entry (Some p) None = True"
| "evolve_entry (Some p) (Some q) = evo p q"

definition evolves :: "kernel \<Rightarrow> kernel \<Rightarrow> bool" where
  "evolves k k' \<longleftrightarrow> (\<forall>pid. evolve_entry (GetProcess k pid) (GetProcess k' pid))"

lemma evolve_entry_refl [simp]: "evolve_entry x x"
  by (cases x) simp_all

lemma evolve_entry_trans: "evolve_entry x y \<Longrightarrow> evolve_entry y z \<Longrightarrow> evolve_entry x z"
  by (cases x; cases y; cases z) (auto intro: evo_trans)

lemma evolves_refl [simp]: "evolves k k"
  by (simp add: evolves_def)

lemma evolves_trans: "evolves k k' \<Longrightarrow> evolves k' k'' \<Longrightarrow> evolves k k''"
  unfolding evolves_def by (blast intro: evolve_entry_trans)

text \<open>Operations outside the table.\<close>

lemma GetProcess_frame [simp]:
  "GetProcess (out c k) pid = GetProcess k pid" "GetProcess (out_if b c k) pid = GetProcess k pid"
  "GetProcess (emitEvent p s a e k) pid = GetProcess k pid" "GetProcess (push_reap p k) pid = GetProcess k pid"
  "GetProcess (closeMsgQueue p k) pid = GetProcess k pid" "GetProcess (saveProcInfo p k) pid = GetProcess k pid"
  "GetProcess (k\<lparr>k_reapCh := x1\<rparr>) pid = GetProcess k pid" "GetProcess (k\<lparr>k_reaperGo := x1\<rparr>) pid = GetProcess k pid"
  "GetProcess (k\<lparr>k_recording := x2\<rparr>) pid = GetProcess k pid" "GetProcess (k\<lparr>k_shutdowns := x3\<rparr>) pid = GetProcess k pid"
  "GetProcess (k\<lparr>k_procHistory := x4\<rparr>) pid = GetProcess k pid" "GetProcess (k\<lparr>k_msgQueues := x5\<rparr>) pid = GetProcess k pid"
  "GetProcess (finish_feed p q ex k) pid = GetProcess k pid" "GetProcess (finish_callbacks p q ex k) pid = GetProcess k pid"
  "GetProcess (finish_unmount env p path k) pid = GetProcess k pid" "GetProcess (history_upsert q k) pid = GetProcess k pid"
  "GetProcess (emitResumeSkipped p b1 b2 st k) pid = GetProcess k pid"
  "GetProcess (emitSignalTreeEventByPID p sig n1 n2 er k) pid = GetProcess k pid"
  by (simp_all add: GetProcess_def out_def out_if_def emitEvent_def push_reap_def closeMsgQueue_def saveProcInfo_def
      finish_feed_def finish_callbacks_def finish_unmount_def history_upsert_def emitResumeSkipped_def
      emitSignalTreeEventByPID_def Let_def split: option.splits prod.splits)

lemma evolves_frame:
  assumes "\<And>pid. GetProcess k'' pid = GetProcess k' pid"
  shows "evolves k k'' \<longleftrightarrow> evolves k k'" and "evolves k'' k \<longleftrightarrow> evolves k' k"
  using assms by (simp_all add: evolves_def)

lemma evolves_frames [simp]:
  "evolves k (out c k') = evolves k k'" "evolves k (out_if b c k') = evolves k k'"
  "evolves k (emitEvent p s a e k') = evolves k k'" "evolves k (push_reap p k') = evolves k k'"
  "evolves k (closeMsgQueue p k') = evolves k k'" "evolves k (saveProcInfo p k') = evolves k k'"
  "evolves k (k'\<lparr>k_reapCh := x1\<rparr>) = evolves k k'" "evolves k (k'\<lparr>k_reaperGo := x1\<rparr>) = evolves k k'"
  "evolves k (k'\<lparr>k_recording := x2\<rparr>) = evolves k k'" "evolves k (k'\<lparr>k_shutdowns := x3\<rparr>) = evolves k k'"
  "evolves k (finish_feed p q ex k') = evolves k k'" "evolves k (finish_callbacks p q ex k') = evolves k k'"
  "evolves k (finish_unmount env p path k') = evolves k k'" "evolves k (history_upsert q k') = evolves k k'"
  "evolves k (emitResumeSkipped p b1 b2 st k') = evolves k k'"
  "evolves k (emitSignalTreeEventByPID p sig n1 n2 er k') = evolves k k'"
  by (simp_all add: evolves_def)

lemma GetProcess_put:
  "GetProcess (putProc pid q k) x = (if x = pid \<and> GetProcess k pid \<noteq> None then Some q else GetProcess k x)"
  by (auto simp: putProc_def GetProcess_def sm.lookup_store split: option.split)

lemma GetProcess_upd:
  "GetProcess (updProc pid f k) x = (if x = pid then map_option f (GetProcess k x) else GetProcess k x)"
  by (auto simp: updProc_def GetProcess_put split: option.split)

lemma evolves_put: "GetProcess k pid = Some p \<Longrightarrow> evo p q \<Longrightarrow> evolves k (putProc pid q k)"
  by (simp add: evolves_def GetProcess_put)

lemma evolves_upd: "(\<And>p. evo p (f p)) \<Longrightarrow> evolves k (updProc pid f k)"
  unfolding evolves_def GetProcess_upd
  by (rule allI, rename_tac pidx, case_tac "GetProcess k pidx") auto

lemma evolves_fold: "(\<And>x k. evolves k (f x k)) \<Longrightarrow> evolves k (fold f xs k)"
  by (induction xs arbitrary: k) (auto intro: evolves_trans)

lemma GetProcess_fold_frame:
  "(\<And>x k. GetProcess (f x k) pid = GetProcess k pid) \<Longrightarrow> GetProcess (fold f xs k) pid = GetProcess k pid"
  by (induction xs arbitrary: k) simp_all

section \<open>Every operation\<close>

lemma GetProcess_k1_put:
  "GetProcess k pid = Some p \<Longrightarrow> GetProcess (putProc pid q k) pid = Some q"
  by (simp add: GetProcess_put)

lemma evolves_after_put:
  "GetProcess k pid = Some p \<Longrightarrow> evo p q \<Longrightarrow> evolves (putProc pid q k) k' \<Longrightarrow> evolves k k'"
  by (rule evolves_trans [OF evolves_put])

lemma evolves_finishProcess [evo_intros]: "evolves k (finishProcess env pid ex k)"
proof (cases "GetProcess k pid")
  case None
  then show ?thesis by (simp add: finishProcess_def)
next
  case (Some p0)
  obtain ex' p where fl: "finish_locked ex p0 = (ex', p)" by fastforce
  have "evo p0 p" using evo_finish_locked [of p0 ex] fl by simp
  note put = evolves_put [OF Some this]
  let ?k1 = "finish_feed pid p ex' (putProc pid p k)"
  let ?k2 = "if SubMounts \<in> k_subsystems ?k1 then fold (finish_unmount env pid) (pr_MCPMounts p) ?k1 else ?k1"
  let ?k3 = "saveProcInfo pid (updProc pid (terminate_ignore ex') ?k2)"
  let ?k4 = "out_if (SubRecorder \<in> k_subsystems ?k3 \<and> pid \<in> k_recording ?k3) (ORecordState pid (exit_Reason ex')) ?k3"
  let ?k6 = "updProc pid (send_done ex') (finish_callbacks pid p ex' ?k4)"
  have "evolves k ?k1" using put by simp
  moreover have "evolves ?k1 ?k2" by (simp add: evolves_fold)
  moreover have "evolves ?k2 ?k3" by (simp add: evolves_upd)
  moreover have "evolves ?k3 (finish_callbacks pid p ex' ?k4)" by simp
  moreover have "evolves (finish_callbacks pid p ex' ?k4) ?k6" by (simp add: evolves_upd)
  ultimately have "evolves k ?k6" by (blast intro: evolves_trans)
  then show ?thesis using Some fl by (simp add: finishProcess_def Let_def)
qed

text \<open>What finishing leaves in the table.\<close>

definition finished :: "ExitStatus \<Rightarrow> Process \<Rightarrow> Process" where
  "finished ex p = (case finish_locked ex p of (ex', q) \<Rightarrow> send_done ex' (terminate_ignore ex' q))"

lemma GetProcess_finish:
  "GetProcess (finishProcess env pid ex k) x
   = (if x = pid then map_option (finished ex) (GetProcess k x) else GetProcess k x)"
proof (cases "GetProcess k pid")
  case None
  then show ?thesis by (simp add: finishProcess_def)
next
  case (Some p0)
  obtain ex' p where fl: "finish_locked ex p0 = (ex', p)" by fastforce
  define k1 where "k1 = finish_feed pid p ex' (putProc pid p k)"
  define k2 where "k2 = (if SubMounts \<in> k_subsystems k1 then fold (finish_unmount env pid) (pr_MCPMounts p) k1 else k1)"
  define k5 where "k5 = finish_callbacks pid p ex' (out_if
      (SubRecorder \<in> k_subsystems (saveProcInfo pid (updProc pid (terminate_ignore ex') k2)) \<and>
       pid \<in> k_recording (saveProcInfo pid (updProc pid (terminate_ignore ex') k2)))
      (ORecordState pid (exit_Reason ex')) (saveProcInfo pid (updProc pid (terminate_ignore ex') k2)))"
  have g2: "GetProcess k2 x = GetProcess (putProc pid p k) x" for x
    by (simp add: k2_def k1_def GetProcess_fold_frame)
  have g5: "GetProcess k5 x = GetProcess (updProc pid (terminate_ignore ex') k2) x" for x
    by (simp add: k5_def)
  have "finishProcess env pid ex k =
      (if pr_PPID p > 0 \<and> GetProcess (updProc pid (send_done ex') k5) (pr_PPID p) = None
       then push_reap pid (updProc pid (send_done ex') k5) else updProc pid (send_done ex') k5)"
    by (simp only: finishProcess_def Some option.case fl prod.case Let_def k1_def k2_def k5_def)
  then show ?thesis
    using Some fl by (simp add: GetProcess_upd GetProcess_put g5 g2 finished_def)
qed

lemma evolves_notifySuspendDone [evo_intros]: "evolves k (notifySuspendDone pid k)"
  unfolding notifySuspendDone_def by (rule evolves_upd) simp

lemma evolves_wgWait [evo_intros]: "evolves k (wgWait env pid k)"
  by (auto simp: wgWait_def evolves_notifySuspendDone evolves_finishProcess split: goroutine_exit.split)

lemma evolves_suspendProcess [evo_intros]: "evolves k (snd (suspendProcess env pid reason ec k))"
proof (cases "GetProcess k pid")
  case None
  then show ?thesis by (simp add: suspendProcess_def)
next
  case (Some p0)
  let ?p = "p0\<lparr>pr_FDTable := [], pr_checkpointErr := False\<rparr>"
  let ?k1 = "fold (\<lambda>(fd, live) k. out_if live (OCloseFile pid fd) k) (pr_FDTable p0) (putProc pid ?p k)"
  have g: "GetProcess ?k1 x = GetProcess (putProc pid ?p k) x" for x
    by (rule GetProcess_fold_frame) (simp split: prod.splits)
  have e: "evolves k ?k1"
    using evolves_put [OF Some, of ?p] g by (simp add: evolves_def)
  show ?thesis
  proof (cases "Suspend ?p")
    case (Inl e)
    with e Some show ?thesis by (simp add: suspendProcess_def Let_def)
  next
    case (Inr p1)
    have "GetProcess ?k1 pid = Some ?p" using g GetProcess_k1_put [OF Some] by simp
    from evolves_put [OF this evo_suspend [OF Inr]] e
    have "evolves k (putProc pid (suspended_fields (e_now env) reason ec p1) ?k1)" by (rule evolves_trans [rotated])
    with Inr Some show ?thesis by (simp add: suspendProcess_def Let_def)
  qed
qed

lemma evolves_KSuspend: "evolves k (snd (KSuspend env pid k))"
proof -
  have f: "evo p (Cancel (RequestSuspend p)\<lparr>pr_Exit := Some ex\<rparr>)" for p ex
    by (rule evo_frame) (simp_all add: Cancel_def RequestSuspend_def)
  have "evolves k (wgWait env pid (updProc pid (\<lambda>p. Cancel (RequestSuspend p)\<lparr>pr_Exit := Some ex\<rparr>) k))" for ex
    by (rule evolves_trans [OF evolves_upd evolves_wgWait]) (rule f)
  then show ?thesis
    by (auto simp: KSuspend_def Let_def intro: evolves_trans evolves_suspendProcess split: option.split)
qed

lemma evolves_selfSuspend: "evolves k (snd (selfSuspend env pid reason ec k))"
  unfolding selfSuspend_def by (rule evolves_trans [OF evolves_upd evolves_suspendProcess]) simp

lemma evolves_orphan: "evolves k (orphan_child ppid cpid k)"
proof (cases "GetProcess k cpid")
  case None
  then show ?thesis by (simp add: orphan_child_def)
next
  case (Some c)
  then show ?thesis
    using evolves_put [OF Some, of "c\<lparr>pr_PPID := 0\<rparr>"] by (simp add: orphan_child_def split: ProcessState.split)
qed

lemma evolves_handleOrphans: "evolves k (handleOrphanChildren pid k)"
  by (simp add: handleOrphanChildren_def evolves_fold evolves_orphan split: option.split)

lemma evolves_closeWriters: "evolves k (closeWriters b pid k)"
  by (auto simp: closeWriters_def Let_def intro!: evolves_put split: option.split)

lemma evolves_closeChannels: "evolves k (closeChannels pid k)"
  by (auto simp: closeChannels_def Let_def intro!: evolves_put split: option.split)

lemma evolves_clearRuntime: "evolves k (clearRuntime pid k)"
  by (simp add: clearRuntime_def evolves_upd)

lemmas evolves_parts = evolves_handleOrphans evolves_closeWriters evolves_closeChannels evolves_clearRuntime
  evolves_wgWait

lemma evo_reap_dead: "evo p ((reap_ignore p)\<lparr>pr_DeadAt := t\<rparr>)"
  by (rule evo_trans [OF evo_reap_ignore]) simp

text \<open>The same facts as steps of a chain.\<close>

lemma evolves_steps [evo_intros]:
  "evolves k k' \<Longrightarrow> (\<And>p. evo p (f p)) \<Longrightarrow> evolves k (updProc pid f k')"
  "evolves k k' \<Longrightarrow> evolves k (clearRuntime pid k')"
  "evolves k k' \<Longrightarrow> evolves k (closeChannels pid k')"
  "evolves k k' \<Longrightarrow> evolves k (closeWriters b pid k')"
  "evolves k k' \<Longrightarrow> evolves k (wgWait env pid k')"
  "evolves k k' \<Longrightarrow> evolves k (handleOrphanChildren pid k')"
  "evolves k k' \<Longrightarrow> evolves k (finishProcess env pid ex k')"
  by (blast intro: evolves_trans evolves_upd evolves_parts evolves_finishProcess)+

lemma evolves_reap_stages:
  "evolves k k' \<Longrightarrow> evolves k (reap_spans pid p0 k')"
  "evolves k k' \<Longrightarrow> evolves k (reap_quiesce env pid p0 k')"
  "evolves k k' \<Longrightarrow> evolves k (reap_files pid k')"
  "evolves k k' \<Longrightarrow> evolves k (reap_release pid p0 k')"
proof -
  show spans: "evolves k k' \<Longrightarrow> evolves k (reap_spans pid p0 k')" for k'
    by (simp add: reap_spans_def Let_def)
  show "evolves k k' \<Longrightarrow> evolves k (reap_quiesce env pid p0 k')"
    unfolding reap_quiesce_def by (intro evolves_steps spans; simp)
  show "evolves k k' \<Longrightarrow> evolves k (reap_files pid k')"
    by (simp add: reap_files_def Let_def evolves_steps)
  show "evolves k k' \<Longrightarrow> evolves k (reap_release pid p0 k')"
    by (simp add: reap_release_def Let_def evolves_steps)
qed

lemma evolves_reap_body: "evolves k (reap_body env pid p0 k)"
  unfolding reap_body_def by (simp, intro evolves_steps evolves_reap_stages evo_reap_dead; simp)

lemma evolves_reapProcess: "evolves k (reapProcess env pid k)"
proof (cases "GetProcess k pid")
  case None
  then show ?thesis by (simp add: reapProcess_def)
next
  case (Some p)
  define k1 where "k1 = (if pr_reapOnce p then k else reap_body env pid p (putProc pid (p\<lparr>pr_reapOnce := True\<rparr>) k))"
  have e: "evolves k k1"
    using evolves_trans [OF evolves_put [OF Some] evolves_reap_body] by (simp add: k1_def)
  have r: "reapProcess env pid k = (case GetProcess k1 pid of None \<Rightarrow> k1 | Some p1 \<Rightarrow>
      if SubWriteback \<in> k_subsystems k1 \<and> \<not> pr_writebackOnce p1
      then out_if (pr_Exit p1 \<noteq> None) (OWriteback pid) (putProc pid (p1\<lparr>pr_writebackOnce := True\<rparr>) k1) else k1)"
    by (simp only: reapProcess_def Some option.case Let_def k1_def)
  show ?thesis
  proof (cases "GetProcess k1 pid")
    case None
    with e r show ?thesis by simp
  next
    case (Some p1)
    from evolves_trans [OF e evolves_put [OF Some, of "p1\<lparr>pr_writebackOnce := True\<rparr>"]] e r Some
    show ?thesis by simp
  qed
qed

lemma evolves_reapSuspended: "evolves k (reapSuspendedProcess pid k)"
proof (cases "GetProcess k pid")
  case None
  then show ?thesis by (simp add: reapSuspendedProcess_def)
next
  case (Some p)
  have "evolves k (putProc pid (p\<lparr>pr_reapOnce := True\<rparr>) k)" by (rule evolves_put [OF Some]) simp
  then show ?thesis using Some by (simp add: reapSuspendedProcess_def Let_def evolves_steps)
qed

lemma evolves_killSuspended:
  assumes "GetProcess k pid = Some p" and "pr_State p = StateSuspended"
  shows "evolves k (snd (killSuspendedProcess env pid sig sc attr k))"
proof -
  obtain p1 where p1: "Transition StateDead p = Inr p1"
    using assms(2) by (simp add: Transition_def transitionLocked_def)
  let ?ex = "ExitStatus 1 (sig_string sig @ '' while suspended'') [] None"
  let ?p2 = "killed_fields (e_now env) ?ex p1"
  let ?k1 = "emitEvent pid sc (killEventArgs pid sig attr @ [(''action'', AStr ''killed_suspended'')]) None (putProc pid ?p2 k)"
  have "evolves k ?k1" using evolves_put [OF assms(1) evo_killed(1) [OF p1 assms(2)]] by simp
  moreover have "evolves ?k1 (putProc pid (closeTerminated (send_done ?ex ?p2)) ?k1)"
    by (rule evolves_put [OF _ evo_killed(2) [OF p1 assms(2)]]) (simp add: GetProcess_k1_put [OF assms(1)])
  ultimately have "evolves k (putProc pid (closeTerminated (send_done ?ex ?p2)) ?k1)" by (rule evolves_trans)
  from evolves_trans [OF this evolves_reapSuspended [of _ pid]]
  show ?thesis using assms(1) p1 by (simp add: killSuspendedProcess_def Let_def)
qed

lemma evolves_Wait:
  "Wait_recv env pid k = Some (ex, k') \<Longrightarrow> evolves k k'"
  "evolves k (snd (Wait_enter pid k))"
  by (auto simp: Wait_recv_def Wait_enter_def split: option.splits
      intro!: evolves_trans [OF _ evolves_reapProcess] evolves_put)

lemma evolves_WaitChild: "WaitChild_step env parent child sel k = Some (r, k') \<Longrightarrow> evolves k k'"
  by (auto simp: WaitChild_step_def Let_def evolves_upd split: wait_sel.splits option.splits if_splits
      intro!: evolves_trans [OF _ evolves_reapProcess] evolves_put)

lemma evolves_reapers:
  "evolves k (KReap env pid k)" "evolves k (reaper_recv env k)" "evolves k (reaper_fallback env k)"
proof -
  show kr: "evolves k (KReap env pid k)" for pid k
    by (simp add: KReap_def evolves_reapProcess split: option.split)
  show "evolves k (reaper_recv env k)"
    using kr [of "k\<lparr>k_reapCh := tl (k_reapCh k)\<rparr>"]
    by (auto simp: reaper_recv_def evolves_def split: list.split)
  show "evolves k (reaper_fallback env k)"
    using evolves_reapProcess [of "k\<lparr>k_reaperGo := tl (k_reaperGo k)\<rparr>" env]
    by (auto simp: reaper_fallback_def evolves_def split: list.split)
qed

lemma evolves_cleanup: "evolves k (cleanupExpiredDead now ttl k)"
proof -
  have "evolves k (RemoveProcess pid k)" for pid k
    unfolding evolves_def
    by (rule allI, rename_tac x, case_tac "GetProcess k x"; case_tac "x = pid")
      (auto simp: RemoveProcess_def GetProcess_def sm.lookup_remove)
  then have "evolves k k' \<Longrightarrow> evolves k (RemoveProcess pid k')" for pid k k' by (blast intro: evolves_trans)
  then have "evolves k (remove_expired pid k)" for pid k
    by (simp add: remove_expired_def split: option.split)
  then show ?thesis unfolding cleanupExpiredDead_def by (rule evolves_fold)
qed

section \<open>Subtrees and signals\<close>

lemma evolves_suspend_node: "evolves (snd st) (snd (suspend_node env pid st))"
proof -
  obtain n k where st: "st = (n, k)" by fastforce
  have "evo p (Cancel (RequestSuspend p))" for p by (rule evo_frame) (simp_all add: Cancel_def RequestSuspend_def)
  then have "evolves k (snd (suspendOneForSubtree env r pid k))" for r
    unfolding suspendOneForSubtree_def
    by (auto split: option.split intro!: evolves_trans [OF _ evolves_suspendProcess] evolves_steps)
  then show ?thesis
    by (auto simp: suspend_node_def st split: option.split prod.split) (metis snd_conv)+
qed

lemma fold_snd_evolves:
  assumes "\<And>x st. evolves (snd st) (snd (f x st))"
  shows "evolves (snd st) (snd (fold f xs st))"
proof (induction xs arbitrary: st)
  case (Cons x xs)
  from evolves_trans [OF assms Cons.IH [of "f x st"]] show ?case by simp
qed simp

lemma evolves_suspend_passes: "evolves (snd st) (snd (suspend_passes env n root st))"
proof (induction n arbitrary: st)
  case (Suc n)
  obtain tot k where st: "st = (tot, k)" by fastforce
  obtain a k' where p: "suspend_pass env root k = (a, k')" by fastforce
  have "evolves k k'"
    using fold_snd_evolves [of "suspend_node env" "(0, k)", OF evolves_suspend_node] p
    by (simp add: suspend_pass_def) (metis snd_conv)
  with Suc.IH [of "(tot + a, k')"] show ?case by (auto simp: st p intro: evolves_trans)
qed simp

lemma evolves_suspendSubtree: "evolves k (snd (suspendSubtree env root k))"
  unfolding suspendSubtree_def using evolves_suspend_passes [of "(0, k)" env 3 root] by simp

lemma evolves_SuspendSubtree: "evolves k (snd (SuspendSubtree env root k))"
  using evolves_suspendSubtree [of k env root] by (auto simp: SuspendSubtree_def split: option.split prod.split)

lemma evolves_resumeOne: "evolves k (snd (resumeOneForSubtreeMode env q pid k))"
proof (cases "GetProcess k pid")
  case None
  then show ?thesis by (simp add: resumeOneForSubtreeMode_def)
next
  case (Some p0)
  show ?thesis
  proof (cases "Unsuspend p0")
    case (Inl e)
    with Some show ?thesis by (simp add: resumeOneForSubtreeMode_def)
  next
    case (Inr p1)
    let ?p2 = "resumed_fields (e_now env) p1"
    let ?k1 = "saveProcInfo pid (putProc pid ?p2 k)"
    let ?p3 = "?p2\<lparr>pr_cancelled := False, pr_LastHeartbeat := Some (e_now env)\<rparr>"
    let ?k2 = "putProc pid ?p3 ?k1"
    have e1: "evolves k ?k1" using evolves_put [OF Some evo_unsuspend [OF Inr]] by simp
    have g1: "GetProcess ?k1 pid = Some ?p2" by (simp add: GetProcess_k1_put [OF Some])
    have e2: "evolves k ?k2" by (rule evolves_trans [OF e1 evolves_put [OF g1]]) simp
    have g2: "GetProcess ?k2 pid = Some ?p3" by (rule GetProcess_k1_put [OF g1])
    have e3: "evolves k (putProc pid q' ?k2)" if "evo ?p3 q'" for q' by (rule evolves_trans [OF e2 evolves_put [OF g2 that]])
    show ?thesis
      using Some Inr e1 e2 e3 [OF evo_rollback [of ?p3 "e_now env"]] e3 [of "?p3\<lparr>pr_FDTable := fds\<rparr>" for fds]
      by (auto simp: resumeOneForSubtreeMode_def Let_def intro!: evolves_steps(7) split: sum.split)
  qed
qed

lemma evolves_resumeSubtree: "evolves k (snd (resumeSubtreeLocked env root k))"
proof -
  have node: "evolves (ra_kernel a) (ra_kernel (resume_node env pid a))" for pid a
    using evolves_resumeOne [of "ra_kernel a" env False pid]
    by (auto simp: resume_node_def resumeOneForSubtree_def split: option.split ProcessState.split prod.split)
  have "evolves (ra_kernel a) (ra_kernel (fold (resume_node env) xs a))" for xs a
  proof (induction xs arbitrary: a)
    case (Cons x xs)
    from evolves_trans [OF node Cons.IH [of "resume_node env x a"]] show ?case by simp
  qed simp
  from this [of "\<lparr>ra_affected = 0, ra_skipped = 0, ra_allRunning = True, ra_kernel = k\<rparr>" "collectSubtreePIDs k root"]
  show ?thesis by (simp add: resumeSubtreeLocked_def Let_def)
qed

lemma evolves_ResumeSubtree: "evolves k (snd (ResumeSubtree env root k))"
  using evolves_resumeSubtree [of k env root] by (auto simp: ResumeSubtree_def split: option.split prod.split)

lemma evolves_default: "evolves k (snd (defaultSignalAction env pid sig attr k))"
  using evolves_suspendSubtree [of k env pid] evolves_ResumeSubtree [of k env pid]
  by (auto simp: defaultSignalAction_def evolves_upd intro!: evolves_put split: option.split prod.split sum.split)

lemma evolves_deliver: "evolves k (snd (deliverSignal env pid sig attr k))"
proof (cases "GetProcess k pid")
  case None
  then show ?thesis by (simp add: deliverSignal_def)
next
  case (Some p)
  obtain d p' where r: "resolveSignalDisposition sig p = (d, p')" by fastforce
  then have e: "evo p p'" using evo_resolve [of p sig] by simp
  from evo_trans [OF e] have "evo p (p'\<lparr>pr_handled := hs\<rparr>)" for hs by simp
  with Some r e show ?thesis
    by (auto simp: deliverSignal_def intro: evolves_put evolves_trans [OF evolves_put evolves_default]
        split: signalDisposition.split)
qed

lemma evolves_KSignal: "evolves k (snd (KSignal env pid sig k))"
  using evolves_ResumeSubtree [of k env pid] evolves_deliver [of k env pid sig unknownAttribution]
    evolves_killSuspended [of k pid _ env sig "''Signal''" unknownAttribution]
  by (auto simp: KSignal_def Let_def split: option.split prod.split sum.split)

lemma evolves_Kill: "evolves k (snd (KillWithOrigin env pid sig attr k))"
proof (cases "GetProcess k pid")
  case None
  then show ?thesis by (simp add: KillWithOrigin_def Let_def)
next
  case (Some p)
  let ?k1 = "emitEvent pid ''Kill'' (killEventArgs pid sig attr @ []) None k"
  have d: "evolves k (snd (deliverSignal env pid sig attr ?k1))" using evolves_deliver [of ?k1] by (simp add: evolves_def)
  have s: "evolves k (snd (killSuspendedProcess env pid sig ''Kill'' attr ?k1))" if "pr_State p = StateSuspended"
    using evolves_killSuspended [of ?k1 pid p] Some that by (simp add: evolves_def)
  show ?thesis
    using Some d s by (auto simp: KillWithOrigin_def Let_def split: option.split prod.split)
qed

lemma evolves_fold_opt:
  assumes "\<And>x st st'. f x st = Some st' \<Longrightarrow> evolves (snd st) (snd st')" and "fold_opt f xs st = Some st'"
  shows "evolves (snd st) (snd st')"
  using assms(2)
proof (induction xs arbitrary: st)
  case (Cons x xs)
  then obtain st1 where "f x st = Some st1" "fold_opt f xs st1 = Some st'" by (auto split: option.splits)
  from evolves_trans [OF assms(1) [OF this(1)] Cons.IH [OF this(2)]] show ?case .
qed simp

lemma evolves_signalTreeRec:
  "signalTreeRecursive env n sig attr pid st = Some st' \<Longrightarrow> evolves (snd st) (snd st')"
proof (induction n arbitrary: attr pid st st')
  case (Suc n)
  obtain a k where st: "st = (a, k)" by fastforce
  obtain err k1 where kill: "KillWithOrigin env pid sig attr k = (err, k1)" by fastforce
  have e1: "evolves k k1" using evolves_Kill [of k env pid sig attr] kill by simp
  show ?case
  proof (cases "\<exists>p. GetProcess k pid = Some p \<and> \<not> is_gone (pr_State p)")
    case False
    with Suc.prems st show ?thesis by (auto split: option.splits if_splits)
  next
    case True
    with Suc.prems st kill have "fold_opt (signalTreeRecursive env n sig (descendantAttribution pid attr)) (children_of k1 pid)
        (if err = None then a + 1 else a, k1) = Some st'" by auto
    from evolves_fold_opt [OF Suc.IH this] have "evolves k1 (snd st')" by simp
    with e1 st show ?thesis by (auto intro: evolves_trans)
  qed
qed simp

lemma evolves_SignalTree:
  "SignalTreeWithOrigin env fuel pid sig attr k = Some (r, k') \<Longrightarrow> evolves k k'"
  using evolves_SuspendSubtree [of k env pid] evolves_ResumeSubtree [of k env pid]
    evolves_signalTreeRec [of env fuel sig attr pid "(0, k)"]
  by (auto simp: SignalTreeWithOrigin_def split: if_splits option.splits prod.splits sum.splits)

lemma evolves_SigBlock: "evolves k (snd (SigBlock pid sig k))"
  by (auto simp: SigBlock_def sig_blockable_def intro!: evolves_put evo_BlockSignal split: option.split)

lemma evolves_SigUnblock: "evolves k (snd (SigUnblock env pid sig k))"
proof (cases "GetProcess k pid")
  case None
  then show ?thesis by (simp add: SigUnblock_def)
next
  case (Some p)
  obtain h p1 where u: "UnblockSignal sig p = (h, p1)" by fastforce
  have "evolves k (putProc pid p1 k)"
    using evolves_put [OF Some, of p1] evo_UnblockSignal [of p sig] u by simp
  with Some u show ?thesis
    by (auto simp: SigUnblock_def Let_def intro!: evolves_trans [OF _ evolves_KSignal] evolves_steps)
qed

lemma evolves_shutdown_end: "twoPhaseShutdown_end env pid g attr timer k = Some k' \<Longrightarrow> evolves k k'"
  using evolves_Kill [of "emitEvent pid ''Shutdown'' [(''phase'', AStr ''grace_timeout''), (''grace_period_ms'', AInt (go_quot g 1000000))] None k"
      env pid SIGKILL "withEscalation ''grace_timeout'' attr"]
  by (auto simp: twoPhaseShutdown_end_def Let_def evolves_def split: if_splits option.splits)

end
