(* ===== verification/KernelRun.thy ===== *)
theory KernelRun
  imports KernelInv
begin

text \<open>
  The kernel as a transition system: an action is one call of an operation of the lifecycle and
  signal theories, with the environment that answers it; a call that would block has no effect. PIDs
  come from a counter (\<open>nextPID\<close>). The properties of this theory hold after any sequence of actions
  from an empty kernel.
\<close>

datatype kop =
    KoSpawn string PID string "string list" | KoStart PID | KoAddChild PID PID | KoSetHandler PID Signal handler
  | KoSignal PID Signal | KoKill PID Signal KillAttribution | KoSignalTree nat PID Signal KillAttribution
  | KoSigBlock PID Signal | KoSigUnblock PID Signal
  | KoSuspend PID | KoSelfSuspend PID string int | KoSuspendSubtree PID | KoResumeSubtree PID | KoQuotaWake PID
  | KoFinish PID ExitStatus | KoWait PID | KoWaitChild PID PID wait_sel
  | KoReap PID | KoReaperRecv | KoReaperGo | KoCleanup int
  | KoShutdownEnd PID int KillAttribution bool

fun kstep :: "kenv \<times> kop \<Rightarrow> PID \<times> kernel \<Rightarrow> PID \<times> kernel" where
  "kstep (env, KoSpawn uuid ppid intent skills) (n, k) =
     (n + 1, AddProcess (NewProcess (n + 1) uuid ppid intent skills (e_now env)) k)"
| "kstep (env, KoStart pid) (n, k) = (n, updProc pid (\<lambda>p. case Start p of Inl _ \<Rightarrow> p | Inr q \<Rightarrow> q) k)"
| "kstep (env, KoAddChild pid c) (n, k) = (n, updProc pid (AddChild c) k)"
| "kstep (env, KoSetHandler pid sig h) (n, k) = (n, updProc pid (SetHandler sig h) k)"
| "kstep (env, KoSignal pid sig) (n, k) = (n, snd (KSignal env pid sig k))"
| "kstep (env, KoKill pid sig attr) (n, k) = (n, snd (KillWithOrigin env pid sig attr k))"
| "kstep (env, KoSignalTree fuel pid sig attr) (n, k) =
     (n, case SignalTreeWithOrigin env fuel pid sig attr k of None \<Rightarrow> k | Some (_, k') \<Rightarrow> k')"
| "kstep (env, KoSigBlock pid sig) (n, k) = (n, snd (SigBlock pid sig k))"
| "kstep (env, KoSigUnblock pid sig) (n, k) = (n, snd (SigUnblock env pid sig k))"
| "kstep (env, KoSuspend pid) (n, k) = (n, snd (KSuspend env pid k))"
| "kstep (env, KoSelfSuspend pid reason ec) (n, k) = (n, snd (selfSuspend env pid reason ec k))"
| "kstep (env, KoSuspendSubtree pid) (n, k) = (n, snd (SuspendSubtree env pid k))"
| "kstep (env, KoResumeSubtree pid) (n, k) = (n, snd (ResumeSubtree env pid k))"
| "kstep (env, KoQuotaWake pid) (n, k) = (n, snd (resumeOneForSubtreeQuotaWake env pid k))"
| "kstep (env, KoFinish pid ex) (n, k) = (n, finishProcess env pid ex k)"
| "kstep (env, KoWait pid) (n, k) = (n, case Wait_recv env pid k of None \<Rightarrow> k | Some (_, k') \<Rightarrow> k')"
| "kstep (env, KoWaitChild parent child sel) (n, k) =
     (n, case WaitChild_step env parent child sel k of None \<Rightarrow> k | Some (_, k') \<Rightarrow> k')"
| "kstep (env, KoReap pid) (n, k) = (n, KReap env pid k)"
| "kstep (env, KoReaperRecv) (n, k) = (n, reaper_recv env k)"
| "kstep (env, KoReaperGo) (n, k) = (n, reaper_fallback env k)"
| "kstep (env, KoCleanup ttl) (n, k) = (n, cleanupExpiredDead (e_now env) ttl k)"
| "kstep (env, KoShutdownEnd pid grace attr timer) (n, k) =
     (n, case twoPhaseShutdown_end env pid grace attr timer k of None \<Rightarrow> k | Some k' \<Rightarrow> k')"

definition krun :: "(kenv \<times> kop) list \<Rightarrow> PID \<times> kernel \<Rightarrow> PID \<times> kernel" where
  "krun ops s = fold kstep ops s"

lemma kstep_evolves:
  "(\<forall>u pp i sk. op \<noteq> KoSpawn u pp i sk) \<Longrightarrow> evolves k (snd (kstep (env, op) (n, k))) \<and> fst (kstep (env, op) (n, k)) = n"
proof (cases op)
  case (KoAddChild p c)
  have "evo q (AddChild c q)" for q by (rule evo_frame) (simp_all add: AddChild_def)
  then show ?thesis using KoAddChild by (simp add: evolves_upd)
next
  case (KoSetHandler p s h)
  have "evo q (SetHandler s h q)" for q by (rule evo_frame) (simp_all add: SetHandler_def)
  then show ?thesis using KoSetHandler by (simp add: evolves_upd)
qed (auto simp: evolves_upd evo_Start evolves_KSignal evolves_Kill evolves_SigBlock evolves_SigUnblock evolves_KSuspend
    evolves_selfSuspend evolves_SuspendSubtree evolves_ResumeSubtree resumeOneForSubtreeQuotaWake_def evolves_resumeOne
    evolves_finishProcess evolves_reapers evolves_cleanup
    intro: evolves_SignalTree evolves_Wait evolves_WaitChild evolves_shutdown_end split: option.split)

lemma NewProcess_sel [simp]:
  "pr_PID (NewProcess pid u pp i sk t) = pid" "pr_UUID (NewProcess pid u pp i sk t) = u"
  "pr_State (NewProcess pid u pp i sk t) = StateCreated"
  by (simp_all add: NewProcess_def)

lemma GetProcess_add: "GetProcess (AddProcess p k) x = (if x = pr_PID p then Some p else GetProcess k x)"
  by (simp add: GetProcess_def AddProcess_def sm.lookup_store)

definition sys_ok :: "PID \<times> kernel \<Rightarrow> bool" where
  "sys_ok s \<longleftrightarrow> (\<forall>pid p. GetProcess (snd s) pid = Some p \<longrightarrow> pid \<le> fst s \<and> pr_PID p = pid \<and> proc_ok p)"

lemma kstep_sys_ok:
  assumes "sys_ok s"
  shows "sys_ok (kstep (env, op) s)"
proof (cases "\<exists>u pp i sk. op = KoSpawn u pp i sk")
  case True
  then show ?thesis using assms
    by (cases s) (force simp: sys_ok_def GetProcess_add split: if_splits)
next
  case False
  obtain n k where s: "s = (n, k)" by (cases s)
  from kstep_evolves [of op k env n] False s have
    e: "evolves k (snd (kstep (env, op) s))" "fst (kstep (env, op) s) = n" by auto
  show ?thesis unfolding sys_ok_def
  proof (intro allI impI)
    fix pid q
    assume q: "GetProcess (snd (kstep (env, op) s)) pid = Some q"
    with e(1) have "evolve_entry (GetProcess k pid) (Some q)" by (metis evolves_def)
    then obtain p where p: "GetProcess k pid = Some p" "evo p q" by (cases "GetProcess k pid") auto
    with assms s e(2) show "pid \<le> fst (kstep (env, op) s) \<and> pr_PID q = pid \<and> proc_ok q"
      by (auto simp: sys_ok_def evo_def)
  qed
qed

lemma krun_sys_ok: "sys_ok s \<Longrightarrow> sys_ok (krun ops s)"
proof (induction ops arbitrary: s)
  case (Cons eo ops)
  obtain env op where "eo = (env, op)" by fastforce
  with Cons.IH [OF kstep_sys_ok [OF Cons.prems, of env op]] show ?case by (simp add: krun_def)
qed (simp add: krun_def)

lemma start_sys_ok [simp]: "sys_ok (n, NewKernel subs)"
  by (simp add: sys_ok_def GetProcess_def NewKernel_def NewSyncMap_def sm_load_def)

text \<open>
  C1: after any sequence of kernel operations, a zombie has its exit status recorded and its
  terminated channel closed, the terminated channel is closed only for processes that are gone,
  SIGKILL is blocked in no process, every earlier resume channel is closed and the current one is
  open unless the process is dead.
\<close>

theorem kernel_process_invariant:
  assumes "krun ops (0, NewKernel subs) = (n, k)" and "GetProcess k pid = Some p"
  shows "pr_PID p = pid \<and> pid \<le> n \<and>
    (pr_State p = StateZombie \<longrightarrow> pr_Exit p \<noteq> None \<and> pr_terminated p) \<and>
    (pr_terminated p \<longrightarrow> is_gone (pr_State p)) \<and> SIGKILL \<notin> pr_blockedSignals p \<and>
    {..<pr_resumedCh p} \<subseteq> pr_closedCh p \<and> (pr_resumedCh p \<in> pr_closedCh p \<longrightarrow> pr_State p = StateDead)"
proof -
  have "sys_ok (n, k)" using krun_sys_ok [OF start_sys_ok, of ops 0 subs] assms(1) by simp
  with assms(2) show ?thesis by (auto simp: sys_ok_def proc_ok_def)
qed

definition demo_env :: kenv where
  "demo_env = \<lparr>e_now = 100, e_goroutine = (\<lambda>_. GSuspendExit), e_unmount = (\<lambda>_. (None, 0)),
     e_reopen = (\<lambda>_. Inr 3), e_spanID = ''s'', e_template = (\<lambda>_. [])\<rparr>"

definition demo_kernel :: kernel where
  "demo_kernel = snd (krun [(demo_env, KoSpawn ''u'' 0 [] []), (demo_env, KoStart 1)] (0, NewKernel {}))"

lemmas table_eval = GetProcess_add GetProcess_upd GetProcess_put

lemma demo_kernel_proc:
  "GetProcess demo_kernel x = (if x = 1 then Some ((NewProcess 1 ''u'' 0 [] [] 100)\<lparr>pr_State := StateRunning\<rparr>) else None)"
  by (simp add: demo_kernel_def krun_def table_eval demo_env_def Start_def Transition_def transitionLocked_def)
    (simp add: NewProcess_def GetProcess_def NewKernel_def NewSyncMap_def sm_load_def)

theorem kernel_process_invariant_witness:
  "SIGKILL \<notin> pr_blockedSignals (the (GetProcess demo_kernel 1)) \<and> GetProcess demo_kernel 1 \<noteq> None"
proof -
  have run: "krun [(demo_env, KoSpawn ''u'' 0 [] []), (demo_env, KoStart 1)] (0, NewKernel {}) = (1, demo_kernel)"
    by (simp add: demo_kernel_def krun_def)
  show ?thesis
    using kernel_process_invariant [OF run, of 1] by (simp add: demo_kernel_proc)
qed

text \<open>Between two points of a run, an entry evolves legally: PIDs are not handed out twice.\<close>

lemma krun_entry:
  assumes "pid \<le> n"
  shows "evolve_entry (GetProcess k pid) (GetProcess (snd (krun ops (n, k))) pid)"
  using assms
proof (induction ops arbitrary: n k)
  case Nil
  then show ?case by (simp add: krun_def)
next
  case (Cons eo ops)
  obtain env op where eo: "eo = (env, op)" by fastforce
  obtain n' k' where step: "kstep (env, op) (n, k) = (n', k')" by fastforce
  have "evolve_entry (GetProcess k pid) (GetProcess k' pid) \<and> n \<le> n'"
  proof (cases "\<exists>u pp i sk. op = KoSpawn u pp i sk")
    case True
    with step Cons.prems show ?thesis by (auto simp: GetProcess_add NewProcess_def)
  next
    case False
    with kstep_evolves [of op k env n] step show ?thesis by (auto simp: evolves_def)
  qed
  with Cons.IH [of n' k'] Cons.prems step eo show ?case
    by (auto simp: krun_def intro: evolve_entry_trans)
qed

text \<open>
  C2: between any two points of a run a process moves only along the transition table: it keeps its
  UUID, once a zombie it can only become dead, once dead it stays dead until it is removed, and its
  closed channels stay closed.
\<close>

theorem process_moves_along_table:
  assumes "krun ops (0, NewKernel subs) = (n, k)" and "GetProcess k pid = Some p"
    and "krun later (n, k) = (n', k')" and "GetProcess k' pid = Some q"
  shows "pr_UUID q = pr_UUID p \<and> (pr_State p, pr_State q) \<in> {(s, t). t \<in> set (validTransitions s)}\<^sup>* \<and>
    (is_gone (pr_State p) \<longrightarrow> is_gone (pr_State q)) \<and> (pr_State p = StateDead \<longrightarrow> pr_State q = StateDead) \<and>
    (pr_terminated p \<longrightarrow> pr_terminated q) \<and> pr_closedCh p \<subseteq> pr_closedCh q"
proof -
  have "sys_ok (n, k)" using krun_sys_ok [OF start_sys_ok, of ops 0 subs] assms(1) by simp
  then have "pid \<le> n" using assms(2) by (auto simp: sys_ok_def)
  from krun_entry [OF this, of k later] assms(2-4) have e: "evo p q" by simp
  then have l: "(pr_State p, pr_State q) \<in> legal\<^sup>*" by (simp add: evo_def)
  with e show ?thesis using legal_gone [OF l] legal_from_dead l by (auto simp: evo_def legal_def)
qed

theorem process_moves_along_table_witness:
  "\<exists>n' k' q. krun [(demo_env, KoFinish 1 (ExitStatus 0 ''ok'' [] None))] (1, demo_kernel) = (n', k') \<and>
     GetProcess k' 1 = Some q \<and> pr_UUID q = ''u''"
proof -
  have run: "krun [(demo_env, KoSpawn ''u'' 0 [] []), (demo_env, KoStart 1)] (0, NewKernel {}) = (1, demo_kernel)"
    by (simp add: demo_kernel_def krun_def)
  let ?k' = "finishProcess demo_env 1 (ExitStatus 0 ''ok'' [] None) demo_kernel"
  have run2: "krun [(demo_env, KoFinish 1 (ExitStatus 0 ''ok'' [] None))] (1, demo_kernel) = (1, ?k')"
    by (simp add: krun_def)
  obtain q where q: "GetProcess ?k' 1 = Some q"
    by (simp add: GetProcess_finish demo_kernel_proc)
  have "GetProcess demo_kernel 1 = Some ((NewProcess 1 ''u'' 0 [] [] 100)\<lparr>pr_State := StateRunning\<rparr>)"
    by (simp add: demo_kernel_proc)
  from process_moves_along_table [OF run this run2 q] q run2 show ?thesis by (auto simp: NewProcess_def)
qed

end
