(* ===== verification/KernelProps.thy ===== *)
theory KernelProps
  imports KernelRun
begin

text \<open>
  The functional behaviour of the kernel's operations: what killing, waiting, suspending, resuming
  and blocking signals leave in the process table.
\<close>

section \<open>The fields the cleanup steps keep\<close>

definition core ::
  "Process \<Rightarrow> ProcessState \<times> string \<times> ExitStatus option \<times> ExitStatus option \<times> bool \<times> nat \<times> nat set \<times> bool" where
  "core p = (pr_State p, pr_SuspendReason p, pr_Exit p, pr_Done p, pr_terminated p, pr_resumedCh p, pr_closedCh p, pr_reapOnce p)"

abbreviation core_of :: "kernel \<Rightarrow> PID \<Rightarrow>
  (ProcessState \<times> string \<times> ExitStatus option \<times> ExitStatus option \<times> bool \<times> nat \<times> nat set \<times> bool) option" where
  "core_of k pid \<equiv> map_option core (GetProcess k pid)"

lemma core_of_put: "GetProcess k pid = Some p \<Longrightarrow> core q = core p \<Longrightarrow> core_of (putProc pid q k) x = core_of k x"
  by (simp add: GetProcess_put)

lemma core_of_upd: "(\<And>p. core (f p) = core p) \<Longrightarrow> core_of (updProc pid f k) x = core_of k x"
  by (simp add: GetProcess_upd option.map_comp comp_def)

lemma core_cleanup [simp]:
  "core_of (closeWriters b pid k) x = core_of k x" "core_of (closeChannels pid k) x = core_of k x"
  "core_of (clearRuntime pid k) x = core_of k x" "core_of (updProc pid Cancel k) x = core_of k x"
  "core_of (handleOrphanChildren pid k) x = core_of k x" "core_of (reap_spans pid p k) x = core_of k x"
proof -
  show "core_of (closeWriters b pid k) x = core_of k x"
    by (auto simp: closeWriters_def Let_def core_of_put core_def split: option.split)
  show "core_of (closeChannels pid k) x = core_of k x"
    by (auto simp: closeChannels_def Let_def core_of_put core_def split: option.split)
  show "core_of (clearRuntime pid k) x = core_of k x"
    by (simp add: clearRuntime_def) (rule core_of_upd, simp add: core_def ClearSignalState_def)
  show "core_of (updProc pid Cancel k) x = core_of k x"
    by (rule core_of_upd) (simp add: core_def Cancel_def)
  show "core_of (reap_spans pid p k) x = core_of k x" by (simp add: reap_spans_def Let_def)
  have orphan: "core_of (orphan_child pid c k) x = core_of k x" for c k
    by (auto simp: orphan_child_def core_of_put core_def split: option.split ProcessState.split)
  have "core_of (fold (orphan_child pid) cs k) x = core_of k x" for cs
    by (induction cs arbitrary: k) (simp_all add: orphan)
  then show "core_of (handleOrphanChildren pid k) x = core_of k x"
    by (simp add: handleOrphanChildren_def split: option.split)
qed

lemma core_release [simp]:
  "core_of (reap_files pid k) x = core_of k x" "core_of (reap_release pid p k) x = core_of k x"
proof -
  show "core_of (reap_files pid k) x = core_of k x"
    by (simp add: reap_files_def Let_def) (subst core_of_upd, simp_all add: core_def [of "pr_checkpointErr_update f p" for f p] core_def)
  show "core_of (reap_release pid p k) x = core_of k x" by (simp add: reap_release_def Let_def)
qed

lemma core_reapSuspended:
  assumes "GetProcess k pid = Some p"
  shows "\<exists>q. GetProcess (reapSuspendedProcess pid k) pid = Some q \<and> core q = core (p\<lparr>pr_reapOnce := True\<rparr>)"
proof (cases "pr_reapOnce p")
  case True
  then show ?thesis using assms by (simp add: reapSuspendedProcess_def core_def)
next
  case False
  have "core_of (reapSuspendedProcess pid k) pid = Some (core (p\<lparr>pr_reapOnce := True\<rparr>))"
    using assms False by (simp add: reapSuspendedProcess_def Let_def GetProcess_put)
  then show ?thesis by auto
qed

lemma core_reap_body:
  assumes "GetProcess k pid = Some p" and "e_goroutine env pid = GNone"
  shows "core_of (reap_body env pid p0 k) pid = Some (core (reap_ignore p))"
proof -
  have "core_of (reap_release pid p0 (reap_files pid (reap_quiesce env pid p0 k))) pid = Some (core p)"
    using assms by (simp add: reap_quiesce_def wgWait_def)
  from this [unfolded map_option_eq_Some]
  obtain q where q: "GetProcess (reap_release pid p0 (reap_files pid (reap_quiesce env pid p0 k))) pid = Some q" "core q = core p"
    by blast
  have "core (reap_ignore q\<lparr>pr_DeadAt := t\<rparr>) = core (reap_ignore p)" for t
    using q(2) by (auto simp: core_def reap_ignore_def Reap_def Transition_def transitionLocked_def)
  with q(1) show ?thesis by (simp add: reap_body_def GetProcess_upd)
qed

lemma core_reapProcess:
  assumes "GetProcess k pid = Some p" and "e_goroutine env pid = GNone" and "\<not> pr_reapOnce p"
  shows "core_of (reapProcess env pid k) pid = Some (core (reap_ignore (p\<lparr>pr_reapOnce := True\<rparr>)))"
proof -
  let ?p = "p\<lparr>pr_reapOnce := True\<rparr>"
  define k1 where "k1 = reap_body env pid p (putProc pid ?p k)"
  have c: "core_of k1 pid = Some (core (reap_ignore ?p))"
    unfolding k1_def by (rule core_reap_body [OF GetProcess_k1_put [OF assms(1)] assms(2)])
  then obtain p1 where p1: "GetProcess k1 pid = Some p1" by (cases "GetProcess k1 pid") auto
  have r: "reapProcess env pid k =
      (if SubWriteback \<in> k_subsystems k1 \<and> \<not> pr_writebackOnce p1
       then out_if (pr_Exit p1 \<noteq> None) (OWriteback pid) (putProc pid (p1\<lparr>pr_writebackOnce := True\<rparr>) k1) else k1)"
    by (simp only: reapProcess_def assms(1,3) option.case Let_def if_False k1_def [symmetric] p1)
  have c2: "core_of (putProc pid (p1\<lparr>pr_writebackOnce := True\<rparr>) k1) pid = core_of k1 pid"
    by (rule core_of_put [OF p1]) (simp add: core_def)
  show ?thesis
    by (cases "SubWriteback \<in> k_subsystems k1 \<and> \<not> pr_writebackOnce p1")
      (simp_all only: r if_True if_False GetProcess_frame c2 c simp_thms)
qed

section \<open>Killing\<close>

lemma kill_suspended:
  assumes "GetProcess k pid = Some p" and "pr_State p = StateSuspended" and "sig_valid sig" and "sig_is_termination sig"
  shows "fst (KillWithOrigin env pid sig attr k) = None"
    and "\<exists>q. GetProcess (snd (KillWithOrigin env pid sig attr k)) pid = Some q \<and> pr_State q = StateDead \<and>
      pr_SuspendReason q = pr_SuspendReason p \<and> pr_terminated q \<and> pr_Done q \<noteq> None \<and>
      pr_Exit q = Some (ExitStatus 1 (sig_string sig @ '' while suspended'') [] None) \<and>
      pr_resumedCh q \<in> pr_closedCh q"
proof -
  let ?k1 = "emitEvent pid ''Kill'' (killEventArgs pid sig attr @ []) None k"
  let ?ex = "ExitStatus 1 (sig_string sig @ '' while suspended'') [] None"
  let ?p2 = "killed_fields (e_now env) ?ex (p\<lparr>pr_State := StateDead\<rparr>)"
  have tr: "Transition StateDead p = Inr (p\<lparr>pr_State := StateDead\<rparr>)"
    using assms(2) by (simp add: Transition_def transitionLocked_def)
  let ?k2 = "putProc pid (closeTerminated (send_done ?ex ?p2)) (emitEvent pid ''Kill''
      (killEventArgs pid sig attr @ [(''action'', AStr ''killed_suspended'')]) None (putProc pid ?p2 ?k1))"
  have run: "KillWithOrigin env pid sig attr k = (None, reapSuspendedProcess pid ?k2)"
    using assms tr by (simp add: KillWithOrigin_def Let_def killSuspendedProcess_def)
  then show "fst (KillWithOrigin env pid sig attr k) = None" by simp
  have "GetProcess ?k2 pid = Some (closeTerminated (send_done ?ex ?p2))"
    using assms(1) by (simp add: GetProcess_put)
  from core_reapSuspended [OF this] run
  show "\<exists>q. GetProcess (snd (KillWithOrigin env pid sig attr k)) pid = Some q \<and> pr_State q = StateDead \<and>
      pr_SuspendReason q = pr_SuspendReason p \<and> pr_terminated q \<and> pr_Done q \<noteq> None \<and>
      pr_Exit q = Some (ExitStatus 1 (sig_string sig @ '' while suspended'') [] None) \<and>
      pr_resumedCh q \<in> pr_closedCh q"
    by (auto simp: core_def killed_fields_def closeTerminated_def send_done_def split: option.splits)
qed

text \<open>
  C6: SIGKILL always takes effect on a process that is not gone, whatever it blocked or handles: a
  running or created one has its context cancelled, a suspended one is dead at once, its waiters
  released on every channel (\<open>Done\<close>, terminated, the current resume channel).
\<close>

theorem sigkill_takes_effect:
  assumes "krun ops (0, NewKernel subs) = (n, k)" and "GetProcess k pid = Some p" and "\<not> is_gone (pr_State p)"
  shows "fst (Kill env pid SIGKILL k) = None \<and>
    (\<exists>q. GetProcess (snd (Kill env pid SIGKILL k)) pid = Some q \<and>
       (if pr_State p = StateSuspended
        then pr_State q = StateDead \<and> pr_terminated q \<and> pr_Done q \<noteq> None \<and> pr_resumedCh q \<in> pr_closedCh q \<and>
             pr_Exit q = Some (ExitStatus 1 ''SIGKILL while suspended'' [] None)
        else pr_cancelled q \<and> pr_State q = pr_State p))"
proof (cases "pr_State p = StateSuspended")
  case True
  from kill_suspended [OF assms(2) True, of SIGKILL env unknownAttribution] True show ?thesis
    by (auto simp: Kill_def sig_string_def)
next
  case False
  have "proc_ok p" using krun_sys_ok [OF start_sys_ok, of ops 0 subs] assms(1,2) by (simp add: sys_ok_def)
  then have "SIGKILL \<notin> pr_blockedSignals p" by (simp add: proc_ok_def)
  then have "resolveSignalDisposition SIGKILL p = (dispDefault, p)" by (rule resolve_SIGKILL)
  with False assms(2,3) show ?thesis
    by (simp add: Kill_def KillWithOrigin_def Let_def deliverSignal_def defaultSignalAction_def GetProcess_put
        GetProcess_upd Cancel_def)
qed

theorem sigkill_takes_effect_witness:
  "\<exists>q. GetProcess (snd (Kill demo_env 1 SIGKILL demo_kernel)) 1 = Some q \<and> pr_cancelled q"
proof -
  have run: "krun [(demo_env, KoSpawn ''u'' 0 [] []), (demo_env, KoStart 1)] (0, NewKernel {}) = (1, demo_kernel)"
    by (simp add: demo_kernel_def krun_def)
  have p: "GetProcess demo_kernel 1 = Some ((NewProcess 1 ''u'' 0 [] [] 100)\<lparr>pr_State := StateRunning\<rparr>)"
    by (simp add: demo_kernel_proc)
  from sigkill_takes_effect [OF run p] show ?thesis by auto
qed

text \<open>
  A process killed while suspended keeps its suspend reason, so the snapshot persisted and shown
  for it breaks the field matrix: a dead process must have an empty one.
\<close>

lemma killed_suspended_breaks_matrix:
  assumes "GetProcess k pid = Some p" and "pr_State p = StateSuspended" and "pr_SuspendReason p \<noteq> []"
    and "sig_valid sig" and "sig_is_termination sig"
  shows "\<exists>info. GetProcInfo (snd (KillWithOrigin env pid sig attr k)) pid = Some info \<and> pi_State info = StateDead \<and>
    ValidateProcInfoInvariant info = Some ''Dead SuspendReason''"
  using kill_suspended(2) [OF assms(1,2,4,5), of env attr] assms(3)
  by (auto simp: GetProcInfo_def procInfo_def ValidateProcInfoInvariant_def)

section \<open>Waiting\<close>

text \<open>
  The parent's wait in its reasoning loop never takes a suspension receipt for an end: a receipt
  of a child that is not gone is dropped, the child is neither reaped nor otherwise changed and the
  wait goes on; only a gone child ends it with its status.
\<close>

lemma wait_child_ignores_suspension:
  assumes "GetProcess k child = Some c" and "pr_Done c = Some exit"
  shows "\<exists>r k'. WaitChild_step env parent child SelDone k = Some (r, k') \<and>
    (if is_gone (pr_State c) then r = Some (exit, False)
     else r = None \<and> GetProcess k' child = Some (c\<lparr>pr_Done := None\<rparr>) \<and>
          (\<forall>pid. pid \<noteq> child \<longrightarrow> GetProcess k' pid = GetProcess k pid))"
  using assms by (auto simp: WaitChild_step_def Let_def GetProcess_put)

text \<open>
  \<open>Wait\<close> does: receiving the suspension receipt of a suspended process it reaps the process,
  which goes from suspended to dead although nobody ended it, with its terminated channel and its
  current resume channel still open.
\<close>

lemma wait_reaps_suspended:
  assumes "krun ops (0, NewKernel subs) = (n, k)" and "GetProcess k pid = Some p" and "pr_State p = StateSuspended"
    and "pr_Done p = Some exit" and "\<not> pr_reapOnce p" and "e_goroutine env pid = GNone"
  shows "\<exists>k' q. Wait_recv env pid k = Some (exit, k') \<and> GetProcess k' pid = Some q \<and> pr_State q = StateDead \<and>
    \<not> pr_terminated q \<and> pr_resumedCh q \<notin> pr_closedCh q"
proof -
  have ok: "proc_ok p" using krun_sys_ok [OF start_sys_ok, of ops 0 subs] assms(1,2) by (simp add: sys_ok_def)
  let ?p = "p\<lparr>pr_Done := None\<rparr>"
  let ?k1 = "emitEvent pid ''Wait'' [(''pid'', ANat pid), (''action'', AStr ''completed'')] None (putProc pid ?p k)"
  have g: "GetProcess ?k1 pid = Some ?p" using assms(2) by (simp add: GetProcess_put)
  have "core_of (reapProcess env pid ?k1) pid = Some (core (reap_ignore (?p\<lparr>pr_reapOnce := True\<rparr>)))"
    by (rule core_reapProcess [OF g assms(6)]) (use assms(5) in simp)
  moreover have "reap_ignore (?p\<lparr>pr_reapOnce := True\<rparr>) = ?p\<lparr>pr_reapOnce := True, pr_State := StateDead\<rparr>"
    using assms(3) by (simp add: reap_ignore_def Reap_def Transition_def transitionLocked_def)
  ultimately obtain q where "GetProcess (reapProcess env pid ?k1) pid = Some q"
    "core q = core (?p\<lparr>pr_reapOnce := True, pr_State := StateDead\<rparr>)" by auto
  moreover have "Wait_recv env pid k = Some (exit, reapProcess env pid ?k1)"
    using assms(2,4) by (simp add: Wait_recv_def)
  ultimately show ?thesis using ok assms(3) by (auto simp: core_def proc_ok_def)
qed

section \<open>Resuming and finishing\<close>

lemma finish_locked_keeps:
  assumes "finish_locked ex p = (e, q)"
  shows "pr_State q = pr_State p" "pr_Done q = pr_Done p" "exit_Code e = exit_Code ex" "exit_Reason e = exit_Reason ex"
    "exit_Result e = pr_Result q" "pr_SuspendReason q = (if exit_Code ex \<noteq> 0 then [] else pr_SuspendReason p)"
  using assms by (auto simp: finish_locked_def Let_def)

text \<open>
  A process that was resumed delivers its terminal status when it finishes, whatever receipt its
  suspension had left in \<open>Done\<close>: the value a waiter then receives has the exit code of the finish,
  the process is a zombie with that status and its terminated channel is closed.
\<close>

lemma resumed_process_delivers_exit:
  assumes "fst (resumeOneForSubtree env pid k) = None"
  shows "\<exists>q e. GetProcess (finishProcess env' pid ex (snd (resumeOneForSubtree env pid k))) pid = Some q \<and>
    pr_Done q = Some e \<and> pr_Exit q = Some e \<and> exit_Code e = exit_Code ex \<and> exit_Reason e = exit_Reason ex \<and>
    pr_State q = StateZombie \<and> pr_terminated q"
proof -
  from assms obtain p0 p1 where p: "GetProcess k pid = Some p0" "Unsuspend p0 = Inr p1"
    by (auto simp: resumeOneForSubtree_def resumeOneForSubtreeMode_def split: option.splits sum.splits)
  let ?p2 = "resumed_fields (e_now env) p1"
  have st: "pr_State ?p2 = StateRunning" "pr_Done ?p2 = None"
    using p(2) by (auto simp: Unsuspend_Inr resumed_fields_def Let_def split: option.split)
  let ?p3 = "?p2\<lparr>pr_cancelled := False, pr_LastHeartbeat := Some (e_now env)\<rparr>"
  have g: "GetProcess (putProc pid x (saveProcInfo pid (putProc pid ?p2 k))) pid = Some x"
    "GetProcess (putProc pid ?p2 k) pid = Some ?p2" for x
    using p(1) by (simp_all add: GetProcess_put)
  obtain r where r: "GetProcess (snd (resumeOneForSubtree env pid k)) pid = Some r" "pr_State r = StateRunning" "pr_Done r = None"
  proof (cases "pr_PrimaryDevice ?p2 = []")
    case True
    then show ?thesis using that [of ?p2] p st g(2) by (simp add: resumeOneForSubtree_def resumeOneForSubtreeMode_def Let_def)
  next
    case False
    obtain fd where fd: "e_reopen env pid = Inr fd"
      using assms False p by (cases "e_reopen env pid") (simp_all add: resumeOneForSubtree_def resumeOneForSubtreeMode_def Let_def)
    show ?thesis
      using that [of "?p3\<lparr>pr_FDTable := AList.update fd False (pr_FDTable ?p3)\<rparr>"] False p st fd
      by (simp add: resumeOneForSubtree_def resumeOneForSubtreeMode_def Let_def GetProcess_put)
  qed
  obtain e r' where fl: "finish_locked ex r = (e, r')" by fastforce
  from finish_locked_keeps [OF fl] r(2,3)
  have "finished ex r = r'\<lparr>pr_State := StateZombie, pr_Exit := Some e, pr_terminated := True, pr_Done := Some e\<rparr>"
    by (simp add: finished_def fl terminate_ignore_def Terminate_def transitionLocked_def send_done_def)
  then show ?thesis
    using r(1) finish_locked_keeps [OF fl] by (simp add: GetProcess_finish)
qed

end
