(* ===== verification/SubtreeProps.thy ===== *)
theory SubtreeProps
  imports KernelProps
begin

text \<open>
  The subtree walk: what \<open>collectSubtreePIDs\<close> finds, and what suspending a subtree leaves behind.
\<close>

section \<open>The depth-first walk\<close>

text \<open>One step of the walk: a child, or a live orphan of a reaped child.\<close>

definition succs :: "kernel \<Rightarrow> PID \<Rightarrow> PID list" where
  "succs k pid = concat (map (child_targets k) (children_of k pid))"

primrec walk :: "kernel \<Rightarrow> nat \<Rightarrow> PID \<Rightarrow> PID \<Rightarrow> bool" where
  "walk k 0 a b = (a = b)"
| "walk k (Suc n) a b = (\<exists>c \<in> set (succs k a). walk k n c b)"

definition descendant :: "kernel \<Rightarrow> PID \<Rightarrow> PID \<Rightarrow> bool" where
  "descendant k a b \<longleftrightarrow> (\<exists>n. walk k n a b)"

lemma visit_Suc:
  "visit k (Suc n) pid (V, L) =
     (if pid \<in> V then (V, L) else fold (visit k n) (succs k pid) (insert pid V, L @ [pid]))"
  by (simp add: succs_def)

text \<open>The list and the visited set agree, nothing is visited twice, and only descendants are.\<close>

definition visit_ok :: "(PID set \<times> PID list) \<Rightarrow> bool" where
  "visit_ok st \<longleftrightarrow> fst st = set (snd st) \<and> distinct (snd st)"

lemma visit_sound:
  "visit_ok st \<Longrightarrow> visit_ok (visit k n pid st) \<and> fst st \<subseteq> fst (visit k n pid st) \<and>
     fst (visit k n pid st) \<subseteq> fst st \<union> {b. descendant k pid b}"
proof (induction n arbitrary: pid st)
  case 0
  then show ?case by simp
next
  case (Suc n)
  obtain V L where st: "st = (V, L)" by fastforce
  have fold_ok: "visit_ok s \<Longrightarrow> visit_ok (fold (visit k n) xs s) \<and> fst s \<subseteq> fst (fold (visit k n) xs s) \<and>
      fst (fold (visit k n) xs s) \<subseteq> fst s \<union> {b. \<exists>x \<in> set xs. descendant k x b}" for xs s
  proof (induction xs arbitrary: s)
    case (Cons x xs)
    from Suc.IH [OF Cons.prems, of x] Cons.IH [of "visit k n x s"] show ?case by fastforce
  qed simp
  show ?case
  proof (cases "pid \<in> V")
    case True
    with Suc.prems st show ?thesis by (simp add: visit_Suc del: visit.simps)
  next
    case False
    have ok1: "visit_ok (insert pid V, L @ [pid])" using Suc.prems st False by (auto simp: visit_ok_def)
    have self: "descendant k pid pid" unfolding descendant_def by (rule exI [of _ 0]) simp
    have step: "descendant k x b \<Longrightarrow> x \<in> set (succs k pid) \<Longrightarrow> descendant k pid b" for x b
      unfolding descendant_def by (metis walk.simps(2))
    from fold_ok [OF ok1, of "succs k pid"] False st self step show ?thesis
      by (auto simp: visit_Suc simp del: visit.simps)
  qed
qed

text \<open>Completeness: a visit that is never cut by the depth bound leaves everything it adds closed.\<close>

definition closed_in :: "kernel \<Rightarrow> PID set \<Rightarrow> PID set \<Rightarrow> bool" where
  "closed_in k new all \<longleftrightarrow> (\<forall>x \<in> new. set (succs k x) \<subseteq> all)"

lemma visit_complete:
  assumes "\<nexists>b. walk k n pid b"
  shows "pid \<in> fst (visit k n pid st) \<and> closed_in k (fst (visit k n pid st) - fst st) (fst (visit k n pid st)) \<and>
    fst st \<subseteq> fst (visit k n pid st)"
  using assms
proof (induction n arbitrary: pid st)
  case 0
  then show ?case by simp
next
  case (Suc n)
  obtain V L where st: "st = (V, L)" by fastforce
  have fold_ok: "set xs \<subseteq> fst (fold (visit k n) xs s) \<and>
      closed_in k (fst (fold (visit k n) xs s) - fst s) (fst (fold (visit k n) xs s)) \<and> fst s \<subseteq> fst (fold (visit k n) xs s)"
    if "\<forall>x \<in> set xs. \<nexists>b. walk k n x b" for xs s
    using that
  proof (induction xs arbitrary: s)
    case Nil
    then show ?case by (simp add: closed_in_def)
  next
    case (Cons x xs)
    then have nx: "\<nexists>b. walk k n x b" and nxs: "\<forall>y \<in> set xs. \<nexists>b. walk k n y b" by auto
    let ?s1 = "visit k n x s"
    let ?s2 = "fold (visit k n) xs ?s1"
    from Suc.IH [OF nx, of s] Cons.IH [OF nxs, of ?s1]
    have "x \<in> fst ?s2" "set xs \<subseteq> fst ?s2" "fst s \<subseteq> fst ?s2" "closed_in k (fst ?s2 - fst s) (fst ?s2)"
      by (auto simp: closed_in_def) blast
    then show ?case by simp
  qed
  show ?case
  proof (cases "pid \<in> V")
    case True
    then show ?thesis using st by (simp add: visit_Suc closed_in_def del: visit.simps)
  next
    case False
    have "\<forall>x \<in> set (succs k pid). \<nexists>b. walk k n x b" using Suc.prems by auto
    from fold_ok [OF this, of "(insert pid V, L @ [pid])"] False st show ?thesis
      by (auto simp: visit_Suc closed_in_def simp del: visit.simps)
  qed
qed



lemma collect_distinct: "distinct (collectSubtreePIDs k root)"
  using visit_sound [of "({}, [])" k 33 root] by (simp add: collectSubtreePIDs_def subtreeMaxDepth_def visit_ok_def)

section \<open>What the walk depends on\<close>

definition topo :: "kernel \<Rightarrow> (PID \<times> PID list \<times> string) list \<times> ProcessHistory \<times> subsystem set" where
  "topo k = (map (\<lambda>(pid, p). (pid, pr_Children p, pr_ParentUUID p)) (k_procTable k), k_procHistory k, k_subsystems k)"

lemma map_of_topo:
  "map_of (map (\<lambda>(pid, p). (pid, pr_Children p, pr_ParentUUID p)) m) x
   = map_option (\<lambda>p. (pr_Children p, pr_ParentUUID p)) (map_of m x)"
  by (induction m) auto

lemma topo_range:
  "sm_range (\<lambda>pid gc acc. (True, if pr_ParentUUID gc = u then acc @ [pid] else acc)) m acc
   = acc @ map fst (filter (\<lambda>(pid, cs, pu). pu = u) (map (\<lambda>(pid, p). (pid, pr_Children p, pr_ParentUUID p)) m))"
  by (induction m arbitrary: acc) auto

lemma topo_succs:
  assumes "topo k = topo k'"
  shows "succs k = succs k'"
proof -
  have t: "map (\<lambda>(pid, p). (pid, pr_Children p, pr_ParentUUID p)) (k_procTable k)
      = map (\<lambda>(pid, p). (pid, pr_Children p, pr_ParentUUID p)) (k_procTable k')"
    "k_procHistory k = k_procHistory k'" "k_subsystems k = k_subsystems k'"
    using assms by (simp_all add: topo_def)
  have g: "map_option (\<lambda>p. (pr_Children p, pr_ParentUUID p)) (GetProcess k x)
      = map_option (\<lambda>p. (pr_Children p, pr_ParentUUID p)) (GetProcess k' x)" for x
    using t(1) map_of_topo [of "k_procTable k" x] map_of_topo [of "k_procTable k'" x]
    by (simp add: GetProcess_def sm_load_def)
  have ch: "children_of k x = children_of k' x" for x
    using g [of x] by (auto simp: children_of_def GetChildren_def split: option.splits)
  have "child_targets k x = child_targets k' x" for x
    using g [of x]
    by (cases "GetProcess k x"; cases "GetProcess k' x") (auto simp: child_targets_def topo_range t split: option.splits)
  then have "child_targets k = child_targets k'" by (rule ext)
  with ch show ?thesis by (intro ext) (simp add: succs_def)
qed

lemma topo_collect:
  assumes "topo k = topo k'"
  shows "collectSubtreePIDs k root = collectSubtreePIDs k' root"
proof -
  have "visit k n pid st = visit k' n pid st" for n pid st
  proof (induction n arbitrary: pid st)
    case (Suc n)
    then have "visit k n = visit k' n" by (intro ext)
    then show ?case using topo_succs [OF assms]
      by (cases st) (simp add: visit_Suc del: visit.simps)
  qed simp
  then show ?thesis by (simp add: collectSubtreePIDs_def del: visit.simps)
qed

lemma topo_frame [simp]:
  "topo (out c k) = topo k" "topo (out_if b c k) = topo k" "topo (emitEvent p s a e k) = topo k"
  "topo (saveProcInfo p k) = topo k"
  by (simp_all add: topo_def out_def out_if_def emitEvent_def saveProcInfo_def)

lemma topo_put:
  assumes "GetProcess k pid = Some p" "pr_Children q = pr_Children p" "pr_ParentUUID q = pr_ParentUUID p"
  shows "topo (putProc pid q k) = topo k"
proof -
  have "map_of m pid = Some p \<Longrightarrow> map (\<lambda>(pid, p). (pid, pr_Children p, pr_ParentUUID p)) (AList.update pid q m)
      = map (\<lambda>(pid, p). (pid, pr_Children p, pr_ParentUUID p)) m" for m
    using assms(2,3) by (induction m) (auto split: if_splits)
  with assms(1) show ?thesis
    by (simp add: topo_def putProc_def GetProcess_def sm_load_def sm_store_def)
qed

section \<open>Suspending a subtree\<close>

definition orderly :: "kenv \<Rightarrow> bool" where
  "orderly env \<longleftrightarrow> (\<forall>pid. e_goroutine env pid = GNone \<or> e_goroutine env pid = GSuspendExit)"

definition user_paused :: "Process \<Rightarrow> bool" where
  "user_paused q \<longleftrightarrow> pr_State q = StateSuspended \<and> pr_SuspendReason q = ''user_paused'' \<and> pr_cancelled q \<and>
     pr_suspendRequested q \<and> pr_FDTable q = [] \<and> pr_pausedAt q \<noteq> None \<and>
     pr_Exit q = Some (ExitStatus ExitSuspended ''suspended: user_paused'' [] None)"

text \<open>One process rewritten, the rest of the table and the shape of the tree as before.\<close>

definition touched :: "PID \<Rightarrow> Process \<Rightarrow> kernel \<Rightarrow> kernel \<Rightarrow> bool" where
  "touched pid q k k' \<longleftrightarrow>
     GetProcess k' pid = Some q \<and> (\<forall>x. x \<noteq> pid \<longrightarrow> GetProcess k' x = GetProcess k x) \<and> topo k' = topo k"

lemma touched_frames [simp]:
  "touched pid q k (out c k') = touched pid q k k'" "touched pid q k (out_if b c k') = touched pid q k k'"
  "touched pid q k (emitEvent p s a e k') = touched pid q k k'" "touched pid q k (saveProcInfo p k') = touched pid q k k'"
  by (simp_all add: touched_def)

lemma touched_put:
  "touched pid p k k' \<Longrightarrow> pr_Children q = pr_Children p \<Longrightarrow> pr_ParentUUID q = pr_ParentUUID p \<Longrightarrow>
   touched pid q k (putProc pid q k')"
  by (auto simp: touched_def GetProcess_put topo_put)

lemma touched_refl: "GetProcess k pid = Some p \<Longrightarrow> touched pid p k k"
  by (simp add: touched_def)

lemma touched_upd:
  "touched pid p k k' \<Longrightarrow> pr_Children (f p) = pr_Children p \<Longrightarrow> pr_ParentUUID (f p) = pr_ParentUUID p \<Longrightarrow>
   touched pid (f p) k (updProc pid f k')"
  using touched_put [of pid p k k' "f p"] by (auto simp: updProc_def touched_def)

lemma touched_fold:
  assumes "\<And>x k'. touched pid q k (f x k') = touched pid q k k'"
  shows "touched pid q k (fold f xs k') = touched pid q k k'"
  by (induction xs arbitrary: k') (simp_all add: assms)

lemma suspendProcess_running:
  assumes "touched pid p k0 k" and "pr_State p = StateRunning"
  shows "\<exists>k'. suspendProcess env pid reason ec k = (None, k') \<and>
    touched pid (suspended_fields (e_now env) reason ec
      (p\<lparr>pr_FDTable := [], pr_checkpointErr := False, pr_State := StateSuspended\<rparr>)) k0 k'"
proof -
  let ?p = "p\<lparr>pr_FDTable := [], pr_checkpointErr := False\<rparr>"
  let ?q = "suspended_fields (e_now env) reason ec (?p\<lparr>pr_State := StateSuspended\<rparr>)"
  let ?k3 = "fold (\<lambda>(fd, live) k. out_if live (OCloseFile pid fd) k) (pr_FDTable p) (putProc pid ?p k)"
  have "touched pid ?p k0 (putProc pid ?p k)" by (rule touched_put [OF assms(1)]) simp_all
  then have "touched pid ?p k0 ?k3" by (subst touched_fold) (simp_all split: prod.splits)
  then have "touched pid ?q k0 (putProc pid ?q ?k3)" by (rule touched_put) (simp_all add: suspended_fields_def)
  moreover have "Suspend ?p = Inr (?p\<lparr>pr_State := StateSuspended\<rparr>)" using assms(2) by (simp add: Suspend_Inr)
  moreover have "GetProcess k pid = Some p" using assms(1) by (simp add: touched_def)
  ultimately show ?thesis by (simp add: suspendProcess_def Let_def)
qed

lemma suspend_node_running:
  assumes "orderly env" and "GetProcess k pid = Some p" and "pr_State p = StateRunning"
  shows "\<exists>q k'. suspend_node env pid (n, k) = (n + 1, k') \<and> user_paused q \<and> touched pid q k k'"
proof -
  define p1 where "p1 = Cancel (RequestSuspend p)"
  let ?f = "\<lambda>p. send_done (case pr_Exit p of Some e \<Rightarrow> e | None \<Rightarrow> ExitStatus ExitSuspended ''suspended'' [] None) p"
  define p2 where "p2 = (if e_goroutine env pid = GNone then p1 else ?f p1)"
  define k2 where "k2 = wgWait env pid (updProc pid (\<lambda>p. Cancel (RequestSuspend p)) k)"
  have t1: "touched pid p1 k (updProc pid (\<lambda>p. Cancel (RequestSuspend p)) k)"
    unfolding p1_def by (rule touched_upd [OF touched_refl [OF assms(2)]]) (simp_all add: Cancel_def RequestSuspend_def)
  have "e_goroutine env pid = GNone \<or> e_goroutine env pid = GSuspendExit" using assms(1) by (simp add: orderly_def)
  then have t2: "touched pid p2 k k2"
    using t1 touched_upd [OF t1, of ?f]
    by (auto simp: k2_def p2_def wgWait_def notifySuspendDone_def send_done_def split: option.splits)
  have f2: "pr_State p2 = StateRunning" "pr_cancelled p2" "pr_suspendRequested p2"
    using assms(3) by (simp_all add: p2_def p1_def Cancel_def RequestSuspend_def send_done_def split: option.splits)
  let ?q = "suspended_fields (e_now env) ''user_paused'' ExitSuspended
      (p2\<lparr>pr_FDTable := [], pr_checkpointErr := False, pr_State := StateSuspended\<rparr>)"
  from suspendProcess_running [OF t2 f2(1)] obtain k' where
    s: "suspendProcess env pid ''user_paused'' ExitSuspended k2 = (None, k')" and t: "touched pid ?q k k'" by blast
  have "suspend_node env pid (n, k) = (n + 1, k')"
    using assms(2,3) s by (simp add: suspend_node_def suspendOneForSubtree_def k2_def)
  moreover have "user_paused ?q" using f2 by (simp add: user_paused_def suspended_fields_def)
  ultimately show ?thesis using t by blast
qed

definition running :: "kernel \<Rightarrow> PID \<Rightarrow> bool" where
  "running k pid = (case GetProcess k pid of Some p \<Rightarrow> pr_State p = StateRunning | None \<Rightarrow> False)"

lemma suspend_node_other: "\<not> running k pid \<Longrightarrow> suspend_node env pid (n, k) = (n, k)"
  by (auto simp: suspend_node_def running_def split: option.splits)

lemma suspend_fold:
  assumes "orderly env" and "distinct pids"
  shows "\<exists>k'. fold (suspend_node env) pids (n, k) = (n + length (filter (running k) pids), k') \<and> topo k' = topo k \<and>
    (\<forall>x. if x \<in> set pids \<and> running k x then \<exists>q. GetProcess k' x = Some q \<and> user_paused q
         else GetProcess k' x = GetProcess k x)"
  using assms(2)
proof (induction pids arbitrary: n k)
  case Nil
  then show ?case by simp
next
  case (Cons pid pids)
  then have nin: "pid \<notin> set pids" and d: "distinct pids" by auto
  show ?case
  proof (cases "running k pid")
    case False
    from Cons.IH [OF d, of n k] False show ?thesis by (auto simp: suspend_node_other)
  next
    case True
    then obtain p where p: "GetProcess k pid = Some p" "pr_State p = StateRunning" by (auto simp: running_def split: option.splits)
    from suspend_node_running [OF assms(1) p, of n] obtain q k1 where
      s: "suspend_node env pid (n, k) = (n + 1, k1)" "user_paused q" "touched pid q k k1" by blast
    then have r: "running k1 x = running k x" if "x \<noteq> pid" for x using that by (simp add: running_def touched_def)
    then have f: "filter (running k1) pids = filter (running k) pids" using nin
      by (intro filter_cong [OF refl]) (metis r)
    from Cons.IH [OF d, of "n + 1" k1] obtain k' where
      k': "fold (suspend_node env) pids (n + 1, k1) = (n + 1 + length (filter (running k) pids), k')" "topo k' = topo k1"
      "\<forall>x. if x \<in> set pids \<and> running k1 x then \<exists>q. GetProcess k' x = Some q \<and> user_paused q
           else GetProcess k' x = GetProcess k1 x" by (auto simp: f)
    have "if x \<in> set (pid # pids) \<and> running k x then \<exists>q. GetProcess k' x = Some q \<and> user_paused q
         else GetProcess k' x = GetProcess k x" for x
      using k'(3) [THEN spec, of x] s(2,3) r [of x] nin True by (cases "x = pid") (auto simp: touched_def)
    then show ?thesis using k'(1,2) s True by (auto simp: touched_def)
  qed
qed

text \<open>
  Suspending a subtree suspends exactly its running members, each with the reason
  \<open>user_paused\<close>, its context cancelled, its descriptors closed and its suspend status recorded; it
  returns their number, and every other process is left as it was.
\<close>

lemma suspend_subtree_suspends_running:
  assumes "orderly env" and "GetProcess k root = Some r"
  shows "\<exists>k'. SuspendSubtree env root k = (Inr (length (filter (running k) (collectSubtreePIDs k root))), k') \<and>
    (\<forall>x. if x \<in> set (collectSubtreePIDs k root) \<and> running k x
         then \<exists>q. GetProcess k' x = Some q \<and> user_paused q
         else GetProcess k' x = GetProcess k x)"
proof -
  let ?pids = "collectSubtreePIDs k root"
  from suspend_fold [OF assms(1) collect_distinct, where n = 0 and k = k] obtain k' where
    k': "suspend_pass env root k = (length (filter (running k) ?pids), k')" "topo k' = topo k"
    "\<forall>x. if x \<in> set ?pids \<and> running k x then \<exists>q. GetProcess k' x = Some q \<and> user_paused q
         else GetProcess k' x = GetProcess k x" by (fastforce simp: suspend_pass_def)
  have "filter (running k') ?pids = []"
    unfolding filter_empty_conv
  proof
    fix x assume x: "x \<in> set ?pids"
    with k'(3) [THEN spec, of x] show "\<not> running k' x"
      by (cases "running k x") (auto simp: running_def user_paused_def)
  qed
  then have again: "suspend_pass env root k' = (0, k')"
  proof -
    have "fold (suspend_node env) ps (0, k') = (0, k')" if "filter (running k') ps = []" for ps
      using that by (induction ps) (auto simp: suspend_node_other split: if_splits)
    with \<open>filter (running k') ?pids = []\<close> topo_collect [OF k'(2)] show ?thesis by (simp add: suspend_pass_def)
  qed
  have "suspendSubtree env root k = (length (filter (running k) ?pids), k')"
    using k'(1) again by (auto simp: suspendSubtree_def numeral_3_eq_3)
  then show ?thesis using assms(2) k'(3) by (simp add: SuspendSubtree_def)
qed

end
