(* ===== verification/SignalProps.thy ===== *)
theory SignalProps
  imports SubtreeProps
begin

text \<open>
  Blocking and unblocking, idempotent reaping, and concrete runs of the kernel at which the
  properties of the lifecycle theories apply.
\<close>

section \<open>Blocked signals\<close>

lemma KSignal_blocked:
  assumes "GetProcess k pid = Some p" and "pr_State p = StateRunning" and "sig_valid sig" and "sig \<in> pr_blockedSignals p"
  shows "GetProcess (snd (KSignal env pid sig k)) pid = Some (p\<lparr>pr_pendingSignals := insert sig (pr_pendingSignals p)\<rparr>)"
  using assms by (simp add: KSignal_def Let_def deliverSignal_def resolveSignalDisposition_def GetProcess_put)

lemma KSignal_handled:
  assumes "GetProcess k pid = Some p" and "pr_State p = StateRunning" and "sig_valid sig" and "sig \<notin> pr_blockedSignals p"
    and "sig_blockable sig" and "pr_sigHandlers p sig = Some h"
  shows "GetProcess (snd (KSignal env pid sig k)) pid = Some (p\<lparr>pr_handled := pr_handled p @ [(h, sig)]\<rparr>)"
  using assms by (simp add: KSignal_def Let_def deliverSignal_def resolveSignalDisposition_def GetProcess_put)

lemma KSignal_blocked_many:
  assumes "GetProcess k pid = Some p" and "pr_State p = StateRunning" and "sig_valid sig" and "sig \<in> pr_blockedSignals p"
  shows "GetProcess (((\<lambda>k. snd (KSignal env pid sig k)) ^^ Suc m) k) pid
         = Some (p\<lparr>pr_pendingSignals := insert sig (pr_pendingSignals p)\<rparr>)"
proof (induction m)
  case 0
  then show ?case using KSignal_blocked [OF assms] by simp
next
  case (Suc m)
  from KSignal_blocked [OF Suc.IH] assms show ?case by simp
qed

text \<open>
  C7: signals sent to a running process while it blocks them do not reach its handler and are
  remembered as one: unblocking runs the handler exactly once, however many were sent, and leaves the
  signal neither blocked nor pending.
\<close>

theorem blocked_signals_coalesce:
  assumes "GetProcess k pid = Some p" and "pr_State p = StateRunning" and "sig_valid sig" and "sig_blockable sig"
    and "pr_sigHandlers p sig = Some h"
  shows "let k1 = snd (SigBlock pid sig k);
             k2 = ((\<lambda>k. snd (KSignal env pid sig k)) ^^ Suc m) k1;
             k3 = snd (SigUnblock env pid sig k2)
         in (\<exists>q. GetProcess k2 pid = Some q \<and> pr_handled q = pr_handled p \<and> sig \<in> pr_pendingSignals q) \<and>
            (\<exists>q. GetProcess k3 pid = Some q \<and> pr_handled q = pr_handled p @ [(h, sig)] \<and>
                 sig \<notin> pr_pendingSignals q \<and> sig \<notin> pr_blockedSignals q)"
proof -
  let ?k1 = "snd (SigBlock pid sig k)"
  let ?k2 = "((\<lambda>k. snd (KSignal env pid sig k)) ^^ Suc m) ?k1"
  let ?q = "(BlockSignal sig p)\<lparr>pr_pendingSignals := insert sig (pr_pendingSignals (BlockSignal sig p))\<rparr>"
  have b: "GetProcess ?k1 pid = Some (BlockSignal sig p)"
    using assms by (simp add: SigBlock_def GetProcess_put)
  have k2: "GetProcess ?k2 pid = Some ?q"
    by (rule KSignal_blocked_many [OF b]) (use assms in \<open>simp_all add: BlockSignal_def\<close>)
  let ?r = "ClearPending sig (snd (UnblockSignal sig ?q))"
  let ?k = "updProc pid (ClearPending sig) (emitEvent pid ''SigUnblock''
      [(''pid'', ANat pid), (''signal'', ASig sig), (''had_pending'', ABool True)] None (putProc pid (snd (UnblockSignal sig ?q)) ?k2))"
  have g: "GetProcess ?k pid = Some ?r" using k2 by (simp add: GetProcess_upd GetProcess_put)
  have r: "pr_State ?r = StateRunning" "sig \<notin> pr_blockedSignals ?r" "sig \<notin> pr_pendingSignals ?r"
    "pr_handled ?r = pr_handled p" "pr_sigHandlers ?r sig = Some h"
    using assms by (simp_all add: ClearPending_def UnblockSignal_def BlockSignal_def)
  have "SigUnblock env pid sig ?k2 = KSignal env pid sig ?k"
    using assms(2,3) k2 by (simp add: SigUnblock_def UnblockSignal_def BlockSignal_def del: funpow.simps)
  then have "GetProcess (snd (SigUnblock env pid sig ?k2)) pid = Some (?r\<lparr>pr_handled := pr_handled ?r @ [(h, sig)]\<rparr>)"
    using KSignal_handled [OF g r(1) assms(3) r(2) assms(4) r(5), of env] by simp
  with k2 r show ?thesis by (simp add: Let_def BlockSignal_def del: funpow.simps)
qed

section \<open>Reaping twice\<close>

text \<open>Reaping is idempotent: a second call, from whoever, changes nothing and emits nothing.\<close>

theorem reap_idempotent:
  "reapProcess env' pid (reapProcess env pid k) = reapProcess env pid k"
proof (cases "GetProcess k pid")
  case None
  then show ?thesis by (simp add: reapProcess_def)
next
  case (Some p)
  define k1 where "k1 = (if pr_reapOnce p then k else reap_body env pid p (putProc pid (p\<lparr>pr_reapOnce := True\<rparr>) k))"
  define wb :: "Process \<Rightarrow> bool" where "wb q \<longleftrightarrow> SubWriteback \<in> k_subsystems k1 \<and> \<not> pr_writebackOnce q" for q
  have r: "reapProcess env pid k = (case GetProcess k1 pid of None \<Rightarrow> k1 | Some p1 \<Rightarrow>
      if wb p1 then out_if (pr_Exit p1 \<noteq> None) (OWriteback pid) (putProc pid (p1\<lparr>pr_writebackOnce := True\<rparr>) k1) else k1)"
    by (simp only: reapProcess_def Some option.case Let_def k1_def wb_def)
  show ?thesis
  proof (cases "GetProcess k1 pid")
    case None
    then show ?thesis unfolding r by (simp add: reapProcess_def)
  next
    case (Some p1)
    have once: "pr_reapOnce p1"
    proof (cases "pr_reapOnce p")
      case True
      then show ?thesis using Some \<open>GetProcess k pid = Some p\<close> by (simp add: k1_def)
    next
      case False
      have "evolves (putProc pid (p\<lparr>pr_reapOnce := True\<rparr>) k) k1" using False by (simp add: k1_def evolves_reap_body)
      then have "evolve_entry (Some (p\<lparr>pr_reapOnce := True\<rparr>)) (Some p1)"
        using Some GetProcess_k1_put [OF \<open>GetProcess k pid = Some p\<close>] by (metis evolves_def)
      then show ?thesis by (simp add: evo_def)
    qed
    let ?k2 = "if wb p1 then out_if (pr_Exit p1 \<noteq> None) (OWriteback pid) (putProc pid (p1\<lparr>pr_writebackOnce := True\<rparr>) k1) else k1"
    have subs: "k_subsystems ?k2 = k_subsystems k1"
      by (simp add: out_if_def out_def putProc_def split: option.split)
    obtain p2 where p2: "GetProcess ?k2 pid = Some p2" "pr_reapOnce p2" "SubWriteback \<in> k_subsystems k1 \<Longrightarrow> pr_writebackOnce p2"
      using Some once by (cases "wb p1") (auto simp: GetProcess_put wb_def)
    have "reapProcess env' pid ?k2 = ?k2"
      by (simp only: reapProcess_def p2(1) option.case Let_def p2(2) if_True subs) (use p2(3) in auto)
    then show ?thesis unfolding r using Some by simp
  qed
qed

section \<open>Concrete runs\<close>

definition quiet_env :: kenv where
  "quiet_env = demo_env\<lparr>e_goroutine := (\<lambda>_. GNone)\<rparr>"

definition demo_suspended :: kernel where
  "demo_suspended = snd (KSuspend demo_env 1 demo_kernel)"

lemma demo_run: "krun [(demo_env, KoSpawn ''u'' 0 [] []), (demo_env, KoStart 1)] (0, NewKernel {}) = (1, demo_kernel)"
  by (simp add: demo_kernel_def krun_def)

lemma demo_proc: "GetProcess demo_kernel 1 = Some ((NewProcess 1 ''u'' 0 [] [] 100)\<lparr>pr_State := StateRunning\<rparr>)"
  by (simp add: demo_kernel_proc)

lemma demo_collect: "collectSubtreePIDs demo_kernel 1 = [1]"
  using visit_Suc [of demo_kernel 32 1 "{}" "[]"]
  by (simp add: collectSubtreePIDs_def subtreeMaxDepth_def succs_def children_of_def demo_kernel_proc GetChildren_def
      NewProcess_def del: visit.simps)

lemma demo_suspended_proc:
  "\<exists>q. GetProcess demo_suspended 1 = Some q \<and> pr_State q = StateSuspended \<and> pr_SuspendReason q = ''user_suspended'' \<and>
     pr_Done q = Some (ExitStatus ExitSuspended ''suspended: user_suspended'' [] None) \<and> \<not> pr_reapOnce q \<and>
     pr_PrimaryDevice q = []"
proof -
  let ?ex = "ExitStatus ExitSuspended ''suspended: user_suspended'' [] None"
  let ?p = "(NewProcess 1 ''u'' 0 [] [] 100)\<lparr>pr_State := StateRunning\<rparr>"
  let ?f = "\<lambda>p. Cancel (RequestSuspend p)\<lparr>pr_Exit := Some ?ex\<rparr>"
  let ?k = "wgWait demo_env 1 (updProc 1 ?f demo_kernel)"
  have "touched 1 (?f ?p) demo_kernel (updProc 1 ?f demo_kernel)"
    by (rule touched_upd [OF touched_refl [OF demo_proc]]) (simp_all add: Cancel_def RequestSuspend_def)
  from touched_upd [OF this, of "\<lambda>p. send_done (case pr_Exit p of Some e \<Rightarrow> e | None \<Rightarrow> ExitStatus ExitSuspended ''suspended'' [] None) p"]
  have "touched 1 (send_done ?ex (?f ?p)) demo_kernel ?k"
    by (simp add: wgWait_def demo_env_def notifySuspendDone_def send_done_def split: option.split)
  from suspendProcess_running [OF this, of demo_env "''user_suspended''" ExitSuspended] obtain k' where
    "suspendProcess demo_env 1 ''user_suspended'' ExitSuspended ?k = (None, k')"
    "GetProcess k' 1 = Some (suspended_fields 100 ''user_suspended'' ExitSuspended
      (send_done ?ex (?f ?p)\<lparr>pr_FDTable := [], pr_checkpointErr := False, pr_State := StateSuspended\<rparr>))"
    by (auto simp: touched_def demo_env_def send_done_def Cancel_def RequestSuspend_def NewProcess_def)
  moreover have "demo_suspended = snd (suspendProcess demo_env 1 ''user_suspended'' ExitSuspended ?k)"
    using demo_proc by (simp add: demo_suspended_def KSuspend_def)
  ultimately show ?thesis
    by (simp add: suspended_fields_def send_done_def Cancel_def RequestSuspend_def NewProcess_def)
qed

definition demo_handler :: kernel where
  "demo_handler = updProc 1 (SetHandler SIGTERM 9) demo_kernel"

theorem blocked_signals_coalesce_witness:
  "\<exists>q. GetProcess (snd (SigUnblock demo_env 1 SIGTERM
       (((\<lambda>k. snd (KSignal demo_env 1 SIGTERM k)) ^^ Suc 2) (snd (SigBlock 1 SIGTERM demo_handler))))) 1 = Some q \<and>
     pr_handled q = [(9, SIGTERM)]"
proof -
  let ?p = "SetHandler SIGTERM 9 ((NewProcess 1 ''u'' 0 [] [] 100)\<lparr>pr_State := StateRunning\<rparr>)"
  have g: "GetProcess demo_handler 1 = Some ?p" by (simp add: demo_handler_def GetProcess_upd demo_kernel_proc)
  have p: "pr_State ?p = StateRunning" "sig_valid SIGTERM" "sig_blockable SIGTERM" "pr_sigHandlers ?p SIGTERM = Some 9"
    by (simp_all add: SetHandler_def sig_blockable_def)
  from blocked_signals_coalesce [OF g p, where env = demo_env and m = 2] show ?thesis
    by (auto simp: Let_def SetHandler_def NewProcess_def simp del: funpow.simps)
qed

end
