(* ===== verification/Vfs.thy ===== *)
theory Vfs
  imports XSync "HOL-Library.Sublist"
begin

text \<open>
  The virtual file system (\<open>vfs/vfs.go\<close>) and its device registry (\<open>vfs/dev.go\<close>).

  Device factories and open files are Go interfaces whose implementations are drivers: a factory
  is a function the registry holds, an open file an opaque handle \<open>'f\<close> whose methods are the
  dictionary \<open>FileOps\<close>. Both act on a world \<open>'w\<close> (everything a driver can reach), so the model
  says which driver calls an operation makes and in which order. An error a driver returns is
  \<open>DriverError\<close> when \<open>errors.As\<close> finds a \<open>types.DriverError\<close> in it. Each method of \<open>VFS\<close> is
  one step on the whole state.
\<close>

section \<open>Files, factories, errors\<close>

type_synonym OpenFlag = int

datatype FileStat = FileStat (st_Name: string) (st_Size: int) (st_IsDevice: bool) (st_DevicePath: string)

record ('f, 'w) FileOps =
  fo_Read :: "'f \<Rightarrow> int \<Rightarrow> 'w \<Rightarrow> (go_error + string) \<times> 'w"
  fo_Write :: "'f \<Rightarrow> string \<Rightarrow> 'w \<Rightarrow> go_error option \<times> 'w"
  fo_Close :: "'f \<Rightarrow> 'w \<Rightarrow> go_error option \<times> 'w"
  fo_Stat :: "'f \<Rightarrow> 'w \<Rightarrow> go_error + FileStat"

type_synonym ('f, 'w) VFSFileFactory = "string \<Rightarrow> OpenFlag \<Rightarrow> string \<Rightarrow> 'w \<Rightarrow> (go_error + 'f) \<times> 'w"

text \<open>The sentinel \<open>errDeviceNotFound\<close> (wrapped with the path) or an error a driver returned.\<close>

datatype open_error = errDeviceNotFound string | errInvalidFD FD | errFromDriver go_error

datatype VFSError = VFSError (ve_Op: string) (ve_PID: PID) (ve_Device: string) (ve_Err: open_error) (ve_Code: ErrCode)

section \<open>Device registry (\<open>dev.go\<close>)\<close>

record ('f, 'w, 'd) DeviceRegistry =
  dr_registry :: "('f, 'w) VFSFileFactory Registry"
  dr_driverMap :: "(string, 'd) SyncMap"

definition NewDeviceRegistry :: "('f, 'w, 'd) DeviceRegistry" where
  "NewDeviceRegistry = \<lparr>dr_registry = NewRegistry, dr_driverMap = NewSyncMap\<rparr>"

definition dev_Register ::
  "string \<Rightarrow> ('f, 'w) VFSFileFactory \<Rightarrow> ('f, 'w, 'd) DeviceRegistry \<Rightarrow> go_error + ('f, 'w, 'd) DeviceRegistry" where
  "dev_Register path fac d =
     (case reg_register path fac (dr_registry d) of
        Inl e \<Rightarrow> Inl e
      | Inr r \<Rightarrow> Inr (d\<lparr>dr_registry := r\<rparr>))"

definition dev_RegisterWithDriver ::
  "string \<Rightarrow> ('f, 'w) VFSFileFactory \<Rightarrow> 'd \<Rightarrow> ('f, 'w, 'd) DeviceRegistry
   \<Rightarrow> go_error + ('f, 'w, 'd) DeviceRegistry" where
  "dev_RegisterWithDriver path fac driver d =
     (case reg_register path fac (dr_registry d) of
        Inl e \<Rightarrow> Inl e
      | Inr r \<Rightarrow> Inr (d\<lparr>dr_registry := r, dr_driverMap := sm_store path driver (dr_driverMap d)\<rparr>))"

definition dev_GetDriver :: "('f, 'w, 'd) DeviceRegistry \<Rightarrow> string \<Rightarrow> 'd option" where
  "dev_GetDriver d path = sm_load (dr_driverMap d) path"

text \<open>The driver entry is dropped before the registration is looked up, also when that fails.\<close>

definition dev_Unregister ::
  "string \<Rightarrow> ('f, 'w, 'd) DeviceRegistry \<Rightarrow> go_error option \<times> ('f, 'w, 'd) DeviceRegistry" where
  "dev_Unregister path d =
     (let d1 = d\<lparr>dr_driverMap := sm_delete path (dr_driverMap d)\<rparr>
      in case reg_unregister path (dr_registry d1) of
           Inl e \<Rightarrow> (Some e, d1)
         | Inr r \<Rightarrow> (None, d1\<lparr>dr_registry := r\<rparr>))"

definition TrimPrefix :: "string \<Rightarrow> string \<Rightarrow> string" where
  "TrimPrefix s p = (if prefix p s then drop (length p) s else s)"

text \<open>The closure over \<open>bestPrefix\<close> and \<open>factory\<close> that \<open>Open\<close> gives to \<open>Range\<close>.\<close>

definition open_visit ::
  "string \<Rightarrow> string \<Rightarrow> 'a \<Rightarrow> string \<times> 'a option \<Rightarrow> bool \<times> (string \<times> 'a option)" where
  "open_visit path registered f s =
     (case s of (bestPrefix, factory) \<Rightarrow>
        if prefix (registered @ ''/'') path \<and> length registered > length bestPrefix
        then (True, (registered, Some f))
        else (True, (bestPrefix, factory)))"

definition call_factory ::
  "('f, 'w) VFSFileFactory \<Rightarrow> string \<Rightarrow> OpenFlag \<Rightarrow> string \<Rightarrow> 'w \<Rightarrow> (open_error + 'f) \<times> 'w" where
  "call_factory fac sub flags workDir w =
     (case fac sub flags workDir w of
        (Inl e, w') \<Rightarrow> (Inl (errFromDriver e), w')
      | (Inr f, w') \<Rightarrow> (Inr f, w'))"

definition dev_Open ::
  "('f, 'w, 'd) DeviceRegistry \<Rightarrow> string \<Rightarrow> OpenFlag \<Rightarrow> string \<Rightarrow> 'w \<Rightarrow> (open_error + 'f) \<times> 'w" where
  "dev_Open d path flags workDir w =
     (case reg_get (dr_registry d) path of
        Some fac \<Rightarrow> call_factory fac [] flags workDir w
      | None \<Rightarrow>
          (case reg_range (open_visit path) (dr_registry d) ([], None) of
             (bestPrefix, factory) \<Rightarrow>
               (case factory of
                  Some fac \<Rightarrow>
                    if bestPrefix \<noteq> [] then call_factory fac (TrimPrefix path bestPrefix) flags workDir w
                    else (Inl (errDeviceNotFound path), w)
                | None \<Rightarrow> (Inl (errDeviceNotFound path), w))))"

definition stat_visit ::
  "string \<Rightarrow> string \<Rightarrow> 'a \<Rightarrow> bool \<times> string \<Rightarrow> bool \<times> (bool \<times> string)" where
  "stat_visit path registered f s =
     (case s of (found, bestPrefix) \<Rightarrow>
        if prefix (registered @ ''/'') path \<and> length registered > length bestPrefix
        then (True, (True, registered))
        else (True, (found, bestPrefix)))"

definition dev_Stat :: "('f, 'w, 'd) DeviceRegistry \<Rightarrow> string \<Rightarrow> open_error + FileStat" where
  "dev_Stat d path =
     (case reg_get (dr_registry d) path of
        Some _ \<Rightarrow> Inr (FileStat path 0 True path)
      | None \<Rightarrow>
          (case reg_range (stat_visit path) (dr_registry d) (False, []) of
             (found, bestPrefix) \<Rightarrow>
               if found then Inr (FileStat path 0 True bestPrefix)
               else Inl (errDeviceNotFound path)))"

section \<open>Descriptor tables (\<open>vfs.go\<close>)\<close>

record 'f fdTable =
  ft_files :: "(FD \<times> 'f) list"
  ft_nextFD :: FD

definition newFDTable :: "'f fdTable" where
  "newFDTable = \<lparr>ft_files = [], ft_nextFD = 3\<rparr>"

definition ft_alloc :: "'f \<Rightarrow> 'f fdTable \<Rightarrow> FD \<times> 'f fdTable" where
  "ft_alloc file t =
     (let fd = ft_nextFD t
      in (fd, t\<lparr>ft_nextFD := ft_nextFD t + 1, ft_files := AList.update fd file (ft_files t)\<rparr>))"

definition ft_get :: "'f fdTable \<Rightarrow> FD \<Rightarrow> 'f option" where
  "ft_get t fd = map_of (ft_files t) fd"

definition ft_getAndRemove :: "FD \<Rightarrow> 'f fdTable \<Rightarrow> 'f option \<times> 'f fdTable" where
  "ft_getAndRemove fd t =
     (case map_of (ft_files t) fd of
        Some f \<Rightarrow> (Some f, t\<lparr>ft_files := AList.delete fd (ft_files t)\<rparr>)
      | None \<Rightarrow> (None, t))"

text \<open>The files are collected while the table is emptied, then closed; the first error is kept.\<close>

fun close_files ::
  "('f, 'w) FileOps \<Rightarrow> 'f list \<Rightarrow> go_error option \<Rightarrow> 'w \<Rightarrow> go_error option \<times> 'w" where
  "close_files ops [] firstErr w = (firstErr, w)"
| "close_files ops (f # fs) firstErr w =
     (case fo_Close ops f w of (err, w') \<Rightarrow>
        close_files ops fs (if err \<noteq> None \<and> firstErr = None then err else firstErr) w')"

definition ft_closeAll :: "('f, 'w) FileOps \<Rightarrow> 'f fdTable \<Rightarrow> 'w \<Rightarrow> go_error option \<times> 'w" where
  "ft_closeAll ops t w = close_files ops (map snd (ft_files t)) None w"

section \<open>The VFS\<close>

record ('f, 'w, 'd) VFS =
  v_devRegistry :: "('f, 'w, 'd) DeviceRegistry"
  v_fdTables :: "(PID, 'f fdTable) SyncMap"
  v_workDirs :: "(PID, string) SyncMap"

definition NewVFS :: "('f, 'w, 'd) DeviceRegistry \<Rightarrow> ('f, 'w, 'd) VFS" where
  "NewVFS d = \<lparr>v_devRegistry = d, v_fdTables = NewSyncMap, v_workDirs = NewSyncMap\<rparr>"

definition SetWorkDir :: "PID \<Rightarrow> string \<Rightarrow> ('f, 'w, 'd) VFS \<Rightarrow> ('f, 'w, 'd) VFS" where
  "SetWorkDir pid dir v = v\<lparr>v_workDirs := sm_store pid dir (v_workDirs v)\<rparr>"

definition GetWorkDir :: "('f, 'w, 'd) VFS \<Rightarrow> PID \<Rightarrow> string" where
  "GetWorkDir v pid = (case sm_load (v_workDirs v) pid of Some d \<Rightarrow> d | None \<Rightarrow> [])"

definition getFDTable :: "('f, 'w, 'd) VFS \<Rightarrow> PID \<Rightarrow> 'f fdTable option" where
  "getFDTable v pid = sm_load (v_fdTables v) pid"

definition getOrCreateFDTable :: "PID \<Rightarrow> ('f, 'w, 'd) VFS \<Rightarrow> 'f fdTable \<times> ('f, 'w, 'd) VFS" where
  "getOrCreateFDTable pid v =
     (case sm_load_or_store pid newFDTable (v_fdTables v) of
        ((t, _), m) \<Rightarrow> (t, v\<lparr>v_fdTables := m\<rparr>))"

text \<open>The table is shared by pointer: writing it back under its PID is the in-place update.\<close>

definition RegisterFD :: "PID \<Rightarrow> 'f \<Rightarrow> ('f, 'w, 'd) VFS \<Rightarrow> FD \<times> ('f, 'w, 'd) VFS" where
  "RegisterFD pid file v =
     (case getOrCreateFDTable pid v of (t, v1) \<Rightarrow>
        case ft_alloc file t of (fd, t') \<Rightarrow>
          (fd, v1\<lparr>v_fdTables := sm_store pid t' (v_fdTables v1)\<rparr>))"

definition driverErrCode :: "open_error \<Rightarrow> ErrCode" where
  "driverErrCode err = (case err of errFromDriver e \<Rightarrow> driver_errcode e | _ \<Rightarrow> ErrDriver)"

definition deviceForErr :: "('f, 'w) FileOps \<Rightarrow> 'f \<Rightarrow> go_error \<Rightarrow> 'w \<Rightarrow> string" where
  "deviceForErr ops file err w =
     (let fallback = (case fo_Stat ops file w of Inr st \<Rightarrow> st_DevicePath st | Inl _ \<Rightarrow> [])
      in case err of
           DriverError op dev c \<Rightarrow> if dev \<noteq> [] then dev else fallback
         | _ \<Rightarrow> fallback)"

definition vfs_Open ::
  "PID \<Rightarrow> string \<Rightarrow> OpenFlag \<Rightarrow> ('f, 'w, 'd) VFS \<Rightarrow> 'w \<Rightarrow> (VFSError + FD) \<times> ('f, 'w, 'd) VFS \<times> 'w" where
  "vfs_Open pid path flags v w =
     (case dev_Open (v_devRegistry v) path flags (GetWorkDir v pid) w of
        (Inl err, w') \<Rightarrow>
          let code = driverErrCode err;
              code' = (case err of errDeviceNotFound _ \<Rightarrow> ErrNotFound | _ \<Rightarrow> code)
          in (Inl (VFSError ''Open'' pid path err code'), v, w')
      | (Inr file, w') \<Rightarrow>
          (case RegisterFD pid file v of (fd, v') \<Rightarrow> (Inr fd, v', w')))"

definition GetFile :: "('f, 'w, 'd) VFS \<Rightarrow> PID \<Rightarrow> FD \<Rightarrow> 'f option" where
  "GetFile v pid fd = (case getFDTable v pid of None \<Rightarrow> None | Some t \<Rightarrow> ft_get t fd)"

definition invalid_fd :: "string \<Rightarrow> PID \<Rightarrow> FD \<Rightarrow> VFSError" where
  "invalid_fd opn pid fd = VFSError opn pid [] (errInvalidFD fd) ErrNotFound"

definition vfs_Read ::
  "('f, 'w) FileOps \<Rightarrow> PID \<Rightarrow> FD \<Rightarrow> int \<Rightarrow> ('f, 'w, 'd) VFS \<Rightarrow> 'w \<Rightarrow> (VFSError + string) \<times> 'w" where
  "vfs_Read ops pid fd len v w =
     (case getFDTable v pid of
        None \<Rightarrow> (Inl (invalid_fd ''Read'' pid fd), w)
      | Some t \<Rightarrow>
          (case ft_get t fd of
             None \<Rightarrow> (Inl (invalid_fd ''Read'' pid fd), w)
           | Some file \<Rightarrow>
               (case fo_Read ops file len w of
                  (Inl err, w') \<Rightarrow>
                    (Inl (VFSError ''Read'' pid (deviceForErr ops file err w') (errFromDriver err)
                            (driverErrCode (errFromDriver err))), w')
                | (Inr dat, w') \<Rightarrow> (Inr dat, w'))))"

definition vfs_Write ::
  "('f, 'w) FileOps \<Rightarrow> PID \<Rightarrow> FD \<Rightarrow> string \<Rightarrow> ('f, 'w, 'd) VFS \<Rightarrow> 'w \<Rightarrow> VFSError option \<times> 'w" where
  "vfs_Write ops pid fd dat v w =
     (case getFDTable v pid of
        None \<Rightarrow> (Some (invalid_fd ''Write'' pid fd), w)
      | Some t \<Rightarrow>
          (case ft_get t fd of
             None \<Rightarrow> (Some (invalid_fd ''Write'' pid fd), w)
           | Some file \<Rightarrow>
               (case fo_Write ops file dat w of
                  (Some err, w') \<Rightarrow>
                    (Some (VFSError ''Write'' pid (deviceForErr ops file err w') (errFromDriver err)
                             (driverErrCode (errFromDriver err))), w')
                | (None, w') \<Rightarrow> (None, w'))))"

text \<open>The descriptor is removed before the driver's \<open>Close\<close> runs, whatever that returns.\<close>

definition vfs_Close ::
  "('f, 'w) FileOps \<Rightarrow> PID \<Rightarrow> FD \<Rightarrow> ('f, 'w, 'd) VFS \<Rightarrow> 'w
   \<Rightarrow> VFSError option \<times> ('f, 'w, 'd) VFS \<times> 'w" where
  "vfs_Close ops pid fd v w =
     (case getFDTable v pid of
        None \<Rightarrow> (Some (invalid_fd ''Close'' pid fd), v, w)
      | Some t \<Rightarrow>
          (case ft_getAndRemove fd t of
             (None, _) \<Rightarrow> (Some (invalid_fd ''Close'' pid fd), v, w)
           | (Some file, t') \<Rightarrow>
               (let v' = v\<lparr>v_fdTables := sm_store pid t' (v_fdTables v)\<rparr>
                in case fo_Close ops file w of
                     (Some err, w') \<Rightarrow>
                       (Some (VFSError ''Close'' pid (deviceForErr ops file err w') (errFromDriver err)
                                (driverErrCode (errFromDriver err))), v', w')
                   | (None, w') \<Rightarrow> (None, v', w'))))"

definition vfs_Stat :: "('f, 'w, 'd) VFS \<Rightarrow> string \<Rightarrow> VFSError + FileStat" where
  "vfs_Stat v path =
     (case dev_Stat (v_devRegistry v) path of
        Inl err \<Rightarrow>
          Inl (VFSError ''Stat'' 0 path err
                 (case err of errDeviceNotFound _ \<Rightarrow> ErrNotFound | _ \<Rightarrow> ErrDriver))
      | Inr st \<Rightarrow> Inr st)"

definition vfs_CloseAll ::
  "('f, 'w) FileOps \<Rightarrow> PID \<Rightarrow> ('f, 'w, 'd) VFS \<Rightarrow> 'w \<Rightarrow> go_error option \<times> ('f, 'w, 'd) VFS \<times> 'w" where
  "vfs_CloseAll ops pid v w =
     (let v1 = v\<lparr>v_workDirs := sm_delete pid (v_workDirs v)\<rparr>
      in case sm_load_and_delete pid (v_fdTables v1) of
           (None, m) \<Rightarrow> (None, v1\<lparr>v_fdTables := m\<rparr>, w)
         | (Some t, m) \<Rightarrow>
             (case ft_closeAll ops t w of (err, w') \<Rightarrow> (err, v1\<lparr>v_fdTables := m\<rparr>, w')))"

section \<open>Path resolution\<close>

lemma visit_simps [simp]:
  "open_visit path k f (b, fo) =
     (True, if prefix (k @ ''/'') path \<and> length b < length k then (k, Some f) else (b, fo))"
  "stat_visit path k f (fd, b) =
     (True, if prefix (k @ ''/'') path \<and> length b < length k then (True, k) else (fd, b))"
  by (simp_all add: open_visit_def stat_visit_def)

lemma open_range_longest:
  assumes "reg_range (open_visit path) r (b, fo) = (b', fo')"
  shows "length b \<le> length b'"
    and "\<forall>(k, f) \<in> set r. prefix (k @ ''/'') path \<longrightarrow> length k \<le> length b'"
    and "(b' = b \<and> fo' = fo) \<or>
         (\<exists>f. fo' = Some f \<and> (b', f) \<in> set r \<and> prefix (b' @ ''/'') path \<and> b' \<noteq> [])"
proof -
  have "length b \<le> length b' \<and>
        (\<forall>(k, f) \<in> set r. prefix (k @ ''/'') path \<longrightarrow> length k \<le> length b') \<and>
        ((b' = b \<and> fo' = fo) \<or>
         (\<exists>f. fo' = Some f \<and> (b', f) \<in> set r \<and> prefix (b' @ ''/'') path \<and> b' \<noteq> []))"
    using assms
  proof (induction r arbitrary: b fo)
    case Nil
    then show ?case by simp
  next
    case (Cons kf r)
    obtain k f where kf: "kf = (k, f)" by (cases kf)
    show ?case
    proof (cases "prefix (k @ ''/'') path \<and> length k > length b")
      case True
      with Cons.prems kf have "reg_range (open_visit path) r (k, Some f) = (b', fo')"
        by simp
      from Cons.IH [OF this] True kf show ?thesis by auto
    next
      case False
      with Cons.prems kf have "reg_range (open_visit path) r (b, fo) = (b', fo')"
        by (simp split: if_splits) 
      from Cons.IH [OF this] False kf show ?thesis by auto
    qed
  qed
  then show "length b \<le> length b'"
    and "\<forall>(k, f) \<in> set r. prefix (k @ ''/'') path \<longrightarrow> length k \<le> length b'"
    and "(b' = b \<and> fo' = fo) \<or>
         (\<exists>f. fo' = Some f \<and> (b', f) \<in> set r \<and> prefix (b' @ ''/'') path \<and> b' \<noteq> [])"
    by blast+
qed

lemma stat_range_open_range:
  "reg_range (stat_visit path) r (fo \<noteq> None, b)
   = (case reg_range (open_visit path) r (b, fo) of (b', fo') \<Rightarrow> (fo' \<noteq> None, b'))"
proof (induction r arbitrary: b fo)
  case Nil
  then show ?case by simp
next
  case (Cons kf r)
  obtain k f where kf: "kf = (k, f)" by (cases kf)
  show ?case
    using Cons.IH [where b = b and fo = fo] Cons.IH [where b = k and fo = "Some f"]
    by (simp add: kf split: prod.splits)
qed

lemma same_length_prefixes:
  "prefix (a @ ''/'') p \<Longrightarrow> prefix (b @ ''/'') p \<Longrightarrow> length a = length b \<Longrightarrow> a = b"
  by (auto simp: prefix_def)

text \<open>The visit's result is the longest registered prefix, in whatever order the map is visited.\<close>

lemma open_range_eq:
  assumes u: "unique_keys r" and m: "(k, f) \<in> set r" and p: "prefix (k @ ''/'') path" and ne: "k \<noteq> []"
    and longest: "\<And>k' f'. (k', f') \<in> set r \<Longrightarrow> prefix (k' @ ''/'') path \<Longrightarrow> length k' \<le> length k"
  shows "reg_range (open_visit path) r ([], None) = (k, Some f)"
proof -
  obtain b' fo' where res: "reg_range (open_visit path) r ([], None) = (b', fo')" by fastforce
  note L = open_range_longest [OF res]
  have "length k \<le> length b'" using L(2) m p by auto
  with ne L(3) obtain f' where fo: "fo' = Some f'" "(b', f') \<in> set r" "prefix (b' @ ''/'') path"
    by auto
  have "length b' = length k" using longest [OF fo(2,3)] \<open>length k \<le> length b'\<close> by simp
  then have "b' = k" using same_length_prefixes fo(3) p by blast
  then show ?thesis using res fo unique_keys_eq [OF u] m by blast
qed

lemma open_range_none:
  assumes "\<And>k f. (k, f) \<in> set r \<Longrightarrow> prefix (k @ ''/'') path \<Longrightarrow> k = []"
  shows "reg_range (open_visit path) r ([], None) = ([], None)"
proof -
  obtain b' fo' where res: "reg_range (open_visit path) r ([], None) = (b', fo')" by fastforce
  from open_range_longest(3) [OF res] assms show ?thesis by (auto simp: res)
qed

text \<open>What a path names: the registration that is its longest proper path prefix.\<close>

definition best_match :: "'a Registry \<Rightarrow> string \<Rightarrow> string \<Rightarrow> 'a \<Rightarrow> bool" where
  "best_match r path k f \<longleftrightarrow>
     (k, f) \<in> set r \<and> prefix (k @ ''/'') path \<and> k \<noteq> [] \<and>
     (\<forall>(k', f') \<in> set r. prefix (k' @ ''/'') path \<longrightarrow> length k' \<le> length k)"

lemma best_match_range:
  "unique_keys r \<Longrightarrow> best_match r path k f \<Longrightarrow> reg_range (open_visit path) r ([], None) = (k, Some f)"
  by (rule open_range_eq) (auto simp: best_match_def)

lemma ex_best_match:
  assumes "(k, f) \<in> set r" and "prefix (k @ ''/'') path" and "k \<noteq> []"
  shows "\<exists>k' f'. best_match r path k' f'"
proof -
  obtain b' fo' where res: "reg_range (open_visit path) r ([], None) = (b', fo')" by fastforce
  note L = open_range_longest [OF res]
  have "length k \<le> length b'" using L(2) assms by auto
  with L(2,3) assms(3) show ?thesis unfolding best_match_def by fastforce
qed

lemma no_best_match_range:
  "\<nexists>k f. best_match r path k f \<Longrightarrow> reg_range (open_visit path) r ([], None) = ([], None)"
  using open_range_none [of r path] ex_best_match [of _ _ r path] by blast

lemma stat_range:
  "reg_range (stat_visit path) r (False, [])
   = (case reg_range (open_visit path) r ([], None) of (b, fo) \<Rightarrow> (fo \<noteq> None, b))"
  using stat_range_open_range [of path r None "[]"] by simp

text \<open>
  C8: opening a path calls the factory registered for exactly that path, else the one whose path
  is the longest registered path prefix (at a slash) with the rest of the path as the subpath,
  else fails with \<open>errDeviceNotFound\<close>; \<open>Stat\<close> names the same device. The iteration order of the
  registry has no influence.
\<close>

theorem dev_open_resolution:
  assumes "unique_keys (dr_registry d)"
  shows "case map_of (dr_registry d) path of
           Some fac \<Rightarrow> dev_Open d path flags wd w = call_factory fac [] flags wd w \<and>
                       dev_Stat d path = Inr (FileStat path 0 True path)
         | None \<Rightarrow>
             (\<forall>k fac. best_match (dr_registry d) path k fac \<longrightarrow>
                dev_Open d path flags wd w = call_factory fac (drop (length k) path) flags wd w \<and>
                dev_Stat d path = Inr (FileStat path 0 True k)) \<and>
             ((\<nexists>k fac. best_match (dr_registry d) path k fac) \<longrightarrow>
                dev_Open d path flags wd w = (Inl (errDeviceNotFound path), w) \<and>
                dev_Stat d path = Inl (errDeviceNotFound path))"
proof (cases "map_of (dr_registry d) path")
  case (Some fac)
  then show ?thesis by (simp add: dev_Open_def dev_Stat_def reg_get_def)
next
  case None
  have "dev_Open d path flags wd w = call_factory fac (drop (length k) path) flags wd w \<and>
        dev_Stat d path = Inr (FileStat path 0 True k)"
    if m: "best_match (dr_registry d) path k fac" for k fac
  proof -
    from m have "prefix k path" "k \<noteq> []" by (auto simp: best_match_def prefix_def)
    with None best_match_range [OF assms m] show ?thesis
      by (simp add: dev_Open_def dev_Stat_def reg_get_def stat_range TrimPrefix_def)
  qed
  moreover have "dev_Open d path flags wd w = (Inl (errDeviceNotFound path), w) \<and>
        dev_Stat d path = Inl (errDeviceNotFound path)"
    if "\<nexists>k fac. best_match (dr_registry d) path k fac"
    using None no_best_match_range [OF that]
    by (simp add: dev_Open_def dev_Stat_def reg_get_def stat_range)
  ultimately show ?thesis using None by simp
qed

definition demo_registry :: "(string, string list, nat) DeviceRegistry" where
  "demo_registry =
     \<lparr>dr_registry = [(''/dev'', \<lambda>sub _ _ w. (Inr sub, w)), (''/dev/fs'', \<lambda>sub _ _ w. (Inr (''fs:'' @ sub), w))],
      dr_driverMap = []\<rparr>"

theorem dev_open_resolution_witness:
  "dev_Open demo_registry ''/dev/fs/a'' 0 [] [] = (Inr ''fs:/a'', [])"
proof -
  have u: "unique_keys (dr_registry demo_registry)" by (simp add: demo_registry_def)
  have n: "map_of (dr_registry demo_registry) ''/dev/fs/a'' = None" by (simp add: demo_registry_def)
  have m: "best_match (dr_registry demo_registry) ''/dev/fs/a'' ''/dev/fs''
             (\<lambda>sub _ _ w. (Inr (''fs:'' @ sub), w))"
    by (simp add: best_match_def demo_registry_def)
  show ?thesis
    using dev_open_resolution [OF u, of "''/dev/fs/a''" 0 "[]" "[]"] n m
    by (auto simp: call_factory_def)
qed

section \<open>Descriptors\<close>

definition ft_ok :: "'f fdTable \<Rightarrow> bool" where
  "ft_ok t \<longleftrightarrow> 3 \<le> ft_nextFD t \<and> unique_keys (ft_files t) \<and>
     (\<forall>fd f. map_of (ft_files t) fd = Some f \<longrightarrow> 3 \<le> fd \<and> fd < ft_nextFD t)"

definition vfs_ok :: "('f, 'w, 'd) VFS \<Rightarrow> bool" where
  "vfs_ok v \<longleftrightarrow> (\<forall>pid t. sm_load (v_fdTables v) pid = Some t \<longrightarrow> ft_ok t)"

definition next_fd :: "('f, 'w, 'd) VFS \<Rightarrow> PID \<Rightarrow> FD" where
  "next_fd v pid = (case getFDTable v pid of None \<Rightarrow> 3 | Some t \<Rightarrow> ft_nextFD t)"

lemma newFDTable_ok [simp]: "ft_ok newFDTable" "ft_get newFDTable fd = None" "ft_nextFD newFDTable = 3"
  by (simp_all add: ft_ok_def newFDTable_def ft_get_def)

lemma ft_alloc_ok: "ft_ok t \<Longrightarrow> ft_ok (snd (ft_alloc f t))"
  by (force simp: ft_ok_def ft_alloc_def Let_def intro: distinct_update)

lemma ft_alloc_get:
  "ft_get (snd (ft_alloc f t)) fd = (if fd = ft_nextFD t then Some f else ft_get t fd)"
  by (simp add: ft_get_def ft_alloc_def Let_def)

lemma ft_get_bound: "ft_ok t \<Longrightarrow> ft_get t fd = Some f \<Longrightarrow> 3 \<le> fd \<and> fd < ft_nextFD t"
  by (auto simp: ft_ok_def ft_get_def)

lemma ft_remove:
  "fst (ft_getAndRemove fd t) = ft_get t fd"
  "ft_get (snd (ft_getAndRemove fd t)) fd' = (if fd' = fd then None else ft_get t fd')"
  "ft_nextFD (snd (ft_getAndRemove fd t)) = ft_nextFD t"
  "ft_ok t \<Longrightarrow> ft_ok (snd (ft_getAndRemove fd t))"
  by (auto simp: ft_get_def ft_getAndRemove_def ft_ok_def distinct_delete simp del: map_of_eq_Some_iff
      split: option.splits if_splits)

lemma RegisterFD_file:
  "GetFile (snd (RegisterFD pid f v)) p fd =
     (if p = pid \<and> fd = next_fd v pid then Some f else GetFile v p fd)"
  "fst (RegisterFD pid f v) = next_fd v pid"
  "next_fd (snd (RegisterFD pid f v)) p = (if p = pid then next_fd v pid + 1 else next_fd v p)"
  by (auto simp: RegisterFD_def getOrCreateFDTable_def sm_load_or_store_def GetFile_def getFDTable_def
      next_fd_def sm.lookup_store sm_load_def sm_store_def ft_alloc_def ft_get_def newFDTable_def Let_def
      split: option.splits)

lemma RegisterFD_ok: "vfs_ok v \<Longrightarrow> vfs_ok (snd (RegisterFD pid f v))"
  using ft_alloc_ok [of newFDTable f] ft_alloc_ok [where f = f]
  by (auto simp: RegisterFD_def getOrCreateFDTable_def sm_load_or_store_def vfs_ok_def
      sm_load_def sm_store_def case_prod_beta split: option.splits)

text \<open>The operations of a process as a sequence of calls.\<close>

datatype 'f vfs_op =
    OpOpen PID string OpenFlag | OpRegister PID 'f | OpRead PID FD int | OpWrite PID FD string
  | OpClose PID FD | OpCloseAll PID | OpSetWorkDir PID string

fun vfs_step ::
  "('f, 'w) FileOps \<Rightarrow> 'f vfs_op \<Rightarrow> ('f, 'w, 'd) VFS \<times> 'w \<Rightarrow> ('f, 'w, 'd) VFS \<times> 'w" where
  "vfs_step ops (OpOpen pid path flags) (v, w) = snd (vfs_Open pid path flags v w)"
| "vfs_step ops (OpRegister pid f) (v, w) = (snd (RegisterFD pid f v), w)"
| "vfs_step ops (OpRead pid fd n) (v, w) = (v, snd (vfs_Read ops pid fd n v w))"
| "vfs_step ops (OpWrite pid fd dat) (v, w) = (v, snd (vfs_Write ops pid fd dat v w))"
| "vfs_step ops (OpClose pid fd) (v, w) = snd (vfs_Close ops pid fd v w)"
| "vfs_step ops (OpCloseAll pid) (v, w) = snd (vfs_CloseAll ops pid v w)"
| "vfs_step ops (OpSetWorkDir pid dir) (v, w) = (SetWorkDir pid dir v, w)"

lemma vfs_Open_dev:
  "dev_Open (v_devRegistry v) path flags (GetWorkDir v pid) w = (Inr f, w') \<Longrightarrow>
   vfs_Open pid path flags v w = (Inr (next_fd v pid), snd (RegisterFD pid f v), w')"
  "dev_Open (v_devRegistry v) path flags (GetWorkDir v pid) w = (Inl err, w') \<Longrightarrow>
   \<exists>e. vfs_Open pid path flags v w = (Inl e, v, w')"
  using RegisterFD_file(2) [of pid f v] by (auto simp: vfs_Open_def Let_def split: prod.splits)

lemma vfs_Open_cases:
  obtains e w' where "vfs_Open pid path flags v w = (Inl e, v, w')"
  | f w' where "dev_Open (v_devRegistry v) path flags (GetWorkDir v pid) w = (Inr f, w')"
      "vfs_Open pid path flags v w = (Inr (next_fd v pid), snd (RegisterFD pid f v), w')"
proof (cases "dev_Open (v_devRegistry v) path flags (GetWorkDir v pid) w")
  case (Pair r w')
  then show ?thesis using vfs_Open_dev [of v path flags pid w _ w'] that by (cases r) fastforce+
qed

text \<open>What \<open>Close\<close> does to the descriptors, whatever the driver answers.\<close>

lemma vfs_Close_file:
  "GetFile (fst (snd (vfs_Close ops pid fd v w))) p fd' =
     (if p = pid \<and> fd' = fd then None else GetFile v p fd')"
  "next_fd (fst (snd (vfs_Close ops pid fd v w))) p = next_fd v p"
  "vfs_ok v \<Longrightarrow> vfs_ok (fst (snd (vfs_Close ops pid fd v w)))"
proof -
  consider (none) "getFDTable v pid = None" 
    | (absent) t where "getFDTable v pid = Some t" "ft_get t fd = None"
    | (present) t f where "getFDTable v pid = Some t" "ft_get t fd = Some f"
    by (cases "getFDTable v pid"; cases "ft_get (the (getFDTable v pid)) fd") auto
  then have "(fst (snd (vfs_Close ops pid fd v w)) = v \<and> GetFile v pid fd = None) \<or>
        (\<exists>t. getFDTable v pid = Some t \<and> fst (snd (vfs_Close ops pid fd v w))
            = v\<lparr>v_fdTables := sm_store pid (snd (ft_getAndRemove fd t)) (v_fdTables v)\<rparr>)"
    by cases (auto simp: vfs_Close_def GetFile_def ft_getAndRemove_def ft_get_def Let_def split: prod.splits option.splits)
  moreover have "GetFile (v\<lparr>v_fdTables := sm_store pid (snd (ft_getAndRemove fd t)) (v_fdTables v)\<rparr>) p fd'
       = (if p = pid \<and> fd' = fd then None else GetFile v p fd')"
    "next_fd (v\<lparr>v_fdTables := sm_store pid (snd (ft_getAndRemove fd t)) (v_fdTables v)\<rparr>) p = next_fd v p"
    "vfs_ok v \<Longrightarrow> vfs_ok (v\<lparr>v_fdTables := sm_store pid (snd (ft_getAndRemove fd t)) (v_fdTables v)\<rparr>)"
    if "getFDTable v pid = Some t" for t
    using that by (auto simp: GetFile_def getFDTable_def next_fd_def vfs_ok_def sm.lookup_store ft_remove)
  ultimately show "GetFile (fst (snd (vfs_Close ops pid fd v w))) p fd' =
     (if p = pid \<and> fd' = fd then None else GetFile v p fd')"
    and "next_fd (fst (snd (vfs_Close ops pid fd v w))) p = next_fd v p"
    and "vfs_ok v \<Longrightarrow> vfs_ok (fst (snd (vfs_Close ops pid fd v w)))"
    by auto
qed

lemma vfs_CloseAll_file:
  "GetFile (fst (snd (vfs_CloseAll ops pid v w))) p fd = (if p = pid then None else GetFile v p fd)"
  "next_fd (fst (snd (vfs_CloseAll ops pid v w))) p = (if p = pid then 3 else next_fd v p)"
  "vfs_ok v \<Longrightarrow> vfs_ok (fst (snd (vfs_CloseAll ops pid v w)))"
  by (auto simp: vfs_CloseAll_def sm_load_and_delete_def GetFile_def getFDTable_def next_fd_def vfs_ok_def
      sm_load_def Let_def simp del: map_of_eq_Some_iff split: option.splits prod.splits)

lemma vfs_step_ok:
  assumes "vfs_ok (fst s)"
  shows "vfs_ok (fst (vfs_step ops op s))"
proof (cases s)
  case (Pair v w)
  with assms have ok: "vfs_ok v" by simp
  show ?thesis
  proof (cases op)
    case (OpOpen pid path flags)
    show ?thesis
      by (rule vfs_Open_cases [of pid path flags v w]) (use OpOpen Pair ok in \<open>simp_all add: RegisterFD_ok\<close>)
  next
    case (OpSetWorkDir pid dir)
    with Pair ok show ?thesis by (simp add: SetWorkDir_def vfs_ok_def)
  qed (use Pair ok in \<open>simp_all add: RegisterFD_ok vfs_Close_file(3) vfs_CloseAll_file(3)\<close>)
qed

lemma vfs_run_ok: "vfs_ok (fst s) \<Longrightarrow> vfs_ok (fst (fold (vfs_step ops) os s))"
  by (induction os arbitrary: s) (simp_all add: vfs_step_ok)

lemma NewVFS_ok [simp]: "vfs_ok (NewVFS d)"
  by (simp add: vfs_ok_def NewVFS_def NewSyncMap_def sm_load_def)

text \<open>A descriptor below the table's next one that is not open stays so until the table is dropped.\<close>

lemma vfs_step_closed:
  assumes "op \<noteq> OpCloseAll pid" and "fd < next_fd (fst s) pid" and "GetFile (fst s) pid fd = None"
  shows "fd < next_fd (fst (vfs_step ops op s)) pid \<and> GetFile (fst (vfs_step ops op s)) pid fd = None"
proof (cases s)
  case (Pair v w)
  with assms have a: "fd < next_fd v pid" "GetFile v pid fd = None" by auto
  show ?thesis
  proof (cases op)
    case (OpOpen p path flags)
    show ?thesis
      by (rule vfs_Open_cases [of p path flags v w]) (use OpOpen Pair a in \<open>auto simp: RegisterFD_file\<close>)
  next
    case (OpCloseAll p)
    with assms(1) Pair a show ?thesis by (auto simp: vfs_CloseAll_file)
  next
    case (OpSetWorkDir p dir)
    with Pair a show ?thesis by (auto simp: SetWorkDir_def GetFile_def getFDTable_def next_fd_def)
  qed (use Pair a in \<open>auto simp: RegisterFD_file vfs_Close_file\<close>)
qed

lemma vfs_run_closed:
  assumes "OpCloseAll pid \<notin> set os" and "fd < next_fd (fst s) pid" and "GetFile (fst s) pid fd = None"
  shows "GetFile (fst (fold (vfs_step ops) os s)) pid fd = None"
  using assms
proof (induction os arbitrary: s)
  case (Cons op os)
  then have "op \<noteq> OpCloseAll pid" by auto
  from vfs_step_closed [OF this Cons.prems(2,3), of ops] Cons show ?case by simp
qed simp

lemma GetFile_bound: "vfs_ok v \<Longrightarrow> GetFile v pid fd = Some f \<Longrightarrow> 3 \<le> fd \<and> fd < next_fd v pid"
  by (auto simp: GetFile_def next_fd_def vfs_ok_def getFDTable_def split: option.splits dest: ft_get_bound)

text \<open>
  After any history of calls, a descriptor a process closed stays closed through any later
  calls, by itself or by others, as long as its table is not dropped by \<open>CloseAll\<close>: its number is
  not handed out again.
\<close>

lemma fd_never_reused:
  assumes "(v, w) = fold (vfs_step ops) before (NewVFS d, w0)" and "GetFile v pid fd = Some f"
    and "OpCloseAll pid \<notin> set after"
  shows "GetFile (fst (fold (vfs_step ops) after (snd (vfs_Close ops pid fd v w)))) pid fd = None"
proof (rule vfs_run_closed [OF assms(3)])
  have "vfs_ok v" using vfs_run_ok [of "(NewVFS d, w0)" ops before] assms(1) by (metis NewVFS_ok fst_conv)
  from GetFile_bound [OF this assms(2)]
  show "fd < next_fd (fst (snd (vfs_Close ops pid fd v w))) pid" by (simp add: vfs_Close_file)
  show "GetFile (fst (snd (vfs_Close ops pid fd v w))) pid fd = None" by (simp add: vfs_Close_file)
qed

definition demo_ops :: "(string, string list) FileOps" where
  "demo_ops = \<lparr>fo_Read = \<lambda>f n w. (Inr f, w), fo_Write = \<lambda>f dat w. (None, w @ [dat]),
     fo_Close = \<lambda>f w. (if f = ''bad'' then Some (PlainError f) else None, w @ [f]),
     fo_Stat = \<lambda>f w. Inr (FileStat f 0 False [])\<rparr>"

text \<open>
  The descriptor \<open>Open\<close> returns is at least 3, was not open before, refers to the file the
  device made, and no descriptor of any process changes besides; a failed \<open>Open\<close> changes nothing.
\<close>

theorem open_fresh_fd:
  assumes "(v, w) = fold (vfs_step ops) before (NewVFS d, w0)"
    and "vfs_Open pid path flags v w = (r, v', w')"
  shows "case r of
           Inl e \<Rightarrow> v' = v
         | Inr fd \<Rightarrow> 3 \<le> fd \<and> GetFile v pid fd = None \<and>
             (\<exists>f. dev_Open (v_devRegistry v) path flags (GetWorkDir v pid) w = (Inr f, w') \<and>
                  (\<forall>p fd'. GetFile v' p fd' = (if p = pid \<and> fd' = fd then Some f else GetFile v p fd')))"
proof -
  have ok: "vfs_ok v" using vfs_run_ok [of "(NewVFS d, w0)" ops before] assms(1) by (metis NewVFS_ok fst_conv)
  show ?thesis
  proof (rule vfs_Open_cases [of pid path flags v w])
    fix e w1
    assume "vfs_Open pid path flags v w = (Inl e, v, w1)"
    with assms(2) show ?thesis by auto
  next
    fix f w1
    assume dev: "dev_Open (v_devRegistry v) path flags (GetWorkDir v pid) w = (Inr f, w1)"
      and "vfs_Open pid path flags v w = (Inr (next_fd v pid), snd (RegisterFD pid f v), w1)"
    with assms(2) have f: "r = Inr (next_fd v pid)" "v' = snd (RegisterFD pid f v)" "w1 = w'" by auto
    have "3 \<le> next_fd v pid"
      using ok by (auto simp: next_fd_def vfs_ok_def getFDTable_def ft_ok_def split: option.splits)
    moreover have "GetFile v pid (next_fd v pid) = None"
      using GetFile_bound [OF ok, of pid "next_fd v pid"] by (cases "GetFile v pid (next_fd v pid)") auto
    ultimately show ?thesis using f dev by (simp add: RegisterFD_file)
  qed
qed

section \<open>Closing everything\<close>

text \<open>The driver calls of \<open>CloseAll\<close> as the plain left-to-right run over the open files.\<close>

fun close_results :: "('f, 'w) FileOps \<Rightarrow> 'f list \<Rightarrow> 'w \<Rightarrow> go_error option list \<times> 'w" where
  "close_results ops [] w = ([], w)"
| "close_results ops (f # fs) w =
     (case fo_Close ops f w of (e, w1) \<Rightarrow> case close_results ops fs w1 of (es, w2) \<Rightarrow> (e # es, w2))"

definition first_error :: "go_error option list \<Rightarrow> go_error option" where
  "first_error es = (case filter (\<lambda>e. e \<noteq> None) es of [] \<Rightarrow> None | e # _ \<Rightarrow> e)"

lemma close_files_results:
  "close_files ops fs e w =
     (if e = None then first_error (fst (close_results ops fs w)) else e, snd (close_results ops fs w))"
  by (induction fs arbitrary: e w) (auto simp: first_error_def split: prod.splits)

text \<open>
  \<open>CloseAll\<close> closes every open file of the process once, also after one of them failed, returns
  the first error, leaves the process without descriptors and working directory, and touches no
  other process.
\<close>

lemma close_all_closes_every_file:
  "case vfs_CloseAll ops pid v w of (err, v', w') \<Rightarrow>
     (let files = (case getFDTable v pid of None \<Rightarrow> [] | Some t \<Rightarrow> map snd (ft_files t))
      in (err, w') = (first_error (fst (close_results ops files w)), snd (close_results ops files w))) \<and>
     (\<forall>p fd. GetFile v' p fd = (if p = pid then None else GetFile v p fd)) \<and>
     (\<forall>p. GetWorkDir v' p = (if p = pid then [] else GetWorkDir v p))"
proof -
  have dir: "GetWorkDir (fst (snd (vfs_CloseAll ops pid v w))) p = (if p = pid then [] else GetWorkDir v p)" for p
    by (auto simp: vfs_CloseAll_def GetWorkDir_def sm.lookup_remove Let_def split: option.splits prod.splits)
  have calls: "(fst (vfs_CloseAll ops pid v w), snd (snd (vfs_CloseAll ops pid v w)))
      = (let files = (case getFDTable v pid of None \<Rightarrow> [] | Some t \<Rightarrow> map snd (ft_files t))
         in (first_error (fst (close_results ops files w)), snd (close_results ops files w)))"
    by (auto simp: vfs_CloseAll_def getFDTable_def sm_load_and_delete_def sm_load_def ft_closeAll_def
        close_files_results first_error_def Let_def split: option.splits prod.splits)
  show ?thesis using calls dir vfs_CloseAll_file(1) [of ops pid v w] by (auto simp: Let_def split: prod.splits)
qed

end
