(* ===== verification/Pipes.thy ===== *)
theory Pipes
  imports Vfs
begin

text \<open>
  The bounded pipe between two processes (\<open>kernel/ipc.go\<close>, \<open>pipeBuffer\<close> and its two ends). A
  write or a read is a loop of critical sections, non-blocking signals on one-slot channels and
  selects; the theory has each of these as a step and runs one writer, one reader and any number of
  closers against each other in every order.
\<close>

definition DefaultPipeBufferSize :: int where "DefaultPipeBufferSize = 64 * 1024"

record pipeBuffer =
  pb_buf :: string
  pb_capacity :: int
  pb_rdNotify :: bool
  pb_wrNotify :: bool
  pb_wrClosed :: bool
  pb_rdClosed :: bool

definition newPipeBuffer :: "int \<Rightarrow> pipeBuffer" where
  "newPipeBuffer capacity =
     \<lparr>pb_buf = [], pb_capacity = capacity, pb_rdNotify = False, pb_wrNotify = False,
      pb_wrClosed = False, pb_rdClosed = False\<rparr>"

section \<open>Critical sections\<close>

text \<open>One pass of the loop of \<open>write\<close> with \<open>written < len(data)\<close>, up to its unlock.\<close>

datatype write_outcome = WFail go_error | WChunk nat pipeBuffer | WFull

definition write_pass :: "string \<Rightarrow> nat \<Rightarrow> pipeBuffer \<Rightarrow> write_outcome" where
  "write_pass dat written p =
     (if pb_rdClosed p then WFail (DriverError ''Write'' ''pipe'' ErrBrokenPipe)
      else if pb_wrClosed p then WFail (DriverError ''Write'' ''pipe'' ErrInvalid)
      else
        let available = pb_capacity p - int (length (pb_buf p))
        in if available > 0 then
             let chunk = drop written dat;
                 chunk' = (if int (length chunk) > available then take (nat available) chunk else chunk)
             in WChunk (written + length chunk') (p\<lparr>pb_buf := pb_buf p @ chunk'\<rparr>)
           else WFull)"

text \<open>One pass of \<open>read\<close>. \<open>make\<close> panics on a negative length.\<close>

datatype read_outcome = RdData string pipeBuffer | RdEOF | RdEmpty | RdPanic

definition read_pass :: "int \<Rightarrow> pipeBuffer \<Rightarrow> read_outcome" where
  "read_pass len p =
     (if pb_buf p \<noteq> [] then
        if len < 0 then RdPanic
        else
          let n = nat (min len (int (length (pb_buf p))))
          in RdData (take n (pb_buf p)) (p\<lparr>pb_buf := drop n (pb_buf p)\<rparr>)
      else if pb_wrClosed p then RdEOF
      else RdEmpty)"

definition closeWrite_locked :: "pipeBuffer \<Rightarrow> pipeBuffer" where
  "closeWrite_locked p = p\<lparr>pb_wrClosed := True\<rparr>"

definition closeRead_locked :: "pipeBuffer \<Rightarrow> pipeBuffer" where
  "closeRead_locked p = p\<lparr>pb_rdClosed := True\<rparr>"

definition closeWrite :: "pipeBuffer \<Rightarrow> pipeBuffer" where
  "closeWrite p = (closeWrite_locked p)\<lparr>pb_rdNotify := True\<rparr>"

definition closeRead :: "pipeBuffer \<Rightarrow> pipeBuffer" where
  "closeRead p = (closeRead_locked p)\<lparr>pb_wrNotify := True\<rparr>"

section \<open>The two ends as files\<close>

text \<open>
  The methods that do not reach the buffer's loops: the wrong-direction calls, \<open>Stat\<close>, the check
  of the write context, and \<open>Close\<close>, which acts once. An end is its \<open>closed\<close> flag.
\<close>

definition readEnd_Write :: "string \<Rightarrow> go_error" where
  "readEnd_Write dat = DriverError ''Write'' ''pipe:read'' ErrInvalid"

definition writeEnd_Read :: "int \<Rightarrow> go_error" where
  "writeEnd_Read n = DriverError ''Read'' ''pipe:write'' ErrInvalid"

definition readEnd_Stat :: FileStat where
  "readEnd_Stat = FileStat ''pipe:read'' 0 True ''pipe''"

definition writeEnd_Stat :: FileStat where
  "writeEnd_Stat = FileStat ''pipe:write'' 0 True ''pipe''"

definition readEnd_Close :: "bool \<Rightarrow> pipeBuffer \<Rightarrow> bool \<times> pipeBuffer" where
  "readEnd_Close closed p = (if closed then (closed, p) else (True, closeRead p))"

definition writeEnd_Close :: "bool \<Rightarrow> pipeBuffer \<Rightarrow> bool \<times> pipeBuffer" where
  "writeEnd_Close closed p = (if closed then (closed, p) else (True, closeWrite p))"

definition writeEnd_precheck :: "bool \<Rightarrow> go_error option" where
  "writeEnd_precheck ctx_done = (if ctx_done then Some (DriverError ''Write'' ''pipe'' ErrTimeout) else None)"

section \<open>Writer, reader and closers\<close>

datatype wpc =
    WIdle | WLoop string nat | is_WNotify: WNotify string nat | is_WWait: WWait string nat
  | WRet string nat "go_error option"

datatype rdpc =
    RdIdle | RdLoop int | is_RdNotify: RdNotify string | is_RdWait: RdWait int | RdRet "go_error + string" | RdPanicked

text \<open>
  \<open>ps_in\<close> and \<open>ps_out\<close> are the bytes accepted and delivered so far, \<open>ps_base\<close> those accepted before
  the current write; \<open>ps_clW\<close> and \<open>ps_clR\<close> count closers between unlock and signal.
\<close>

record pipe_sys =
  ps_p :: pipeBuffer
  ps_w :: wpc
  ps_r :: rdpc
  ps_clW :: nat
  ps_clR :: nat
  ps_in :: string
  ps_out :: string
  ps_base :: string

definition pipe_init :: "int \<Rightarrow> pipe_sys" where
  "pipe_init cap = \<lparr>ps_p = newPipeBuffer cap, ps_w = WIdle, ps_r = RdIdle, ps_clW = 0, ps_clR = 0,
     ps_in = [], ps_out = [], ps_base = []\<rparr>"

datatype pipe_action =
    PWrite string | PWPass | PWSignal | PWWake | PWCancel
  | PRead int | PRPass | PRSignal | PRWake | PRCancel
  | PCloseW | PCloseWSignal | PCloseR | PCloseRSignal

fun pipe_act :: "pipe_action \<Rightarrow> pipe_sys \<Rightarrow> pipe_sys option" where
  "pipe_act (PWrite dat) s =
     (case ps_w s of
        WIdle \<Rightarrow> Some (s\<lparr>ps_w := WLoop dat 0, ps_base := ps_in s\<rparr>)
      | WRet _ _ _ \<Rightarrow> Some (s\<lparr>ps_w := WLoop dat 0, ps_base := ps_in s\<rparr>)
      | _ \<Rightarrow> None)"
| "pipe_act PWPass s =
     (case ps_w s of
        WLoop dat written \<Rightarrow>
          if written < length dat then
            (case write_pass dat written (ps_p s) of
               WFail e \<Rightarrow> Some (s\<lparr>ps_w := WRet dat written (Some e)\<rparr>)
             | WChunk n p \<Rightarrow>
                 Some (s\<lparr>ps_p := p, ps_w := WNotify dat n,
                         ps_in := ps_in s @ drop (length (pb_buf (ps_p s))) (pb_buf p)\<rparr>)
             | WFull \<Rightarrow> Some (s\<lparr>ps_w := WWait dat written\<rparr>))
          else Some (s\<lparr>ps_w := WRet dat written None\<rparr>)
      | _ \<Rightarrow> None)"
| "pipe_act PWSignal s =
     (case ps_w s of
        WNotify dat written \<Rightarrow>
          Some (s\<lparr>ps_p := (ps_p s)\<lparr>pb_rdNotify := True\<rparr>, ps_w := WLoop dat written\<rparr>)
      | _ \<Rightarrow> None)"
| "pipe_act PWWake s =
     (case ps_w s of
        WWait dat written \<Rightarrow>
          if pb_wrNotify (ps_p s)
          then Some (s\<lparr>ps_p := (ps_p s)\<lparr>pb_wrNotify := False\<rparr>, ps_w := WLoop dat written\<rparr>)
          else None
      | _ \<Rightarrow> None)"
| "pipe_act PWCancel s =
     (case ps_w s of
        WWait dat written \<Rightarrow> Some (s\<lparr>ps_w := WRet dat written (Some (PlainError ''context canceled''))\<rparr>)
      | _ \<Rightarrow> None)"
| "pipe_act (PRead len) s =
     (case ps_r s of
        RdIdle \<Rightarrow> Some (s\<lparr>ps_r := RdLoop len\<rparr>)
      | RdRet _ \<Rightarrow> Some (s\<lparr>ps_r := RdLoop len\<rparr>)
      | _ \<Rightarrow> None)"
| "pipe_act PRPass s =
     (case ps_r s of
        RdLoop len \<Rightarrow>
          (case read_pass len (ps_p s) of
             RdData dat p \<Rightarrow> Some (s\<lparr>ps_p := p, ps_r := RdNotify dat, ps_out := ps_out s @ dat\<rparr>)
           | RdEOF \<Rightarrow> Some (s\<lparr>ps_r := RdRet (Inl (PlainError ''EOF''))\<rparr>)
           | RdEmpty \<Rightarrow> Some (s\<lparr>ps_r := RdWait len\<rparr>)
           | RdPanic \<Rightarrow> Some (s\<lparr>ps_r := RdPanicked\<rparr>))
      | _ \<Rightarrow> None)"
| "pipe_act PRSignal s =
     (case ps_r s of
        RdNotify dat \<Rightarrow>
          Some (s\<lparr>ps_p := (ps_p s)\<lparr>pb_wrNotify := True\<rparr>, ps_r := RdRet (Inr dat)\<rparr>)
      | _ \<Rightarrow> None)"
| "pipe_act PRWake s =
     (case ps_r s of
        RdWait len \<Rightarrow>
          if pb_rdNotify (ps_p s)
          then Some (s\<lparr>ps_p := (ps_p s)\<lparr>pb_rdNotify := False\<rparr>, ps_r := RdLoop len\<rparr>)
          else None
      | _ \<Rightarrow> None)"
| "pipe_act PRCancel s =
     (case ps_r s of
        RdWait len \<Rightarrow> Some (s\<lparr>ps_r := RdRet (Inl (PlainError ''context canceled''))\<rparr>)
      | _ \<Rightarrow> None)"
| "pipe_act PCloseW s = Some (s\<lparr>ps_p := closeWrite_locked (ps_p s), ps_clW := ps_clW s + 1\<rparr>)"
| "pipe_act PCloseWSignal s =
     (if ps_clW s = 0 then None
      else Some (s\<lparr>ps_p := (ps_p s)\<lparr>pb_rdNotify := True\<rparr>, ps_clW := ps_clW s - 1\<rparr>))"
| "pipe_act PCloseR s = Some (s\<lparr>ps_p := closeRead_locked (ps_p s), ps_clR := ps_clR s + 1\<rparr>)"
| "pipe_act PCloseRSignal s =
     (if ps_clR s = 0 then None
      else Some (s\<lparr>ps_p := (ps_p s)\<lparr>pb_wrNotify := True\<rparr>, ps_clR := ps_clR s - 1\<rparr>))"

inductive pipe_reach :: "int \<Rightarrow> pipe_sys \<Rightarrow> bool" for cap where
  start: "pipe_reach cap (pipe_init cap)"
| act: "pipe_reach cap s \<Longrightarrow> pipe_act a s = Some s' \<Longrightarrow> pipe_reach cap s'"

fun pipe_run :: "pipe_action list \<Rightarrow> pipe_sys \<Rightarrow> pipe_sys option" where
  "pipe_run [] s = Some s"
| "pipe_run (a # as) s = (case pipe_act a s of None \<Rightarrow> None | Some s' \<Rightarrow> pipe_run as s')"

lemma pipe_run_reach: "pipe_reach cap s \<Longrightarrow> pipe_run as s = Some s' \<Longrightarrow> pipe_reach cap s'"
  by (induction as arbitrary: s) (auto split: option.splits intro: pipe_reach.act)

text \<open>Each action, inverted.\<close>

lemma pipe_act_writer:
  "pipe_act (PWrite dat) s = Some s' \<longleftrightarrow>
     (ps_w s = WIdle \<or> (\<exists>d n e. ps_w s = WRet d n e)) \<and> s' = s\<lparr>ps_w := WLoop dat 0, ps_base := ps_in s\<rparr>"
  "pipe_act PWSignal s = Some s' \<longleftrightarrow>
     (\<exists>dat n. ps_w s = WNotify dat n \<and> s' = s\<lparr>ps_p := (ps_p s)\<lparr>pb_rdNotify := True\<rparr>, ps_w := WLoop dat n\<rparr>)"
  "pipe_act PWWake s = Some s' \<longleftrightarrow>
     (\<exists>dat n. ps_w s = WWait dat n \<and> pb_wrNotify (ps_p s) \<and>
        s' = s\<lparr>ps_p := (ps_p s)\<lparr>pb_wrNotify := False\<rparr>, ps_w := WLoop dat n\<rparr>)"
  "pipe_act PWCancel s = Some s' \<longleftrightarrow>
     (\<exists>dat n. ps_w s = WWait dat n \<and>
        s' = s\<lparr>ps_w := WRet dat n (Some (PlainError ''context canceled''))\<rparr>)"
  by (cases "ps_w s"; auto)+

lemma pipe_act_reader:
  "pipe_act (PRead len) s = Some s' \<longleftrightarrow>
     (ps_r s = RdIdle \<or> (\<exists>r. ps_r s = RdRet r)) \<and> s' = s\<lparr>ps_r := RdLoop len\<rparr>"
  "pipe_act PRSignal s = Some s' \<longleftrightarrow>
     (\<exists>dat. ps_r s = RdNotify dat \<and> s' = s\<lparr>ps_p := (ps_p s)\<lparr>pb_wrNotify := True\<rparr>, ps_r := RdRet (Inr dat)\<rparr>)"
  "pipe_act PRWake s = Some s' \<longleftrightarrow>
     (\<exists>len. ps_r s = RdWait len \<and> pb_rdNotify (ps_p s) \<and>
        s' = s\<lparr>ps_p := (ps_p s)\<lparr>pb_rdNotify := False\<rparr>, ps_r := RdLoop len\<rparr>)"
  "pipe_act PRCancel s = Some s' \<longleftrightarrow>
     (\<exists>len. ps_r s = RdWait len \<and> s' = s\<lparr>ps_r := RdRet (Inl (PlainError ''context canceled''))\<rparr>)"
  by (cases "ps_r s"; auto)+

lemma pipe_act_closers:
  "pipe_act PCloseW s = Some s' \<longleftrightarrow> s' = s\<lparr>ps_p := (ps_p s)\<lparr>pb_wrClosed := True\<rparr>, ps_clW := ps_clW s + 1\<rparr>"
  "pipe_act PCloseR s = Some s' \<longleftrightarrow> s' = s\<lparr>ps_p := (ps_p s)\<lparr>pb_rdClosed := True\<rparr>, ps_clR := ps_clR s + 1\<rparr>"
  "pipe_act PCloseWSignal s = Some s' \<longleftrightarrow>
     0 < ps_clW s \<and> s' = s\<lparr>ps_p := (ps_p s)\<lparr>pb_rdNotify := True\<rparr>, ps_clW := ps_clW s - 1\<rparr>"
  "pipe_act PCloseRSignal s = Some s' \<longleftrightarrow>
     0 < ps_clR s \<and> s' = s\<lparr>ps_p := (ps_p s)\<lparr>pb_wrNotify := True\<rparr>, ps_clR := ps_clR s - 1\<rparr>"
  by (auto simp: closeWrite_locked_def closeRead_locked_def)

lemmas pipe_act_inv = pipe_act_writer pipe_act_reader pipe_act_closers

section \<open>The stream\<close>

fun w_progress :: "wpc \<Rightarrow> (string \<times> nat) option" where
  "w_progress WIdle = None"
| "w_progress (WLoop dat n) = Some (dat, n)"
| "w_progress (WNotify dat n) = Some (dat, n)"
| "w_progress (WWait dat n) = Some (dat, n)"
| "w_progress (WRet dat n e) = Some (dat, n)"

definition stream_ok :: "int \<Rightarrow> pipe_sys \<Rightarrow> bool" where
  "stream_ok cap s \<longleftrightarrow>
     pb_capacity (ps_p s) = cap \<and> int (length (pb_buf (ps_p s))) \<le> max 0 cap \<and>
     ps_in s = ps_out s @ pb_buf (ps_p s) \<and>
     (\<forall>dat n. w_progress (ps_w s) = Some (dat, n) \<longrightarrow> n \<le> length dat \<and> ps_in s = ps_base s @ take n dat) \<and>
     (\<forall>dat n. ps_w s = WRet dat n None \<longrightarrow> n = length dat) \<and>
     (ps_r s = RdRet (Inl (PlainError ''EOF'')) \<longrightarrow> pb_wrClosed (ps_p s) \<and> pb_buf (ps_p s) = [])"

lemma write_pass_chunk:
  assumes "write_pass dat n p = WChunk m p'" and "n < length dat"
  obtains k where "m = n + k" "m \<le> length dat" "pb_buf p' = pb_buf p @ take k (drop n dat)"
    "int (length (pb_buf p')) \<le> pb_capacity p" "pb_capacity p' = pb_capacity p"
    "\<not> pb_wrClosed p"
proof -
  let ?a = "pb_capacity p - int (length (pb_buf p))"
  let ?k = "min (nat ?a) (length dat - n)"
  have "?a > 0" using assms(1) by (auto simp: write_pass_def Let_def split: if_splits)
  moreover have "m = n + ?k" "p' = p\<lparr>pb_buf := pb_buf p @ take ?k (drop n dat)\<rparr>"
    using assms \<open>?a > 0\<close> by (auto simp: write_pass_def Let_def min_def split: if_splits)
  moreover have "\<not> pb_wrClosed p" using assms(1) by (auto simp: write_pass_def split: if_splits)
  ultimately show ?thesis using assms(2) by (intro that [of ?k]) auto
qed

lemma read_pass_data:
  assumes "read_pass len p = RdData dat p'"
  shows "pb_buf p = dat @ pb_buf p'" and "pb_capacity p' = pb_capacity p" and "0 \<le> len"
    and "int (length dat) = min len (int (length (pb_buf p)))"
  using assms by (auto simp: read_pass_def Let_def min_def split: if_splits)

lemma stream_ok_step:
  assumes "stream_ok cap s" and "pipe_act a s = Some s'"
  shows "stream_ok cap s'"
proof (cases a)
  case PWPass
  then obtain dat n where w: "ps_w s = WLoop dat n" using assms(2) by (auto split: wpc.splits)
  show ?thesis
  proof (cases "n < length dat")
    case False
    with PWPass w assms show ?thesis by (auto simp: stream_ok_def)
  next
    case True
    show ?thesis
    proof (cases "write_pass dat n (ps_p s)")
      case (WChunk m p)
      from write_pass_chunk [OF this True] obtain k where k: "m = n + k" "m \<le> length dat"
        "pb_buf p = pb_buf (ps_p s) @ take k (drop n dat)" "int (length (pb_buf p)) \<le> pb_capacity (ps_p s)"
        "pb_capacity p = pb_capacity (ps_p s)" "\<not> pb_wrClosed (ps_p s)" by metis
      have s': "s' = s\<lparr>ps_p := p, ps_w := WNotify dat m, ps_in := ps_in s @ take k (drop n dat)\<rparr>"
        using WChunk True PWPass w assms(2) k(3) by simp
      show ?thesis using assms(1) w k unfolding s' by (auto simp: stream_ok_def take_add)
    qed (use True PWPass w assms in \<open>auto simp: stream_ok_def\<close>)
  qed
next
  case PRPass
  then obtain len where r: "ps_r s = RdLoop len" using assms(2) by (auto split: rdpc.splits)
  show ?thesis
  proof (cases "read_pass len (ps_p s)")
    case (RdData dat p)
    from read_pass_data [OF this] have p: "pb_buf (ps_p s) = dat @ pb_buf p"
      "pb_capacity p = pb_capacity (ps_p s)" by auto
    then show ?thesis using assms PRPass r RdData p(1) by (auto simp: stream_ok_def)
  next
    case RdEOF
    then have "pb_wrClosed (ps_p s)" "pb_buf (ps_p s) = []"
      by (auto simp: read_pass_def Let_def split: if_splits)
    with RdEOF PRPass r assms show ?thesis by (auto simp: stream_ok_def)
  qed (use PRPass r assms in \<open>auto simp: stream_ok_def\<close>)
qed (use assms in \<open>auto simp: stream_ok_def pipe_act_inv simp del: pipe_act.simps\<close>)

lemma stream_ok_reach: "pipe_reach cap s \<Longrightarrow> stream_ok cap s"
proof (induction rule: pipe_reach.induct)
  case start
  show ?case by (simp add: stream_ok_def pipe_init_def newPipeBuffer_def)
next
  case (act s a s')
  from stream_ok_step [OF act.IH act.hyps(2)] show ?case .
qed

text \<open>
  C3: at every point of every interleaving the bytes accepted are the bytes delivered followed by the
  buffer, which never exceeds the capacity; a write that returned no error had all its bytes
  accepted, contiguously; one that failed had exactly the prefix it reports accepted; end-of-file is
  answered only when every accepted byte has been delivered.
\<close>

theorem pipe_stream_integrity:
  assumes "pipe_reach cap s"
  shows "ps_in s = ps_out s @ pb_buf (ps_p s) \<and> int (length (pb_buf (ps_p s))) \<le> max 0 cap \<and>
    (case ps_w s of
       WRet dat n None \<Rightarrow> n = length dat \<and> ps_in s = ps_base s @ dat
     | WRet dat n (Some e) \<Rightarrow> n \<le> length dat \<and> ps_in s = ps_base s @ take n dat
     | _ \<Rightarrow> True) \<and>
    (ps_r s = RdRet (Inl (PlainError ''EOF'')) \<longrightarrow> ps_in s = ps_out s)"
  using stream_ok_reach [OF assms] by (auto simp: stream_ok_def split: wpc.splits option.splits)

lemmas pipe_exec = pipe_init_def newPipeBuffer_def write_pass_def read_pass_def Let_def closeWrite_locked_def

theorem pipe_stream_integrity_witness:
  "\<exists>s. pipe_run [PWrite ''abc'', PWPass, PWSignal, PRead 2, PRPass, PRSignal, PWPass, PWSignal, PWPass] (pipe_init 2) = Some s \<and>
     ps_in s = ps_out s @ pb_buf (ps_p s) \<and> ps_in s = ''abc'' \<and> ps_out s = ''ab''"
proof -
  obtain s where run: "pipe_run [PWrite ''abc'', PWPass, PWSignal, PRead 2, PRPass, PRSignal, PWPass, PWSignal, PWPass]
      (pipe_init 2) = Some s" and s: "ps_in s = ''abc''" "ps_out s = ''ab''"
    by (simp add: pipe_exec)
  from pipe_stream_integrity [OF pipe_run_reach [OF pipe_reach.start run]] run s show ?thesis by blast
qed

section \<open>Wake-ups\<close>

definition reader_wakeable :: "pipe_sys \<Rightarrow> bool" where
  "reader_wakeable s \<longleftrightarrow> pb_rdNotify (ps_p s) \<or> 0 < ps_clW s \<or> is_WNotify (ps_w s)"

definition writer_wakeable :: "pipe_sys \<Rightarrow> bool" where
  "writer_wakeable s \<longleftrightarrow> pb_wrNotify (ps_p s) \<or> 0 < ps_clR s \<or> is_RdNotify (ps_r s)"

definition wake_ok :: "pipe_sys \<Rightarrow> bool" where
  "wake_ok s \<longleftrightarrow>
     (is_RdWait (ps_r s) \<and> (pb_buf (ps_p s) \<noteq> [] \<or> pb_wrClosed (ps_p s)) \<longrightarrow> reader_wakeable s) \<and>
     (is_WWait (ps_w s) \<and>
      (int (length (pb_buf (ps_p s))) < pb_capacity (ps_p s) \<or> pb_rdClosed (ps_p s)) \<longrightarrow> writer_wakeable s)"

lemmas wake_defs = wake_ok_def reader_wakeable_def writer_wakeable_def closeWrite_locked_def closeRead_locked_def

lemma wake_ok_step:
  assumes "wake_ok s" and "pipe_act a s = Some s'"
  shows "wake_ok s'"
proof -
  have st: "Some s' = pipe_act a s" using assms(2) by simp
  show ?thesis
  proof (cases a)
  case PWPass
  then obtain dat n where w: "ps_w s = WLoop dat n" using assms(2) by (auto split: wpc.splits)
  show ?thesis
  proof (cases "n < length dat")
    case True
    show ?thesis
    proof (cases "write_pass dat n (ps_p s)")
      case WFull
      then have "\<not> int (length (pb_buf (ps_p s))) < pb_capacity (ps_p s)" "\<not> pb_rdClosed (ps_p s)"
        by (auto simp: write_pass_def Let_def split: if_splits)
      moreover have "s' = s\<lparr>ps_w := WWait dat n\<rparr>" using WFull True w PWPass st by simp
      ultimately show ?thesis using assms(1) w by (simp add: wake_defs)
    qed (use True w PWPass assms(1) st in \<open>simp_all add: wake_defs\<close>)
  qed (use w PWPass assms(1) st in \<open>simp_all add: wake_defs\<close>)
next
  case PRPass
  then obtain len where r: "ps_r s = RdLoop len" using assms(2) by (auto split: rdpc.splits)
  show ?thesis
  proof (cases "read_pass len (ps_p s)")
    case RdEmpty
    then have "pb_buf (ps_p s) = []" "\<not> pb_wrClosed (ps_p s)"
      by (auto simp: read_pass_def Let_def split: if_splits)
    with RdEmpty r PRPass assms(1) st show ?thesis by (simp add: wake_defs)
  next
    case (RdData dat p)
    then have "pb_rdNotify p = pb_rdNotify (ps_p s)" "pb_wrClosed p = pb_wrClosed (ps_p s)"
      by (auto simp: read_pass_def Let_def split: if_splits)
    with RdData r PRPass assms(1) st show ?thesis by (simp add: wake_defs)
  qed (use r PRPass assms(1) st in \<open>simp_all add: wake_defs\<close>)
qed (use assms in \<open>simp_all only: pipe_act_inv\<close>, ((elim exE conjE disjE)?; simp add: wake_defs)+)
qed

lemma wake_ok_reach: "pipe_reach cap s \<Longrightarrow> wake_ok s"
proof (induction rule: pipe_reach.induct)
  case start
  show ?case by (simp add: wake_ok_def pipe_init_def)
next
  case (act s a s')
  from wake_ok_step [OF act.IH act.hyps(2)] show ?case .
qed

text \<open>
  A blocked reader is never left behind: when it waits while bytes are buffered or the write end
  is closed, the signal due from the writer or the closer, its wake-up and one more pass return its
  call, with the next bytes of the stream or, once the buffer is empty, with end-of-file.
\<close>

lemma pipe_reader_progress:
  assumes "pipe_reach cap s" and "ps_r s = RdWait len" and "0 \<le> len"
    and "pb_buf (ps_p s) \<noteq> [] \<or> pb_wrClosed (ps_p s)"
  shows "\<exists>acts s'. set acts \<subseteq> {PWSignal, PCloseWSignal, PRWake, PRPass, PRSignal} \<and> pipe_run acts s = Some s' \<and>
           ps_r s' = RdRet (if pb_buf (ps_p s) = [] then Inl (PlainError ''EOF'')
                            else Inr (take (nat len) (pb_buf (ps_p s))))"
proof -
  let ?goal = "\<lambda>b. RdRet (if b = [] then Inl (PlainError ''EOF'') else Inr (take (nat len) b))"
  have fin: "\<exists>acts s'. set acts \<subseteq> {PRWake, PRPass, PRSignal} \<and> pipe_run acts t = Some s' \<and> ps_r s' = ?goal (pb_buf (ps_p t))"
    if t: "ps_r t = RdWait len" "pb_rdNotify (ps_p t)" "pb_buf (ps_p t) \<noteq> [] \<or> pb_wrClosed (ps_p t)" for t
  proof (cases "pb_buf (ps_p t) = []")
    case True
    with t have "\<exists>s'. pipe_run [PRWake, PRPass] t = Some s' \<and> ps_r s' = ?goal (pb_buf (ps_p t))"
      by (simp add: read_pass_def)
    moreover have "set [PRWake, PRPass] \<subseteq> {PRWake, PRPass, PRSignal}" by simp
    ultimately show ?thesis by blast
  next
    case False
    have "take (nat (min len (int (length b)))) b = take (nat len) b" for b :: string
      using assms(3) by (simp add: min_def nat_le_iff)
    with False t assms(3) have "\<exists>s'. pipe_run [PRWake, PRPass, PRSignal] t = Some s' \<and> ps_r s' = ?goal (pb_buf (ps_p t))"
      by (simp add: read_pass_def Let_def)
    moreover have "set [PRWake, PRPass, PRSignal] \<subseteq> {PRWake, PRPass, PRSignal}" by simp
    ultimately show ?thesis by blast
  qed
  have pre: ?thesis
    if a: "pipe_act a s = Some t" "a \<in> {PWSignal, PCloseWSignal}" and t: "ps_r t = RdWait len"
      "pb_rdNotify (ps_p t)" "pb_buf (ps_p t) = pb_buf (ps_p s)" "pb_wrClosed (ps_p t) = pb_wrClosed (ps_p s)" for a t
  proof -
    from fin [OF t(1,2)] t(3,4) assms(4) obtain acts s' where
      f: "set acts \<subseteq> {PRWake, PRPass, PRSignal}" "pipe_run acts t = Some s'" "ps_r s' = ?goal (pb_buf (ps_p s))"
      by auto
    have "set (a # acts) \<subseteq> {PWSignal, PCloseWSignal, PRWake, PRPass, PRSignal}" using f(1) a(2) by auto
    moreover have "pipe_run (a # acts) s = Some s'" using a(1) f(2) by simp
    ultimately show ?thesis using f(3) by blast
  qed
  have "reader_wakeable s" using wake_ok_reach [OF assms(1)] assms(2,4) by (simp add: wake_ok_def)
  then consider "pb_rdNotify (ps_p s)" | "0 < ps_clW s" | "is_WNotify (ps_w s)"
    by (auto simp: reader_wakeable_def)
  then show ?thesis
  proof cases
    case 1
    from fin [OF assms(2) 1 assms(4)] show ?thesis by fastforce
  next
    case 2
    show ?thesis by (rule pre [of PCloseWSignal "s\<lparr>ps_p := (ps_p s)\<lparr>pb_rdNotify := True\<rparr>, ps_clW := ps_clW s - 1\<rparr>"])
        (use 2 assms(2) in simp_all)
  next
    case 3
    then obtain dat n where "ps_w s = WNotify dat n" by (cases "ps_w s") auto
    then show ?thesis by (intro pre [of PWSignal "s\<lparr>ps_p := (ps_p s)\<lparr>pb_rdNotify := True\<rparr>, ps_w := WLoop dat n\<rparr>"])
        (use assms(2) in simp_all)
  qed
qed

text \<open>
  A blocked writer is never left behind either: when it waits while the buffer has room or the
  read end is closed, the signal due from the reader or the closer, its wake-up and one more pass
  accept at least one more byte, or return its call with an error if an end is closed.
\<close>

lemma pipe_writer_progress:
  assumes "pipe_reach cap s" and "ps_w s = WWait dat n" and "n < length dat"
    and "int (length (pb_buf (ps_p s))) < cap \<or> pb_rdClosed (ps_p s)"
  shows "\<exists>acts s'. set acts \<subseteq> {PRSignal, PCloseRSignal, PWWake, PWPass} \<and> pipe_run acts s = Some s' \<and>
           (if pb_rdClosed (ps_p s) \<or> pb_wrClosed (ps_p s) then \<exists>e. ps_w s' = WRet dat n (Some e)
            else \<exists>m > n. ps_w s' = WNotify dat m)"
proof -
  let ?goal = "\<lambda>p s'. if pb_rdClosed p \<or> pb_wrClosed p then \<exists>e. ps_w s' = WRet dat n (Some e)
                     else \<exists>m > n. ps_w s' = WNotify dat m"
  have cap: "pb_capacity (ps_p s) = cap" using stream_ok_reach [OF assms(1)] by (simp add: stream_ok_def)
  have fin: "\<exists>s'. pipe_run [PWWake, PWPass] t = Some s' \<and> ?goal (ps_p t) s'"
    if t: "ps_w t = WWait dat n" "pb_wrNotify (ps_p t)"
      "int (length (pb_buf (ps_p t))) < pb_capacity (ps_p t) \<or> pb_rdClosed (ps_p t)" for t
    using t assms(3) by (auto simp: write_pass_def Let_def)
  have pre: ?thesis
    if a: "pipe_run as s = Some t" "set as \<subseteq> {PRSignal, PCloseRSignal}"
      and t: "ps_w t = WWait dat n" "pb_wrNotify (ps_p t)" "pb_buf (ps_p t) = pb_buf (ps_p s)"
      "pb_capacity (ps_p t) = pb_capacity (ps_p s)"
      "pb_wrClosed (ps_p t) = pb_wrClosed (ps_p s)" "pb_rdClosed (ps_p t) = pb_rdClosed (ps_p s)" for as t
  proof -
    from fin [OF t(1,2)] t(3-6) assms(4) cap obtain s' where
      f: "pipe_run [PWWake, PWPass] t = Some s'" "?goal (ps_p s) s'" by auto
    have "pipe_run (as @ bs) u = (case pipe_run as u of None \<Rightarrow> None | Some v \<Rightarrow> pipe_run bs v)" for bs u
      by (induction as arbitrary: u) (auto split: option.splits)
    with a f have "pipe_run (as @ [PWWake, PWPass]) s = Some s'" by simp
    moreover have "set (as @ [PWWake, PWPass]) \<subseteq> {PRSignal, PCloseRSignal, PWWake, PWPass}" using a(2) by auto
    ultimately show ?thesis using f(2) by blast
  qed
  have "writer_wakeable s" using wake_ok_reach [OF assms(1)] assms(2,4) cap by (simp add: wake_ok_def)
  then consider "pb_wrNotify (ps_p s)" | "0 < ps_clR s" | "is_RdNotify (ps_r s)"
    by (auto simp: writer_wakeable_def)
  then show ?thesis
  proof cases
    case 1
    show ?thesis by (rule pre [of "[]" s]) (use 1 assms(2) in simp_all)
  next
    case 2
    show ?thesis by (rule pre [of "[PCloseRSignal]" "s\<lparr>ps_p := (ps_p s)\<lparr>pb_wrNotify := True\<rparr>, ps_clR := ps_clR s - 1\<rparr>"])
        (use 2 assms(2) in simp_all)
  next
    case 3
    then obtain x where "ps_r s = RdNotify x" by (cases "ps_r s") auto
    then show ?thesis
      by (intro pre [of "[PRSignal]" "s\<lparr>ps_p := (ps_p s)\<lparr>pb_wrNotify := True\<rparr>, ps_r := RdRet (Inr x)\<rparr>"])
        (use assms(2) in simp_all)
  qed
qed

end
