(* ===== verification/KernelIPC.thy ===== *)
theory KernelIPC
  imports KernelRun Pipes
begin

text \<open>
  The IPC system calls on the process table (\<open>Send\<close>, \<open>Recv\<close> and \<open>Pipe\<close> of \<open>kernel/ipc.go\<close>) and the
  parts of message persistence that are not file I/O (\<open>kernel/ipc_persist.go\<close>). The queue itself, with
  its interleavings, is in \<open>MsgQueue\<close>, the pipe buffer in \<open>Pipes\<close>.
\<close>

section \<open>Messages\<close>

text \<open>\<open>wr\<close> tells whether the best-effort write of a persisted queue succeeds.\<close>

definition Send :: "kenv \<Rightarrow> bool \<Rightarrow> PID \<Rightarrow> PID \<Rightarrow> string \<Rightarrow> kernel \<Rightarrow> go_error option \<times> kernel" where
  "Send env wr sender target dat k =
     (case GetProcess k sender of
        None \<Rightarrow> (Some (SyscallError ''Send'' sender ErrNotFound), k)
      | Some sp \<Rightarrow>
          (case GetProcess k target of
             None \<Rightarrow> (Some (SyscallError ''Send'' sender ErrNotFound), k)
           | Some tp \<Rightarrow>
               if is_gone (pr_State tp) then (Some (SyscallError ''Send'' sender ErrNotFound), k)
               else
                 (let seq = k_msgSeq k + 1;
                      msg = \<lparr>m_FromPID = sender, m_ToPID = target, m_Seq = seq, m_Data = dat,
                             m_CreatedAt = e_now env, m_TraceID = pr_TraceID sp, m_SpanID = pr_SpanID sp\<rparr>;
                      ((queue, _), qs) = sm_load_or_store target newMessageQueue (k_msgQueues k);
                      k1 = k\<lparr>k_msgSeq := seq, k_msgQueues := qs\<rparr>
                  in case enqueue wr msg queue of
                       Inl _ \<Rightarrow> (Some (SyscallError ''Send'' sender ErrNotFound), k1)
                     | Inr queue' \<Rightarrow>
                         (let k2 = k1\<lparr>k_msgQueues := sm_store target queue' (k_msgQueues k1)\<rparr>;
                              k3 = out_if (SubImmune \<in> k_subsystems k2 \<and> e_template env sender \<noteq> [] \<and> e_template env target \<noteq> [])
                                     (OCooperation (e_template env sender) (e_template env target) ''msg'') k2
                          in (None, emitEvent sender ''Send''
                                [(''target_pid'', ANat target), (''msg_size'', ANat (length dat)), (''msg_seq'', ANat seq)]
                                None k3)))))"

text \<open>A process without a trace joins the one of the first traced message it receives.\<close>

definition adopt_trace :: "kenv \<Rightarrow> PID \<Rightarrow> Message \<Rightarrow> kernel \<Rightarrow> kernel" where
  "adopt_trace env pid msg k =
     (case GetProcess k pid of
        None \<Rightarrow> k
      | Some p \<Rightarrow>
          if m_TraceID msg \<noteq> [] \<and> SubSpans \<in> k_subsystems k \<and> pr_TraceID p = []
          then out (OStartSpan pid (m_TraceID msg) (e_spanID env) (m_SpanID msg))
                 (putProc pid (p\<lparr>pr_TraceID := m_TraceID msg, pr_SpanID := e_spanID env,
                                pr_ParentSpanID := m_SpanID msg\<rparr>) k)
          else k)"

text \<open>
  \<open>None\<close> as a result is a call that blocks; the context of the process is done once it is cancelled.
  Every error of the queue, the closed one included, is reported with the timeout code.
\<close>

definition Recv :: "kenv \<Rightarrow> bool \<Rightarrow> PID \<Rightarrow> kernel \<Rightarrow> (go_error + Message) option \<times> kernel" where
  "Recv env prefer_ctx pid k =
     (case GetProcess k pid of
        None \<Rightarrow> (Some (Inl (SyscallError ''Recv'' pid ErrNotFound)), k)
      | Some p \<Rightarrow>
          (let ((queue, _), qs) = sm_load_or_store pid newMessageQueue (k_msgQueues k)
           in case dequeue (pr_cancelled p) prefer_ctx queue of
                (r, queue') \<Rightarrow>
                  (let k1 = k\<lparr>k_msgQueues := sm_store pid queue' qs\<rparr>
                   in case r of
                        None \<Rightarrow> (None, k1)
                      | Some (Inl _) \<Rightarrow> (Some (Inl (SyscallError ''Recv'' pid ErrTimeout)), k1)
                      | Some (Inr msg) \<Rightarrow>
                          (Some (Inr msg),
                           adopt_trace env pid msg
                             (emitEvent pid ''Recv''
                                [(''from_pid'', ANat (m_FromPID msg)), (''msg_size'', ANat (length (m_Data msg))),
                                 (''msg_seq'', ANat (m_Seq msg))] None k1)))))"

section \<open>Pipes\<close>

text \<open>
  A file of the descriptor tables is an end of a pipe, which names its buffer and the process whose
  cancellation interrupts it, or a driver's file.
\<close>

datatype 'f kfile = PipeReadEnd nat PID | PipeWriteEnd nat PID | DriverFile 'f

definition KPipe ::
  "PID \<Rightarrow> PID \<Rightarrow> kernel \<times> ('f kfile, 'w, 'd) VFS \<times> pipeBuffer list
   \<Rightarrow> (go_error + FD \<times> FD) \<times> kernel \<times> ('f kfile, 'w, 'd) VFS \<times> pipeBuffer list" where
  "KPipe writer reader st =
     (case st of (k, v, pipes) \<Rightarrow>
        case GetProcess k writer of
          None \<Rightarrow> (Inl (SyscallError ''Pipe'' writer ErrNotFound), st)
        | Some wp \<Rightarrow>
            if is_gone (pr_State wp) then (Inl (SyscallError ''Pipe'' writer ErrNotFound), st)
            else
              (case GetProcess k reader of
                 None \<Rightarrow> (Inl (SyscallError ''Pipe'' reader ErrNotFound), st)
               | Some rp \<Rightarrow>
                   if is_gone (pr_State rp) then (Inl (SyscallError ''Pipe'' reader ErrNotFound), st)
                   else
                     (let pipe = length pipes;
                          (wfd, v1) = RegisterFD writer (PipeWriteEnd pipe writer) v;
                          (rfd, v2) = RegisterFD reader (PipeReadEnd pipe reader) v1
                      in (Inr (wfd, rfd),
                          emitEvent writer ''Pipe''
                            [(''writer_pid'', ANat writer), (''reader_pid'', ANat reader),
                             (''write_fd'', AInt wfd), (''read_fd'', AInt rfd)] None k,
                          v2, pipes @ [newPipeBuffer DefaultPipeBufferSize]))))"

section \<open>Persisted queues\<close>

text \<open>
  \<open>enablePersistence\<close>: the records already in the file, or the error of creating the directory or
  opening the file, are what the file system answers.
\<close>

definition enablePersistence ::
  "string \<Rightarrow> go_error + Message list \<Rightarrow> MessageQueue \<Rightarrow> go_error option \<times> MessageQueue" where
  "enablePersistence uuid opened q =
     (if uuid = [] then (Some (PlainError ''enablePersistence: empty uuid''), q)
      else case opened of
             Inl e \<Rightarrow> (Some e, q)
           | Inr recs \<Rightarrow> (None, q\<lparr>q_persistFile := Some recs\<rparr>))"

text \<open>The loop over the bytes: the line being read, the lines read, and a last line without newline.\<close>

fun split_lines :: "string \<Rightarrow> string \<Rightarrow> string list \<Rightarrow> string list" where
  "split_lines [] cur lines = (if cur \<noteq> [] then lines @ [cur] else lines)"
| "split_lines (c # cs) cur lines =
     (if c = CHR 0x0A then split_lines cs [] (lines @ [cur]) else split_lines cs (cur @ [c]) lines)"

definition splitNDJSONLines :: "string \<Rightarrow> string list" where
  "splitNDJSONLines dat = split_lines dat [] []"

text \<open>\<open>loadPersistedMessages\<close> after the read; decoding one line is the JSON library's.\<close>

definition loadPersistedMessages ::
  "(string \<Rightarrow> Message option) \<Rightarrow> go_error + string option \<Rightarrow> go_error + Message list" where
  "loadPersistedMessages decode contents =
     (case contents of
        Inl e \<Rightarrow> Inl e
      | Inr None \<Rightarrow> Inr []
      | Inr (Some dat) \<Rightarrow>
          Inr (List.map_filter (\<lambda>line. if line = [] then None else decode line) (splitNDJSONLines dat)))"

section \<open>Sending and receiving\<close>

definition queue_of :: "kernel \<Rightarrow> PID \<Rightarrow> MessageQueue" where
  "queue_of k pid = (case sm_load (k_msgQueues k) pid of None \<Rightarrow> newMessageQueue | Some q \<Rightarrow> q)"

lemma queue_frame [simp]:
  "queue_of (out c k) pid = queue_of k pid" "queue_of (out_if b c k) pid = queue_of k pid"
  "queue_of (emitEvent p s a e k) pid = queue_of k pid" "queue_of (putProc p q k) pid = queue_of k pid"
  "k_msgSeq (out c k) = k_msgSeq k" "k_msgSeq (out_if b c k) = k_msgSeq k" "k_msgSeq (emitEvent p s a e k) = k_msgSeq k"
  by (simp_all add: queue_of_def out_if_def out_def emitEvent_def putProc_def split: option.splits)

lemma GetProcess_queues [simp]:
  "GetProcess (k\<lparr>k_msgQueues := qs\<rparr>) p = GetProcess k p" "GetProcess (k\<lparr>k_msgSeq := n\<rparr>) p = GetProcess k p"
  "GetProcess (k\<lparr>k_msgSeq := n, k_msgQueues := qs\<rparr>) p = GetProcess k p"
  by (simp_all add: GetProcess_def)

lemma queue_of_store [simp]:
  "queue_of (k\<lparr>k_msgQueues := sm_store p q m\<rparr>) p' = (if p' = p then q else queue_of (k\<lparr>k_msgQueues := m\<rparr>) p')"
  by (simp add: queue_of_def sm.lookup_store)

lemma queue_of_seq_store [simp]:
  "queue_of (k\<lparr>k_msgSeq := n, k_msgQueues := sm_store p q m\<rparr>) p = q"
  by (simp add: queue_of_def sm.lookup_store)

lemma load_or_store_queue:
  "\<exists>b qs. sm_load_or_store pid newMessageQueue (k_msgQueues k) = ((queue_of k pid, b), qs) \<and>
     (\<forall>p. queue_of (k\<lparr>k_msgQueues := qs\<rparr>) p = queue_of k p)"
  by (cases "map_of (k_msgQueues k) pid")
     (auto simp: sm_load_or_store_def queue_of_def sm_load_def sm_store_def update_conv')

lemma enqueue_Inr:
  "\<not> q_closed q \<Longrightarrow> \<exists>q'. enqueue wr m q = Inr q' \<and> q_messages q' = q_messages q @ [m] \<and> \<not> q_closed q'"
  by (cases "q_persistFile q") (simp_all add: enqueue_def enqueue_locked_def q_signal_def Let_def)

lemma Send_delivers:
  assumes "GetProcess k s = Some sp" and "GetProcess k t = Some tp" and "\<not> is_gone (pr_State tp)" and "\<not> q_closed (queue_of k t)"
  obtains m k' where "Send env wr s t dat k = (None, k')" "m_FromPID m = s" "m_Data m = dat" "m_Seq m = k_msgSeq k + 1"
    "k_msgSeq k' = k_msgSeq k + 1" "q_messages (queue_of k' t) = q_messages (queue_of k t) @ [m]"
    "\<not> q_closed (queue_of k' t)" "\<And>p. GetProcess k' p = GetProcess k p"
proof -
  let ?m = "\<lparr>m_FromPID = s, m_ToPID = t, m_Seq = k_msgSeq k + 1, m_Data = dat,
             m_CreatedAt = e_now env, m_TraceID = pr_TraceID sp, m_SpanID = pr_SpanID sp\<rparr>"
  obtain b qs where l: "sm_load_or_store t newMessageQueue (k_msgQueues k) = ((queue_of k t, b), qs)"
    using load_or_store_queue [of t k] by blast
  obtain q' where q': "enqueue wr ?m (queue_of k t) = Inr q'" "q_messages q' = q_messages (queue_of k t) @ [?m]" "\<not> q_closed q'"
    using enqueue_Inr [OF assms(4)] by blast
  show ?thesis
    by (rule that [of "snd (Send env wr s t dat k)" ?m])
       (use assms l q' in \<open>simp_all add: Send_def Let_def\<close>)
qed

lemma adopt_trace_frame:
  "queue_of (adopt_trace env pid m k) p = queue_of k p" "(GetProcess (adopt_trace env pid m k) p = None) = (GetProcess k p = None)"
  by (auto simp: adopt_trace_def GetProcess_put split: option.split)

lemma Recv_delivers:
  assumes "GetProcess k pid = Some p" and "q_messages (queue_of k pid) = m # ms" and "\<not> q_closed (queue_of k pid)"
  obtains k' where "Recv env pc pid k = (Some (Inr m), k')" "q_messages (queue_of k' pid) = ms" "\<not> q_closed (queue_of k' pid)"
    "GetProcess k' pid \<noteq> None"
proof -
  obtain b qs where l: "sm_load_or_store pid newMessageQueue (k_msgQueues k) = ((queue_of k pid, b), qs)"
    using load_or_store_queue [of pid k] by blast
  show ?thesis
    by (rule that [of "snd (Recv env pc pid k)"])
       (use assms l in \<open>simp_all add: Recv_def Let_def dequeue_outcomes adopt_trace_frame\<close>)
qed

fun recv_n :: "kenv \<Rightarrow> bool \<Rightarrow> PID \<Rightarrow> nat \<Rightarrow> kernel \<Rightarrow> (go_error + Message) option list \<times> kernel" where
  "recv_n env pc pid 0 k = ([], k)"
| "recv_n env pc pid (Suc n) k =
     (case Recv env pc pid k of (r, k1) \<Rightarrow> case recv_n env pc pid n k1 of (rs, k2) \<Rightarrow> (r # rs, k2))"

definition send_all :: "kenv \<Rightarrow> PID \<Rightarrow> (PID \<times> string) list \<Rightarrow> kernel \<Rightarrow> kernel" where
  "send_all env target = fold (\<lambda>(s, dat) k. snd (Send env True s target dat k))"

lemma send_all_queue:
  assumes "GetProcess k t = Some tp" and "\<not> is_gone (pr_State tp)" and "\<not> q_closed (queue_of k t)"
    and "\<forall>(s, dat) \<in> set ms. GetProcess k s \<noteq> None"
  shows "\<exists>new. q_messages (queue_of (send_all env t ms k) t) = q_messages (queue_of k t) @ new \<and>
      map (\<lambda>m. (m_FromPID m, m_Data m)) new = ms \<and> map m_Seq new = [k_msgSeq k + 1 ..< k_msgSeq k + 1 + length ms] \<and>
      \<not> q_closed (queue_of (send_all env t ms k) t) \<and> GetProcess (send_all env t ms k) t = GetProcess k t"
  using assms
proof (induction ms arbitrary: k)
  case (Cons a ms)
  obtain s dat where a: "a = (s, dat)" by (cases a)
  with Cons.prems(4) obtain sp where "GetProcess k s = Some sp" by auto
  from Send_delivers [OF this Cons.prems(1,2,3), of env True dat] obtain m k' where
    k': "Send env True s t dat k = (None, k')" "m_FromPID m = s" "m_Data m = dat" "m_Seq m = k_msgSeq k + 1"
    "k_msgSeq k' = k_msgSeq k + 1" "q_messages (queue_of k' t) = q_messages (queue_of k t) @ [m]"
    "\<not> q_closed (queue_of k' t)" "\<And>p. GetProcess k' p = GetProcess k p" by blast
  have "\<exists>new. q_messages (queue_of (send_all env t ms k') t) = q_messages (queue_of k' t) @ new \<and>
      map (\<lambda>m. (m_FromPID m, m_Data m)) new = ms \<and> map m_Seq new = [k_msgSeq k' + 1 ..< k_msgSeq k' + 1 + length ms] \<and>
      \<not> q_closed (queue_of (send_all env t ms k') t) \<and> GetProcess (send_all env t ms k') t = GetProcess k' t"
    using Cons.prems k' by (intro Cons.IH) auto
  then obtain new where "q_messages (queue_of (send_all env t ms k') t) = q_messages (queue_of k' t) @ new"
      "map (\<lambda>m. (m_FromPID m, m_Data m)) new = ms" "map m_Seq new = [k_msgSeq k' + 1 ..< k_msgSeq k' + 1 + length ms]"
      "\<not> q_closed (queue_of (send_all env t ms k') t)" "GetProcess (send_all env t ms k') t = GetProcess k' t"
    by blast
  then show ?case using k' a
    by (intro exI [of _ "m # new"]) (simp add: send_all_def upt_conv_Cons del: upt_Suc)
qed (simp add: send_all_def)

lemma recv_all_queue:
  assumes "GetProcess k t \<noteq> None" and "\<not> q_closed (queue_of k t)" and "q_messages (queue_of k t) = ms"
  shows "fst (recv_n env pc t (length ms) k) = map (Some \<circ> Inr) ms"
  using assms
proof (induction ms arbitrary: k)
  case (Cons m ms)
  then obtain p where "GetProcess k t = Some p" by auto
  from Recv_delivers [OF this Cons.prems(3,2), of env pc] obtain k' where
    "Recv env pc t k = (Some (Inr m), k')" "q_messages (queue_of k' t) = ms" "\<not> q_closed (queue_of k' t)" "GetProcess k' t \<noteq> None"
    by blast
  with Cons.IH [of k'] show ?case by (cases "recv_n env pc t (length ms) k'") simp
qed simp

text \<open>
  Messages sent to a live process, by whichever processes, all arrive: receiving as often as was
  sent returns each message with its sender and its data, in the order of sending, the sequence numbers
  consecutive from the counter's value; nothing is refused on the way.
\<close>

lemma sent_messages_are_received:
  assumes "GetProcess k target = Some p" and "\<not> is_gone (pr_State p)"
    and "sm_load (k_msgQueues k) target = None" and "\<forall>(s, dat) \<in> set sent. GetProcess k s \<noteq> None"
  shows "\<exists>msgs. fst (recv_n env prefer_ctx target (length sent) (send_all env target sent k)) = map (Some \<circ> Inr) msgs \<and>
     map (\<lambda>m. (m_FromPID m, m_Data m)) msgs = sent \<and>
     map m_Seq msgs = [k_msgSeq k + 1 ..< k_msgSeq k + 1 + length sent]"
proof -
  have q: "queue_of k target = newMessageQueue" using assms(3) by (simp add: queue_of_def)
  obtain new where n: "q_messages (queue_of (send_all env target sent k) target) = new"
      "map (\<lambda>m. (m_FromPID m, m_Data m)) new = sent" "map m_Seq new = [k_msgSeq k + 1 ..< k_msgSeq k + 1 + length sent]"
      "\<not> q_closed (queue_of (send_all env target sent k) target)" "GetProcess (send_all env target sent k) target = Some p"
    using send_all_queue [OF assms(1,2) _ assms(4), of env] assms(1) q by (auto simp: newMessageQueue_def)
  from n(2) have "length sent = length new" by auto
  with recv_all_queue [of "send_all env target sent k" target new env prefer_ctx] n show ?thesis by auto
qed

section \<open>Reading a persisted queue back\<close>

lemma split_lines_line:
  "CHR 0x0A \<notin> set l \<Longrightarrow> split_lines (l @ CHR 0x0A # cs) cur lines = split_lines cs [] (lines @ [cur @ l])"
  by (induction l arbitrary: cur) auto

lemma split_lines_tail:
  "CHR 0x0A \<notin> set l \<Longrightarrow> split_lines l cur lines = (if cur @ l = [] then lines else lines @ [cur @ l])"
  by (induction l arbitrary: cur) auto

lemma split_lines_concat:
  "\<forall>l \<in> set ls. CHR 0x0A \<notin> set l \<Longrightarrow> CHR 0x0A \<notin> set torn \<Longrightarrow>
   split_lines (concat (map (\<lambda>l. l @ [CHR 0x0A]) ls) @ torn) [] lines = lines @ ls @ (if torn = [] then [] else [torn])"
  by (induction ls arbitrary: lines) (simp_all add: split_lines_line split_lines_tail)



end
