(* ===== verification/Supervisor.thy ===== *)
theory Supervisor
  imports KernelIPC
begin

text \<open>
  Supervisors (\<open>kernel/supervisor.go\<close>): a process that starts children, watches them end and restarts them by
  a strategy, until too many restarts fall into a time window. The loop of the supervisor is
  one step per message of \<open>exitCh\<close>; the monitor goroutines that feed the channel are armed pairs of an index and a PID.
  What other parts answer (spawning, the grace period, persisted messages, migration) is the environment.
\<close>

section \<open>Specifications and state\<close>

datatype RestartStrategy = OneForOne | OneForAll | RestForOne | StrategyOther string

datatype ChildRestart = RestartPermanent | RestartTransient | RestartTemporary | RestartUnset | RestartOther string

record ChildSpec =
  chs_Name :: string
  chs_Intent :: string
  chs_Agent :: "string option"
  chs_Restart :: ChildRestart

record SupervisorSpec =
  ss_Strategy :: RestartStrategy
  ss_MaxRestarts :: int
  ss_MaxWindow :: int
  ss_Children :: "ChildSpec list"

type_synonym childExit = "nat \<times> PID \<times> ExitStatus"

record supervisedChild =
  sc_spec :: ChildSpec
  sc_pid :: PID
  sc_uuid :: string
  sc_index :: nat
  sc_alive :: bool

text \<open>Children that are not started yet, nil slots of the code's slice, are missing from the end of the list.\<close>

record Supervisor =
  sv_proc :: PID
  sv_spec :: SupervisorSpec
  sv_children :: "supervisedChild list"
  sv_monitors :: "(nat \<times> PID) list"
  sv_exitCh :: "childExit list"
  sv_restartTimes :: "int list"

text \<open>
  \<open>se_spawn\<close> gives, for the child of an index, the error of \<open>Spawn\<close> or the process it enters into the table;
  \<open>se_grace\<close> whether the goroutine of a process ends within the grace period, \<open>se_forced\<close> whether it does
  after the kill; \<open>se_opened\<close> what opening the message file of a process gives (\<open>None\<close> without a
  base directory); \<open>se_persisted\<close> the persisted messages of an UUID; \<open>se_migrated\<close> whether the immune daemon
  moves the failed agent to another one.
\<close>

record senv =
  se_kernel :: kenv
  se_now :: int
  se_spawn :: "nat \<Rightarrow> go_error + Process"
  se_grace :: "PID \<Rightarrow> bool"
  se_forced :: "PID \<Rightarrow> bool"
  se_opened :: "PID \<Rightarrow> (go_error + Message list) option"
  se_persisted :: "string \<Rightarrow> Message list"
  se_migrated :: "PID \<Rightarrow> string option"

type_synonym sup_state = "Supervisor \<times> kernel"

definition newSupervisor :: "PID \<Rightarrow> SupervisorSpec \<Rightarrow> Supervisor" where
  "newSupervisor pid spec =
     \<lparr>sv_proc = pid, sv_spec = spec, sv_children = [], sv_monitors = [], sv_exitCh = [], sv_restartTimes = []\<rparr>"

text \<open>The defaults \<open>SpawnSupervisor\<close> fills in, times being nanoseconds.\<close>

definition default_spec :: "SupervisorSpec \<Rightarrow> SupervisorSpec" where
  "default_spec spec =
     spec\<lparr>ss_MaxRestarts := (if ss_MaxRestarts spec \<le> 0 then 3 else ss_MaxRestarts spec),
          ss_MaxWindow := (if ss_MaxWindow spec \<le> 0 then 60000000000 else ss_MaxWindow spec),
          ss_Children := map (\<lambda>c. if chs_Restart c = RestartUnset then c\<lparr>chs_Restart := RestartPermanent\<rparr> else c) (ss_Children spec)\<rparr>"

text \<open>\<open>p\<close> is the fresh process of the supervisor; its goroutine then runs \<open>run_start\<close>.\<close>

definition SpawnSupervisor :: "SupervisorSpec \<Rightarrow> Process \<Rightarrow> kernel \<Rightarrow> (go_error + Supervisor) \<times> kernel" where
  "SpawnSupervisor spec p k =
     (if ss_Children spec = [] then (Inl (SyscallError ''SpawnSupervisor'' 0 ErrInvalid), k)
      else let k1 = AddProcess p k;
               k2 = k1\<lparr>k_msgQueues := sm_store (pr_PID p) newMessageQueue (k_msgQueues k1)\<rparr>
           in (Inr (newSupervisor (pr_PID p) (default_spec spec)),
               emitEvent (pr_PID p) ''SpawnSupervisor'' [(''children'', ANat (length (ss_Children spec)))] None k2))"

section \<open>Starting and stopping children\<close>

definition childUUID :: "PID \<Rightarrow> kernel \<Rightarrow> string" where
  "childUUID pid k = (case GetProcess k pid of None \<Rightarrow> [] | Some p \<Rightarrow> pr_UUID p)"

definition arm_monitor :: "nat \<Rightarrow> PID \<Rightarrow> Supervisor \<Rightarrow> Supervisor" where
  "arm_monitor idx pid s = s\<lparr>sv_monitors := sv_monitors s @ [(idx, pid)]\<rparr>"

text \<open>The effect of \<open>Spawn\<close> on the tables.\<close>

definition enter_process :: "PID \<Rightarrow> Process \<Rightarrow> kernel \<Rightarrow> kernel" where
  "enter_process parent p k =
     (let k1 = AddProcess p (updProc parent (AddChild (pr_PID p)) k)
      in k1\<lparr>k_msgQueues := sm_store (pr_PID p) newMessageQueue (k_msgQueues k1)\<rparr>)"

definition persist_child :: "senv \<Rightarrow> PID \<Rightarrow> kernel \<Rightarrow> kernel" where
  "persist_child se pid k =
     (case GetProcess k pid of
        None \<Rightarrow> k
      | Some p \<Rightarrow>
          (let k1 = putProc pid (p\<lparr>pr_IPCPersist := True\<rparr>) k
           in case se_opened se pid of
                None \<Rightarrow> k1
              | Some opened \<Rightarrow>
                  (case sm_load (k_msgQueues k1) pid of
                     None \<Rightarrow> k1
                   | Some q \<Rightarrow> k1\<lparr>k_msgQueues := sm_store pid (snd (enablePersistence (pr_UUID p) opened q)) (k_msgQueues k1)\<rparr>)))"

definition startChild :: "senv \<Rightarrow> nat \<Rightarrow> ChildSpec \<Rightarrow> sup_state \<Rightarrow> (go_error + PID) \<times> sup_state" where
  "startChild se idx spec st =
     (case st of (s, k) \<Rightarrow>
        case se_spawn se idx of
          Inl e \<Rightarrow> (Inl e, st)
        | Inr p \<Rightarrow>
            (let pid = pr_PID p;
                 k1 = enter_process (sv_proc s) p k;
                 k2 = (if chs_Restart spec = RestartPermanent then persist_child se pid k1 else k1);
                 k3 = emitEvent (sv_proc s) ''SupervisorStartChild''
                        [(''child_name'', AStr (chs_Name spec)), (''child_pid'', ANat pid), (''child_index'', ANat idx)] None k2
             in (Inr pid, arm_monitor idx pid s, k3)))"

definition set_child :: "nat \<Rightarrow> supervisedChild \<Rightarrow> Supervisor \<Rightarrow> Supervisor" where
  "set_child idx c s = s\<lparr>sv_children := (sv_children s)[idx := c]\<rparr>"

definition fresh_child :: "ChildSpec \<Rightarrow> nat \<Rightarrow> PID \<Rightarrow> kernel \<Rightarrow> supervisedChild" where
  "fresh_child spec idx pid k =
     \<lparr>sc_spec = spec, sc_pid = pid, sc_uuid = childUUID pid k, sc_index = idx, sc_alive = True\<rparr>"

definition supervisor_attr :: "ChildSpec \<Rightarrow> KillAttribution" where
  "supervisor_attr spec = KillAttribution OriginSupervisor (''supervisor:'' @ chs_Name spec) 0 OriginEmpty []"

text \<open>SIGTERM, the grace period, then SIGKILL: the part of \<open>stopChild\<close> on a process that is in the table.\<close>

definition stop_process :: "senv \<Rightarrow> ChildSpec \<Rightarrow> PID \<Rightarrow> kernel \<Rightarrow> kernel" where
  "stop_process se spec pid k =
     (case GetProcess k pid of
        None \<Rightarrow> k
      | Some p \<Rightarrow>
          (let env = se_kernel se; attr = supervisor_attr spec;
               k1 = (if is_gone (pr_State p) then k else snd (KillWithOrigin env pid SIGTERM attr k));
               k2 = (if se_grace se pid then wgWait env pid k1
                     else let k' = snd (KillWithOrigin env pid SIGKILL attr k1)
                          in if se_forced se pid then wgWait env pid k' else k')
           in KReap env pid k2))"

definition stopChild :: "senv \<Rightarrow> nat \<Rightarrow> sup_state \<Rightarrow> sup_state" where
  "stopChild se idx st =
     (case st of (s, k) \<Rightarrow>
        if length (sv_children s) \<le> idx then st
        else let child = sv_children s ! idx
             in if \<not> sc_alive child then st
                else (set_child idx (child\<lparr>sc_alive := False\<rparr>) s, stop_process se (sc_spec child) (sc_pid child) k))"

definition shutdownAll :: "senv \<Rightarrow> sup_state \<Rightarrow> sup_state" where
  "shutdownAll se st = fold (stopChild se) (rev [0..<length (sv_children (fst st))]) st"

definition shutdownStarted :: "senv \<Rightarrow> nat \<Rightarrow> sup_state \<Rightarrow> sup_state" where
  "shutdownStarted se failedIdx st = fold (stopChild se) (rev [0..<failedIdx]) st"

definition allDone :: "Supervisor \<Rightarrow> bool" where
  "allDone s \<longleftrightarrow> (\<forall>child \<in> set (sv_children s). \<not> sc_alive child)"

section \<open>Restarting\<close>

definition shouldRestart :: "ChildSpec \<Rightarrow> ExitStatus \<Rightarrow> bool" where
  "shouldRestart spec exit =
     (case chs_Restart spec of
        RestartPermanent \<Rightarrow> True
      | RestartTransient \<Rightarrow> exit_Code exit \<noteq> 0
      | RestartTemporary \<Rightarrow> False
      | _ \<Rightarrow> True)"

definition recordRestart :: "int \<Rightarrow> Supervisor \<Rightarrow> Supervisor" where
  "recordRestart now s = s\<lparr>sv_restartTimes := sv_restartTimes s @ [now]\<rparr>"

definition exceedsRestartLimit :: "int \<Rightarrow> Supervisor \<Rightarrow> bool \<times> Supervisor" where
  "exceedsRestartLimit now s =
     (let cutoff = now - ss_MaxWindow (sv_spec s);
          valid = filter (\<lambda>t. cutoff < t) (sv_restartTimes s)
      in (ss_MaxRestarts (sv_spec s) \<le> int (length valid), s\<lparr>sv_restartTimes := valid\<rparr>))"

definition recoverMessages :: "senv \<Rightarrow> PID \<Rightarrow> string \<Rightarrow> ChildSpec \<Rightarrow> kernel \<Rightarrow> kernel" where
  "recoverMessages se newPID oldUUID spec k =
     (if chs_Restart spec \<noteq> RestartPermanent \<or> oldUUID = [] \<or> GetProcess k newPID = None \<or> se_opened se newPID = None then k
      else let msgs = se_persisted se oldUUID
           in if msgs = [] then k
              else case sm_load (k_msgQueues k) newPID of
                     None \<Rightarrow> k
                   | Some q \<Rightarrow>
                       out (ORemovePersisted newPID)
                         (k\<lparr>k_msgQueues := sm_store newPID
                              (fold (\<lambda>m q. case enqueue True (m\<lparr>m_ToPID := newPID\<rparr>) q of Inl _ \<Rightarrow> q | Inr q' \<Rightarrow> q') msgs q)
                              (k_msgQueues k)\<rparr>))"

text \<open>Starting the children of the given indices in order; a failure stops all before the failing one.\<close>

fun restart_range :: "senv \<Rightarrow> nat list \<Rightarrow> (nat \<Rightarrow> string) \<Rightarrow> sup_state \<Rightarrow> go_error option \<times> sup_state" where
  "restart_range se [] oldUUIDs st = (None, st)"
| "restart_range se (i # is) oldUUIDs st =
     (let spec = sc_spec (sv_children (fst st) ! i)
      in case startChild se i spec st of
           (Inl e, st') \<Rightarrow> (Some e, shutdownStarted se i st')
         | (Inr pid, s, k) \<Rightarrow>
             restart_range se is oldUUIDs
               (set_child i (fresh_child spec i pid k) s, recoverMessages se pid (oldUUIDs i) spec k))"

definition reap_child :: "senv \<Rightarrow> PID \<Rightarrow> sup_state \<Rightarrow> sup_state" where
  "reap_child se pid st = (fst st, KReap (se_kernel se) pid (snd st))"

definition old_uuid :: "Supervisor \<Rightarrow> nat \<Rightarrow> string" where
  "old_uuid s i = sc_uuid (sv_children s ! i)"

definition restartOneForOne :: "senv \<Rightarrow> nat \<Rightarrow> sup_state \<Rightarrow> go_error option \<times> sup_state" where
  "restartOneForOne se idx st =
     (let child = sv_children (fst st) ! idx; st1 = reap_child se (sc_pid child) st
      in case startChild se idx (sc_spec child) st1 of
           (Inl e, st') \<Rightarrow> (Some e, st')
         | (Inr pid, s, k) \<Rightarrow>
             (None, set_child idx (fresh_child (sc_spec child) idx pid k) s, recoverMessages se pid (sc_uuid child) (sc_spec child) k))"

definition restartOneForAll :: "senv \<Rightarrow> nat \<Rightarrow> sup_state \<Rightarrow> go_error option \<times> sup_state" where
  "restartOneForAll se crashedIdx st =
     (let n = length (sv_children (fst st));
          st1 = fold (stopChild se) (filter (\<lambda>i. i \<noteq> crashedIdx) (rev [0..<n])) st;
          st2 = reap_child se (sc_pid (sv_children (fst st1) ! crashedIdx)) st1
      in restart_range se [0..<n] (old_uuid (fst st)) st2)"

definition restartRestForOne :: "senv \<Rightarrow> nat \<Rightarrow> sup_state \<Rightarrow> go_error option \<times> sup_state" where
  "restartRestForOne se crashedIdx st =
     (let n = length (sv_children (fst st));
          st1 = fold (stopChild se) (rev [Suc crashedIdx..<n]) st;
          st2 = reap_child se (sc_pid (sv_children (fst st1) ! crashedIdx)) st1
      in restart_range se [crashedIdx..<n] (old_uuid (fst st)) st2)"

section \<open>A child ends\<close>

definition SuspendReasonQuotaExhausted :: string where "SuspendReasonQuotaExhausted = ''quota_exhausted''"

text \<open>Which branch of \<open>handleChildExit\<close> was taken.\<close>

datatype sup_action =
    SupIgnored | SupAdopted PID | SupRearmed | SupNoRestart | SupMigrated | SupShutdown | SupRestart "go_error option"

text \<open>The branch for a quota suspension; \<open>None\<close> is falling through to the normal path.\<close>

definition quota_gate :: "senv \<Rightarrow> nat \<Rightarrow> PID \<Rightarrow> ExitStatus \<Rightarrow> sup_state \<Rightarrow> (sup_action \<times> sup_state) option" where
  "quota_gate se idx pid exit st =
     (case st of (s, k) \<Rightarrow>
        let child = sv_children s ! idx
        in if exit_Code exit \<noteq> ExitSuspended \<or> exit_Reason exit \<noteq> ''suspended: '' @ SuspendReasonQuotaExhausted then None
           else case GetProcess k pid of
             None \<Rightarrow>
               (case GetProcessByUUID k (sc_uuid child) of
                  None \<Rightarrow> None
                | Some newProc \<Rightarrow>
                    if pr_State newProc \<noteq> StateRunning then None
                    else Some (SupAdopted (pr_PID newProc),
                               arm_monitor idx (pr_PID newProc) (set_child idx (child\<lparr>sc_pid := pr_PID newProc\<rparr>) s), k))
           | Some p \<Rightarrow>
               if pr_State p = StateRunning then Some (SupRearmed, arm_monitor idx pid s, k)
               else if pr_State p = StateSuspended \<and> pr_SuspendReason p = SuspendReasonQuotaExhausted
               then Some (SupRearmed, arm_monitor idx pid s,
                          emitEvent (sv_proc s) ''SupervisorChildSuspended''
                            [(''child_name'', AStr (chs_Name (sc_spec child))), (''child_pid'', ANat (sc_pid child)), (''child_index'', ANat idx)]
                            None k)
               else None)"

definition restart_by_strategy :: "senv \<Rightarrow> nat \<Rightarrow> sup_state \<Rightarrow> go_error option \<times> sup_state" where
  "restart_by_strategy se idx st =
     (case ss_Strategy (sv_spec (fst st)) of
        OneForOne \<Rightarrow> restartOneForOne se idx st
      | OneForAll \<Rightarrow> restartOneForAll se idx st
      | RestForOne \<Rightarrow> restartRestForOne se idx st
      | StrategyOther _ \<Rightarrow> (None, st))"

definition finish_supervisor :: "senv \<Rightarrow> ExitStatus \<Rightarrow> sup_state \<Rightarrow> sup_state" where
  "finish_supervisor se exit st = (fst st, finishProcess (se_kernel se) (sv_proc (fst st)) exit (snd st))"

definition child_failed :: "senv \<Rightarrow> nat \<Rightarrow> supervisedChild \<Rightarrow> sup_state \<Rightarrow> sup_action \<times> sup_state" where
  "child_failed se idx child st =
     (case st of (s, k) \<Rightarrow>
        case exceedsRestartLimit (se_now se) (recordRestart (se_now se) s) of
          (True, s1) \<Rightarrow>
            (let k1 = emitEvent (sv_proc s) ''SupervisorShutdown'' [(''reason'', AStr ''max_restarts_exceeded'')] None k
             in if SubImmune \<in> k_subsystems k1 \<and> chs_Agent (sc_spec child) \<noteq> None \<and> se_migrated se (sc_pid child) \<noteq> None
                then (SupMigrated, s1,
                      emitEvent (sv_proc s) ''SupervisorMigration'' [(''original_pid'', ANat (sc_pid child))] None
                        (KReap (se_kernel se) (sc_pid child) k1))
                else (SupShutdown, finish_supervisor se
                        (ExitStatus 1 ''max_restarts_exceeded'' [] (Some (PlainError ''supervisor restart limit exceeded'')))
                        (shutdownAll se (s1, k1))))
        | (False, s1) \<Rightarrow>
            (let k1 = emitEvent (sv_proc s) ''SupervisorRestart''
                        [(''child_name'', AStr (chs_Name (sc_spec child))), (''child_index'', ANat idx),
                         (''restart_count'', ANat (length (sv_restartTimes s1)))] None k
             in case restart_by_strategy se idx (s1, k1) of
                  (None, st') \<Rightarrow> (SupRestart None, st')
                | (Some e, st') \<Rightarrow>
                    (SupRestart (Some e), finish_supervisor se (ExitStatus 1 ''restart failed'' [] (Some e)) st')))"

definition handleChildExit :: "senv \<Rightarrow> childExit \<Rightarrow> sup_state \<Rightarrow> sup_action \<times> sup_state" where
  "handleChildExit se ce st =
     (case ce of (idx, pid, exit) \<Rightarrow>
        let s = fst st; child = sv_children s ! idx
        in if length (sv_children s) \<le> idx \<or> \<not> sc_alive child then (SupIgnored, st)
           else if sc_pid child \<noteq> pid then (SupIgnored, st)
           else case quota_gate se idx pid exit st of
             Some r \<Rightarrow> r
           | None \<Rightarrow>
               (let s1 = set_child idx (child\<lparr>sc_alive := False\<rparr>) s;
                    k1 = emitEvent (sv_proc s) ''SupervisorChildExit''
                           [(''child_name'', AStr (chs_Name (sc_spec child))), (''child_pid'', ANat (sc_pid child)),
                            (''child_index'', ANat idx), (''exit_code'', AInt (exit_Code exit)), (''exit_reason'', AStr (exit_Reason exit))]
                           (exit_Err exit) (snd st)
                in if \<not> shouldRestart (sc_spec child) exit
                   then (SupNoRestart, reap_child se (sc_pid child) (s1, k1))
                   else child_failed se idx child (s1, k1)))"

section \<open>The loop\<close>

text \<open>Phase 1: all children in order, from index \<open>i\<close> on. The flag tells whether the loop goes on.\<close>

fun run_start :: "senv \<Rightarrow> nat \<Rightarrow> ChildSpec list \<Rightarrow> sup_state \<Rightarrow> bool \<times> sup_state" where
  "run_start se i [] st = (True, st)"
| "run_start se i (spec # specs) st =
     (case startChild se i spec st of
        (Inl e, st') \<Rightarrow>
          (False, finish_supervisor se (ExitStatus 1 (''child start failed'') [] (Some e)) (shutdownStarted se i st'))
      | (Inr pid, s, k) \<Rightarrow>
          run_start se (Suc i) specs (s\<lparr>sv_children := sv_children s @ [fresh_child spec i pid k]\<rparr>, k))"

text \<open>
  A monitor goroutine: it receives from the \<open>Done\<close> channel of its process and sends on \<open>exitCh\<close>, which holds as
  many messages as there are children. \<open>None\<close> is blocking.
\<close>

definition monitor_step :: "nat \<times> PID \<Rightarrow> sup_state \<Rightarrow> sup_state option" where
  "monitor_step mon st =
     (case st of (s, k) \<Rightarrow>
        if mon \<notin> set (sv_monitors s) \<or> length (ss_Children (sv_spec s)) \<le> length (sv_exitCh s) then None
        else case GetProcess k (snd mon) of
          None \<Rightarrow> None
        | Some p \<Rightarrow>
            (case pr_Done p of
               None \<Rightarrow> None
             | Some exit \<Rightarrow>
                 Some (s\<lparr>sv_monitors := remove1 mon (sv_monitors s), sv_exitCh := sv_exitCh s @ [(fst mon, snd mon, exit)]\<rparr>,
                       putProc (snd mon) (p\<lparr>pr_Done := None\<rparr>) k)))"

definition sup_running :: "sup_state \<Rightarrow> bool" where
  "sup_running st \<longleftrightarrow> (case GetProcess (snd st) (sv_proc (fst st)) of None \<Rightarrow> False | Some p \<Rightarrow> pr_State p = StateRunning)"

text \<open>Phase 2: one message of \<open>exitCh\<close> (\<open>None\<close> if there is none), or the cancellation of the supervisor.\<close>

definition run_exit :: "senv \<Rightarrow> sup_state \<Rightarrow> (bool \<times> sup_state) option" where
  "run_exit se st =
     (case sv_exitCh (fst st) of
        [] \<Rightarrow> None
      | ce # rest \<Rightarrow>
          (let st1 = ((fst st)\<lparr>sv_exitCh := rest\<rparr>, snd st)
           in Some (if \<not> sup_running st1 then (False, st1)
                    else let st2 = snd (handleChildExit se ce st1)
                         in if \<not> sup_running st2 then (False, st2)
                            else if allDone (fst st2)
                            then (False, finish_supervisor se (ExitStatus 0 ''all children completed'' [] None) st2)
                            else (True, st2))))"

definition run_cancel :: "senv \<Rightarrow> sup_state \<Rightarrow> bool \<times> sup_state" where
  "run_cancel se st = (False, finish_supervisor se (ExitStatus 0 ''supervisor cancelled'' [] None) (shutdownAll se st))"

end
