(* ===== verification/SupervisorProps.thy ===== *)
theory SupervisorProps
  imports Supervisor
begin

text \<open>
  What a supervisor promises: its restart intensity is bounded, a restart replaces exactly the children its
  strategy names, and a child that is only suspended for its quota is waited for.
\<close>

section \<open>What the steps leave alone\<close>

definition sup_frame :: "Supervisor \<Rightarrow> Supervisor \<Rightarrow> bool" where
  "sup_frame s s' \<longleftrightarrow> sv_proc s' = sv_proc s \<and> sv_spec s' = sv_spec s \<and> sv_restartTimes s' = sv_restartTimes s \<and>
     length (sv_children s') = length (sv_children s)"

lemma sup_frame_refl [simp]: "sup_frame s s"
  by (simp add: sup_frame_def)

lemma sup_frame_trans [trans]: "sup_frame s t \<Longrightarrow> sup_frame t u \<Longrightarrow> sup_frame s u"
  by (simp add: sup_frame_def)

lemma set_child_simps [simp]:
  "sv_children (set_child i c s) = (sv_children s)[i := c]" "sup_frame s (set_child i c s)"
  by (simp_all add: set_child_def sup_frame_def)

lemma arm_monitor_simps [simp]:
  "sv_children (arm_monitor i pid s) = sv_children s" "sup_frame s (arm_monitor i pid s)"
  "sv_monitors (arm_monitor i pid s) = sv_monitors s @ [(i, pid)]"
  by (simp_all add: arm_monitor_def sup_frame_def)

lemma startChild_effect:
  "case startChild se i spec st of
     (Inl e, st') \<Rightarrow> st' = st \<and> se_spawn se i = Inl e
   | (Inr pid, st') \<Rightarrow> sv_children (fst st') = sv_children (fst st) \<and> sup_frame (fst st) (fst st') \<and>
       (\<exists>p. se_spawn se i = Inr p \<and> pid = pr_PID p)"
  by (cases st) (auto simp: startChild_def Let_def split: sum.split)

definition stopped :: "supervisedChild \<Rightarrow> supervisedChild" where
  "stopped c = c\<lparr>sc_alive := False\<rparr>"

lemma stopped_simps [simp]: "\<not> sc_alive (stopped c)" "sc_spec (stopped c) = sc_spec c" "\<not> sc_alive c \<Longrightarrow> stopped c = c"
  by (simp_all add: stopped_def)

lemma stopChild_effect:
  "sv_children (fst (stopChild se i st)) =
     (if i < length (sv_children (fst st)) then (sv_children (fst st))[i := stopped (sv_children (fst st) ! i)] else sv_children (fst st)) \<and>
   sup_frame (fst st) (fst (stopChild se i st))"
  by (cases st) (auto simp: stopChild_def Let_def stopped_def [symmetric] list_update_id)

lemma stop_fold_effect:
  "sup_frame (fst st) (fst (fold (stopChild se) is st)) \<and>
   (\<forall>j < length (sv_children (fst st)). sv_children (fst (fold (stopChild se) is st)) ! j =
      (if j \<in> set is then stopped (sv_children (fst st) ! j) else sv_children (fst st) ! j))"
proof (induction "is" arbitrary: st)
  case (Cons i "is")
  let ?st = "stopChild se i st"
  have e: "sup_frame (fst st) (fst ?st)"
    "\<forall>j < length (sv_children (fst st)). sv_children (fst ?st) ! j = (if j = i then stopped (sv_children (fst st) ! j) else sv_children (fst st) ! j)"
    using stopChild_effect [of se i st] by (auto simp: nth_list_update)
  then have "length (sv_children (fst ?st)) = length (sv_children (fst st))" by (simp add: sup_frame_def)
  with Cons.IH [of ?st] e show ?case by (auto intro: sup_frame_trans simp: stopped_def)
qed simp

lemmas stop_frame = stop_fold_effect [THEN conjunct1]
lemmas stop_nth = stop_fold_effect [THEN conjunct2, rule_format]

lemma stop_length [simp]: "length (sv_children (fst (fold (stopChild se) is st))) = length (sv_children (fst st))"
  using stop_frame [of st se "is"] by (simp add: sup_frame_def)

lemma reap_child_simps [simp]: "fst (reap_child se pid st) = fst st"
  by (simp add: reap_child_def)

lemma finish_supervisor_simps [simp]: "fst (finish_supervisor se ex st) = fst st"
  by (simp add: finish_supervisor_def)

section \<open>What a restart replaces\<close>

definition restarted :: "senv \<Rightarrow> nat \<Rightarrow> supervisedChild \<Rightarrow> supervisedChild \<Rightarrow> bool" where
  "restarted se j old new \<longleftrightarrow>
     sc_alive new \<and> sc_spec new = sc_spec old \<and> sc_index new = j \<and> (\<exists>p. se_spawn se j = Inr p \<and> sc_pid new = pr_PID p)"

lemma restart_range_effect:
  "sorted_wrt (<) is \<Longrightarrow> \<forall>i \<in> set is. i < length (sv_children (fst st)) \<Longrightarrow>
   case restart_range se is olds st of
     (None, st') \<Rightarrow> sup_frame (fst st) (fst st') \<and>
       (\<forall>j < length (sv_children (fst st)).
          if j \<in> set is then restarted se j (sv_children (fst st) ! j) (sv_children (fst st') ! j)
          else sv_children (fst st') ! j = sv_children (fst st) ! j)
   | (Some e, st') \<Rightarrow> sup_frame (fst st) (fst st') \<and>
       (\<exists>i \<in> set is. \<forall>j < length (sv_children (fst st)).
          if j < i then \<not> sc_alive (sv_children (fst st') ! j) else sv_children (fst st') ! j = sv_children (fst st) ! j)"
proof (induction "is" arbitrary: st)
  case (Cons i "is")
  let ?spec = "sc_spec (sv_children (fst st) ! i)" and ?n = "length (sv_children (fst st))"
  obtain r st1 where sc: "startChild se i ?spec st = (r, st1)" by (metis prod.exhaust)
  show ?case
  proof (cases r)
    case (Inl e)
    with sc startChild_effect [where se = se and i = i and spec = ?spec and st = st] have "st1 = st" by simp
    with sc Inl have "restart_range se (i # is) olds st = (Some e, shutdownStarted se i st)" by simp
    then show ?thesis using stop_frame [of st se "rev [0..<i]"] stop_nth [of _ st se "rev [0..<i]"]
      by (auto simp: shutdownStarted_def intro!: bexI [of _ i])
  next
    case (Inr pid)
    obtain s k where st1: "st1 = (s, k)" by fastforce
    from sc Inr startChild_effect [where se = se and i = i and spec = ?spec and st = st] have
      s: "sv_children s = sv_children (fst st)" "sup_frame (fst st) s" "\<exists>p. se_spawn se i = Inr p \<and> pid = pr_PID p" by (auto simp: st1)
    obtain st2 where st2: "st2 = (set_child i (fresh_child ?spec i pid k) s, recoverMessages se pid (olds i) ?spec k)" by blast
    have r: "restart_range se (i # is) olds st = restart_range se is olds st2" using sc Inr by (simp add: st1 st2 Let_def)
    have fr: "sup_frame (fst st) (fst st2)" using s(2) sup_frame_trans unfolding st2 by fastforce
    have len: "length (sv_children (fst st2)) = ?n" by (simp add: s(1) st2)
    have srt: "sorted_wrt (<) is" "\<forall>j \<in> set is. i < j" "i < ?n" using Cons.prems by simp_all
    have new: "restarted se i (sv_children (fst st) ! i) (sv_children (fst st2) ! i)"
      using s(1,3) srt(3) by (auto simp: restarted_def fresh_child_def st2)
    have oth: "j \<noteq> i \<Longrightarrow> sv_children (fst st2) ! j = sv_children (fst st) ! j" for j by (simp add: s(1) st2)
    have "\<forall>j \<in> set is. j < length (sv_children (fst st2))" using Cons.prems(2) unfolding len by simp
    note ih = Cons.IH [OF srt(1) this]
    obtain res st' where Pair: "restart_range se is olds st2 = (res, st')" by (metis prod.exhaust)
    show ?thesis
    proof (cases res)
      case None
      from ih have f: "sup_frame (fst st2) (fst st')" and
        a: "\<And>j. j < ?n \<Longrightarrow> if j \<in> set is then restarted se j (sv_children (fst st2) ! j) (sv_children (fst st') ! j)
          else sv_children (fst st') ! j = sv_children (fst st2) ! j"
        unfolding Pair None len by simp_all
      have "if j \<in> set (i # is) then restarted se j (sv_children (fst st) ! j) (sv_children (fst st') ! j)
          else sv_children (fst st') ! j = sv_children (fst st) ! j" if "j < ?n" for j
        using a [OF that] oth [of j] new srt(2) by (cases "j = i") (auto split: if_splits)
      then show ?thesis using sup_frame_trans [OF fr f] unfolding r Pair None by simp
    next
      case (Some e)
      from ih obtain i' where f: "sup_frame (fst st2) (fst st')" and i': "i' \<in> set is" and
        a: "\<And>j. j < ?n \<Longrightarrow> if j < i' then \<not> sc_alive (sv_children (fst st') ! j)
          else sv_children (fst st') ! j = sv_children (fst st2) ! j"
        unfolding Pair Some len by auto
      have all: "if j < i' then \<not> sc_alive (sv_children (fst st') ! j) else sv_children (fst st') ! j = sv_children (fst st) ! j"
        if "j < ?n" for j
        using a [OF that] oth [of j] srt(2) i' by (cases "j < i'") auto
      have "i' \<in> set (i # is)" using i' by simp
      show ?thesis unfolding r Pair Some prod.case option.case
        by (intro conjI bexI [OF _ \<open>i' \<in> set (i # is)\<close>] allI impI sup_frame_trans [OF fr f] all)
    qed
  qed
qed simp

text \<open>What the strategies do to the children, from a state in which the crashed child is dead.\<close>

definition strategy_effect :: "RestartStrategy \<Rightarrow> senv \<Rightarrow> nat \<Rightarrow> go_error option \<Rightarrow> supervisedChild list \<Rightarrow> supervisedChild list \<Rightarrow> bool" where
  "strategy_effect strategy se idx r old new \<longleftrightarrow>
     length new = length old \<and>
     (case strategy of
        OneForOne \<Rightarrow> (\<forall>j < length old. j \<noteq> idx \<longrightarrow> new ! j = old ! j) \<and>
          (case r of None \<Rightarrow> restarted se idx (old ! idx) (new ! idx) | Some _ \<Rightarrow> \<not> sc_alive (new ! idx))
      | OneForAll \<Rightarrow> (\<forall>j < length old. case r of None \<Rightarrow> restarted se j (old ! j) (new ! j) | Some _ \<Rightarrow> \<not> sc_alive (new ! j))
      | RestForOne \<Rightarrow> (\<forall>j < length old. case r of
            None \<Rightarrow> if j < idx then new ! j = old ! j else restarted se j (old ! j) (new ! j)
          | Some _ \<Rightarrow> \<not> sc_alive (new ! j))
      | StrategyOther _ \<Rightarrow> new = old[idx := stopped (old ! idx)])"

lemma restarted_stopped [simp]: "restarted se j (stopped c) new = restarted se j c new"
  by (simp add: restarted_def)

lemma restart_by_strategy_effect:
  assumes "idx < length (sv_children (fst st))" and "\<not> sc_alive (sv_children (fst st) ! idx)"
    and "restart_by_strategy se idx st = (r, st')"
  shows "sup_frame (fst st) (fst st') \<and> strategy_effect (ss_Strategy (sv_spec (fst st))) se idx r (sv_children (fst st)) (sv_children (fst st'))"
proof (cases "ss_Strategy (sv_spec (fst st))")
  case OneForOne
  let ?c = "sv_children (fst st) ! idx"
  obtain q st1 where sc: "startChild se idx (sc_spec ?c) (reap_child se (sc_pid ?c) st) = (q, st1)" by (metis prod.exhaust)
  note e = startChild_effect [where se = se and i = idx and spec = "sc_spec ?c" and st = "reap_child se (sc_pid ?c) st", unfolded sc prod.case]
  show ?thesis
  proof (cases q)
    case (Inl err)
    with e assms sc OneForOne show ?thesis by (auto simp: restart_by_strategy_def restartOneForOne_def strategy_effect_def)
  next
    case (Inr pid)
    with e have s: "sv_children (fst st1) = sv_children (fst st)" "sup_frame (fst st) (fst st1)" "\<exists>p. se_spawn se idx = Inr p \<and> pid = pr_PID p" by auto
    have st': "fst st' = set_child idx (fresh_child (sc_spec ?c) idx pid (snd st1)) (fst st1)" "r = None"
      using assms(3) sc Inr OneForOne by (cases st1; auto simp: restart_by_strategy_def restartOneForOne_def Let_def)+
    have "sup_frame (fst st) (fst st')" using s(2) sup_frame_trans unfolding st'(1) by fastforce
    with s assms(1) st' OneForOne show ?thesis
      by (auto simp: strategy_effect_def sup_frame_def restarted_def fresh_child_def)
  qed
next
  case OneForAll
  let ?n = "length (sv_children (fst st))"
  let ?is = "filter (\<lambda>i. i \<noteq> idx) (rev [0..<?n])"
  let ?st1 = "fold (stopChild se) ?is st"
  obtain st2 where st2: "st2 = reap_child se (sc_pid (sv_children (fst ?st1) ! idx)) ?st1" by blast
  have rr: "restart_range se [0..<?n] (old_uuid (fst st)) st2 = (r, st')"
    using assms(3) OneForAll by (simp add: restart_by_strategy_def restartOneForAll_def Let_def st2)
  have nth: "sv_children (fst st2) ! j = stopped (sv_children (fst st) ! j)" if "j < ?n" for j
    using stop_nth [OF that, of se ?is] assms(2) that unfolding st2 by auto
  have fr: "sup_frame (fst st) (fst st2)" unfolding st2 using stop_frame [of st se ?is] by simp
  then have len: "length (sv_children (fst st2)) = ?n" by (simp add: sup_frame_def)
  have "\<forall>i \<in> set [0..<?n]. i < length (sv_children (fst st2))" unfolding len by simp
  note e = restart_range_effect [OF _ this, of se "old_uuid (fst st)", unfolded rr prod.case len, simplified]
  have f: "sup_frame (fst st2) (fst st')" using e by (cases r) auto
  have "case r of None \<Rightarrow> restarted se j (sv_children (fst st) ! j) (sv_children (fst st') ! j) | Some _ \<Rightarrow> \<not> sc_alive (sv_children (fst st') ! j)"
    if "j < ?n" for j
  proof (cases r)
    case None
    with e that have "restarted se j (sv_children (fst st2) ! j) (sv_children (fst st') ! j)" by simp
    with None nth [OF that] show ?thesis by simp
  next
    case (Some x)
    with e obtain i where "\<forall>j < ?n. if j < i then \<not> sc_alive (sv_children (fst st') ! j)
      else sv_children (fst st') ! j = sv_children (fst st2) ! j" by auto
    with Some that nth [OF that] show ?thesis by (cases "j < i") simp_all
  qed
  then show ?thesis using sup_frame_trans [OF fr f] unfolding strategy_effect_def OneForAll by (simp add: sup_frame_def)
next
  case RestForOne
  let ?n = "length (sv_children (fst st))"
  let ?is = "rev [Suc idx..<?n]"
  let ?st1 = "fold (stopChild se) ?is st"
  obtain st2 where st2: "st2 = reap_child se (sc_pid (sv_children (fst ?st1) ! idx)) ?st1" by blast
  have rr: "restart_range se [idx..<?n] (old_uuid (fst st)) st2 = (r, st')"
    using assms(3) RestForOne by (simp add: restart_by_strategy_def restartRestForOne_def Let_def st2)
  have nth: "sv_children (fst st2) ! j = (if j < idx then sv_children (fst st) ! j else stopped (sv_children (fst st) ! j))" if "j < ?n" for j
    using stop_nth [OF that, of se ?is] assms(2) that unfolding st2 by (cases "j = idx") auto
  have fr: "sup_frame (fst st) (fst st2)" unfolding st2 using stop_frame [of st se ?is] by simp
  then have len: "length (sv_children (fst st2)) = ?n" by (simp add: sup_frame_def)
  have "\<forall>i \<in> set [idx..<?n]. i < length (sv_children (fst st2))" unfolding len by simp
  note e = restart_range_effect [OF _ this, of se "old_uuid (fst st)", unfolded rr prod.case len, simplified]
  have f: "sup_frame (fst st2) (fst st')" using e by (cases r) auto
  have "case r of None \<Rightarrow> if j < idx then sv_children (fst st') ! j = sv_children (fst st) ! j
        else restarted se j (sv_children (fst st) ! j) (sv_children (fst st') ! j)
      | Some _ \<Rightarrow> \<not> sc_alive (sv_children (fst st') ! j)" if "j < ?n" for j
  proof (cases r)
    case None
    with e that have "if idx \<le> j then restarted se j (sv_children (fst st2) ! j) (sv_children (fst st') ! j)
      else sv_children (fst st') ! j = sv_children (fst st2) ! j" by auto
    with None nth [OF that] show ?thesis by (cases "j < idx") simp_all
  next
    case (Some x)
    with e obtain i where "idx \<le> i" "\<forall>j < ?n. if j < i then \<not> sc_alive (sv_children (fst st') ! j)
      else sv_children (fst st') ! j = sv_children (fst st2) ! j" by auto
    with Some that nth [OF that] show ?thesis by (cases "j < i") simp_all
  qed
  then show ?thesis using sup_frame_trans [OF fr f] unfolding strategy_effect_def RestForOne by (simp add: sup_frame_def)
next
  case (StrategyOther x)
  with assms show ?thesis by (auto simp: restart_by_strategy_def strategy_effect_def)
qed

section \<open>The handler\<close>

lemma exceeds_simps:
  "exceedsRestartLimit now (recordRestart now s) =
     (let valid = filter (\<lambda>t. now - ss_MaxWindow (sv_spec s) < t) (sv_restartTimes s @ [now])
      in (ss_MaxRestarts (sv_spec s) \<le> int (length valid), s\<lparr>sv_restartTimes := valid\<rparr>))"
  by (simp add: exceedsRestartLimit_def recordRestart_def Let_def)

text \<open>The part of the state the restart limit depends on, by the branch taken.\<close>

definition limit_step :: "senv \<Rightarrow> sup_action \<Rightarrow> Supervisor \<Rightarrow> Supervisor \<Rightarrow> bool" where
  "limit_step se act s s' \<longleftrightarrow>
     sv_spec s' = sv_spec s \<and>
     (let valid = filter (\<lambda>t. se_now se - ss_MaxWindow (sv_spec s) < t) (sv_restartTimes s @ [se_now se])
      in case act of
           SupRestart _ \<Rightarrow> sv_restartTimes s' = valid \<and> int (length valid) < ss_MaxRestarts (sv_spec s)
         | SupShutdown \<Rightarrow> sv_restartTimes s' = valid \<and> ss_MaxRestarts (sv_spec s) \<le> int (length valid)
         | SupMigrated \<Rightarrow> sv_restartTimes s' = valid \<and> ss_MaxRestarts (sv_spec s) \<le> int (length valid)
         | _ \<Rightarrow> sv_restartTimes s' = sv_restartTimes s)"

lemma set_child_fields [simp]: "sv_spec (set_child i c s) = sv_spec s" "sv_restartTimes (set_child i c s) = sv_restartTimes s"
  by (simp_all add: set_child_def)

lemma limit_step_set_child [simp]: "limit_step se act (set_child i c s) s' = limit_step se act s s'"
  unfolding limit_step_def set_child_fields ..

lemma child_failed_effect:
  assumes "idx < length (sv_children s)" and "\<not> sc_alive (sv_children s ! idx)" and "child_failed se idx c (s, k) = (act, st')"
  shows "limit_step se act s (fst st') \<and>
    (\<forall>r. act = SupRestart r \<longrightarrow> strategy_effect (ss_Strategy (sv_spec s)) se idx r (sv_children s) (sv_children (fst st')))"
proof -
  let ?valid = "filter (\<lambda>t. se_now se - ss_MaxWindow (sv_spec s) < t) (sv_restartTimes s @ [se_now se])"
  let ?s1 = "s\<lparr>sv_restartTimes := ?valid\<rparr>"
  show ?thesis
  proof (cases "ss_MaxRestarts (sv_spec s) \<le> int (length ?valid)")
    case True
    note f = stop_frame [of "(?s1, k')" for k', unfolded sup_frame_def]
    from True assms(3) f show ?thesis
      by (auto simp: child_failed_def exceeds_simps Let_def limit_step_def shutdownAll_def split: if_splits)
  next
    case False
    obtain k1 where k1: "k1 = emitEvent (sv_proc s) ''SupervisorRestart''
        [(''child_name'', AStr (chs_Name (sc_spec c))), (''child_index'', ANat idx), (''restart_count'', ANat (length ?valid))] None k" by blast
    obtain r st1 where r: "restart_by_strategy se idx (?s1, k1) = (r, st1)" by (metis prod.exhaust)
    have "child_failed se idx c (s, k) = (case r of None \<Rightarrow> (SupRestart None, st1)
        | Some e \<Rightarrow> (SupRestart (Some e), finish_supervisor se (ExitStatus 1 ''restart failed'' [] (Some e)) st1))"
      using False r unfolding k1 by (auto simp: child_failed_def exceeds_simps Let_def split: option.split)
    with assms(3) have act: "act = SupRestart r" "fst st' = fst st1" by (auto split: option.splits)
    from restart_by_strategy_effect [OF _ _ r] assms(1,2) have
      "sup_frame ?s1 (fst st1)" "strategy_effect (ss_Strategy (sv_spec s)) se idx r (sv_children s) (sv_children (fst st1))" by simp_all
    with act False show ?thesis by (auto simp: limit_step_def sup_frame_def Let_def)
  qed
qed

lemma quota_gate_effect:
  "quota_gate se idx pid exit st = Some (act, st') \<Longrightarrow> limit_step se act (fst st) (fst st') \<and> (\<forall>r. act \<noteq> SupRestart r)"
  by (cases st) (auto simp: quota_gate_def Let_def limit_step_def arm_monitor_def set_child_def split: option.splits if_splits)

lemma handleChildExit_effect:
  assumes "handleChildExit se (idx, pid, exit) (s, k) = (act, st')"
  shows "limit_step se act s (fst st') \<and>
    (\<forall>r. act = SupRestart r \<longrightarrow> strategy_effect (ss_Strategy (sv_spec s)) se idx r ((sv_children s)[idx := stopped (sv_children s ! idx)]) (sv_children (fst st')))"
proof (cases "length (sv_children s) \<le> idx \<or> \<not> sc_alive (sv_children s ! idx) \<or> sc_pid (sv_children s ! idx) \<noteq> pid")
  case True
  then have "handleChildExit se (idx, pid, exit) (s, k) = (SupIgnored, s, k)" by (auto simp: handleChildExit_def Let_def)
  with assms show ?thesis by (auto simp: limit_step_def)
next
  case False
  let ?c = "sv_children s ! idx"
  let ?s1 = "set_child idx (stopped ?c) s"
  show ?thesis
  proof (cases "quota_gate se idx pid exit (s, k)")
    case (Some ast)
    with False assms have "ast = (act, st')" by (auto simp: handleChildExit_def Let_def)
    with quota_gate_effect Some show ?thesis by fastforce
  next
    case None
    obtain k1 where k1: "k1 = emitEvent (sv_proc s) ''SupervisorChildExit''
        [(''child_name'', AStr (chs_Name (sc_spec ?c))), (''child_pid'', ANat (sc_pid ?c)), (''child_index'', ANat idx),
         (''exit_code'', AInt (exit_Code exit)), (''exit_reason'', AStr (exit_Reason exit))] (exit_Err exit) k" by blast
    have h: "handleChildExit se (idx, pid, exit) (s, k) =
        (if \<not> shouldRestart (sc_spec ?c) exit then (SupNoRestart, reap_child se (sc_pid ?c) (?s1, k1)) else child_failed se idx ?c (?s1, k1))"
      using False None by (simp add: handleChildExit_def Let_def stopped_def k1)
    show ?thesis
    proof (cases "shouldRestart (sc_spec ?c) exit")
      case True
      have "child_failed se idx ?c (?s1, k1) = (act, st')" using h assms True by simp
      from child_failed_effect [OF _ _ this] False show ?thesis by simp
    next
      case False
      with h assms show ?thesis by (auto simp: limit_step_def set_child_def)
    qed
  qed
qed

text \<open>
  A run of the handler: each event comes with its environment and with the kernel as the rest of the system
  has left it by then. The times of the restarts it makes, in order.
\<close>

fun sup_run :: "(senv \<times> childExit \<times> kernel) list \<Rightarrow> Supervisor \<Rightarrow> int list" where
  "sup_run [] s = []"
| "sup_run ((se, ce, k) # evs) s =
     (case handleChildExit se ce (s, k) of
        (act, st') \<Rightarrow> (case act of SupRestart _ \<Rightarrow> [se_now se] | _ \<Rightarrow> []) @ sup_run evs (fst st'))"

definition in_window :: "int \<Rightarrow> int \<Rightarrow> int list \<Rightarrow> int list" where
  "in_window w t ts = filter (\<lambda>u. t - w < u \<and> u \<le> t) ts"

text \<open>\<open>R\<close> are the restarts made so far, all at or before \<open>T\<close>.\<close>

definition intensity_inv :: "int \<Rightarrow> int \<Rightarrow> int list \<Rightarrow> int \<Rightarrow> Supervisor \<Rightarrow> bool" where
  "intensity_inv n w R T s \<longleftrightarrow>
     ss_MaxRestarts (sv_spec s) = n \<and> ss_MaxWindow (sv_spec s) = w \<and> (\<forall>t \<in> set R. t \<le> T) \<and>
     (\<forall>c \<ge> T - w. length (filter (\<lambda>t. c < t) R) \<le> length (filter (\<lambda>t. c < t) (sv_restartTimes s)))"

lemma filter_later: "c0 \<le> c \<Longrightarrow> filter (\<lambda>t. c < t) (filter (\<lambda>t. c0 < t) ts) = filter (\<lambda>t. (c :: int) < t) ts"
  by (induction ts) auto

lemma window_count_mono:
  fixes t w now :: int
  assumes "\<forall>u \<in> set R. u \<le> now" and "0 < w" and "now \<le> t" and "int (length (filter (\<lambda>u. now - w < u) R)) < n"
  shows "int (length (in_window w t R)) < n"
proof -
  have "length (in_window w t R) \<le> length (filter (\<lambda>u. now - w < u) R)"
    unfolding in_window_def using assms(3) by (induction R) auto
  with assms(4) show ?thesis by linarith
qed

lemma intensity_step:
  assumes "intensity_inv n w R T s" and "limit_step se act s s'" and "T \<le> se_now se" and "0 < w"
    and "\<And>t. int (length (in_window w t R)) < n"
  defines "R' \<equiv> R @ (case act of SupRestart _ \<Rightarrow> [se_now se] | _ \<Rightarrow> [])"
  shows "intensity_inv n w R' (se_now se) s' \<and> (\<forall>t. int (length (in_window w t R')) < n)"
proof -
  let ?now = "se_now se"
  let ?valid = "filter (\<lambda>t. ?now - w < t) (sv_restartTimes s @ [?now])"
  from assms(1) have i: "ss_MaxRestarts (sv_spec s) = n" "ss_MaxWindow (sv_spec s) = w" "\<forall>t \<in> set R. t \<le> T"
    and c: "\<And>c. T - w \<le> c \<Longrightarrow> length (filter (\<lambda>t. c < t) R) \<le> length (filter (\<lambda>t. c < t) (sv_restartTimes s))"
    by (simp_all add: intensity_inv_def)
  have sp: "sv_spec s' = sv_spec s" using assms(2) by (simp add: limit_step_def)
  have v: "filter (\<lambda>t. c < t) ?valid = filter (\<lambda>t. c < t) (sv_restartTimes s @ [?now])" if "?now - w \<le> c" for c
    by (rule filter_later [OF that])
  have R: "\<forall>t \<in> set R. t \<le> ?now" using i(3) assms(3) by auto
  show ?thesis
  proof (cases "\<exists>r. act = SupRestart r")
    case True
    then have t: "sv_restartTimes s' = ?valid" "int (length ?valid) < n" "R' = R @ [?now]"
      using assms(2) i by (auto simp: limit_step_def Let_def R'_def)
    have R': "\<forall>t \<in> set R'. t \<le> ?now" using R unfolding t(3) by simp
    have "intensity_inv n w R' ?now s'"
      unfolding intensity_inv_def sp t(1) using i R' v c assms(3) unfolding t(3) by auto
    moreover have "int (length (filter (\<lambda>u. ?now - w < u) R')) < n"
      using c [of "?now - w"] assms(3) t(2) unfolding t(3) by simp
    then have "int (length (in_window w t R')) < n" if "?now \<le> t" for t
      by (rule window_count_mono [OF R' assms(4) that])
    moreover have "int (length (in_window w t R')) < n" if "t < ?now" for t
      using assms(5) [of t] that unfolding t(3) by (simp add: in_window_def)
    ultimately show ?thesis by (meson not_le)
  next
    case False
    then have R': "R' = R" by (cases act) (auto simp: R'_def)
    have "length (filter (\<lambda>t. c < t) R) \<le> length (filter (\<lambda>t. c < t) (sv_restartTimes s'))" if "?now - w \<le> c" for c
    proof -
      have "length (filter (\<lambda>t. c < t) R) \<le> length (filter (\<lambda>t. c < t) (sv_restartTimes s))" using c that assms(3) by simp
      moreover have "sv_restartTimes s' = sv_restartTimes s \<or> sv_restartTimes s' = ?valid"
        using assms(2) False i by (cases act) (auto simp: limit_step_def Let_def)
      ultimately show ?thesis using v [OF that] by auto
    qed
    then show ?thesis using i R assms(5) unfolding R' intensity_inv_def sp by auto
  qed
qed

lemma sup_run_intensity:
  "intensity_inv n w R T s \<Longrightarrow> 0 < w \<Longrightarrow> (\<And>t. int (length (in_window w t R)) < n) \<Longrightarrow>
   sorted (T # map (\<lambda>(se, ce, k). se_now se) evs) \<Longrightarrow> int (length (in_window w t (R @ sup_run evs s))) < n"
proof (induction evs arbitrary: R T s)
  case (Cons ev evs)
  obtain se ce k where ev: "ev = (se, ce, k)" by (cases ev)
  obtain act st' where h: "handleChildExit se ce (s, k) = (act, st')" by (metis prod.exhaust)
  obtain idx pid ex where "ce = (idx, pid, ex)" by (cases ce)
  with h handleChildExit_effect have "limit_step se act s (fst st')" by blast
  from intensity_step [OF Cons.prems(1) this _ Cons.prems(2,3)] Cons.prems(4) have
    s: "intensity_inv n w (R @ (case act of SupRestart _ \<Rightarrow> [se_now se] | _ \<Rightarrow> [])) (se_now se) (fst st')"
      "\<And>t. int (length (in_window w t (R @ (case act of SupRestart _ \<Rightarrow> [se_now se] | _ \<Rightarrow> [])))) < n" by (simp_all add: ev)
  from Cons.IH [OF s(1) Cons.prems(2) s(2)] Cons.prems(4) show ?case by (simp add: ev h)
qed simp

section \<open>Properties\<close>

text \<open>
  C17: however the children fail and whatever the rest of the kernel does in between, within any
  time window of the configured length a supervisor restarts fewer children than the configured maximum.
  The failure that would be the maximum-th restart of a window already shuts it down.
\<close>

theorem supervisor_restart_intensity:
  assumes "sorted (map (\<lambda>(se, ce, k). se_now se) evs)" and "sv_restartTimes s = []"
    and "0 < ss_MaxWindow (sv_spec s)" and "0 < ss_MaxRestarts (sv_spec s)"
  shows "int (length (in_window (ss_MaxWindow (sv_spec s)) t (sup_run evs s))) < ss_MaxRestarts (sv_spec s)"
proof (cases evs)
  case Nil
  with assms show ?thesis by (simp add: in_window_def)
next
  case (Cons ev evs')
  let ?T = "(\<lambda>(se, ce, k). se_now se) ev"
  have "intensity_inv (ss_MaxRestarts (sv_spec s)) (ss_MaxWindow (sv_spec s)) [] ?T s" by (simp add: intensity_inv_def)
  from sup_run_intensity [OF this assms(3)] assms(1,4) show ?thesis
    by (simp add: Cons in_window_def)
qed

text \<open>
  C18: a restart replaces exactly the children its strategy names. An event of an earlier incarnation, or of
  a child that is not alive, changes nothing. When a start fails, one-for-all and rest-for-one leave no child
  alive, but one-for-one leaves the siblings of the crashed child running although the supervisor ends.
\<close>

theorem restart_follows_strategy:
  assumes "idx < length (sv_children s)"
  shows "(sc_pid (sv_children s ! idx) \<noteq> pid \<or> \<not> sc_alive (sv_children s ! idx) \<longrightarrow>
      handleChildExit se (idx, pid, exit) (s, k) = (SupIgnored, s, k)) \<and>
    (\<forall>r st'. handleChildExit se (idx, pid, exit) (s, k) = (SupRestart r, st') \<longrightarrow>
      strategy_effect (ss_Strategy (sv_spec s)) se idx r ((sv_children s)[idx := stopped (sv_children s ! idx)]) (sv_children (fst st')))"
  using assms handleChildExit_effect by (auto simp: handleChildExit_def Let_def)

text \<open>
  A child that ended only because its provider's quota is spent is not restarted: while it is still
  suspended for that reason, or already running again, the supervisor keeps it as it is, counts no restart and watches the same
  process again.
\<close>

lemma quota_suspended_child_is_awaited:
  assumes "idx < length (sv_children s)" and "sc_alive (sv_children s ! idx)" and "sc_pid (sv_children s ! idx) = pid"
    and "exit_Code exit = ExitSuspended" and "exit_Reason exit = ''suspended: quota_exhausted''"
    and "GetProcess k pid = Some p"
    and "pr_State p = StateRunning \<or> pr_State p = StateSuspended \<and> pr_SuspendReason p = ''quota_exhausted''"
  shows "case handleChildExit se (idx, pid, exit) (s, k) of (act, s', k') \<Rightarrow>
    act = SupRearmed \<and> sv_children s' = sv_children s \<and> sv_restartTimes s' = sv_restartTimes s \<and>
    (idx, pid) \<in> set (sv_monitors s') \<and> k_procTable k' = k_procTable k"
  using assms by (auto simp: handleChildExit_def Let_def quota_gate_def SuspendReasonQuotaExhausted_def arm_monitor_def emitEvent_def out_def)

section \<open>Witnesses\<close>

definition demo_child :: "nat \<Rightarrow> PID \<Rightarrow> supervisedChild" where
  "demo_child i pid =
     \<lparr>sc_spec = \<lparr>chs_Name = ''worker'', chs_Intent = ''work'', chs_Agent = None, chs_Restart = RestartPermanent\<rparr>,
      sc_pid = pid, sc_uuid = [], sc_index = i, sc_alive = True\<rparr>"

definition demo_sup :: Supervisor where
  "demo_sup =
     (newSupervisor 1 \<lparr>ss_Strategy = OneForOne, ss_MaxRestarts = 3, ss_MaxWindow = 60, ss_Children = []\<rparr>)
       \<lparr>sv_children := [demo_child 0 2, demo_child 1 3]\<rparr>"

definition demo_sup_env :: "int \<Rightarrow> PID \<Rightarrow> senv" where
  "demo_sup_env now pid =
     \<lparr>se_kernel = \<lparr>e_now = now, e_goroutine = (\<lambda>_. GNone), e_unmount = (\<lambda>_. (None, 0)), e_reopen = (\<lambda>_. Inr 3),
                  e_spanID = [], e_template = (\<lambda>_. [])\<rparr>,
      se_now = now, se_spawn = (\<lambda>_. Inr (NewProcess pid ''u'' 1 ''work'' [] now)), se_grace = (\<lambda>_. True), se_forced = (\<lambda>_. True),
      se_opened = (\<lambda>_. None), se_persisted = (\<lambda>_. []), se_migrated = (\<lambda>_. None)\<rparr>"

lemma demo_restart:
  "\<exists>st'. handleChildExit (demo_sup_env 10 4) (0, 2, ExitStatus 1 ''failed'' [] None) (demo_sup, NewKernel {}) = (SupRestart None, st')"
  by (simp add: handleChildExit_def demo_sup_def newSupervisor_def demo_child_def quota_gate_def ExitSuspended_def shouldRestart_def
    child_failed_def exceeds_simps set_child_def restart_by_strategy_def restartOneForOne_def demo_sup_env_def startChild_def reap_child_def Let_def)

theorem supervisor_restart_intensity_witness:
  "sup_run [(demo_sup_env 10 4, (0, 2, ExitStatus 1 ''failed'' [] None), NewKernel {})] demo_sup = [10] \<and>
   int (length (in_window 60 10 (sup_run [(demo_sup_env 10 4, (0, 2, ExitStatus 1 ''failed'' [] None), NewKernel {})] demo_sup))) < 3"
proof -
  obtain st' where h: "handleChildExit (demo_sup_env 10 4) (0, 2, ExitStatus 1 ''failed'' [] None) (demo_sup, NewKernel {}) = (SupRestart None, st')"
    using demo_restart by blast
  then have "sup_run [(demo_sup_env 10 4, (0, 2, ExitStatus 1 ''failed'' [] None), NewKernel {})] demo_sup = [10]"
    by (simp add: demo_sup_env_def)
  moreover have "sorted (map (\<lambda>(se, ce, k). se_now se) [(demo_sup_env 10 4, (0, 2, ExitStatus 1 ''failed'' [] None), NewKernel {})])"
    "sv_restartTimes demo_sup = []" "ss_MaxWindow (sv_spec demo_sup) = 60" "ss_MaxRestarts (sv_spec demo_sup) = 3"
    by (simp_all add: demo_sup_def newSupervisor_def)
  with supervisor_restart_intensity [OF this(1,2), of 10]
  have "int (length (in_window 60 10 (sup_run [(demo_sup_env 10 4, (0, 2, ExitStatus 1 ''failed'' [] None), NewKernel {})] demo_sup))) < 3"
    by (simp only:)
  ultimately show ?thesis ..
qed

theorem restart_follows_strategy_witness:
  "handleChildExit (demo_sup_env 10 4) (0, 99, ExitStatus 1 ''failed'' [] None) (demo_sup, NewKernel {}) = (SupIgnored, demo_sup, NewKernel {}) \<and>
   (\<exists>st'. handleChildExit (demo_sup_env 10 4) (0, 2, ExitStatus 1 ''failed'' [] None) (demo_sup, NewKernel {}) = (SupRestart None, st') \<and>
     sv_children (fst st') ! 1 = demo_child 1 3)"
proof -
  have i: "0 < length (sv_children demo_sup)" by (simp add: demo_sup_def)
  obtain st' where h: "handleChildExit (demo_sup_env 10 4) (0, 2, ExitStatus 1 ''failed'' [] None) (demo_sup, NewKernel {}) = (SupRestart None, st')"
    using demo_restart by blast
  have "strategy_effect (ss_Strategy (sv_spec demo_sup)) (demo_sup_env 10 4) 0 None ((sv_children demo_sup)[0 := stopped (sv_children demo_sup ! 0)]) (sv_children (fst st'))"
    using restart_follows_strategy [OF i, of 2 "demo_sup_env 10 4" "ExitStatus 1 ''failed'' [] None" "NewKernel {}"] h by blast
  moreover have "ss_Strategy (sv_spec demo_sup) = OneForOne" by (simp add: demo_sup_def newSupervisor_def)
  ultimately have "sv_children (fst st') ! 1 = demo_child 1 3"
    by (simp add: strategy_effect_def demo_sup_def)
  moreover have "handleChildExit (demo_sup_env 10 4) (0, 99, ExitStatus 1 ''failed'' [] None) (demo_sup, NewKernel {}) = (SupIgnored, demo_sup, NewKernel {})"
    using restart_follows_strategy [OF i, of 99 "demo_sup_env 10 4" "ExitStatus 1 ''failed'' [] None" "NewKernel {}"]
    by (simp add: demo_sup_def demo_child_def)
  ultimately show ?thesis using h by blast
qed

end
