(* ===== verification/Budget.thy ===== *)
theory Budget
  imports KTypes
begin

text \<open>
  The token budget pool of a compose run (\<open>kernel/budget_pool.go\<close>). The map of quotas is an
  association list in an arbitrary order; Go's \<open>int\<close> arithmetic wraps at 64 bits.
\<close>

section \<open>The pool\<close>

type_synonym Priority = int

definition PriorityLow :: Priority where "PriorityLow = 1"
definition PriorityNormal :: Priority where "PriorityNormal = 5"
definition PriorityHigh :: Priority where "PriorityHigh = 10"

definition ParsePriority :: "string \<Rightarrow> Priority" where
  "ParsePriority s =
     (let l = map ascii_lower s
      in if l = ''high'' then PriorityHigh else if l = ''normal'' then PriorityNormal
         else if l = ''low'' then PriorityLow else PriorityNormal)"

record AgentQuota =
  aq_PID :: PID
  aq_Name :: string
  aq_Priority :: Priority
  aq_Quota :: int
  aq_Consumed :: int

record BudgetPool =
  bp_totalBudget :: int
  bp_consumed :: int
  bp_quotas :: "(PID \<times> AgentQuota) list"

record BudgetPoolStatus =
  bs_TotalBudget :: int
  bs_Allocated :: int
  bs_Consumed :: int
  bs_Remaining :: int
  bs_Quotas :: "AgentQuota list"

definition NewBudgetPool :: "int \<Rightarrow> BudgetPool" where
  "NewBudgetPool b = \<lparr>bp_totalBudget = b, bp_consumed = 0, bp_quotas = []\<rparr>"

definition total_weight :: "BudgetPool \<Rightarrow> int" where
  "total_weight bp = fold (\<lambda>(_, q) w. i64 (w + aq_Priority q)) (bp_quotas bp) 0"

definition recalcLocked :: "BudgetPool \<Rightarrow> BudgetPool" where
  "recalcLocked bp =
     (let w = total_weight bp
      in if w = 0 then bp
         else bp\<lparr>bp_quotas := map (\<lambda>(pid, q). (pid,
                q\<lparr>aq_Quota := i64 (go_quot (i64 (bp_totalBudget bp * aq_Priority q)) w)\<rparr>)) (bp_quotas bp)\<rparr>)"

definition AllocateQuota :: "PID \<Rightarrow> string \<Rightarrow> Priority \<Rightarrow> BudgetPool \<Rightarrow> int \<times> BudgetPool" where
  "AllocateQuota pid name priority bp =
     (let q = \<lparr>aq_PID = pid, aq_Name = name, aq_Priority = priority, aq_Quota = 0, aq_Consumed = 0\<rparr>;
          bp1 = bp\<lparr>bp_quotas := AList.update pid q (bp_quotas bp)\<rparr>
      in if bp_totalBudget bp \<le> 0 then (0, bp1)
         else let bp2 = recalcLocked bp1
              in (case map_of (bp_quotas bp2) pid of Some q' \<Rightarrow> aq_Quota q' | None \<Rightarrow> 0, bp2))"

definition GetQuota :: "PID \<Rightarrow> BudgetPool \<Rightarrow> int option" where
  "GetQuota pid bp = map_option aq_Quota (map_of (bp_quotas bp) pid)"

definition RecordUsage :: "PID \<Rightarrow> int \<Rightarrow> BudgetPool \<Rightarrow> go_error option \<times> BudgetPool" where
  "RecordUsage pid tokens bp =
     (case map_of (bp_quotas bp) pid of
        None \<Rightarrow> (Some (PlainError ''budget pool: unknown PID''), bp)
      | Some q \<Rightarrow>
          (None, bp\<lparr>bp_quotas := AList.update pid (q\<lparr>aq_Consumed := i64 (aq_Consumed q + tokens)\<rparr>) (bp_quotas bp),
                    bp_consumed := i64 (bp_consumed bp + tokens)\<rparr>))"

definition IsExhausted :: "BudgetPool \<Rightarrow> bool" where
  "IsExhausted bp = (if bp_totalBudget bp < 0 then False else bp_consumed bp \<ge> bp_totalBudget bp)"

definition Remaining :: "BudgetPool \<Rightarrow> int" where
  "Remaining bp = (let r = i64 (bp_totalBudget bp - bp_consumed bp) in if r < 0 then 0 else r)"

definition GetStatus :: "BudgetPool \<Rightarrow> BudgetPoolStatus" where
  "GetStatus bp =
     \<lparr>bs_TotalBudget = bp_totalBudget bp,
      bs_Allocated = fold (\<lambda>(_, q) a. i64 (a + aq_Quota q)) (bp_quotas bp) 0,
      bs_Consumed = bp_consumed bp,
      bs_Remaining = max (i64 (bp_totalBudget bp - bp_consumed bp)) 0,
      bs_Quotas = map snd (bp_quotas bp)\<rparr>"

text \<open>A run: allocations and usage reports in any order.\<close>

datatype budget_op = BAllocate PID string Priority | BUsage PID int

fun budget_step :: "budget_op \<Rightarrow> BudgetPool \<Rightarrow> BudgetPool" where
  "budget_step (BAllocate pid name prio) bp = snd (AllocateQuota pid name prio bp)"
| "budget_step (BUsage pid tokens) bp = snd (RecordUsage pid tokens bp)"

section \<open>Fair shares\<close>

definition weight :: "(PID \<times> AgentQuota) list \<Rightarrow> int" where
  "weight qs = sum_list (map (aq_Priority \<circ> snd) qs)"

definition small_prio :: "AgentQuota \<Rightarrow> bool" where
  "small_prio q \<longleftrightarrow> 1 \<le> aq_Priority q \<and> aq_Priority q \<le> 10"

lemma small_prio_update [simp]: "small_prio (q\<lparr>aq_Quota := x\<rparr>) = small_prio q" "small_prio (q\<lparr>aq_Consumed := x\<rparr>) = small_prio q"
  by (simp_all add: small_prio_def)

lemma weight_bounds:
  "\<forall>(p, q) \<in> set qs. small_prio q \<Longrightarrow> int (length qs) \<le> weight qs \<and> weight qs \<le> 10 * int (length qs)"
  by (induction qs) (auto simp: weight_def small_prio_def)

lemma total_weight_exact:
  assumes "\<forall>(p, q) \<in> set qs. small_prio q" and "0 \<le> w" and "w + 10 * int (length qs) < 2 ^ 63"
  shows "fold (\<lambda>(_, q) w. i64 (w + aq_Priority q)) qs w = w + weight qs"
  using assms
proof (induction qs arbitrary: w)
  case (Cons a qs)
  obtain p q where a: "a = (p, q)" by (cases a)
  with Cons.prems have "i64 (w + aq_Priority q) = w + aq_Priority q"
    by (intro i64_id) (auto simp: in_i64_def small_prio_def)
  with Cons.IH [of "w + aq_Priority q"] Cons.prems a show ?case
    by (auto simp: weight_def small_prio_def)
qed (simp add: weight_def)

text \<open>The rounded-down shares: they never exceed the whole, and lose less than one token each.\<close>

lemma shares_sum:
  fixes B W :: int
  assumes "0 < W" and "\<forall>x \<in> set xs. 0 \<le> (x :: int)"
  shows "sum_list (map (\<lambda>x. B * x div W) xs) * W \<le> B * sum_list xs"
    and "B * sum_list xs \<le> sum_list (map (\<lambda>x. B * x div W) xs) * W + int (length xs) * (W - 1)"
proof -
  show "sum_list (map (\<lambda>x. B * x div W) xs) * W \<le> B * sum_list xs"
  proof (induction xs)
    case (Cons x xs)
    have "B * x = B * x div W * W + B * x mod W" by simp
    moreover have "0 \<le> B * x mod W" using assms(1) by simp
    ultimately have "B * x div W * W \<le> B * x" by linarith
    with Cons show ?case by (simp add: algebra_simps)
  qed simp
  show "B * sum_list xs \<le> sum_list (map (\<lambda>x. B * x div W) xs) * W + int (length xs) * (W - 1)"
  proof (induction xs)
    case (Cons x xs)
    have "B * x = B * x div W * W + B * x mod W" by simp
    moreover have "B * x mod W \<le> W - 1" using assms(1) pos_mod_bound [of W "B * x"] by linarith
    ultimately have "B * x \<le> B * x div W * W + (W - 1)" by linarith
    with Cons show ?case by (simp add: algebra_simps)
  qed simp
qed

definition pool_ok :: "int \<Rightarrow> BudgetPool \<Rightarrow> bool" where
  "pool_ok B bp \<longleftrightarrow> bp_totalBudget bp = B \<and> unique_keys (bp_quotas bp) \<and>
     (\<forall>(pid, q) \<in> set (bp_quotas bp). pid < 2 ^ 59 \<and> small_prio q \<and>
        aq_Quota q = B * aq_Priority q div weight (bp_quotas bp))"

definition small_alloc :: "budget_op \<Rightarrow> bool" where
  "small_alloc op = (case op of BAllocate pid name prio \<Rightarrow> pid < 2 ^ 59 \<and> 1 \<le> prio \<and> prio \<le> 10 | BUsage pid tokens \<Rightarrow> True)"

lemma pool_size:
  assumes "unique_keys qs" and "\<forall>(pid :: nat, q) \<in> set qs. pid < 2 ^ 59"
  shows "length qs \<le> 2 ^ 59"
proof -
  have "length qs = card (set (map fst qs))" using assms(1) by (metis distinct_card length_map)
  also have "\<dots> \<le> card {..< (2 :: nat) ^ 59}" using assms(2) by (intro card_mono) auto
  finally show ?thesis by simp
qed

text \<open>What matters of the quotas for the weights is kept by an update of the consumption.\<close>

lemma weight_update:
  "unique_keys qs \<Longrightarrow> map_of qs pid = Some q \<Longrightarrow> aq_Priority q' = aq_Priority q \<Longrightarrow> weight (AList.update pid q' qs) = weight qs"
  by (induction qs) (auto simp: weight_def)

lemma set_update:
  "unique_keys qs \<Longrightarrow> set (AList.update pid q qs) = insert (pid, q) {x \<in> set qs. fst x \<noteq> pid}"
  by (induction qs) force+

lemma recalc_ok:
  assumes "unique_keys qs" and "\<forall>(pid, q) \<in> set qs. pid < 2 ^ 59 \<and> small_prio q" and "0 < B" and "10 * B < 2 ^ 63"
    and "bp_totalBudget bp = B" and "bp_quotas bp = qs" and "qs \<noteq> []"
  shows "pool_ok B (recalcLocked bp)"
proof -
  have len: "length qs \<le> 2 ^ 59" using assms(1,2) by (intro pool_size) auto
  have w: "total_weight bp = weight qs"
    using total_weight_exact [of qs 0] assms(2,6) len by (auto simp: total_weight_def)
  have "int (length qs) \<le> weight qs" using weight_bounds [of qs] assms(2) by auto
  then have pos: "0 < weight qs" using assms(7) by (cases qs) auto
  let ?f = "\<lambda>(pid, q). (pid, q\<lparr>aq_Quota := i64 (go_quot (i64 (B * aq_Priority q)) (weight qs))\<rparr>)"
  have r: "bp_quotas (recalcLocked bp) = map ?f qs" "bp_totalBudget (recalcLocked bp) = B"
    using pos assms(5,6) by (simp_all add: recalcLocked_def w Let_def)
  have share: "i64 (go_quot (i64 (B * aq_Priority q)) (weight qs)) = B * aq_Priority q div weight qs"
    if "small_prio q" for q
  proof -
    have "0 \<le> B * aq_Priority q" "B * aq_Priority q \<le> B * 10"
      using that assms(3) by (auto simp: small_prio_def mult_left_mono)
    moreover have "B * aq_Priority q div weight qs \<le> B * aq_Priority q"
      using calculation(1) pos using zdiv_mono2 [of "B * aq_Priority q" 1 "weight qs"] by simp
    moreover have "0 \<le> B * aq_Priority q div weight qs" using calculation(1) pos by (simp add: pos_imp_zdiv_nonneg_iff)
    ultimately show ?thesis using assms(4) pos by (simp add: i64_id in_i64_def)
  qed
  have "weight (map ?f qs) = weight qs" by (simp add: weight_def comp_def case_prod_beta)
  moreover have "unique_keys (map ?f qs)" using assms(1) by (simp add: comp_def case_prod_beta)
  ultimately show ?thesis using assms(2) share unfolding pool_ok_def r by auto
qed

lemma RecordUsage_ok: "pool_ok B bp \<Longrightarrow> pool_ok B (snd (RecordUsage pid tokens bp))"
proof (cases "map_of (bp_quotas bp) pid")
  case (Some q)
  assume ok: "pool_ok B bp"
  then have u: "unique_keys (bp_quotas bp)" by (simp add: pool_ok_def)
  let ?q = "q\<lparr>aq_Consumed := i64 (aq_Consumed q + tokens)\<rparr>"
  have "weight (AList.update pid ?q (bp_quotas bp)) = weight (bp_quotas bp)" by (rule weight_update [OF u Some]) simp
  moreover have "(pid, q) \<in> set (bp_quotas bp)" using Some by (rule map_of_SomeD)
  ultimately show ?thesis using ok Some
    by (auto simp: RecordUsage_def pool_ok_def set_update small_prio_def intro: distinct_update)
qed (simp add: RecordUsage_def)

lemma AllocateQuota_ok:
  assumes "0 < B" and "10 * B < 2 ^ 63" and "pool_ok B bp" and "pid < 2 ^ 59" and "1 \<le> prio" and "prio \<le> 10"
  shows "pool_ok B (snd (AllocateQuota pid name prio bp))"
proof -
  let ?q = "\<lparr>aq_PID = pid, aq_Name = name, aq_Priority = prio, aq_Quota = 0, aq_Consumed = 0\<rparr>"
  let ?bp = "bp\<lparr>bp_quotas := AList.update pid ?q (bp_quotas bp)\<rparr>"
  have u: "unique_keys (bp_quotas bp)" "bp_totalBudget bp = B" using assms(3) by (simp_all add: pool_ok_def)
  have "pool_ok B (recalcLocked ?bp)"
    by (rule recalc_ok [where qs = "AList.update pid ?q (bp_quotas bp)"])
       (use assms u in \<open>auto simp: pool_ok_def set_update small_prio_def intro: distinct_update\<close>)
  then show ?thesis using u assms(1) by (simp add: AllocateQuota_def Let_def)
qed

interpretation budget_fair: step_invariant budget_step small_alloc "\<lambda>bp. pool_ok B bp \<and> 0 < B \<and> 10 * B < 2 ^ 63"
  by unfold_locales (auto simp: small_alloc_def RecordUsage_ok AllocateQuota_ok split: budget_op.splits)

lemma allocated_exact:
  assumes "\<forall>(p, q) \<in> set qs. 0 \<le> aq_Quota q" and "0 \<le> a" and "a + sum_list (map (aq_Quota \<circ> snd) qs) < 2 ^ 63"
  shows "fold (\<lambda>(_, q) a. i64 (a + aq_Quota q)) qs a = a + sum_list (map (aq_Quota \<circ> snd) qs)"
  using assms
proof (induction qs arbitrary: a)
  case (Cons x qs)
  obtain p q where x: "x = (p, q)" by (cases x)
  have "0 \<le> sum_list (map (aq_Quota \<circ> snd) qs)" using Cons.prems(1) by (intro sum_list_nonneg) auto
  with Cons.prems x have "i64 (a + aq_Quota q) = a + aq_Quota q" by (intro i64_id) (auto simp: in_i64_def comp_def)
  with Cons.IH [of "a + aq_Quota q"] Cons.prems x show ?case by auto
qed simp

text \<open>
  C11: after any allocations (with the priorities the pool defines) and usage reports, every agent's
  quota is its exact proportional share of the budget, rounded down; together they never exceed the
  budget, and leave less than one token per agent unallocated.
\<close>

theorem quotas_are_fair_shares:
  assumes "0 < B" and "10 * B < 2 ^ 63" and "\<forall>op \<in> set ops. small_alloc op"
    and "bp = fold budget_step ops (NewBudgetPool B)"
  shows "(\<forall>pid \<in> set (map fst (bp_quotas bp)). \<forall>q. map_of (bp_quotas bp) pid = Some q \<longrightarrow>
            GetQuota pid bp = Some (B * aq_Priority q div weight (bp_quotas bp))) \<and>
     bs_Allocated (GetStatus bp) \<le> B \<and>
     (bp_quotas bp \<noteq> [] \<longrightarrow> B - bs_Allocated (GetStatus bp) < int (length (bp_quotas bp)))"
proof -
  have ok: "pool_ok B bp"
    using budget_fair.run_inv [where s = "NewBudgetPool B" and B = B and ops = ops] assms by (simp add: pool_ok_def NewBudgetPool_def)
  let ?qs = "bp_quotas bp" and ?W = "weight (bp_quotas bp)"
  let ?xs = "map (aq_Priority \<circ> snd) ?qs"
  have small: "\<forall>(p, q) \<in> set ?qs. small_prio q" using ok by (auto simp: pool_ok_def)
  have quota: "aq_Quota q = B * aq_Priority q div ?W" if "(p, q) \<in> set ?qs" for p q
    using ok that by (auto simp: pool_ok_def)
  have W: "sum_list ?xs = ?W" by (simp add: weight_def)
  have sum: "sum_list (map (aq_Quota \<circ> snd) ?qs) = sum_list (map (\<lambda>x. B * x div ?W) ?xs)"
    using quota by (intro arg_cong [where f = sum_list]) (auto simp: comp_def)
  have "bs_Allocated (GetStatus bp) \<le> B \<and> (?qs \<noteq> [] \<longrightarrow> B - bs_Allocated (GetStatus bp) < int (length ?qs))"
  proof (cases "?qs = []")
    case True
    then show ?thesis using assms(1) by (simp add: GetStatus_def)
  next
    case False
    have "int (length ?qs) \<le> ?W" using weight_bounds [OF small] by simp
    then have pos: "0 < ?W" using False by (cases ?qs) auto
    have nn: "\<forall>x \<in> set ?xs. 0 \<le> x" using small by (auto simp: small_prio_def)
    let ?A = "sum_list (map (\<lambda>x. B * x div ?W) ?xs)"
    have le: "?A * ?W \<le> B * ?W" "B * ?W \<le> ?A * ?W + int (length ?qs) * (?W - 1)"
      using shares_sum [OF pos nn, of B] by (simp_all add: W)
    from le(1) pos have A: "?A \<le> B" by simp
    have "\<forall>(p, q) \<in> set ?qs. 0 \<le> aq_Quota q"
      using quota small assms(1) pos by (fastforce simp: small_prio_def pos_imp_zdiv_nonneg_iff)
    then have alloc: "bs_Allocated (GetStatus bp) = ?A"
      using allocated_exact [of ?qs 0] A assms(1,2) by (simp add: GetStatus_def sum)
    have "(B - ?A) * ?W < int (length ?qs) * ?W"
    proof -
      have "0 < int (length ?qs)" using False by simp
      moreover have "int (length ?qs) * (?W - 1) = int (length ?qs) * ?W - int (length ?qs)" by (simp add: right_diff_distrib)
      ultimately show ?thesis using le(2) unfolding left_diff_distrib by linarith
    qed
    then have "B - ?A < int (length ?qs)" using pos by simp
    with A alloc show ?thesis by simp
  qed
  moreover have "\<forall>pid \<in> set (map fst ?qs). \<forall>q. map_of ?qs pid = Some q \<longrightarrow> GetQuota pid bp = Some (B * aq_Priority q div ?W)"
    using quota by (auto simp: GetQuota_def dest: map_of_SomeD)
  ultimately show ?thesis by blast
qed

theorem quotas_are_fair_shares_witness:
  "GetQuota 2 (fold budget_step [BAllocate 1 ''a'' 5, BAllocate 2 ''b'' 10] (NewBudgetPool 100)) = Some 66"
proof -
  obtain ops bp where d: "ops = [BAllocate 1 ''a'' 5, BAllocate 2 ''b'' 10]" "bp = fold budget_step ops (NewBudgetPool 100)"
    by blast
  have q: "bp_quotas bp = [(1, \<lparr>aq_PID = 1, aq_Name = ''a'', aq_Priority = 5, aq_Quota = 33, aq_Consumed = 0\<rparr>),
      (2, \<lparr>aq_PID = 2, aq_Name = ''b'', aq_Priority = 10, aq_Quota = 66, aq_Consumed = 0\<rparr>)]"
    by (simp add: d NewBudgetPool_def AllocateQuota_def recalcLocked_def total_weight_def i64_def Let_def)
  have "\<forall>op \<in> set ops. small_alloc op" by (simp add: d small_alloc_def)
  from quotas_are_fair_shares [OF _ _ this d(2)] have "GetQuota 2 bp = Some (100 * 10 div weight (bp_quotas bp))"
    by (auto simp: q)
  then have "GetQuota 2 bp = Some 66" by (simp add: q weight_def)
  then show ?thesis unfolding d .
qed

section \<open>Accounting\<close>

fun allocated_pids :: "budget_op list \<Rightarrow> PID list" where
  "allocated_pids [] = []"
| "allocated_pids (BAllocate pid name prio # ops) = pid # allocated_pids ops"
| "allocated_pids (BUsage pid tokens # ops) = allocated_pids ops"

definition consumed_sum :: "(PID \<times> AgentQuota) list \<Rightarrow> int" where
  "consumed_sum qs = sum_list (map (aq_Consumed \<circ> snd) qs)"

lemma i64_add: "i64 (i64 a + b) = i64 (a + b)"
  by (simp add: i64_def mod_simps algebra_simps)

lemma consumed_update:
  "unique_keys qs \<Longrightarrow> consumed_sum (AList.update pid q qs)
     = consumed_sum qs + aq_Consumed q - (case map_of qs pid of None \<Rightarrow> 0 | Some q0 \<Rightarrow> aq_Consumed q0)"
  by (induction qs) (auto simp: consumed_sum_def split: option.split)

lemma recalc_frame:
  "map fst (bp_quotas (recalcLocked bp)) = map fst (bp_quotas bp)" "bp_consumed (recalcLocked bp) = bp_consumed bp"
  "consumed_sum (bp_quotas (recalcLocked bp)) = consumed_sum (bp_quotas bp)"
  by (auto simp: recalcLocked_def Let_def comp_def case_prod_beta consumed_sum_def)

lemma budget_accounting:
  assumes "distinct (allocated_pids ops)" and "set (map fst (bp_quotas bp)) \<inter> set (allocated_pids ops) = {}"
    and "unique_keys (bp_quotas bp)" and "bp_consumed bp = i64 (consumed_sum (bp_quotas bp))"
  shows "bp_consumed (fold budget_step ops bp) = i64 (consumed_sum (bp_quotas (fold budget_step ops bp)))"
  using assms
proof (induction ops arbitrary: bp)
  case (Cons op ops)
  show ?case
  proof (cases op)
    case (BAllocate pid name prio)
    let ?q = "\<lparr>aq_PID = pid, aq_Name = name, aq_Priority = prio, aq_Quota = 0, aq_Consumed = 0\<rparr>"
    let ?bp = "snd (AllocateQuota pid name prio bp)"
    have "pid \<notin> set (map fst (bp_quotas bp))" using Cons.prems(2) BAllocate by auto
    then have new: "map_of (bp_quotas bp) pid = None" by (simp add: map_of_eq_None_iff)
    have k: "map fst (bp_quotas ?bp) = map fst (AList.update pid ?q (bp_quotas bp))" "bp_consumed ?bp = bp_consumed bp"
      "consumed_sum (bp_quotas ?bp) = consumed_sum (AList.update pid ?q (bp_quotas bp))"
      by (simp_all add: AllocateQuota_def Let_def recalc_frame)
    have "bp_consumed (fold budget_step ops ?bp) = i64 (consumed_sum (bp_quotas (fold budget_step ops ?bp)))"
      using Cons.prems BAllocate k new
      by (intro Cons.IH) (auto simp: distinct_update consumed_update [OF Cons.prems(3)] dom_update)
    then show ?thesis using BAllocate by simp
  next
    case (BUsage pid tokens)
    let ?bp = "snd (RecordUsage pid tokens bp)"
    have "map fst (bp_quotas ?bp) = map fst (bp_quotas bp)"
    proof (cases "map_of (bp_quotas bp) pid")
      case (Some q)
      then have "pid \<in> set (map fst (bp_quotas bp))" using map_of_SomeD [OF Some] by force
      then show ?thesis by (simp add: RecordUsage_def Some update_keys)
    qed (simp add: RecordUsage_def)
    moreover have "bp_consumed ?bp = i64 (consumed_sum (bp_quotas ?bp))"
    proof (cases "map_of (bp_quotas bp) pid")
      case (Some q)
      have "i64 (consumed_sum (bp_quotas bp) + i64 (aq_Consumed q + tokens) - aq_Consumed q) = i64 (consumed_sum (bp_quotas bp) + tokens)"
        using i64_add [of "aq_Consumed q + tokens" "consumed_sum (bp_quotas bp) - aq_Consumed q"] by (simp add: algebra_simps)
      then show ?thesis using Some Cons.prems(4) by (simp add: RecordUsage_def consumed_update [OF Cons.prems(3)] i64_add)
    qed (simp add: RecordUsage_def Cons.prems(4))
    ultimately have "bp_consumed (fold budget_step ops ?bp) = i64 (consumed_sum (bp_quotas (fold budget_step ops ?bp)))"
      using Cons.prems BUsage by (intro Cons.IH) auto
    then show ?thesis using BUsage by simp
  qed
qed simp

text \<open>
  As long as no PID is registered twice, what the pool has consumed is the sum of what its agents
  have (modulo the 64-bit wrap), whatever was reported and in which order, reports for unknown PIDs
  included; and a budget that is not negative is exhausted exactly when nothing remains.
\<close>

lemma usage_is_accounted:
  assumes "distinct (allocated_pids ops)" and "bp = fold budget_step ops (NewBudgetPool B)"
    and "0 \<le> B" and "in_i64 (B - bp_consumed bp)"
  shows "bs_Consumed (GetStatus bp) = i64 (sum_list (map aq_Consumed (bs_Quotas (GetStatus bp)))) \<and>
     (IsExhausted bp \<longleftrightarrow> Remaining bp = 0)"
proof -
  have "bp_totalBudget (budget_step op bp) = bp_totalBudget bp" for op bp
    by (cases op) (auto simp: AllocateQuota_def RecordUsage_def recalcLocked_def Let_def split: option.split)
  then have "bp_totalBudget (fold budget_step ops bp0) = bp_totalBudget bp0" for bp0
    by (induction ops arbitrary: bp0) simp_all
  then have B: "bp_totalBudget bp = B" using assms(2) by (simp add: NewBudgetPool_def)
  have "bp_consumed bp = i64 (consumed_sum (bp_quotas bp))"
    unfolding assms(2) using assms(1) by (intro budget_accounting) (simp_all add: NewBudgetPool_def consumed_sum_def i64_def)
  then show ?thesis using B assms(3,4)
    by (auto simp: GetStatus_def consumed_sum_def IsExhausted_def Remaining_def i64_id Let_def)
qed

end
