(* ===== verification/LoopDetect.thy ===== *)
theory LoopDetect
  imports ProcState
begin

unbundle bit_operations_syntax

text \<open>
  The loop detector of the reasoning loop (\<open>kernel/loop_detector.go\<close>): two rings of action hashes,
  one per track, a warning after \<open>N\<close> equal entries in a row and a suspension after \<open>2N\<close>. The hashes
  are FNV-1a on 64-bit words.
\<close>

section \<open>Hashes\<close>

definition fnv_offset :: "64 word" where "fnv_offset = 14695981039346656037"
definition fnv_prime :: "64 word" where "fnv_prime = 1099511628211"

text \<open>\<open>Write\<close> of \<open>hash/fnv\<close>, on the bytes of a string.\<close>

definition fnv_write :: "string \<Rightarrow> 64 word \<Rightarrow> 64 word" where
  "fnv_write s h = fold (\<lambda>b h. (h XOR word_of_nat (of_char b)) * fnv_prime) s h"

definition big_endian :: "64 word \<Rightarrow> string" where
  "big_endian w = map (\<lambda>i. char_of (unat (drop_bit (8 * i) w))) (rev [0..<8])"

definition mixHash :: "64 word \<Rightarrow> 64 word \<Rightarrow> 64 word" where
  "mixHash actionHash resultHash = fnv_write (big_endian actionHash @ [CHR 0x00] @ big_endian resultHash) fnv_offset"

text \<open>A tool-call record is its name, result and error.\<close>

definition ToolResultHash :: "(string \<times> string \<times> string) list \<Rightarrow> 64 word" where
  "ToolResultHash records =
     (if records = [] then 0
      else fold (\<lambda>(name, result, err) h.
             fnv_write [CHR 0x1E] (fnv_write err (fnv_write [CHR 0x00] (fnv_write result (fnv_write [CHR 0x00] (fnv_write name h))))))
             records fnv_offset)"

definition ActionHash :: "string \<Rightarrow> string \<Rightarrow> string \<Rightarrow> 64 word" where
  "ActionHash actionType toolPath toolInput =
     fnv_write toolInput (fnv_write [CHR 0x00] (fnv_write toolPath (fnv_write [CHR 0x00] (fnv_write actionType fnv_offset))))"

definition CoarseActionHash :: "string \<Rightarrow> string \<Rightarrow> 64 word" where
  "CoarseActionHash actionType toolPath =
     fnv_write toolPath (fnv_write [CHR 0x00] (fnv_write actionType fnv_offset))"

section \<open>The detector\<close>

datatype LoopStatus = LoopNone | LoopWarning | LoopSuspend

instantiation LoopStatus :: linorder
begin

primrec loop_code :: "LoopStatus \<Rightarrow> nat" where
  "loop_code LoopNone = 0"
| "loop_code LoopWarning = 1"
| "loop_code LoopSuspend = 2"

definition less_eq_LoopStatus :: "LoopStatus \<Rightarrow> LoopStatus \<Rightarrow> bool" where
  "less_eq_LoopStatus a b \<longleftrightarrow> loop_code a \<le> loop_code b"

definition less_LoopStatus :: "LoopStatus \<Rightarrow> LoopStatus \<Rightarrow> bool" where
  "less_LoopStatus a b \<longleftrightarrow> loop_code a < loop_code b"

instance
proof
  fix a b c :: LoopStatus
  show "a < b \<longleftrightarrow> a \<le> b \<and> \<not> b \<le> a" and "a \<le> a" and "a \<le> b \<or> b \<le> a"
    by (auto simp: less_eq_LoopStatus_def less_LoopStatus_def)
  show "a \<le> b \<Longrightarrow> b \<le> c \<Longrightarrow> a \<le> c"
    by (simp add: less_eq_LoopStatus_def)
  show "a \<le> b \<Longrightarrow> b \<le> a \<Longrightarrow> a = b"
    by (cases a; cases b) (simp_all add: less_eq_LoopStatus_def)
qed

end

record LoopDetector =
  ld_window :: "64 word list"
  ld_pos :: nat
  ld_size :: nat
  ld_threshold :: int
  ld_warned :: bool
  ld_fineDisabled :: bool
  ld_coarseWindow :: "64 word list"
  ld_coarsePos :: nat
  ld_coarseSize :: nat
  ld_coarseThreshold :: int
  ld_coarseWarned :: bool
  ld_coarseDisabled :: bool
  ld_LastTriggeredThreshold :: int
  ld_LastTriggeredTrack :: string

text \<open>\<open>make\<close> panics (\<open>None\<close>) when the doubled threshold has wrapped below zero.\<close>

definition make_window :: "int \<Rightarrow> 64 word list option" where
  "make_window n = (if i64 (2 * n) < 0 then None else Some (replicate (nat (i64 (2 * n))) 0))"

definition NewLoopDetector :: "int \<Rightarrow> int \<Rightarrow> LoopDetector option" where
  "NewLoopDetector threshold coarseThreshold =
     (let t = (if threshold = 0 then DefaultLoopThreshold else threshold);
          c = (if coarseThreshold = 0 then DefaultCoarseLoopThreshold else coarseThreshold);
          fineWin = (if threshold < 0 then Some [] else make_window t);
          coarseWin = (if coarseThreshold < 0 then Some [] else make_window c)
      in case fineWin of
           None \<Rightarrow> None
         | Some w \<Rightarrow>
             (case coarseWin of
                None \<Rightarrow> None
              | Some cw \<Rightarrow>
                  Some \<lparr>ld_window = w, ld_pos = 0, ld_size = 0, ld_threshold = t, ld_warned = False,
                        ld_fineDisabled = (threshold < 0),
                        ld_coarseWindow = cw, ld_coarsePos = 0, ld_coarseSize = 0, ld_coarseThreshold = c,
                        ld_coarseWarned = False, ld_coarseDisabled = (coarseThreshold < 0),
                        ld_LastTriggeredThreshold = 0, ld_LastTriggeredTrack = []\<rparr>))"

text \<open>The indices of the code, \<open>pos - 1 - i + 2 * wlen\<close>, are never negative.\<close>

definition allSame :: "64 word list \<Rightarrow> nat \<Rightarrow> nat \<Rightarrow> nat \<Rightarrow> bool" where
  "allSame window pos cnt count =
     (if cnt < count then False
      else let wlen = length window;
               ref = window ! ((pos + wlen - 1) mod wlen)
           in list_all (\<lambda>i. window ! ((pos + wlen * 2 - 1 - i) mod wlen) = ref) [1..<count])"

definition Check :: "64 word \<Rightarrow> LoopDetector \<Rightarrow> LoopStatus \<times> LoopDetector" where
  "Check hash d0 =
     (if ld_fineDisabled d0 then (LoopNone, d0)
      else
        (let wlen = length (ld_window d0);
             d = d0\<lparr>ld_window := (ld_window d0)[ld_pos d0 := hash], ld_pos := (ld_pos d0 + 1) mod wlen,
                    ld_size := (if ld_size d0 < wlen then ld_size d0 + 1 else ld_size d0)\<rparr>;
             n = nat (ld_threshold d);
             fired = d\<lparr>ld_LastTriggeredThreshold := ld_threshold d, ld_LastTriggeredTrack := ''fine''\<rparr>
         in if ld_size d \<ge> 2 * n \<and> allSame (ld_window d) (ld_pos d) (ld_size d) (2 * n)
            then (LoopSuspend, fired)
            else if ld_size d \<ge> n then
              (if allSame (ld_window d) (ld_pos d) (ld_size d) n
               then if \<not> ld_warned d then (LoopWarning, fired\<lparr>ld_warned := True\<rparr>) else (LoopNone, d)
               else (LoopNone, d\<lparr>ld_warned := False\<rparr>))
            else (LoopNone, d)))"

text \<open>The coarse half of \<open>CheckDual\<close>: recording the hash and testing the run.\<close>

definition coarse_pass :: "64 word \<Rightarrow> LoopDetector \<Rightarrow> LoopStatus \<times> LoopDetector" where
  "coarse_pass hash d0 =
     (let wlen = length (ld_coarseWindow d0);
          d = d0\<lparr>ld_coarseWindow := (ld_coarseWindow d0)[ld_coarsePos d0 := hash],
                 ld_coarsePos := (ld_coarsePos d0 + 1) mod wlen,
                 ld_coarseSize := (if ld_coarseSize d0 < wlen then ld_coarseSize d0 + 1 else ld_coarseSize d0)\<rparr>;
          n = nat (ld_coarseThreshold d);
          same = allSame (ld_coarseWindow d) (ld_coarsePos d) (ld_coarseSize d)
      in if ld_coarseSize d \<ge> 2 * n \<and> same (2 * n) then (LoopSuspend, d)
         else if ld_coarseSize d \<ge> n then
           (if same n
            then if \<not> ld_coarseWarned d then (LoopWarning, d\<lparr>ld_coarseWarned := True\<rparr>) else (LoopNone, d)
            else (LoopNone, d\<lparr>ld_coarseWarned := False\<rparr>))
         else (LoopNone, d))"

definition CheckDual :: "64 word \<Rightarrow> 64 word \<Rightarrow> 64 word \<Rightarrow> LoopDetector \<Rightarrow> LoopStatus \<times> LoopDetector" where
  "CheckDual fineHash coarseHash resultHash d0 =
     (case Check (mixHash fineHash resultHash) d0 of
        (fineResult, d1) \<Rightarrow>
          if ld_coarseDisabled d1 then (fineResult, d1)
          else
            (case coarse_pass (mixHash coarseHash resultHash) d1 of
               (coarseResult, d2) \<Rightarrow>
                 if coarseResult > fineResult
                 then (coarseResult, d2\<lparr>ld_LastTriggeredThreshold := ld_coarseThreshold d2, ld_LastTriggeredTrack := ''coarse''\<rparr>)
                 else (fineResult, d2)))"

text \<open>The thresholds of a new process: its options, else its agent's manifest, else none.\<close>

definition applyLoopThresholds :: "(int \<times> int) option \<Rightarrow> int \<times> int \<Rightarrow> Process \<Rightarrow> Process" where
  "applyLoopThresholds agent opts p =
     (let pick = (\<lambda>opt man old. if opt \<noteq> 0 then opt else case man of Some m \<Rightarrow> if m \<noteq> 0 then m else old | None \<Rightarrow> old)
      in p\<lparr>pr_LoopThreshold := pick (fst opts) (map_option fst agent) (pr_LoopThreshold p),
           pr_CoarseLoopThreshold := pick (snd opts) (map_option snd agent) (pr_CoarseLoopThreshold p)\<rparr>)"

section \<open>Runs of equal hashes\<close>

text \<open>The length of the run of equal entries at the end of a history, newest last.\<close>

definition run_len :: "'a list \<Rightarrow> nat" where
  "run_len hs = length (takeWhile (\<lambda>x. x = last hs) (rev hs))"

lemma run_len_simps [simp]:
  "run_len [] = 0" "run_len (hs @ [h]) = (if hs \<noteq> [] \<and> last hs = h then Suc (run_len hs) else 1)"
  by (auto simp: run_len_def hd_rev [symmetric] takeWhile_eq_Nil_iff)

lemma run_len_single [simp]: "run_len [h] = 1"
  by (simp add: run_len_def)

lemma run_len_le: "run_len hs \<le> length hs"
  unfolding run_len_def by (metis length_rev length_takeWhile_le)

lemma run_len_pos: "hs \<noteq> [] \<Longrightarrow> 1 \<le> run_len hs"
  by (cases hs rule: rev_cases) auto

lemma le_takeWhile: "n \<le> length xs \<Longrightarrow> n \<le> length (takeWhile P xs) \<longleftrightarrow> (\<forall>i < n. P (xs ! i))"
proof (induction xs arbitrary: n)
  case (Cons x xs)
  then show ?case by (cases n) (auto simp: All_less_Suc2)
qed simp

lemma run_len_ge: "n \<le> length hs \<Longrightarrow> n \<le> run_len hs \<longleftrightarrow> (\<forall>i < n. hs ! (length hs - 1 - i) = last hs)"
  unfolding run_len_def by (subst le_takeWhile) (auto simp: rev_nth)

text \<open>The specification of a track: what the newest of the hashes \<open>hs\<close> is answered.\<close>

definition track_spec :: "int \<Rightarrow> 'a list \<Rightarrow> LoopStatus" where
  "track_spec N hs =
     (if N < 0 then LoopNone
      else if 2 * N \<le> int (run_len hs) then LoopSuspend
      else if int (run_len hs) = N \<and> (N = 1 \<longrightarrow> length hs = 1) then LoopWarning
      else LoopNone)"

text \<open>A ring that has recorded the history \<open>hs\<close>.\<close>

definition track_ok :: "nat \<Rightarrow> 64 word list \<Rightarrow> 64 word list \<Rightarrow> nat \<Rightarrow> nat \<Rightarrow> bool \<Rightarrow> bool" where
  "track_ok n hs w pos cnt warned \<longleftrightarrow>
     0 < n \<and> length w = 2 * n \<and> circ_ok w pos cnt \<and> circ_contents w pos cnt = last_n (2 * n) hs \<and>
     (warned \<longleftrightarrow> (if n = 1 then hs \<noteq> [] else n \<le> run_len hs))"

lemma track_ok_new: "0 < n \<Longrightarrow> track_ok n [] (replicate (2 * n) 0) 0 0 False"
  by (simp add: track_ok_def)

lemma track_ok_size: "track_ok n hs w pos cnt wd \<Longrightarrow> cnt = min (2 * n) (length hs)"
  unfolding track_ok_def by (metis length_circ_contents length_last_n)

lemma all_from_one: "(\<forall>i \<in> {1..<c}. f i = f 0) \<longleftrightarrow> (\<forall>i < (c :: nat). f i = f 0)"
  by (metis atLeastLessThan_iff less_one not_le)

lemma allSame_run:
  assumes "circ_ok w pos cnt" and "circ_contents w pos cnt = last_n (length w) hs" and "0 < count"
  shows "allSame w pos cnt count \<longleftrightarrow> count \<le> cnt \<and> count \<le> run_len hs"
proof (cases "count \<le> cnt")
  case True
  have len: "cnt = min (length w) (length hs)" using assms(1,2) by (metis length_circ_contents length_last_n)
  have nth: "w ! ((pos + length w - 1 - i) mod length w) = hs ! (length hs - 1 - i)" if "i < cnt" for i
  proof -
    have "last_n (length w) hs ! (cnt - 1 - i) = hs ! (length hs - 1 - i)"
      using that len by (auto simp: last_n_def min_def split: if_splits)
    then show ?thesis using circ_nth_back [OF assms(1) that] unfolding assms(2) by simp
  qed
  have idx: "w ! ((pos + length w * 2 - 1 - i) mod length w) = hs ! (length hs - 1 - i)" if "i < cnt" for i
  proof -
    have "pos + length w * 2 - 1 - i = (pos + length w - 1 - i) + length w" using that len by simp
    then have "(pos + length w * 2 - 1 - i) mod length w = (pos + length w - 1 - i) mod length w" by simp
    then show ?thesis using nth [OF that] by (simp only:)
  qed
  have ne: "hs \<noteq> []" using True assms(3) len by auto
  have "allSame w pos cnt count \<longleftrightarrow> (\<forall>i \<in> {1..<count}. hs ! (length hs - 1 - i) = hs ! (length hs - 1))"
  proof -
    have "w ! ((pos + length w * 2 - 1 - i) mod length w) = hs ! (length hs - 1 - i)" if "i \<in> {1..<count}" for i
      using that True by (intro idx) simp
    then show ?thesis
      using True nth [of 0] assms(3) by (simp add: allSame_def Let_def list_all_iff del: One_nat_def)
  qed
  also have "\<dots> \<longleftrightarrow> (\<forall>i < count. hs ! (length hs - 1 - i) = last hs)"
    using all_from_one [of count "\<lambda>i. hs ! (length hs - 1 - i)"] ne by (simp add: last_conv_nth)
  also have "\<dots> \<longleftrightarrow> count \<le> run_len hs" using True len by (subst run_len_ge) auto
  finally show ?thesis using True by simp
qed (simp add: allSame_def)

text \<open>Recording one hash: the ring is that of the longer history, and the tests are on its run.\<close>

lemma track_push:
  fixes h :: "64 word"
  assumes "track_ok n hs w pos cnt wd"
  defines "w' \<equiv> w[pos := h]" and "pos' \<equiv> (pos + 1) mod length w" and "cnt' \<equiv> (if cnt < length w then cnt + 1 else cnt)"
  shows "circ_ok w' pos' cnt'" "circ_contents w' pos' cnt' = last_n (2 * n) (hs @ [h])" "length w' = 2 * n"
    "cnt' = min (2 * n) (Suc (length hs))"
    "0 < c \<Longrightarrow> c \<le> 2 * n \<Longrightarrow> c \<le> cnt' \<and> allSame w' pos' cnt' c \<longleftrightarrow> c \<le> run_len (hs @ [h])"
proof -
  have ok: "circ_ok w pos cnt" "circ_contents w pos cnt = last_n (2 * n) hs" "length w = 2 * n" "0 < n"
    using assms(1) by (simp_all add: track_ok_def)
  show c: "circ_ok w' pos' cnt'" using circ_ok_push [OF ok(1), of h] by (cases "cnt < length w") (simp_all add: w'_def pos'_def cnt'_def)
  show e: "circ_contents w' pos' cnt' = last_n (2 * n) (hs @ [h])"
    using circ_contents_push [OF ok(1), of h] ok last_n_snoc [of "2 * n" hs h]
    by (cases "cnt < length w") (simp_all add: w'_def pos'_def cnt'_def)
  show l: "length w' = 2 * n" using ok(3) by (simp add: w'_def)
  show m: "cnt' = min (2 * n) (Suc (length hs))" using track_ok_size [OF assms(1)] ok(3) by (auto simp: cnt'_def)
  assume "0 < c" "c \<le> 2 * n"
  then show "c \<le> cnt' \<and> allSame w' pos' cnt' c \<longleftrightarrow> c \<le> run_len (hs @ [h])"
    using allSame_run [OF c, of "hs @ [h]" c] e l m run_len_le [of "hs @ [h]"] by auto
qed

text \<open>
  The five ways the tests can go on a recorded hash, with what the specification answers there and the
  flag that the longer history needs.
\<close>

lemma run_step:
  fixes r r0 n :: nat
  assumes "r = Suc r0 \<or> r = 1" and "e \<Longrightarrow> r = 1 \<and> r0 = 0" and "\<not> e \<Longrightarrow> 1 \<le> r0" and "0 < n"
    and "wd \<longleftrightarrow> (if n = 1 then \<not> e else n \<le> r0)"
  shows "n \<le> r \<Longrightarrow> r < 2 * n \<Longrightarrow> \<not> wd \<Longrightarrow> r = n \<and> (n = 1 \<longrightarrow> e)"
    and "n \<le> r \<Longrightarrow> r < 2 * n \<Longrightarrow> wd \<Longrightarrow> \<not> (r = n \<and> (n = 1 \<longrightarrow> e))"
    and "2 * n \<le> r \<Longrightarrow> wd"
  using assms by (cases "n = 1"; cases e; auto)+

lemma track_cases:
  fixes h :: "64 word"
  assumes "track_ok n hs w pos cnt wd"
  defines "w' \<equiv> w[pos := h]" and "pos' \<equiv> (pos + 1) mod length w" and "cnt' \<equiv> (if cnt < length w then cnt + 1 else cnt)"
  obtains
    (suspend) "2 * n \<le> cnt'" "allSame w' pos' cnt' (2 * n)" "track_spec (int n) (hs @ [h]) = LoopSuspend"
      "track_ok n (hs @ [h]) w' pos' cnt' wd"
  | (warn) "\<not> (2 * n \<le> cnt' \<and> allSame w' pos' cnt' (2 * n))" "n \<le> cnt'" "allSame w' pos' cnt' n" "\<not> wd"
      "track_spec (int n) (hs @ [h]) = LoopWarning" "track_ok n (hs @ [h]) w' pos' cnt' True"
  | (again) "\<not> (2 * n \<le> cnt' \<and> allSame w' pos' cnt' (2 * n))" "n \<le> cnt'" "allSame w' pos' cnt' n" "wd"
      "track_spec (int n) (hs @ [h]) = LoopNone" "track_ok n (hs @ [h]) w' pos' cnt' wd"
  | (broken) "\<not> (2 * n \<le> cnt' \<and> allSame w' pos' cnt' (2 * n))" "n \<le> cnt'" "\<not> allSame w' pos' cnt' n"
      "track_spec (int n) (hs @ [h]) = LoopNone" "track_ok n (hs @ [h]) w' pos' cnt' False"
  | (short) "\<not> (2 * n \<le> cnt' \<and> allSame w' pos' cnt' (2 * n))" "\<not> n \<le> cnt'"
      "track_spec (int n) (hs @ [h]) = LoopNone" "track_ok n (hs @ [h]) w' pos' cnt' wd"
proof -
  obtain r where r: "run_len (hs @ [h]) = r" by blast
  have n: "0 < n" and wd: "wd \<longleftrightarrow> (if n = 1 then hs \<noteq> [] else n \<le> run_len hs)" using assms(1) by (simp_all add: track_ok_def)
  note p = track_push(1-3) [OF assms(1), where h = h, folded w'_def pos'_def cnt'_def]
    track_push(4) [OF assms(1), folded cnt'_def] track_push(5) [OF assms(1), where h = h, folded w'_def pos'_def cnt'_def, unfolded r]
  have ok: "track_ok n (hs @ [h]) w' pos' cnt' b \<longleftrightarrow> (b \<longleftrightarrow> n = 1 \<or> n \<le> r)" for b
    using p(1-3) n r by (auto simp: track_ok_def simp del: run_len_simps)
  have s: "2 * n \<le> cnt' \<and> allSame w' pos' cnt' (2 * n) \<longleftrightarrow> 2 * n \<le> r" and f: "n \<le> cnt' \<and> allSame w' pos' cnt' n \<longleftrightarrow> n \<le> r"
    using p(5) [of "2 * n"] p(5) [of n] n by simp_all
  have rl: "r = Suc (run_len hs) \<or> r = 1" "hs = [] \<Longrightarrow> r = 1 \<and> run_len hs = 0" using r by auto
  note st = run_step [OF rl run_len_pos n wd]
  have spec: "track_spec (int n) (hs @ [h]) = (if 2 * n \<le> r then LoopSuspend
      else if r = n \<and> (n = 1 \<longrightarrow> hs = []) then LoopWarning else LoopNone)"
    using r by (auto simp: track_spec_def simp del: run_len_simps)
  consider "2 * n \<le> r" | "r < 2 * n" "n \<le> r" "\<not> wd" | "r < 2 * n" "n \<le> r" wd | "r < n" by linarith
  then show ?thesis
  proof cases
    case 1
    with st(3) have wd by blast
    show ?thesis by (rule suspend) (use 1 s \<open>wd\<close> in \<open>simp_all add: spec ok del: run_len_simps\<close>)
  next
    case 2
    then have e: "r = n \<and> (n = 1 \<longrightarrow> hs = [])" using st(1) by blast
    show ?thesis by (rule warn) (use 2 s f e in \<open>simp_all add: spec ok del: run_len_simps\<close>)
  next
    case 3
    then have e: "\<not> (r = n \<and> (n = 1 \<longrightarrow> hs = []))" using st(2) by blast
    from 3(1) have "\<not> 2 * n \<le> r" by simp
    with e have "track_spec (int n) (hs @ [h]) = LoopNone" unfolding spec by (simp only: if_False)
    with 3 s f show ?thesis by (intro again) (simp_all add: ok del: run_len_simps)
  next
    case 4
    then have n1: "n \<noteq> 1" using rl by auto
    show ?thesis
    proof (cases "n \<le> cnt'")
      case True
      show ?thesis by (rule broken) (use 4 True s f n1 in \<open>simp_all add: spec ok del: run_len_simps\<close>)
    next
      case False
      then have "\<not> wd" using p(4) n1 wd run_len_le [of hs] by auto
      show ?thesis by (rule short) (use 4 False s n1 \<open>\<not> wd\<close> in \<open>simp_all add: spec ok del: run_len_simps\<close>)
    qed
  qed
qed

section \<open>The detector against its specification\<close>

text \<open>A detector that has recorded the fine and the coarse hashes.\<close>

definition fine_ok :: "64 word list \<Rightarrow> LoopDetector \<Rightarrow> bool" where
  "fine_ok hs d \<longleftrightarrow>
     (if ld_fineDisabled d then ld_threshold d < 0
      else 0 < ld_threshold d \<and> track_ok (nat (ld_threshold d)) hs (ld_window d) (ld_pos d) (ld_size d) (ld_warned d))"

definition coarse_ok :: "64 word list \<Rightarrow> LoopDetector \<Rightarrow> bool" where
  "coarse_ok hs d \<longleftrightarrow>
     (if ld_coarseDisabled d then ld_coarseThreshold d < 0
      else 0 < ld_coarseThreshold d \<and>
        track_ok (nat (ld_coarseThreshold d)) hs (ld_coarseWindow d) (ld_coarsePos d) (ld_coarseSize d) (ld_coarseWarned d))"

definition same_coarse :: "LoopDetector \<Rightarrow> LoopDetector \<Rightarrow> bool" where
  "same_coarse d d' \<longleftrightarrow> ld_coarseWindow d' = ld_coarseWindow d \<and> ld_coarsePos d' = ld_coarsePos d \<and>
     ld_coarseSize d' = ld_coarseSize d \<and> ld_coarseThreshold d' = ld_coarseThreshold d \<and>
     ld_coarseWarned d' = ld_coarseWarned d \<and> ld_coarseDisabled d' = ld_coarseDisabled d \<and>
     ld_threshold d' = ld_threshold d \<and> ld_fineDisabled d' = ld_fineDisabled d"

lemma Check_spec:
  assumes "fine_ok hs d"
  shows "fst (Check h d) = track_spec (ld_threshold d) (hs @ [h]) \<and> fine_ok (hs @ [h]) (snd (Check h d)) \<and>
    same_coarse d (snd (Check h d)) \<and>
    (fst (Check h d) \<noteq> LoopNone \<longrightarrow> ld_LastTriggeredTrack (snd (Check h d)) = ''fine'')"
proof (cases "ld_fineDisabled d")
  case True
  with assms show ?thesis by (simp add: Check_def fine_ok_def track_spec_def same_coarse_def)
next
  case False
  with assms have t: "0 < ld_threshold d" "track_ok (nat (ld_threshold d)) hs (ld_window d) (ld_pos d) (ld_size d) (ld_warned d)"
    by (simp_all add: fine_ok_def)
  from t(1) have i: "int (nat (ld_threshold d)) = ld_threshold d" by simp
  show ?thesis
    by (rule track_cases [OF t(2), of h, unfolded i])
       (use False t(1) in \<open>simp_all add: Check_def Let_def fine_ok_def same_coarse_def\<close>)
qed

lemma same_coarse_ok: "same_coarse d d' \<Longrightarrow> coarse_ok hs d' = coarse_ok hs d"
  by (simp add: same_coarse_def coarse_ok_def)

lemma coarse_spec:
  assumes "coarse_ok cs d" and "\<not> ld_coarseDisabled d"
  shows "fst (coarse_pass h d) = track_spec (ld_coarseThreshold d) (cs @ [h]) \<and> coarse_ok (cs @ [h]) (snd (coarse_pass h d)) \<and>
    fine_ok hs (snd (coarse_pass h d)) = fine_ok hs d \<and>
    ld_threshold (snd (coarse_pass h d)) = ld_threshold d \<and> ld_coarseThreshold (snd (coarse_pass h d)) = ld_coarseThreshold d \<and>
    ld_LastTriggeredTrack (snd (coarse_pass h d)) = ld_LastTriggeredTrack d"
proof -
  from assms have t: "0 < ld_coarseThreshold d"
    "track_ok (nat (ld_coarseThreshold d)) cs (ld_coarseWindow d) (ld_coarsePos d) (ld_coarseSize d) (ld_coarseWarned d)"
    by (simp_all add: coarse_ok_def)
  from t(1) have i: "int (nat (ld_coarseThreshold d)) = ld_coarseThreshold d" by simp
  show ?thesis
    by (rule track_cases [OF t(2), of h, unfolded i])
       (use assms(2) t(1) in \<open>simp_all add: coarse_pass_def Let_def fine_ok_def coarse_ok_def\<close>)
qed

lemma status_order:
  "max a LoopNone = a" "max LoopNone a = a" "\<not> a < LoopNone" "a \<noteq> LoopNone \<longleftrightarrow> LoopNone < a"
  by (cases a; simp add: less_LoopStatus_def less_eq_LoopStatus_def max_def)+

lemma CheckDual_spec:
  fixes f c r :: "64 word"
  assumes "fine_ok hs d0" and "coarse_ok cs d0"
  defines "fr \<equiv> track_spec (ld_threshold d0) (hs @ [mixHash f r])" and "cr \<equiv> track_spec (ld_coarseThreshold d0) (cs @ [mixHash c r])"
  shows "fst (CheckDual f c r d0) = max fr cr \<and> fine_ok (hs @ [mixHash f r]) (snd (CheckDual f c r d0)) \<and>
    coarse_ok (cs @ [mixHash c r]) (snd (CheckDual f c r d0)) \<and>
    ld_threshold (snd (CheckDual f c r d0)) = ld_threshold d0 \<and>
    ld_coarseThreshold (snd (CheckDual f c r d0)) = ld_coarseThreshold d0 \<and>
    (max fr cr \<noteq> LoopNone \<longrightarrow> ld_LastTriggeredTrack (snd (CheckDual f c r d0)) = (if cr > fr then ''coarse'' else ''fine''))"
proof -
  obtain st d1 where C: "Check (mixHash f r) d0 = (st, d1)" by fastforce
  from Check_spec [OF assms(1), of "mixHash f r"] C have d1: "st = fr" "fine_ok (hs @ [mixHash f r]) d1" "same_coarse d0 d1"
    "st \<noteq> LoopNone \<Longrightarrow> ld_LastTriggeredTrack d1 = ''fine''" by (simp_all add: fr_def)
  then have k: "ld_threshold d1 = ld_threshold d0" "ld_coarseThreshold d1 = ld_coarseThreshold d0" by (simp_all add: same_coarse_def)
  have cok: "coarse_ok cs d1" using same_coarse_ok [OF d1(3)] assms(2) by simp
  show ?thesis
  proof (cases "ld_coarseDisabled d1")
    case True
    with cok have "cr = LoopNone" unfolding cr_def k(2) [symmetric] by (simp add: coarse_ok_def track_spec_def)
    moreover have "coarse_ok (cs @ [mixHash c r]) d1" using True cok by (simp add: coarse_ok_def)
    ultimately show ?thesis using True d1 k C by (simp add: CheckDual_def status_order)
  next
    case False
    obtain ct d2 where D: "coarse_pass (mixHash c r) d1 = (ct, d2)" by fastforce
    from coarse_spec [OF cok False, of "mixHash c r" "hs @ [mixHash f r]"] D d1(2)
    have d2: "ct = cr" "coarse_ok (cs @ [mixHash c r]) d2" "fine_ok (hs @ [mixHash f r]) d2" "ld_threshold d2 = ld_threshold d0"
      "ld_coarseThreshold d2 = ld_coarseThreshold d0" "ld_LastTriggeredTrack d2 = ld_LastTriggeredTrack d1"
      by (simp_all add: cr_def k)
    have upd: "coarse_ok cs' (d2\<lparr>ld_LastTriggeredThreshold := x, ld_LastTriggeredTrack := y\<rparr>) = coarse_ok cs' d2"
      "fine_ok cs' (d2\<lparr>ld_LastTriggeredThreshold := x, ld_LastTriggeredTrack := y\<rparr>) = fine_ok cs' d2" for cs' x y
      by (simp_all add: coarse_ok_def fine_ok_def)
    show ?thesis
    proof (cases "cr > fr")
      case True
      then show ?thesis using d2 C D False d1(1) by (simp add: CheckDual_def upd max_def less_imp_le)
    next
      case notgt: False
      then have "fr \<noteq> LoopNone \<Longrightarrow> ld_LastTriggeredTrack d2 = ''fine''" using d1 d2 by simp
      then show ?thesis using notgt d2 C D False d1(1) by (auto simp: CheckDual_def max_def not_less)
    qed
  qed
qed

text \<open>Feeding a detector one tool-call step after the other.\<close>

definition feed :: "(64 word \<times> 64 word \<times> 64 word) list \<Rightarrow> LoopDetector \<Rightarrow> LoopDetector" where
  "feed steps d = fold (\<lambda>(f, c, r) d. snd (CheckDual f c r d)) steps d"

definition fine_hashes :: "(64 word \<times> 64 word \<times> 64 word) list \<Rightarrow> 64 word list" where
  "fine_hashes steps = map (\<lambda>(f, c, r). mixHash f r) steps"

definition coarse_hashes :: "(64 word \<times> 64 word \<times> 64 word) list \<Rightarrow> 64 word list" where
  "coarse_hashes steps = map (\<lambda>(f, c, r). mixHash c r) steps"

lemma feed_ok:
  assumes "fine_ok hs d" and "coarse_ok cs d"
  shows "fine_ok (hs @ fine_hashes steps) (feed steps d) \<and> coarse_ok (cs @ coarse_hashes steps) (feed steps d) \<and>
    ld_threshold (feed steps d) = ld_threshold d \<and> ld_coarseThreshold (feed steps d) = ld_coarseThreshold d"
  using assms
proof (induction steps arbitrary: d hs cs)
  case (Cons s steps)
  obtain f c r where s: "s = (f, c, r)" by (cases s)
  from CheckDual_spec [OF Cons.prems, where f = f and c = c and r = r] Cons.IH [of "hs @ [mixHash f r]" "snd (CheckDual f c r d)" "cs @ [mixHash c r]"]
  show ?case by (simp add: s feed_def fine_hashes_def coarse_hashes_def)
qed (simp add: feed_def fine_hashes_def coarse_hashes_def)

lemma i64_wrap:
  assumes "2 ^ 63 \<le> x" and "x < 2 ^ 63 + 2 ^ 64"
  shows "i64 x = x - 2 ^ 64"
proof -
  have "(x + 2 ^ 63) mod 2 ^ 64 = (x + 2 ^ 63 - 2 ^ 64) mod 2 ^ 64" by (simp only: minus_mod_self2)
  also have "\<dots> = x + 2 ^ 63 - 2 ^ 64" using assms by (intro mod_pos_pos_trivial) simp_all
  finally show ?thesis by (simp add: i64_def)
qed

lemma make_window_ok: "0 < n \<Longrightarrow> n < 2 ^ 63 \<Longrightarrow> make_window n = Some w \<Longrightarrow> n < 2 ^ 62 \<and> w = replicate (2 * nat n) 0"
proof -
  assume n: "0 < n" "n < 2 ^ 63" and w: "make_window n = Some w"
  have "n < 2 ^ 62"
  proof (rule ccontr)
    assume "\<not> n < 2 ^ 62"
    with n have "i64 (2 * n) = 2 * n - 2 ^ 64" by (intro i64_wrap) simp_all
    with n w show False by (simp add: make_window_def split: if_splits)
  qed
  then have "i64 (2 * n) = 2 * n" using n by (intro i64_id) (simp add: in_i64_def)
  with n w show ?thesis using \<open>n < 2 ^ 62\<close> by (auto simp: make_window_def nat_mult_distrib split: if_splits)
qed

lemma NewLoopDetector_ok:
  assumes "NewLoopDetector t c = Some d" and "in_i64 t" and "in_i64 c"
  shows "fine_ok [] d \<and> coarse_ok [] d \<and> ld_threshold d = (if t = 0 then 30 else t) \<and> ld_coarseThreshold d = (if c = 0 then 60 else c)"
proof -
  let ?t = "if t = 0 then 30 else t" and ?c = "if c = 0 then 60 else c"
  have f: "make_window ?t = Some w \<Longrightarrow> \<not> t < 0 \<Longrightarrow> track_ok (nat ?t) [] w 0 0 False" for w
    using make_window_ok [of ?t w] assms(2) track_ok_new [of "nat ?t"] by (simp add: in_i64_def split: if_splits)
  have g: "make_window ?c = Some w \<Longrightarrow> \<not> c < 0 \<Longrightarrow> track_ok (nat ?c) [] w 0 0 False" for w
    using make_window_ok [of ?c w] assms(3) track_ok_new [of "nat ?c"] by (simp add: in_i64_def split: if_splits)
  from assms(1) f g show ?thesis
    unfolding NewLoopDetector_def Let_def DefaultLoopThreshold_def DefaultCoarseLoopThreshold_def
    by (clarsimp simp: fine_ok_def coarse_ok_def split: option.splits if_splits)
qed

text \<open>
  C12: the ring buffers, positions and warned flags of the detector compute exactly this: a step is
  answered with the graver of its two tracks, where a track suspends when its run of equal hashes
  (action and result mixed) has reached twice the threshold, warns when the run has just reached the
  threshold (with the threshold one only on the first step ever), and is silent otherwise; zero is the
  default threshold and a negative one switches the track off.
\<close>

theorem loop_detector_counts_runs:
  assumes "NewLoopDetector t c = Some d" and "in_i64 t" and "in_i64 c"
  defines "tf \<equiv> if t = 0 then 30 else t" and "tc \<equiv> if c = 0 then 60 else c"
  shows "case CheckDual f g r (feed steps d) of (status, d') \<Rightarrow>
     status = max (track_spec tf (fine_hashes (steps @ [(f, g, r)]))) (track_spec tc (coarse_hashes (steps @ [(f, g, r)]))) \<and>
     (status = LoopNone \<or> ld_LastTriggeredTrack d' =
        (if track_spec tc (coarse_hashes (steps @ [(f, g, r)])) > track_spec tf (fine_hashes (steps @ [(f, g, r)]))
         then ''coarse'' else ''fine''))"
proof -
  from NewLoopDetector_ok [OF assms(1-3)] have n: "fine_ok [] d" "coarse_ok [] d" "ld_threshold d = tf" "ld_coarseThreshold d = tc"
    by (simp_all add: tf_def tc_def)
  from feed_ok [OF n(1,2), of steps] n
  have "fine_ok (fine_hashes steps) (feed steps d)" "coarse_ok (coarse_hashes steps) (feed steps d)"
    "ld_threshold (feed steps d) = tf" "ld_coarseThreshold (feed steps d) = tc" by simp_all
  with CheckDual_spec [where hs = "fine_hashes steps" and ?d0.0 = "feed steps d" and cs = "coarse_hashes steps" and f = f and c = g and r = r]
  show ?thesis by (auto simp: fine_hashes_def coarse_hashes_def split: prod.split)
qed

theorem loop_detector_counts_runs_witness:
  "\<exists>d. NewLoopDetector 2 (-1) = Some d \<and> fst (CheckDual 7 8 9 (feed [(7, 5, 9)] d)) = LoopWarning"
proof -
  obtain d where d: "NewLoopDetector 2 (-1) = Some d"
    by (simp add: NewLoopDetector_def make_window_def i64_def)
  have "track_spec 2 (fine_hashes ([(7, 5, 9)] @ [(7, 8, 9)])) = LoopWarning"
    by (simp add: fine_hashes_def track_spec_def run_len_def)
  moreover have "track_spec (- 1) (coarse_hashes ([(7, 5, 9)] @ [(7, 8, 9)])) = LoopNone"
    by (simp add: track_spec_def)
  ultimately have "fst (CheckDual 7 8 9 (feed [(7, 5, 9)] d)) = LoopWarning"
    using loop_detector_counts_runs [OF d, where f = 7 and g = 8 and r = 9 and steps = "[(7, 5, 9)]"]
    by (simp add: in_i64_def status_order case_prod_beta)
  with d show ?thesis by blast
qed

end
