(* ===== verification/Dag.thy ===== *)
theory Dag
  imports KTypes "HOL-Library.Multiset" "HOL-Library.List_Lexorder" "HOL-Library.Char_ord"
begin

text \<open>
  The dependency graphs of compose files and of intent trees (\<open>compose/dag.go\<close>,
  \<open>compose/parser.go\<close>, \<open>intent/dag.go\<close>): validating and building the graph, finding a cycle by
  depth-first search, sorting the nodes into layers by Kahn's algorithm. Maps are association lists in
  an arbitrary order; reading a node through a nil pointer is the value \<open>None\<close>.
\<close>

section \<open>Specifications and graphs\<close>

record AgentSpec =
  as_Intent :: string
  as_Agent :: string
  as_Priority :: string
  as_DependsOn :: "(string \<times> string) list"

record ComposeSpec =
  cs_Version :: string
  cs_Intent :: string
  cs_TokenBudget :: int
  cs_Agents :: "(string \<times> AgentSpec) list"

text \<open>\<open>Spec\<close> of a compose node and \<open>Node\<close> of an intent node are the payload.\<close>

record 'p DAGNode =
  dn_Name :: string
  dn_Spec :: 'p
  dn_DependsOn :: "string list"
  dn_DependedBy :: "string list"

type_synonym 'p DAG = "(string \<times> 'p DAGNode) list"

section \<open>Validation (\<open>compose/parser.go\<close>)\<close>

fun validate_deps :: "(string \<times> AgentSpec) list \<Rightarrow> (string \<times> string) list \<Rightarrow> go_error option" where
  "validate_deps agents [] = None"
| "validate_deps agents ((dep, cond) # deps) =
     (if map_of agents dep = None then Some (PlainError ''depends_on does not exist'')
      else if cond \<noteq> ''completed'' then Some (PlainError ''unsupported condition'')
      else validate_deps agents deps)"

fun validate_agents :: "(string \<times> AgentSpec) list \<Rightarrow> (string \<times> AgentSpec) list \<Rightarrow> go_error option" where
  "validate_agents agents [] = None"
| "validate_agents agents ((name, a) # rest) =
     (if as_Intent a = [] then Some (PlainError ''agent must have an intent'')
      else case validate_deps agents (as_DependsOn a) of
             Some e \<Rightarrow> Some e
           | None \<Rightarrow> validate_agents agents rest)"

definition compose_validate :: "ComposeSpec \<Rightarrow> go_error option" where
  "compose_validate spec =
     (if cs_Version spec = [] then Some (PlainError ''version is required'')
      else if cs_Version spec \<noteq> ''1.0'' then Some (PlainError ''unsupported version'')
      else if cs_Intent spec = [] then Some (PlainError ''intent is required'')
      else if cs_Agents spec = [] then Some (PlainError ''agents must not be empty'')
      else validate_agents (cs_Agents spec) (cs_Agents spec))"

section \<open>Finding a cycle\<close>

datatype color = White | Gray | Black

record dfs_state =
  ds_color :: "string \<Rightarrow> color"
  ds_parent :: "string \<Rightarrow> string"
  ds_cyclePath :: "string list"

text \<open>
  \<open>d.Nodes[node].DependedBy\<close>. The code reads it only for names of the graph; a name outside it, where
  Go would read through a nil pointer, has no dependents here.
\<close>

definition downstream :: "'p DAG \<Rightarrow> string \<Rightarrow> string list" where
  "downstream d name = (case map_of d name of None \<Rightarrow> [] | Some n \<Rightarrow> dn_DependedBy n)"

text \<open>
  The loop of \<open>reconstructCycle\<close> follows the parents and stops at \<open>to\<close>; \<open>None\<close> is running out of fuel.
  An absent parent is the empty string.
\<close>

fun trace_back :: "nat \<Rightarrow> (string \<Rightarrow> string) \<Rightarrow> string \<Rightarrow> string \<Rightarrow> string list \<Rightarrow> string list option" where
  "trace_back 0 parent cur to path = None"
| "trace_back (Suc n) parent cur to path =
     (if cur = to then Some path else trace_back n parent (parent cur) to (cur # path))"

definition reconstructCycle :: "nat \<Rightarrow> (string \<Rightarrow> string) \<Rightarrow> string \<Rightarrow> string \<Rightarrow> string list option" where
  "reconstructCycle fuel parent start to =
     (case trace_back fuel parent start to [to] of None \<Rightarrow> None | Some path \<Rightarrow> Some (to # path))"

text \<open>
  The loop over the nodes that depend on \<open>node\<close>, with the recursive call as an argument, and the
  recursion. The fuel bounds the depth; the result is \<open>None\<close> when it runs out.
\<close>

fun dfs_deps ::
  "(string \<Rightarrow> dfs_state \<Rightarrow> (bool \<times> dfs_state) option) \<Rightarrow> nat \<Rightarrow> string \<Rightarrow> string list \<Rightarrow> dfs_state
   \<Rightarrow> (bool \<times> dfs_state) option" where
  "dfs_deps rec fuel node [] st = Some (False, st)"
| "dfs_deps rec fuel node (dep # deps) st =
     (case ds_color st dep of
        Gray \<Rightarrow>
          (case reconstructCycle fuel (ds_parent st) node dep of
             None \<Rightarrow> None
           | Some path \<Rightarrow> Some (True, st\<lparr>ds_cyclePath := path\<rparr>))
      | White \<Rightarrow>
          (case rec dep (st\<lparr>ds_parent := (ds_parent st)(dep := node)\<rparr>) of
             None \<Rightarrow> None
           | Some (True, st') \<Rightarrow> Some (True, st')
           | Some (False, st') \<Rightarrow> dfs_deps rec fuel node deps st')
      | Black \<Rightarrow> dfs_deps rec fuel node deps st)"

primrec dfs :: "'p DAG \<Rightarrow> nat \<Rightarrow> string \<Rightarrow> dfs_state \<Rightarrow> (bool \<times> dfs_state) option" where
  "dfs d 0 node st = None"
| "dfs d (Suc n) node st =
     (case dfs_deps (dfs d n) (Suc (length d)) node (downstream d node) (st\<lparr>ds_color := (ds_color st)(node := Gray)\<rparr>) of
        None \<Rightarrow> None
      | Some (True, st') \<Rightarrow> Some (True, st')
      | Some (False, st') \<Rightarrow> Some (False, st'\<lparr>ds_color := (ds_color st')(node := Black)\<rparr>))"

fun dfs_names :: "'p DAG \<Rightarrow> string list \<Rightarrow> dfs_state \<Rightarrow> string list option option" where
  "dfs_names d [] st = Some None"
| "dfs_names d (name # names) st =
     (if ds_color st name = White
      then case dfs d (Suc (length d)) name st of
             None \<Rightarrow> None
           | Some (True, st') \<Rightarrow> Some (Some (ds_cyclePath st'))
           | Some (False, st') \<Rightarrow> dfs_names d names st'
      else dfs_names d names st)"

text \<open>\<open>Some None\<close> is an acyclic graph, \<open>Some (Some path)\<close> the path of the cycle in the error.\<close>

definition DetectCycle :: "'p DAG \<Rightarrow> string list option option" where
  "DetectCycle d =
     dfs_names d (sort (map fst d)) \<lparr>ds_color = (\<lambda>_. White), ds_parent = (\<lambda>_. []), ds_cyclePath = []\<rparr>"

section \<open>Building the graph\<close>

definition link :: "string \<Rightarrow> string \<Rightarrow> 'p DAG \<Rightarrow> 'p DAG option" where
  "link name dep d =
     (case map_of d name of
        None \<Rightarrow> None
      | Some n \<Rightarrow>
          (let d1 = AList.update name (n\<lparr>dn_DependsOn := dn_DependsOn n @ [dep]\<rparr>) d
           in case map_of d1 dep of
                None \<Rightarrow> None
              | Some m \<Rightarrow> Some (AList.update dep (m\<lparr>dn_DependedBy := dn_DependedBy m @ [name]\<rparr>) d1)))"

definition sort_DependsOn :: "string \<Rightarrow> 'p DAG \<Rightarrow> 'p DAG" where
  "sort_DependsOn name d =
     (case map_of d name of None \<Rightarrow> d | Some n \<Rightarrow> AList.update name (n\<lparr>dn_DependsOn := sort (dn_DependsOn n)\<rparr>) d)"

definition add_edges :: "string \<times> string list \<Rightarrow> 'p DAG \<Rightarrow> 'p DAG option" where
  "add_edges nd d =
     (case nd of (name, deps) \<Rightarrow>
        case fold_opt (link name) deps d of None \<Rightarrow> None | Some d' \<Rightarrow> Some (sort_DependsOn name d'))"

definition new_nodes :: "(string \<times> 'p) list \<Rightarrow> 'p DAG" where
  "new_nodes specs = map (\<lambda>(name, s). (name, \<lparr>dn_Name = name, dn_Spec = s, dn_DependsOn = [], dn_DependedBy = []\<rparr>)) specs"

definition sort_DependedBy :: "'p DAG \<Rightarrow> 'p DAG" where
  "sort_DependedBy d = map (\<lambda>(name, n). (name, n\<lparr>dn_DependedBy := sort (dn_DependedBy n)\<rparr>)) d"

definition check_cycles :: "'p DAG \<Rightarrow> (go_error \<times> string list + 'p DAG) option" where
  "check_cycles d =
     (case DetectCycle d of
        None \<Rightarrow> None
      | Some (Some path) \<Rightarrow> Some (Inl (PlainError ''cycle detected'', path))
      | Some None \<Rightarrow> Some (Inr d))"

text \<open>\<open>None\<close> is the panic of a dependency without a node.\<close>

definition BuildDAG :: "ComposeSpec \<Rightarrow> (go_error \<times> string list + AgentSpec DAG) option" where
  "BuildDAG spec =
     (case fold_opt add_edges (map (\<lambda>(name, a). (name, map fst (as_DependsOn a))) (cs_Agents spec)) (new_nodes (cs_Agents spec)) of
        None \<Rightarrow> None
      | Some d \<Rightarrow> check_cycles (sort_DependedBy d))"

text \<open>The graph of an intent tree, where an unknown dependency is an error.\<close>

definition BuildIntentDAG ::
  "('p \<Rightarrow> string list) \<Rightarrow> (string \<times> 'p) list \<Rightarrow> (go_error \<times> string list + 'p DAG) option" where
  "BuildIntentDAG dependsOn nodes =
     (case List.find (\<lambda>(id, n). \<exists>dep \<in> set (dependsOn n). map_of nodes dep = None) nodes of
        Some _ \<Rightarrow> Some (Inl (PlainError ''intent dag: node depends on unknown node'', []))
      | None \<Rightarrow>
          (case fold_opt add_edges (map (\<lambda>(id, n). (id, dependsOn n)) nodes) (new_nodes nodes) of
             None \<Rightarrow> None
           | Some d \<Rightarrow> check_cycles (sort_DependedBy d)))"

section \<open>Sorting into layers\<close>

definition deg_of :: "(string \<times> int) list \<Rightarrow> string \<Rightarrow> int" where
  "deg_of m v = (case map_of m v of None \<Rightarrow> 0 | Some k \<Rightarrow> k)"

definition dec_degree :: "string \<Rightarrow> (string \<times> int) list \<times> string list \<Rightarrow> (string \<times> int) list \<times> string list" where
  "dec_degree v s =
     (case s of (m, nextLayer) \<Rightarrow>
        let k = deg_of m v - 1
        in (AList.update v k m, if k = 0 then nextLayer @ [v] else nextLayer))"

definition process_layer :: "(string \<Rightarrow> string list) \<Rightarrow> string list \<Rightarrow> (string \<times> int) list \<Rightarrow> (string \<times> int) list \<times> string list" where
  "process_layer succ layer m = fold (\<lambda>name s. fold dec_degree (succ name) s) layer (m, [])"

text \<open>A degree only decreases, so a node enters a layer at most once: the loop ends on any graph.\<close>

definition pending :: "(string \<times> int) list \<Rightarrow> string set" where
  "pending m = {v. deg_of m v > 0}"

lemma deg_of_update [simp]: "deg_of (AList.update v k m) u = (if u = v then k else deg_of m u)"
  by (simp add: deg_of_def)

lemma finite_pending [simp]: "finite (pending m)"
proof (rule finite_subset)
  show "pending m \<subseteq> fst ` set m"
    by (auto simp: pending_def deg_of_def split: option.splits dest: map_of_SomeD intro: rev_image_eqI)
qed simp

lemma fold_dec_pending:
  "pending (fst (fold dec_degree vs s)) \<subseteq> pending (fst s) \<and>
   (\<forall>v \<in> set (snd (fold dec_degree vs s)). v \<in> set (snd s) \<or> v \<in> pending (fst s) - pending (fst (fold dec_degree vs s)))"
proof (induction vs arbitrary: s)
  case (Cons v vs)
  have "pending (fst (dec_degree v s)) \<subseteq> pending (fst s) \<and>
    (\<forall>u \<in> set (snd (dec_degree v s)). u \<in> set (snd s) \<or> u \<in> pending (fst s) - pending (fst (dec_degree v s)))"
    by (auto simp: dec_degree_def pending_def Let_def split: prod.splits)
  with Cons.IH [of "dec_degree v s"] show ?case by fastforce
qed simp

lemma fold_dec_concat: "fold (\<lambda>name s. fold dec_degree (succ name) s) layer s = fold dec_degree (concat (map succ layer)) s"
  by (induction layer arbitrary: s) simp_all

lemma process_layer_pending:
  "pending (fst (process_layer succ layer m)) \<subseteq> pending m \<and>
   set (snd (process_layer succ layer m)) \<subseteq> pending m - pending (fst (process_layer succ layer m))"
proof -
  have "process_layer succ layer m = fold dec_degree (concat (map succ layer)) (m, [])"
    by (simp add: process_layer_def fold_dec_concat)
  then show ?thesis using fold_dec_pending [of "concat (map succ layer)" "(m, [])"] by auto
qed

lemma next_layer_decreases:
  assumes "(m', nextLayer) = process_layer succ layer m"
  shows "card (pending m') + (if nextLayer = [] then 0 else 1) < Suc (card (pending m))"
proof -
  from process_layer_pending [of succ layer m] have s: "pending m' \<subseteq> pending m" "set nextLayer \<subseteq> pending m - pending m'"
    by (simp_all flip: assms)
  show ?thesis
  proof (cases nextLayer)
    case Nil
    then show ?thesis using card_mono [OF finite_pending s(1)] by simp
  next
    case (Cons v vs)
    with s have "pending m' \<subset> pending m" by auto
    from psubset_card_mono [OF finite_pending this] Cons show ?thesis by simp
  qed
qed

lemma sort_Nil_iff [simp]: "sort xs = [] \<longleftrightarrow> xs = []"
  by (metis set_empty set_sort)

function layers_from :: "(string \<Rightarrow> string list) \<Rightarrow> (string \<times> int) list \<Rightarrow> string list \<Rightarrow> string list list" where
  "layers_from succ m layer =
     (if layer = [] then []
      else case process_layer succ layer m of (m', nextLayer) \<Rightarrow> layer # layers_from succ m' (sort nextLayer))"
  by pat_completeness auto

termination
  by (relation "measure (\<lambda>(succ, m, layer). card (pending m) + (if layer = [] then 0 else 1))")
     (use next_layer_decreases in \<open>auto split: if_splits\<close>)

declare layers_from.simps [simp del]

definition TopologicalSort :: "'p DAG \<Rightarrow> go_error + string list list" where
  "TopologicalSort d =
     (let inDegree = map (\<lambda>(name, n). (name, int (length (dn_DependsOn n)))) d;
          first = sort (map fst (filter (\<lambda>(_, k). k = 0) inDegree));
          layers = layers_from (downstream d) inDegree first
      in if sum_list (map length layers) \<noteq> length d
         then Inl (PlainError ''topological sort failed: graph contains a cycle'')
         else Inr layers)"

end
