(* ===== verification/DagSort.thy ===== *)
theory DagSort
  imports Dag
begin

text \<open>
  Correctness of the layering: on a graph whose two adjacency lists agree, the layers are exactly the
  rounds in which every node whose dependencies are done is run, and they cover the graph if and only if
  it is acyclic.
\<close>

section \<open>Consistent graphs\<close>

definition names :: "'p DAG \<Rightarrow> string set" where
  "names d = set (map fst d)"

definition deps :: "'p DAG \<Rightarrow> string \<Rightarrow> string list" where
  "deps d v = (case map_of d v of None \<Rightarrow> [] | Some n \<Rightarrow> dn_DependsOn n)"

definition dep_rel :: "'p DAG \<Rightarrow> (string \<times> string) set" where
  "dep_rel d = {(u, v). u \<in> set (deps d v)}"

definition dag_ok :: "'p DAG \<Rightarrow> bool" where
  "dag_ok d \<longleftrightarrow> unique_keys d \<and> (\<forall>v. set (deps d v) \<subseteq> names d) \<and>
     (\<forall>u v. count_list (downstream d u) v = count_list (deps d v) u)"

lemma deps_outside: "v \<notin> names d \<Longrightarrow> deps d v = []"
  by (simp add: deps_def names_def map_of_eq_None_iff split: option.split)
     (metis image_eqI fst_conv map_of_SomeD)

lemma names_iff: "v \<in> names d \<longleftrightarrow> (\<exists>n. map_of d v = Some n)"
  unfolding names_def by (metis map_of_eq_None_iff not_None_eq set_map)

lemma finite_names [simp]: "finite (names d)"
  by (simp add: names_def)

section \<open>Counting the dependencies that are left\<close>

definition left_deps :: "'p DAG \<Rightarrow> string set \<Rightarrow> string \<Rightarrow> int" where
  "left_deps d P v = int (length (filter (\<lambda>u. u \<notin> P) (deps d v)))"

lemma left_deps_0: "left_deps d P v = 0 \<longleftrightarrow> set (deps d v) \<subseteq> P"
  by (auto simp: left_deps_def filter_empty_conv)

lemma fold_dec_deg: "deg_of (fst (fold dec_degree vs s)) v = deg_of (fst s) v - int (count_list vs v)"
proof (induction vs arbitrary: s)
  case (Cons u vs)
  have "deg_of (fst (dec_degree u s)) v = deg_of (fst s) v - (if u = v then 1 else 0)"
    by (auto simp: dec_degree_def Let_def split: prod.split)
  with Cons show ?case by simp
qed simp

lemma fold_dec_next:
  "set (snd (fold dec_degree vs s)) = set (snd s) \<union> {v. 0 < deg_of (fst s) v \<and> deg_of (fst s) v \<le> int (count_list vs v)}"
proof (induction vs arbitrary: s)
  case (Cons u vs)
  obtain m nl where s: "s = (m, nl)" by (cases s)
  have f: "fst (dec_degree u s) = AList.update u (deg_of m u - 1) m"
    and n: "set (snd (dec_degree u s)) = set nl \<union> (if deg_of m u = 1 then {u} else {})"
    by (auto simp: s dec_degree_def Let_def)
  have "set (snd (fold dec_degree (u # vs) s)) = set nl \<union> (if deg_of m u = 1 then {u} else {}) \<union>
      {v. 0 < deg_of (AList.update u (deg_of m u - 1) m) v \<and> deg_of (AList.update u (deg_of m u - 1) m) v \<le> int (count_list vs v)}"
    using Cons.IH [of "dec_degree u s"] unfolding f n by (simp only: fold_simps)
  also have "\<dots> = set nl \<union> {v. 0 < deg_of m v \<and> deg_of m v \<le> int (count_list (u # vs) v)}" (is "?A = ?B")
  proof (rule set_eqI)
    fix v
    show "v \<in> ?A \<longleftrightarrow> v \<in> ?B" by (cases "v = u"; cases "deg_of m u = 1") auto
  qed
  finally show ?case by (simp only: s fst_conv snd_conv)
qed auto

lemma fold_dec_distinct:
  "distinct (snd s) \<Longrightarrow> \<forall>v \<in> set (snd s). deg_of (fst s) v \<le> 0 \<Longrightarrow>
   distinct (snd (fold dec_degree vs s))"
proof (induction vs arbitrary: s)
  case (Cons u vs)
  have "distinct (snd (dec_degree u s)) \<and> (\<forall>v \<in> set (snd (dec_degree u s)). deg_of (fst (dec_degree u s)) v \<le> 0)"
    using Cons.prems by (cases s) (force simp: dec_degree_def Let_def)
  with Cons.IH show ?case by simp
qed simp

lemma count_list_concat: "count_list (concat xss) v = sum_list (map (\<lambda>xs. count_list xs v) xss)"
  by (induction xss) simp_all

lemma sum_count_distinct:
  "distinct us \<Longrightarrow> sum_list (map (count_list xs) us) = length (filter (\<lambda>x. x \<in> set us) xs)"
proof (induction us)
  case (Cons u us)
  have "length (filter (\<lambda>x. x = u \<or> x \<in> set us) xs) = count_list xs u + length (filter (\<lambda>x. x \<in> set us) xs)"
    using Cons.prems by (induction xs) auto
  with Cons show ?case by simp
qed simp

lemma filter_split:
  "L \<inter> P = {} \<Longrightarrow> length (filter (\<lambda>u. u \<notin> P) xs) = length (filter (\<lambda>u. u \<notin> P \<union> L) xs) + length (filter (\<lambda>u. u \<in> L) xs)"
  by (induction xs) auto

section \<open>Rounds\<close>

definition ready :: "'p DAG \<Rightarrow> string set \<Rightarrow> string set" where
  "ready d P = {v \<in> names d. v \<notin> P \<and> set (deps d v) \<subseteq> P}"

primrec rounds :: "'p DAG \<Rightarrow> string set \<Rightarrow> string list list \<Rightarrow> bool" where
  "rounds d P [] \<longleftrightarrow> ready d P = {}"
| "rounds d P (l # ls) \<longleftrightarrow> l \<noteq> [] \<and> sorted l \<and> distinct l \<and> set l = ready d P \<and> rounds d (P \<union> set l) ls"

lemma process_round:
  assumes "dag_ok d" and "\<forall>v. deg_of m v = left_deps d P v" and "set layer = ready d P" and "distinct layer"
    and "\<forall>v \<in> P. set (deps d v) \<subseteq> P" and "process_layer (downstream d) layer m = (m', nl)"
  shows "(\<forall>v. deg_of m' v = left_deps d (P \<union> set layer) v) \<and> distinct nl \<and> set nl = ready d (P \<union> set layer)"
proof -
  let ?vs = "concat (map (downstream d) layer)"
  have p: "(m', nl) = fold dec_degree ?vs (m, [])" using assms(6) by (simp add: process_layer_def fold_dec_concat)
  have dis: "set layer \<inter> P = {}" using assms(3) by (auto simp: ready_def)
  have c: "int (count_list ?vs v) = left_deps d P v - left_deps d (P \<union> set layer) v" for v
  proof -
    have "count_list ?vs v = sum_list (map (\<lambda>u. count_list (deps d v) u) layer)"
      using assms(1) by (simp add: count_list_concat comp_def dag_ok_def)
    also have "\<dots> = length (filter (\<lambda>u. u \<in> set layer) (deps d v))" using sum_count_distinct [OF assms(4)] by simp
    finally show ?thesis using filter_split [OF dis, of "deps d v"] by (simp add: left_deps_def)
  qed
  have deg: "deg_of m' v = left_deps d (P \<union> set layer) v" for v
    using fold_dec_deg [of ?vs "(m, [])" v] c [of v] assms(2) by (simp flip: p)
  have "set nl = {v. 0 < left_deps d P v \<and> left_deps d (P \<union> set layer) v \<le> 0}"
    using fold_dec_next [of ?vs "(m, [])"] c assms(2) by (simp flip: p)
  also have "\<dots> = {v. left_deps d P v \<noteq> 0 \<and> left_deps d (P \<union> set layer) v = 0}"
  proof (rule Collect_cong)
    fix v
    have "0 \<le> left_deps d P v" "0 \<le> left_deps d (P \<union> set layer) v" by (simp_all add: left_deps_def)
    then show "0 < left_deps d P v \<and> left_deps d (P \<union> set layer) v \<le> 0 \<longleftrightarrow>
      left_deps d P v \<noteq> 0 \<and> left_deps d (P \<union> set layer) v = 0" by linarith
  qed
  also have "\<dots> = ready d (P \<union> set layer)"
  proof (rule set_eqI)
    fix v
    have "set (deps d v) \<subseteq> P" if "v \<notin> names d \<or> v \<in> P" using that assms(5) deps_outside [of v d] by auto
    then show "v \<in> {v. left_deps d P v \<noteq> 0 \<and> left_deps d (P \<union> set layer) v = 0} \<longleftrightarrow> v \<in> ready d (P \<union> set layer)"
      unfolding assms(3) mem_Collect_eq left_deps_0 by (auto simp: ready_def)
  qed
  finally have "set nl = ready d (P \<union> set layer)" .
  moreover have "distinct nl" using fold_dec_distinct [of "(m, [])" ?vs] by (simp flip: p)
  ultimately show ?thesis using deg by blast
qed

lemma layers_from_rounds:
  assumes "dag_ok d"
  shows "\<forall>v. deg_of m v = left_deps d P v \<Longrightarrow> \<forall>v \<in> P. set (deps d v) \<subseteq> P \<Longrightarrow> set layer = ready d P \<Longrightarrow> distinct layer \<Longrightarrow> sorted layer \<Longrightarrow>
    rounds d P (layers_from (downstream d) m layer)"
proof (induction "downstream d" m layer arbitrary: P rule: layers_from.induct)
  case (1 m layer)
  show ?case
  proof (cases "layer = []")
    case True
    with 1 show ?thesis by (simp add: layers_from.simps)
  next
    case False
    obtain m' nl where p: "process_layer (downstream d) layer m = (m', nl)" by fastforce
    have cl: "\<forall>v \<in> P \<union> set layer. set (deps d v) \<subseteq> P \<union> set layer" using 1(3,4) by (auto simp: ready_def)
    from process_round [OF assms 1(2,4,5,3) p] cl 1(1) [OF False p [symmetric], of "P \<union> set layer"] False 1 p
    show ?thesis by (simp add: layers_from.simps [of "downstream d" m layer])
  qed
qed

lemma rounds_facts:
  assumes "rounds d P ls" and "P \<subseteq> names d"
  shows "distinct (concat ls) \<and> set (concat ls) \<inter> P = {} \<and> set (concat ls) \<subseteq> names d \<and>
    ready d (P \<union> set (concat ls)) = {} \<and>
    (\<forall>i < length ls. ls ! i \<noteq> [] \<and> sorted (ls ! i) \<and> set (ls ! i) = ready d (P \<union> set (concat (take i ls))))"
  using assms
proof (induction ls arbitrary: P)
  case (Cons l ls)
  from Cons.prems(1) have l: "l \<noteq> []" "sorted l" "distinct l" "set l = ready d P" "rounds d (P \<union> set l) ls"
    unfolding rounds.simps by blast+
  then have "P \<union> set l \<subseteq> names d" using Cons.prems(2) by (auto simp: ready_def)
  note ih = Cons.IH [OF l(5) this]
  have "(l # ls) ! i \<noteq> [] \<and> sorted ((l # ls) ! i) \<and> set ((l # ls) ! i) = ready d (P \<union> set (concat (take i (l # ls))))"
    if "i < length (l # ls)" for i
    using ih l that by (cases i) (simp_all add: Un_assoc)
  then show ?case using ih l by (auto simp: ready_def Un_assoc)
qed simp

section \<open>Acyclicity\<close>

text \<open>Edges into nodes that have no edge out of them close no cycle.\<close>

lemma acyclic_extend:
  assumes "acyclic r" and "\<And>u v. (u, v) \<in> s \<Longrightarrow> v \<notin> Domain (r \<union> s)"
  shows "acyclic (r \<union> s)"
proof -
  have r: "(y, z) \<in> (r \<union> s)\<^sup>+ \<Longrightarrow> z \<in> Domain (r \<union> s) \<Longrightarrow> (y, z) \<in> r\<^sup>+" for y z
  proof (induction rule: trancl_induct)
    case (base z)
    then show ?case using assms(2) by blast
  next
    case (step z w)
    then have "(y, z) \<in> r\<^sup>+" "(z, w) \<in> r" using assms(2) by blast+
    then show ?case by (rule trancl_into_trancl)
  qed
  have "(y, y) \<notin> (r \<union> s)\<^sup>+" for y
  proof
    assume y: "(y, y) \<in> (r \<union> s)\<^sup>+"
    then have "y \<in> Domain (r \<union> s)" by (metis DomainI tranclD)
    from r [OF y this] assms(1) show False by (auto simp: acyclic_def)
  qed
  then show ?thesis by (simp add: acyclic_def)
qed

lemma rounds_acyclic:
  assumes "rounds d P ls" and "acyclic {(u, v) \<in> dep_rel d. v \<in> P}" and "\<forall>v \<in> P. set (deps d v) \<subseteq> P"
  shows "acyclic {(u, v) \<in> dep_rel d. v \<in> P \<union> set (concat ls)}"
  using assms
proof (induction ls arbitrary: P)
  case (Cons l ls)
  from Cons.prems(1) have l: "set l = ready d P" "rounds d (P \<union> set l) ls" unfolding rounds.simps by blast+
  have split: "{(u, v) \<in> dep_rel d. v \<in> P \<union> set l} = {(u, v) \<in> dep_rel d. v \<in> P} \<union> {(u, v) \<in> dep_rel d. v \<in> set l}" by auto
  have "acyclic {(u, v) \<in> dep_rel d. v \<in> P \<union> set l}"
    unfolding split by (rule acyclic_extend [OF Cons.prems(2)]) (use Cons.prems(3) l(1) in \<open>auto simp: ready_def dep_rel_def\<close>)
  moreover have "\<forall>v \<in> P \<union> set l. set (deps d v) \<subseteq> P \<union> set l" using Cons.prems(3) l(1) by (auto simp: ready_def)
  ultimately have "acyclic {(u, v) \<in> dep_rel d. v \<in> P \<union> set l \<union> set (concat ls)}" using Cons.IH [OF l(2)] by blast
  then show ?case by (simp add: Un_assoc)
qed simp

lemma acyclic_ready:
  assumes "dag_ok d" and "acyclic (dep_rel d)" and "ready d P = {}"
  shows "names d \<subseteq> P"
proof (rule ccontr)
  assume "\<not> names d \<subseteq> P"
  then obtain x where x: "x \<in> names d - P" by auto
  have "dep_rel d \<subseteq> names d \<times> names d"
    using assms(1) deps_outside [of _ d] by (fastforce simp: dep_rel_def dag_ok_def)
  then have "finite (dep_rel d)" by (rule finite_subset) simp
  then have "wf (dep_rel d)" using assms(2) by (rule finite_acyclic_wf)
  from wfE_min [OF this x] obtain v where v: "v \<in> names d - P" "\<And>u. (u, v) \<in> dep_rel d \<Longrightarrow> u \<notin> names d - P" by blast
  then have "set (deps d v) \<subseteq> P" using assms(1) by (fastforce simp: dep_rel_def dag_ok_def)
  with v(1) assms(3) show False by (auto simp: ready_def)
qed

lemma initial_degrees:
  assumes "dag_ok d"
  defines "m \<equiv> map (\<lambda>(name, n). (name, int (length (dn_DependsOn n)))) d"
  shows "\<forall>v. deg_of m v = left_deps d {} v" "set (map fst (filter (\<lambda>(_, k). k = 0) m)) = ready d {}"
    "distinct (map fst (filter (\<lambda>(_, k). k = 0) m))"
proof -
  have u: "unique_keys d" using assms(1) by (simp add: dag_ok_def)
  have mo: "map_of m v = map_option (\<lambda>n. int (length (dn_DependsOn n))) (map_of d v)" for v
    unfolding m_def by (induction d) auto
  then show deg: "\<forall>v. deg_of m v = left_deps d {} v" by (simp add: deg_of_def left_deps_def deps_def split: option.split)
  have um: "unique_keys m" using u by (simp add: m_def comp_def case_prod_beta')
  then show "distinct (map fst (filter (\<lambda>(_, k). k = 0) m))" by (induction m) auto
  have "v \<in> set (map fst (filter (\<lambda>(_, k). k = 0) m)) \<longleftrightarrow> map_of m v = Some 0" for v
    unfolding map_of_eq_Some_iff [OF um] by force
  also have "map_of m v = Some 0 \<longleftrightarrow> v \<in> ready d {}" for v
    by (auto simp: mo ready_def deps_def names_iff)
  finally show "set (map fst (filter (\<lambda>(_, k). k = 0) m)) = ready d {}" by blast
qed

lemma TopologicalSort_rounds:
  assumes "dag_ok d"
  obtains ls where "rounds d {} ls" "acyclic (dep_rel d) \<longleftrightarrow> set (concat ls) = names d"
    "TopologicalSort d = (if acyclic (dep_rel d) then Inr ls
       else Inl (PlainError ''topological sort failed: graph contains a cycle''))"
proof -
  let ?m = "map (\<lambda>(name, n). (name, int (length (dn_DependsOn n)))) d"
  obtain ls where ls: "ls = layers_from (downstream d) ?m (sort (map fst (filter (\<lambda>(_, k). k = 0) ?m)))" by blast
  have r: "rounds d {} ls"
    unfolding ls by (rule layers_from_rounds [OF assms]) (use initial_degrees [OF assms] in \<open>simp_all del: set_map\<close>)
  note f = rounds_facts [OF r, simplified]
  have u: "unique_keys d" using assms by (simp add: dag_ok_def)
  have len: "sum_list (map length ls) = card (set (concat ls))" using f by (simp add: length_concat [symmetric] distinct_card del: set_concat)
  have "length d = card (names d)" using u by (metis distinct_card length_map names_def)
  moreover have "set (concat ls) \<subseteq> names d" using f by simp
  ultimately have eq: "sum_list (map length ls) = length d \<longleftrightarrow> set (concat ls) = names d"
    unfolding len by (metis card_subset_eq finite_names)
  have a1: "acyclic (dep_rel d) \<Longrightarrow> set (concat ls) = names d"
    using acyclic_ready [OF assms, of "set (concat ls)"] f by auto
  have a2: "acyclic (dep_rel d)" if "set (concat ls) = names d"
  proof -
    have e: "{(u, v) \<in> dep_rel d. v \<in> {} \<union> set (concat ls)} = dep_rel d"
      unfolding that using deps_outside [of _ d] by (fastforce simp: dep_rel_def)
    have "acyclic {(u, v) \<in> dep_rel d. v \<in> {} \<union> set (concat ls)}"
      by (rule rounds_acyclic [OF r]) (simp_all add: acyclic_def)
    then show ?thesis unfolding e .
  qed
  have t: "TopologicalSort d = (if sum_list (map length ls) \<noteq> length d
      then Inl (PlainError ''topological sort failed: graph contains a cycle'') else Inr ls)"
    unfolding TopologicalSort_def Let_def ls ..
  from a1 a2 have a: "acyclic (dep_rel d) \<longleftrightarrow> set (concat ls) = names d" by blast
  have "TopologicalSort d = (if acyclic (dep_rel d) then Inr ls
      else Inl (PlainError ''topological sort failed: graph contains a cycle''))"
    unfolding t eq a by (cases "set (concat ls) = names d") (simp_all del: set_concat)
  from that [OF r a this] show ?thesis .
qed

lemma acyclic_layers:
  assumes "dag_ok d" and "acyclic (dep_rel d)"
  shows "\<exists>layers. TopologicalSort d = Inr layers \<and> distinct (concat layers) \<and> set (concat layers) = names d \<and>
    (\<forall>i < length layers. layers ! i \<noteq> [] \<and> sorted (layers ! i) \<and>
      set (layers ! i) = {v \<in> names d. v \<notin> set (concat (take i layers)) \<and> set (deps d v) \<subseteq> set (concat (take i layers))}) \<and>
    (\<forall>i < length layers. \<forall>v \<in> set (layers ! i). set (deps d v) \<subseteq> set (concat (take i layers)))"
proof -
  obtain ls where ls: "rounds d {} ls" "acyclic (dep_rel d) \<longleftrightarrow> set (concat ls) = names d"
    "TopologicalSort d = (if acyclic (dep_rel d) then Inr ls else Inl (PlainError ''topological sort failed: graph contains a cycle''))"
    using TopologicalSort_rounds [OF assms(1)] by blast
  show ?thesis using rounds_facts [OF ls(1)] ls(2,3) assms(2) by (auto simp: ready_def)
qed

text \<open>
  C13: on any graph whose two adjacency lists agree, sorting terminates and succeeds exactly when the
  dependencies are acyclic. The layers then list every node once, and each layer is sorted, not empty and
  holds precisely the nodes all of whose dependencies lie in earlier layers: nothing that could run
  waits, and nothing runs before what it depends on.
\<close>

theorem topological_layers:
  assumes "dag_ok d"
  shows "if acyclic (dep_rel d)
     then \<exists>layers. TopologicalSort d = Inr layers \<and> distinct (concat layers) \<and> set (concat layers) = names d \<and>
       (\<forall>i < length layers. layers ! i \<noteq> [] \<and> sorted (layers ! i) \<and>
          set (layers ! i) = {v \<in> names d. v \<notin> set (concat (take i layers)) \<and> set (deps d v) \<subseteq> set (concat (take i layers))})
     else \<exists>e. TopologicalSort d = Inl e"
  using acyclic_layers [OF assms] TopologicalSort_rounds [OF assms] by (cases "acyclic (dep_rel d)") auto

text \<open>A diamond: \<open>b\<close> and \<open>c\<close> depend on \<open>a\<close>, \<open>d\<close> on both.\<close>

definition demo_node :: "string \<Rightarrow> string list \<Rightarrow> string list \<Rightarrow> unit DAGNode" where
  "demo_node name ds by = \<lparr>dn_Name = name, dn_Spec = (), dn_DependsOn = ds, dn_DependedBy = by\<rparr>"

definition demo_dag :: "unit DAG" where
  "demo_dag =
     [(''d'', demo_node ''d'' [''b'', ''c''] []), (''a'', demo_node ''a'' [] [''b'', ''c'']),
      (''b'', demo_node ''b'' [''a''] [''d'']), (''c'', demo_node ''c'' [''a''] [''d''])]"

theorem topological_layers_witness:
  "\<exists>layers. TopologicalSort demo_dag = Inr layers \<and> set (concat layers) = {''a'', ''b'', ''c'', ''d''}"
proof -
  have "dag_ok demo_dag"
    by (auto simp: dag_ok_def demo_dag_def demo_node_def deps_def downstream_def names_def)
  note t = topological_layers [OF this]
  have "acyclic (dep_rel demo_dag)"
    by (rule acyclicI_order [of _ "\<lambda>v. if v = ''a'' then 3 else if v = ''d'' then 1 else (2 :: nat)"])
       (auto simp: dep_rel_def deps_def demo_dag_def demo_node_def split: if_splits)
  with t show ?thesis by (auto simp: names_def demo_dag_def)
qed

end
