(* ===== verification/DagCycle.thy ===== *)
theory DagCycle
  imports DagSort
begin

text \<open>
  Correctness of the cycle check and of building a graph: the search always ends, a reported path is a
  cycle, no report means acyclic; a built graph has the nodes and dependencies of its specification.
\<close>

section \<open>The search\<close>

definition edge :: "'p DAG \<Rightarrow> string \<Rightarrow> string \<Rightarrow> bool" where
  "edge d u v \<longleftrightarrow> v \<in> set (downstream d u)"

definition is_cycle :: "'p DAG \<Rightarrow> string list \<Rightarrow> bool" where
  "is_cycle d p \<longleftrightarrow> 2 \<le> length p \<and> hd p = last p \<and> successively (edge d) p"

text \<open>The gray nodes are the stack of the search, each the parent of the one above it.\<close>

definition dfs_inv :: "'p DAG \<Rightarrow> string list \<Rightarrow> dfs_state \<Rightarrow> bool" where
  "dfs_inv d stk st \<longleftrightarrow>
     distinct stk \<and> set stk = {v. ds_color st v = Gray} \<and> set stk \<subseteq> names d \<and>
     (\<forall>u v. ds_color st u = Black \<longrightarrow> edge d u v \<longrightarrow> ds_color st v = Black) \<and>
     acyclic {(u, v). ds_color st u = Black \<and> edge d u v} \<and>
     successively (\<lambda>x y. ds_parent st x = y \<and> edge d y x) stk"

definition whites :: "'p DAG \<Rightarrow> dfs_state \<Rightarrow> string set" where
  "whites d st = {v \<in> names d. ds_color st v = White}"

text \<open>What a step of the search leaves behind when it finds no cycle.\<close>

definition dfs_done :: "'p DAG \<Rightarrow> string list \<Rightarrow> dfs_state \<Rightarrow> dfs_state \<Rightarrow> bool" where
  "dfs_done d stk st st' \<longleftrightarrow>
     dfs_inv d stk st' \<and> whites d st' \<subseteq> whites d st \<and> (\<forall>v. ds_color st v = Black \<longrightarrow> ds_color st' v = Black)"

lemma dfs_done_trans: "dfs_done d stk st st' \<Longrightarrow> dfs_done d stk st' st'' \<Longrightarrow> dfs_done d stk st st''"
  by (auto simp: dfs_done_def)

lemma trace_back_chain:
  "successively (\<lambda>x y. parent x = y) (xs @ [to]) \<Longrightarrow> to \<notin> set xs \<Longrightarrow> length xs < n \<Longrightarrow>
   trace_back n parent (hd (xs @ [to])) to path = Some (rev xs @ path)"
proof (induction xs arbitrary: n path)
  case Nil
  then show ?case by (cases n) simp_all
next
  case (Cons x xs)
  from Cons.prems obtain m where n: "n = Suc m" "length xs < m" by (cases n) auto
  from Cons.prems have p: "parent x = hd (xs @ [to])" "successively (\<lambda>x y. parent x = y) (xs @ [to])"
    by (cases xs; simp)+
  from Cons.prems(2) have "x \<noteq> to" "to \<notin> set xs" by auto
  with Cons.IH [OF p(2) _ n(2), of "x # path"] show ?case by (simp add: n(1) p(1))
qed

lemma reconstruct_cycle:
  assumes "dfs_inv d (node # stk) st" and "to \<in> set (node # stk)" and "edge d node to" and "length (node # stk) \<le> n"
  shows "\<exists>p. reconstructCycle (Suc n) (ds_parent st) node to = Some p \<and> is_cycle d p"
proof -
  obtain xs ys where s: "node # stk = xs @ to # ys" using assms(2) by (meson split_list)
  have ch: "successively (\<lambda>x y. ds_parent st x = y \<and> edge d y x) (xs @ [to])" and to: "to \<notin> set xs"
    using assms(1) unfolding dfs_inv_def s by (auto simp: successively_append_iff successively_Cons)
  have hd: "hd (xs @ [to]) = node" using s by (cases xs) auto
  have "length xs < Suc n" using assms(4) unfolding s by simp
  have "successively (\<lambda>x y. ds_parent st x = y) (xs @ [to])" by (rule successively_mono [OF ch]) simp
  from trace_back_chain [OF this to \<open>length xs < Suc n\<close>, where path = "[to]"] hd
  have r: "reconstructCycle (Suc n) (ds_parent st) node to = Some (to # rev xs @ [to])" by (simp add: reconstructCycle_def)
  have "successively (\<lambda>x y. edge d y x) (xs @ [to])" by (rule successively_mono [OF ch]) simp
  then have "successively (edge d) (rev (xs @ [to]))" by (simp only: successively_rev)
  then have "successively (edge d) (to # rev xs)" by simp
  moreover have "last (to # rev xs) = node" using hd by (cases xs) auto
  ultimately have "successively (edge d) ((to # rev xs) @ [to])"
    using assms(3) unfolding successively_append_iff by simp
  then have "is_cycle d (to # rev xs @ [to])" by (simp add: is_cycle_def)
  with r show ?thesis by blast
qed

lemma whites_finite [simp]: "finite (whites d st)"
  by (simp add: whites_def)

lemma stack_length: "dfs_inv d stk st \<Longrightarrow> length stk \<le> card (names d)"
  unfolding dfs_inv_def by (metis card_mono distinct_card finite_names)

lemma set_parent_inv:
  assumes "dfs_inv d stk st" and "ds_color st v \<noteq> Gray"
  shows "dfs_inv d stk (st\<lparr>ds_parent := (ds_parent st)(v := u)\<rparr>)"
proof -
  have "v \<notin> set stk" using assms by (auto simp: dfs_inv_def)
  then have "successively (\<lambda>x y. ((ds_parent st)(v := u)) x = y \<and> edge d y x) stk
      \<longleftrightarrow> successively (\<lambda>x y. ds_parent st x = y \<and> edge d y x) stk"
    by (intro successively_cong) auto
  with assms(1) show ?thesis unfolding dfs_inv_def by auto
qed

text \<open>The loop over the dependents, given what the recursive call does.\<close>

lemma dfs_deps_correct:
  assumes rec: "\<And>v s. dfs_inv d (node # stk) s \<Longrightarrow> v \<in> names d \<Longrightarrow> ds_color s v = White \<Longrightarrow> ds_parent s v = node \<Longrightarrow>
      edge d node v \<Longrightarrow> card (whites d s) \<le> n \<Longrightarrow>
      \<exists>b s'. rec v s = Some (b, s') \<and> (if b then is_cycle d (ds_cyclePath s') else dfs_done d (node # stk) s s' \<and> ds_color s' v = Black)"
    and "card (names d) \<le> m"
  shows "dfs_inv d (node # stk) st \<Longrightarrow> \<forall>v \<in> set vs. edge d node v \<and> v \<in> names d \<Longrightarrow> card (whites d st) \<le> n \<Longrightarrow>
    \<exists>b st'. dfs_deps rec (Suc m) node vs st = Some (b, st') \<and>
      (if b then is_cycle d (ds_cyclePath st') else dfs_done d (node # stk) st st' \<and> (\<forall>v \<in> set vs. ds_color st' v = Black))"
proof (induction vs arbitrary: st)
  case Nil
  then have "dfs_done d (node # stk) st st" by (simp add: dfs_done_def)
  then show ?case by (intro exI [of _ False] exI [of _ st]) simp
next
  case (Cons v vs)
  show ?case
  proof (cases "ds_color st v")
    case Gray
    then have v: "v \<in> set (node # stk)" using Cons.prems(1) unfolding dfs_inv_def by blast
    have "length (node # stk) \<le> m" using stack_length [OF Cons.prems(1)] assms(2) by linarith
    from reconstruct_cycle [OF Cons.prems(1) v _ this] Cons.prems(2) Gray show ?thesis by auto
  next
    case Black
    from Cons.IH [OF Cons.prems(1) _ Cons.prems(3)] Cons.prems(2) obtain b st' where
      r: "dfs_deps rec (Suc m) node vs st = Some (b, st')"
        "if b then is_cycle d (ds_cyclePath st') else dfs_done d (node # stk) st st' \<and> (\<forall>v \<in> set vs. ds_color st' v = Black)" by auto
    with Black show ?thesis by (auto simp: dfs_done_def split: if_splits)
  next
    case White
    let ?s = "st\<lparr>ds_parent := (ds_parent st)(v := node)\<rparr>"
    have wh: "whites d ?s = whites d st" by (simp add: whites_def)
    have "\<exists>b s'. rec v ?s = Some (b, s') \<and> (if b then is_cycle d (ds_cyclePath s') else dfs_done d (node # stk) ?s s' \<and> ds_color s' v = Black)"
      using Cons.prems White by (intro rec set_parent_inv) (simp_all add: wh)
    then obtain b s' where s': "rec v ?s = Some (b, s')"
      "if b then is_cycle d (ds_cyclePath s') else dfs_done d (node # stk) ?s s' \<and> ds_color s' v = Black" by blast
    show ?thesis
    proof (cases b)
      case True
      with s' White show ?thesis by auto
    next
      case False
      with s' have d1: "dfs_done d (node # stk) st s'" "ds_color s' v = Black" by (simp_all add: dfs_done_def wh)
      have "card (whites d s') \<le> n"
        using d1(1) Cons.prems(3) card_mono [OF whites_finite, of "whites d s'" d st] by (auto simp: dfs_done_def)
      from Cons.IH [OF _ _ this] d1(1) Cons.prems(2) obtain c st' where
        r: "dfs_deps rec (Suc m) node vs s' = Some (c, st')"
          "if c then is_cycle d (ds_cyclePath st') else dfs_done d (node # stk) s' st' \<and> (\<forall>v \<in> set vs. ds_color st' v = Black)"
        by (auto simp: dfs_done_def)
      have "ds_color st' v = Black" if "\<not> c" using r(2) d1(2) that by (auto simp: dfs_done_def)
      moreover have "dfs_done d (node # stk) st st'" if "\<not> c" using dfs_done_trans [OF d1(1)] r(2) that by auto
      ultimately show ?thesis using s'(1) r White False by auto
    qed
  qed
qed

lemma downstream_deps: "dag_ok d \<Longrightarrow> v \<in> set (downstream d u) \<longleftrightarrow> u \<in> set (deps d v)"
  unfolding dag_ok_def by (metis count_list_0_iff)

lemma downstream_names: "dag_ok d \<Longrightarrow> v \<in> set (downstream d u) \<Longrightarrow> v \<in> names d \<and> u \<in> names d"
proof -
  assume ok: "dag_ok d" and "v \<in> set (downstream d u)"
  then have "u \<in> set (deps d v)" by (simp add: downstream_deps)
  moreover from this have "v \<in> names d" using deps_outside [of v d] by force
  ultimately show ?thesis using ok by (auto simp: dag_ok_def)
qed

lemma edge_dep_rel: "dag_ok d \<Longrightarrow> {(u, v). edge d u v} = dep_rel d"
  by (simp add: edge_def dep_rel_def downstream_deps)

lemma push_gray:
  assumes "dfs_inv d stk st" and "node \<in> names d" and "ds_color st node = White"
    and "stk = [] \<or> ds_parent st node = hd stk \<and> edge d (hd stk) node"
  shows "dfs_inv d (node # stk) (st\<lparr>ds_color := (ds_color st)(node := Gray)\<rparr>)"
proof -
  have b: "(if u = node then Gray else ds_color st u) = Black \<longleftrightarrow> ds_color st u = Black" for u using assms(3) by simp
  from assms show ?thesis unfolding dfs_inv_def dfs_state.simps successively_Cons by (auto simp: b)
qed

lemma pop_black:
  assumes "dfs_inv d (node # stk) st" and "\<forall>v \<in> set (downstream d node). ds_color st v = Black"
  shows "dfs_inv d stk (st\<lparr>ds_color := (ds_color st)(node := Black)\<rparr>)"
proof -
  let ?r = "{(u, v). ds_color st u = Black \<and> edge d u v}" and ?s = "{(u, v). u = node \<and> edge d u v}"
  have g: "ds_color st node = Gray" using assms(1) unfolding dfs_inv_def by auto
  have "acyclic (?r\<inverse> \<union> ?s\<inverse>)"
  proof (rule acyclic_extend)
    show "acyclic (?r\<inverse>)" using assms(1) by (simp add: dfs_inv_def)
    fix u v assume "(u, v) \<in> ?s\<inverse>"
    then have "v = node" by simp
    moreover have "node \<notin> Domain (?r\<inverse> \<union> ?s\<inverse>)" using assms g unfolding dfs_inv_def edge_def by force
    ultimately show "v \<notin> Domain (?r\<inverse> \<union> ?s\<inverse>)" by simp
  qed
  then have "acyclic (?r \<union> ?s)" by (simp add: converse_Un [symmetric])
  moreover have "{(u, v). ((ds_color st)(node := Black)) u = Black \<and> edge d u v} = ?r \<union> ?s" by auto
  ultimately have a: "acyclic {(u, v). ((ds_color st)(node := Black)) u = Black \<and> edge d u v}" by simp
  have "set stk = {v. ((ds_color st)(node := Black)) v = Gray}"
    using assms(1) unfolding dfs_inv_def by (intro set_eqI) auto
  moreover have "\<forall>u v. ((ds_color st)(node := Black)) u = Black \<longrightarrow> edge d u v \<longrightarrow> ((ds_color st)(node := Black)) v = Black"
    using assms unfolding dfs_inv_def edge_def by auto
  moreover have "distinct stk" "set stk \<subseteq> names d" "successively (\<lambda>x y. ds_parent st x = y \<and> edge d y x) stk"
    using assms(1) unfolding dfs_inv_def successively_Cons by auto
  ultimately show ?thesis using a
    unfolding dfs_inv_def dfs_state.simps dfs_state.update_convs dfs_state.ext_inject by (intro conjI) simp_all
qed

lemma dfs_correct:
  assumes "dag_ok d"
  shows "dfs_inv d stk st \<Longrightarrow> node \<in> names d \<Longrightarrow> ds_color st node = White \<Longrightarrow>
    stk = [] \<or> ds_parent st node = hd stk \<and> edge d (hd stk) node \<Longrightarrow> card (whites d st) \<le> n \<Longrightarrow>
    \<exists>b st'. dfs d n node st = Some (b, st') \<and>
      (if b then is_cycle d (ds_cyclePath st') else dfs_done d stk st st' \<and> ds_color st' node = Black)"
proof (induction n arbitrary: stk st node)
  case 0
  then have "node \<in> whites d st" by (simp add: whites_def)
  with 0(5) show ?case using whites_finite [of d st] by (metis card_0_eq empty_iff le_zero_eq)
next
  case (Suc n)
  let ?s = "st\<lparr>ds_color := (ds_color st)(node := Gray)\<rparr>"
  have ws: "whites d ?s = whites d st - {node}" by (auto simp: whites_def)
  have w: "node \<in> whites d st" using Suc.prems by (simp add: whites_def)
  then have c: "card (whites d ?s) \<le> n" using Suc.prems(5) unfolding ws by simp
  have l: "card (names d) \<le> length d" using card_length [of "map fst d"] by (simp add: names_def)
  have vs: "\<forall>v \<in> set (downstream d node). edge d node v \<and> v \<in> names d"
    using downstream_names [OF assms] by (auto simp: edge_def)
  have rec: "\<exists>b s'. dfs d n v s = Some (b, s') \<and>
      (if b then is_cycle d (ds_cyclePath s') else dfs_done d (node # stk) s s' \<and> ds_color s' v = Black)"
    if "dfs_inv d (node # stk) s" "v \<in> names d" "ds_color s v = White" "ds_parent s v = node" "edge d node v" "card (whites d s) \<le> n" for v s
    using Suc.IH [OF that(1-3) _ that(6)] that(4,5) by simp
  from dfs_deps_correct [where rec = "dfs d n", OF rec l push_gray [OF Suc.prems(1-4)] vs c]
  obtain b st' where r: "dfs_deps (dfs d n) (Suc (length d)) node (downstream d node) ?s = Some (b, st')"
    "if b then is_cycle d (ds_cyclePath st') else dfs_done d (node # stk) ?s st' \<and> (\<forall>v \<in> set (downstream d node). ds_color st' v = Black)"
    by blast
  show ?case
  proof (cases b)
    case True
    with r show ?thesis by (intro exI [of _ True] exI [of _ st']) simp
  next
    case False
    let ?t = "st'\<lparr>ds_color := (ds_color st')(node := Black)\<rparr>"
    from r False have d: "dfs_done d (node # stk) ?s st'" "\<forall>v \<in> set (downstream d node). ds_color st' v = Black" by simp_all
    have "dfs_inv d stk ?t" by (rule pop_black) (use d in \<open>simp_all add: dfs_done_def\<close>)
    moreover have "whites d ?t \<subseteq> whites d st" using d(1) unfolding dfs_done_def ws by (auto simp: whites_def)
    moreover have "ds_color ?t v = Black" if "ds_color st v = Black" for v
      using d(1) that Suc.prems(3) unfolding dfs_done_def by auto
    ultimately have "dfs_done d stk st ?t" by (simp add: dfs_done_def)
    with r False show ?thesis by (intro exI [of _ False] exI [of _ ?t]) simp
  qed
qed

lemma dfs_names_correct:
  assumes "dag_ok d"
  shows "dfs_inv d [] st \<Longrightarrow> set ns \<subseteq> names d \<Longrightarrow>
    (\<exists>p. dfs_names d ns st = Some (Some p) \<and> is_cycle d p) \<or>
    (dfs_names d ns st = Some None \<and> (\<exists>st'. dfs_inv d [] st' \<and> (\<forall>v \<in> set ns. ds_color st' v = Black) \<and> (\<forall>v. ds_color st v = Black \<longrightarrow> ds_color st' v = Black)))"
proof (induction ns arbitrary: st)
  case (Cons n ns)
  show ?case
  proof (cases "ds_color st n = White")
    case True
    have c: "card (whites d st) \<le> Suc (length d)"
    proof -
      have "card (whites d st) \<le> card (names d)" by (rule card_mono) (auto simp: whites_def)
      also have "\<dots> \<le> length d" using card_length [of "map fst d"] by (simp add: names_def)
      finally show ?thesis by simp
    qed
    from dfs_correct [OF assms Cons.prems(1) _ True _ c] Cons.prems(2) obtain b st' where
      r: "dfs d (Suc (length d)) n st = Some (b, st')"
        "if b then is_cycle d (ds_cyclePath st') else dfs_done d [] st st' \<and> ds_color st' n = Black" by auto
    show ?thesis
    proof (cases b)
      case True
      with r \<open>ds_color st n = White\<close> show ?thesis by simp
    next
      case False
      with r have "dfs_done d [] st st'" "ds_color st' n = Black" by simp_all
      then have i: "dfs_inv d [] st'" and b: "\<forall>v. ds_color st v = Black \<longrightarrow> ds_color st' v = Black"
        and n: "ds_color st' n = Black" by (simp_all add: dfs_done_def)
      have e: "dfs_names d (n # ns) st = dfs_names d ns st'" using r(1) False \<open>ds_color st n = White\<close> by simp
      from Cons.IH [OF i] Cons.prems(2) show ?thesis unfolding e using b n by auto
    qed
  next
    case False
    then have "ds_color st n = Black" using Cons.prems(1) unfolding dfs_inv_def by (cases "ds_color st n") auto
    with False Cons.IH [OF Cons.prems(1)] Cons.prems(2) show ?thesis by auto
  qed
qed auto

lemma successively_trancl: "successively P (x # y # zs) \<Longrightarrow> (x, last (y # zs)) \<in> {(u, v). P u v}\<^sup>+"
proof (induction zs arbitrary: x y)
  case (Cons z zs)
  then have "(x, y) \<in> {(u, v). P u v}" "(y, last (z # zs)) \<in> {(u, v). P u v}\<^sup>+" by simp_all
  then show ?case by (simp add: trancl_into_trancl2)
qed auto

lemma is_cycle_not_acyclic: "is_cycle d p \<Longrightarrow> \<not> acyclic {(u, v). edge d u v}"
proof
  assume p: "is_cycle d p" and a: "acyclic {(u, v). edge d u v}"
  then obtain x y zs where s: "p = x # y # zs" by (cases p; cases "tl p") (auto simp: is_cycle_def)
  have "last (y # zs) = x" using p by (simp add: is_cycle_def s)
  moreover have "successively (edge d) (x # y # zs)" using p by (simp only: is_cycle_def s)
  ultimately have "(x, x) \<in> {(u, v). edge d u v}\<^sup>+"
    using successively_trancl [of "edge d" x y zs] by metis
  with a show False by (simp add: acyclic_def)
qed

lemma DetectCycle_correct:
  assumes "dag_ok d"
  shows "if acyclic (dep_rel d) then DetectCycle d = Some None else \<exists>p. DetectCycle d = Some (Some p) \<and> is_cycle d p"
proof -
  let ?s = "\<lparr>ds_color = (\<lambda>_. White), ds_parent = (\<lambda>_. []), ds_cyclePath = []\<rparr>"
  have i: "dfs_inv d [] ?s" by (simp add: dfs_inv_def acyclic_def)
  have "set (sort (map fst d)) \<subseteq> names d" by (simp add: names_def)
  from dfs_names_correct [OF assms i this] consider
      p where "DetectCycle d = Some (Some p)" "is_cycle d p"
    | st' where "DetectCycle d = Some None" "dfs_inv d [] st'" "\<forall>v \<in> set (sort (map fst d)). ds_color st' v = Black"
    unfolding DetectCycle_def by blast
  then show ?thesis
  proof cases
    case 1
    with is_cycle_not_acyclic [OF 1(2)] show ?thesis by (simp add: edge_dep_rel [OF assms])
  next
    case 2
    have "{(u, v). ds_color st' u = Black \<and> edge d u v} = {(u, v). edge d u v}"
      using 2(3) downstream_names [OF assms] by (auto simp: edge_def names_def)
    with 2(2) have "acyclic (dep_rel d)" by (simp add: dfs_inv_def edge_dep_rel [OF assms])
    with 2(1) show ?thesis by simp
  qed
qed

end
