(* ===== verification/DagBuild.thy ===== *)
theory DagBuild
  imports DagCycle
begin

text \<open>
  Building a graph from a specification: the graph has the nodes, payloads and dependencies of the
  specification, its two adjacency lists agree, and so a validated compose file either has an execution
  plan or is refused with a real cycle.
\<close>

section \<open>The graph under construction\<close>

text \<open>\<open>E\<close> lists the edges added so far, as pairs of a node and its dependency.\<close>

definition graph_inv :: "(string \<times> 'p) list \<Rightarrow> (string \<times> string) list \<Rightarrow> 'p DAG \<Rightarrow> bool" where
  "graph_inv specs E d \<longleftrightarrow>
     map fst d = map fst specs \<and>
     (\<forall>v. map_option dn_Spec (map_of d v) = map_of specs v) \<and>
     (\<forall>v u. count_list (deps d v) u = count_list E (v, u)) \<and>
     (\<forall>v u. count_list (downstream d u) v = count_list E (v, u))"

definition edges_of :: "(string \<times> string list) list \<Rightarrow> (string \<times> string) list" where
  "edges_of nds = concat (map (\<lambda>(name, ds). map (Pair name) ds) nds)"

lemma edges_of_simps [simp]:
  "edges_of [] = []"
  "edges_of ((name, ds) # nds) = map (Pair name) ds @ edges_of nds"
  by (simp_all add: edges_of_def)

lemma edges_of_iff: "(v, u) \<in> set (edges_of nds) \<longleftrightarrow> (\<exists>ds. (v, ds) \<in> set nds \<and> u \<in> set ds)"
  by (auto simp: edges_of_def)

lemma count_list_sort [simp]: "count_list (sort xs) x = count_list xs x"
  by (metis count_mset mset_sort)

lemma graph_inv_new: "graph_inv specs [] (new_nodes specs)"
proof -
  have m: "map_of (new_nodes specs) v =
      map_option (\<lambda>s. \<lparr>dn_Name = v, dn_Spec = s, dn_DependsOn = [], dn_DependedBy = []\<rparr>) (map_of specs v)" for v
    by (induction specs) (auto simp: new_nodes_def)
  show ?thesis
    by (auto simp: graph_inv_def m deps_def downstream_def option.map_comp comp_def split: option.split)
       (auto simp: new_nodes_def option.map_ident)
qed

lemma graph_inv_node:
  assumes "graph_inv specs E d" and "v \<in> fst ` set specs"
  obtains n where "map_of d v = Some n" "v \<in> set (map fst d)"
proof -
  have "v \<in> set (map fst d)" using assms unfolding graph_inv_def by simp
  moreover from this obtain n where "map_of d v = Some n" by (metis map_of_eq_None_iff not_None_eq set_map)
  ultimately show ?thesis using that by blast
qed

lemma link_inv:
  assumes "graph_inv specs E d" and "name \<in> fst ` set specs" and "dep \<in> fst ` set specs"
  shows "\<exists>d'. link name dep d = Some d' \<and> graph_inv specs (E @ [(name, dep)]) d'"
proof -
  obtain n where n: "map_of d name = Some n" "name \<in> set (map fst d)" using graph_inv_node [OF assms(1,2)] .
  obtain m where m: "map_of d dep = Some m" "dep \<in> set (map fst d)" using graph_inv_node [OF assms(1,3)] .
  let ?d1 = "AList.update name (n\<lparr>dn_DependsOn := dn_DependsOn n @ [dep]\<rparr>) d"
  obtain m' where m': "map_of ?d1 dep = Some m'"
    "m' = (if dep = name then n\<lparr>dn_DependsOn := dn_DependsOn n @ [dep]\<rparr> else m)" using m by simp
  let ?d2 = "AList.update dep (m'\<lparr>dn_DependedBy := dn_DependedBy m' @ [name]\<rparr>) ?d1"
  have l: "link name dep d = Some ?d2" using n(1) m'(1) by (simp add: link_def del: map_of_update)
  have keys: "map fst ?d2 = map fst d" using n(2) m(2) by (simp add: update_keys)
  have sp: "map_option dn_Spec (map_of ?d2 v) = map_option dn_Spec (map_of d v)" for v
    using n(1) m(1) m'(2) by auto
  have de: "deps ?d2 v = deps d v @ (if v = name then [dep] else [])" for v
    using n(1) m(1) m'(2) by (simp add: deps_def)
  have dn: "downstream ?d2 u = downstream d u @ (if u = dep then [name] else [])" for u
    using n(1) m(1) m'(2) by (auto simp: downstream_def)
  have "graph_inv specs (E @ [(name, dep)]) ?d2"
    using assms(1) unfolding graph_inv_def keys sp de dn by auto
  with l show ?thesis by blast
qed

lemma links_inv:
  "graph_inv specs E d \<Longrightarrow> name \<in> fst ` set specs \<Longrightarrow> set ds \<subseteq> fst ` set specs \<Longrightarrow>
   \<exists>d'. fold_opt (link name) ds d = Some d' \<and> graph_inv specs (E @ map (Pair name) ds) d'"
proof (induction ds arbitrary: E d)
  case (Cons dep ds)
  have "dep \<in> fst ` set specs" "set ds \<subseteq> fst ` set specs" using Cons.prems(3) by simp_all
  from link_inv [OF Cons.prems(1,2) this(1)] obtain d' where
    "link name dep d = Some d'" "graph_inv specs (E @ [(name, dep)]) d'" by blast
  with Cons.IH [OF this(2) Cons.prems(2) \<open>set ds \<subseteq> _\<close>] show ?case by simp
qed simp

lemma sort_DependsOn_inv: "graph_inv specs E d \<Longrightarrow> graph_inv specs E (sort_DependsOn name d)"
proof (cases "map_of d name")
  case (Some n)
  assume i: "graph_inv specs E d"
  let ?d = "AList.update name (n\<lparr>dn_DependsOn := sort (dn_DependsOn n)\<rparr>) d"
  have k: "name \<in> set (map fst d)" using Some by (metis map_of_eq_None_iff option.distinct(1) set_map)
  have keys: "map fst ?d = map fst d" using k by (simp add: update_keys)
  have sp: "map_option dn_Spec (map_of ?d v) = map_option dn_Spec (map_of d v)" for v using Some by simp
  have de: "deps ?d v = (if v = name then sort (deps d v) else deps d v)" for v using Some by (simp add: deps_def)
  have dn: "downstream ?d u = downstream d u" for u using Some by (simp add: downstream_def)
  have "graph_inv specs E ?d" using i unfolding graph_inv_def keys sp de dn by simp
  then show ?thesis by (simp add: sort_DependsOn_def Some)
qed (simp add: sort_DependsOn_def)

lemma add_all_edges_inv:
  "graph_inv specs E d \<Longrightarrow> \<forall>(name, ds) \<in> set nds. name \<in> fst ` set specs \<and> set ds \<subseteq> fst ` set specs \<Longrightarrow>
   \<exists>d'. fold_opt add_edges nds d = Some d' \<and> graph_inv specs (E @ edges_of nds) d'"
proof (induction nds arbitrary: E d)
  case (Cons nd nds)
  obtain name ds where nd: "nd = (name, ds)" by (cases nd)
  from links_inv [OF Cons.prems(1), of name ds] Cons.prems(2) obtain d1 where
    d1: "fold_opt (link name) ds d = Some d1" "graph_inv specs (E @ map (Pair name) ds) d1" unfolding nd by auto
  from Cons.IH [OF sort_DependsOn_inv [OF d1(2), of name]] Cons.prems(2) d1(1) show ?case
    by (auto simp: nd add_edges_def)
qed simp

lemma sort_DependedBy_inv: "graph_inv specs E d \<Longrightarrow> graph_inv specs E (sort_DependedBy d)"
proof -
  assume i: "graph_inv specs E d"
  have mo: "map_of (sort_DependedBy d) v = map_option (\<lambda>n. n\<lparr>dn_DependedBy := sort (dn_DependedBy n)\<rparr>) (map_of d v)" for v
    by (induction d) (auto simp: sort_DependedBy_def)
  have keys: "map fst (sort_DependedBy d) = map fst d" by (simp add: sort_DependedBy_def comp_def case_prod_beta')
  have sp: "map_option dn_Spec (map_of (sort_DependedBy d) v) = map_option dn_Spec (map_of d v)" for v
    by (simp add: mo option.map_comp comp_def)
  have de: "deps (sort_DependedBy d) v = deps d v" for v by (simp add: deps_def mo split: option.split)
  have dn: "downstream (sort_DependedBy d) u = sort (downstream d u)" for u by (simp add: downstream_def mo split: option.split)
  show ?thesis using i unfolding graph_inv_def keys sp de dn by simp
qed

lemma graph_inv_dag_ok:
  assumes "graph_inv specs E d" and "unique_keys specs" and "snd ` set E \<subseteq> fst ` set specs"
  shows "dag_ok d" "names d = fst ` set specs" "set (deps d v) = {u. (v, u) \<in> set E}"
proof -
  have s: "u \<in> set (deps d v) \<longleftrightarrow> (v, u) \<in> set E" for v u
    using assms(1) unfolding graph_inv_def by (metis count_list_0_iff)
  then show "set (deps d v) = {u. (v, u) \<in> set E}" by blast
  show n: "names d = fst ` set specs" using assms(1) by (simp add: graph_inv_def names_def del: set_map) simp
  have "set (deps d v) \<subseteq> names d" for v using assms(3) unfolding n by (force simp: s)
  moreover have "unique_keys d" using assms(1,2) by (simp add: graph_inv_def)
  ultimately show "dag_ok d" using assms(1) by (simp add: dag_ok_def graph_inv_def)
qed

section \<open>From a specification to a plan\<close>

lemma built_graph:
  assumes "unique_keys specs" and "\<forall>(name, ds) \<in> set nds. name \<in> fst ` set specs \<and> set ds \<subseteq> fst ` set specs"
  obtains d where "fold_opt add_edges nds (new_nodes specs) = Some d" "dag_ok (sort_DependedBy d)"
    "names (sort_DependedBy d) = fst ` set specs" "\<And>v. set (deps (sort_DependedBy d) v) = {u. (v, u) \<in> set (edges_of nds)}"
proof -
  from add_all_edges_inv [OF graph_inv_new assms(2)] obtain d where
    d: "fold_opt add_edges nds (new_nodes specs) = Some d" "graph_inv specs (edges_of nds) d" by auto
  have "snd ` set (edges_of nds) \<subseteq> fst ` set specs" using assms(2) by (fastforce simp: edges_of_def)
  from graph_inv_dag_ok [OF sort_DependedBy_inv [OF d(2)] assms(1) this] d(1) that show ?thesis by blast
qed

lemma is_cycle_deps:
  "dag_ok d \<Longrightarrow> is_cycle d p \<longleftrightarrow> 2 \<le> length p \<and> hd p = last p \<and> successively (\<lambda>u v. u \<in> set (deps d v)) p"
  by (simp add: is_cycle_def edge_def downstream_deps)

lemma check_cycles_correct:
  assumes "dag_ok d"
  shows "if acyclic (dep_rel d) then check_cycles d = Some (Inr d)
    else \<exists>e p. check_cycles d = Some (Inl (e, p)) \<and> is_cycle d p"
  using DetectCycle_correct [OF assms] by (auto simp: check_cycles_def split: if_splits)

definition needs :: "ComposeSpec \<Rightarrow> string \<Rightarrow> string set" where
  "needs spec v = (case map_of (cs_Agents spec) v of None \<Rightarrow> {} | Some a \<Rightarrow> fst ` set (as_DependsOn a))"

lemma validate_deps_None:
  "validate_deps agents ds = None \<Longrightarrow> fst ` set ds \<subseteq> fst ` set agents"
  by (induction agents ds rule: validate_deps.induct)
     (auto split: if_splits, metis fst_conv image_iff map_of_SomeD not_None_eq)

lemma validate_agents_None:
  "validate_agents agents rest = None \<Longrightarrow> (name, a) \<in> set rest \<Longrightarrow> fst ` set (as_DependsOn a) \<subseteq> fst ` set agents"
  by (induction agents rest rule: validate_agents.induct)
     (auto split: if_splits option.splits dest: validate_deps_None)

text \<open>
  C14: a compose file that passes validation gets its graph built without a panic, and cycle detection
  always ends. If no agent waits for itself through others, the layers of the execution plan list every
  agent exactly once and every agent after all agents it depends on; otherwise the file is refused
  and the reported path is a real cycle of dependencies.
\<close>

theorem compose_plan_or_cycle:
  assumes "compose_validate spec = None" and "unique_keys (cs_Agents spec)"
  shows "if acyclic {(u, v). u \<in> needs spec v}
    then \<exists>d layers. BuildDAG spec = Some (Inr d) \<and> TopologicalSort d = Inr layers \<and>
      distinct (concat layers) \<and> set (concat layers) = fst ` set (cs_Agents spec) \<and>
      (\<forall>i < length layers. \<forall>v \<in> set (layers ! i). needs spec v \<subseteq> set (concat (take i layers)))
    else \<exists>e p. BuildDAG spec = Some (Inl (e, p)) \<and> 2 \<le> length p \<and> hd p = last p \<and> successively (\<lambda>u v. u \<in> needs spec v) p"
proof -
  let ?nds = "map (\<lambda>(name, a). (name, map fst (as_DependsOn a))) (cs_Agents spec)"
  have "validate_agents (cs_Agents spec) (cs_Agents spec) = None"
    using assms(1) by (simp add: compose_validate_def split: if_splits)
  then have "\<forall>(name, ds) \<in> set ?nds. name \<in> fst ` set (cs_Agents spec) \<and> set ds \<subseteq> fst ` set (cs_Agents spec)"
    using validate_agents_None by force
  from built_graph [OF assms(2) this] obtain d where d: "fold_opt add_edges ?nds (new_nodes (cs_Agents spec)) = Some d"
    "dag_ok (sort_DependedBy d)" "names (sort_DependedBy d) = fst ` set (cs_Agents spec)"
    "\<And>v. set (deps (sort_DependedBy d) v) = {u. (v, u) \<in> set (edges_of ?nds)}" by blast
  have n: "set (deps (sort_DependedBy d) v) = needs spec v" for v
  proof -
    have "(v, ds) \<in> set ?nds \<longleftrightarrow> (\<exists>a. map_of (cs_Agents spec) v = Some a \<and> ds = map fst (as_DependsOn a))" for ds
      unfolding map_of_eq_Some_iff [OF assms(2)] by force
    then show ?thesis unfolding d(4) edges_of_iff needs_def by (auto split: option.split)
  qed
  have r: "dep_rel (sort_DependedBy d) = {(u, v). u \<in> needs spec v}" by (simp add: dep_rel_def n)
  have b: "BuildDAG spec = check_cycles (sort_DependedBy d)" by (simp add: BuildDAG_def d(1))
  show ?thesis
  proof (cases "acyclic {(u, v). u \<in> needs spec v}")
    case True
    obtain layers where
      l: "TopologicalSort (sort_DependedBy d) = Inr layers" "distinct (concat layers)" "set (concat layers) = fst ` set (cs_Agents spec)"
        "\<forall>i < length layers. \<forall>v \<in> set (layers ! i). needs spec v \<subseteq> set (concat (take i layers))"
      using acyclic_layers [OF d(2), unfolded r d(3) n, OF True] by (elim exE conjE) (rule that; assumption)
    from check_cycles_correct [OF d(2)] True have "BuildDAG spec = Some (Inr (sort_DependedBy d))" by (simp add: b r)
    with l True show ?thesis by auto
  next
    case False
    from check_cycles_correct [OF d(2)] False show ?thesis by (simp add: b r is_cycle_deps [OF d(2)] n)
  qed
qed

definition demo_compose :: ComposeSpec where
  "demo_compose =
     (let a = \<lambda>ds. \<lparr>as_Intent = ''work'', as_Agent = [], as_Priority = [], as_DependsOn = map (\<lambda>n. (n, ''completed'')) ds\<rparr>
      in \<lparr>cs_Version = ''1.0'', cs_Intent = ''ship'', cs_TokenBudget = 0,
          cs_Agents = [(''test'', a [''build'']), (''build'', a []), (''ship'', a [''test'', ''build''])]\<rparr>)"

theorem compose_plan_or_cycle_witness:
  "\<exists>d layers. BuildDAG demo_compose = Some (Inr d) \<and> TopologicalSort d = Inr layers \<and>
     set (concat layers) = {''build'', ''test'', ''ship''}"
proof -
  have "compose_validate demo_compose = None" "unique_keys (cs_Agents demo_compose)" by code_simp+
  note t = compose_plan_or_cycle [OF this]
  have "acyclic {(u, v). u \<in> needs demo_compose v}"
    by (rule acyclicI_order [of _ "\<lambda>v. if v = ''build'' then 3 else if v = ''test'' then 2 else (1 :: nat)"])
       (auto simp: needs_def demo_compose_def split: if_splits)
  with t show ?thesis by (auto simp: demo_compose_def)
qed

end
