(* ===== verification/Utf8.thy ===== *)
theory Utf8
  imports Prelude "HOL-Library.List_Lexorder" "HOL-Library.Char_ord"
begin

text \<open>
  Go strings as the code reads them: byte sequences whose \<open>range\<close> loop and \<open>[]rune\<close> conversion decode
  UTF-8, an undecodable byte giving U+FFFD, and whose \<open>string(runes)\<close> conversion encodes it. A rune is
  its code point.
\<close>

section \<open>Decoding\<close>

abbreviation byte_in :: "nat \<Rightarrow> nat \<Rightarrow> nat \<Rightarrow> bool" where
  "byte_in lo b hi \<equiv> lo \<le> b \<and> b \<le> hi"

text \<open>The range of the second byte, by the first one.\<close>

definition second_lo :: "nat \<Rightarrow> nat" where
  "second_lo b0 = (if b0 = 0xE0 then 0xA0 else if b0 = 0xF0 then 0x90 else 0x80)"

definition second_hi :: "nat \<Rightarrow> nat" where
  "second_hi b0 = (if b0 = 0xED then 0x9F else if b0 = 0xF4 then 0x8F else 0xBF)"

fun decode_rune :: "nat list \<Rightarrow> nat \<times> nat" where
  "decode_rune [] = (0xFFFD, 0)"
| "decode_rune (b0 # bs) =
     (if b0 < 0x80 then (b0, 1)
      else case bs of
        [] \<Rightarrow> (0xFFFD, 1)
      | b1 # bs1 \<Rightarrow>
          if \<not> byte_in 0xC2 b0 0xF4 \<or> \<not> byte_in (second_lo b0) b1 (second_hi b0) then (0xFFFD, 1)
          else if b0 < 0xE0 then (b0 mod 32 * 64 + b1 mod 64, 2)
          else case bs1 of
            [] \<Rightarrow> (0xFFFD, 1)
          | b2 # bs2 \<Rightarrow>
              if \<not> byte_in 0x80 b2 0xBF then (0xFFFD, 1)
              else if b0 < 0xF0 then (b0 mod 16 * 4096 + b1 mod 64 * 64 + b2 mod 64, 3)
              else case bs2 of
                [] \<Rightarrow> (0xFFFD, 1)
              | b3 # _ \<Rightarrow>
                  if \<not> byte_in 0x80 b3 0xBF then (0xFFFD, 1)
                  else (b0 mod 8 * 262144 + b1 mod 64 * 4096 + b2 mod 64 * 64 + b3 mod 64, 4))"

lemma decode_rune_width: "0 < snd (decode_rune (b # bs))"
  by (auto split: list.split)

function decode_utf8 :: "nat list \<Rightarrow> nat list" where
  "decode_utf8 [] = []"
| "decode_utf8 (b # bs) =
     (case decode_rune (b # bs) of (r, w) \<Rightarrow> r # decode_utf8 (drop w (b # bs)))"
  by pat_completeness auto

termination
proof (relation "measure length")
  fix b bs r w
  assume "(r, w) = decode_rune (b # bs)"
  then have "0 < w" using decode_rune_width [of b bs] by (metis snd_conv)
  then show "(drop w (b # bs), b # bs) \<in> measure length" by simp
qed simp

section \<open>Encoding\<close>

definition valid_rune :: "nat \<Rightarrow> bool" where
  "valid_rune r \<longleftrightarrow> r < 0xD800 \<or> (0xE000 \<le> r \<and> r \<le> 0x10FFFF)"

definition encode_rune :: "nat \<Rightarrow> nat list" where
  "encode_rune r0 =
     (let r = if valid_rune r0 then r0 else 0xFFFD
      in if r < 0x80 then [r]
         else if r < 0x800 then [0xC0 + r div 64, 0x80 + r mod 64]
         else if r < 0x10000 then [0xE0 + r div 4096, 0x80 + r div 64 mod 64, 0x80 + r mod 64]
         else [0xF0 + r div 262144, 0x80 + r div 4096 mod 64, 0x80 + r div 64 mod 64, 0x80 + r mod 64])"

lemma rune_digits:
  fixes r :: nat
  shows "r div 64 * 64 + r mod 64 = r" "r div 4096 * 64 + r div 64 mod 64 = r div 64"
    "r div 262144 * 64 + r div 4096 mod 64 = r div 4096"
proof -
  have a: "r div 64 div 64 = r div 4096" and b: "r div 4096 div 64 = r div 262144"
    by (simp_all add: div_mult2_eq [symmetric])
  show "r div 64 * 64 + r mod 64 = r" by simp
  show "r div 4096 * 64 + r div 64 mod 64 = r div 64" using div_mult_mod_eq [of "r div 64" 64] by (simp only: a)
  show "r div 262144 * 64 + r div 4096 mod 64 = r div 4096" using div_mult_mod_eq [of "r div 4096" 64] by (simp only: b)
qed

lemma mod_in_range:
  fixes b :: nat
  assumes "m * q \<le> b" and "b < m * Suc q"
  shows "b mod m = b - m * q"
  using div_nat_eqI [OF assms] minus_mult_div_eq_mod [of b m] by simp

lemma continuation_mod: "0x80 \<le> b \<Longrightarrow> b \<le> 0xBF \<Longrightarrow> b mod 64 = b - (0x80 :: nat)"
  using mod_in_range [of 64 2 b] by simp

lemma lead_mod:
  fixes b :: nat
  shows "0xE0 \<le> b \<Longrightarrow> b < 0xF0 \<Longrightarrow> b mod 16 = b - 0xE0" "0xF0 \<le> b \<Longrightarrow> b \<le> 0xF4 \<Longrightarrow> b mod 8 = b - 0xF0"
  using mod_in_range [of 16 14 b] mod_in_range [of 8 30 b] by simp_all

lemma lead_bytes [simp]:
  fixes x :: nat
  shows "x < 32 \<Longrightarrow> (0xC0 + x) mod 32 = x" "x < 16 \<Longrightarrow> (0xE0 + x) mod 16 = x"
    "x < 8 \<Longrightarrow> (0xF0 + x) mod 8 = x" "(0x80 + x) mod 64 = x mod 64"
  using mod_mult_self1 [of x 6 32] mod_mult_self1 [of x 14 16] mod_mult_self1 [of x 30 8] mod_mult_self1 [of x 2 64]
  by (simp_all add: add.commute)

lemma decode_encode_rune:
  assumes "valid_rune r"
  shows "decode_rune (encode_rune r @ bs) = (r, length (encode_rune r))"
proof -
  have m: "r mod 64 < 64" "r div 64 mod 64 < 64" "r div 4096 mod 64 < 64" by simp_all
  note d = rune_digits [of r]
  consider "r < 0x80" | "0x80 \<le> r" "r < 0x800" | "0x800 \<le> r" "r < 0x10000" | "0x10000 \<le> r" "r \<le> 0x10FFFF"
    using assms unfolding valid_rune_def by atomize_elim arith
  then show ?thesis
  proof cases
    case 1
    then show ?thesis using assms by (simp add: encode_rune_def)
  next
    case 2
    then have "2 \<le> r div 64" "r div 64 < 32" using d m by linarith+
    then obtain q where q: "r div 64 = q" "2 \<le> q" "q < 32" by blast
    have "r mod 64 \<le> 63" using m by linarith
    then show ?thesis using assms 2 d q(2,3) by (simp add: encode_rune_def second_lo_def second_hi_def q(1))
  next
    case 3
    obtain a b c where e: "r div 4096 = a" "r div 64 mod 64 = b" "r mod 64 = c" by blast
    have "a < 16" using 3 d m unfolding e by linarith
    moreover have "a = 0 \<Longrightarrow> 32 \<le> b" using 3(1) d m unfolding e by linarith
    moreover have "b < 32" if "a = 13"
    proof -
      from that have "r < 0xE000" using d m unfolding e by linarith
      then have "r < 0xD800" using assms unfolding valid_rune_def by linarith
      then show ?thesis using that d m unfolding e by linarith
    qed
    moreover have "a * 4096 + b * 64 + c = r" using d unfolding e by linarith
    moreover have "b < 64" "c < 64" using m unfolding e by simp_all
    ultimately show ?thesis using assms 3
      by (simp add: encode_rune_def second_lo_def second_hi_def e less_Suc_eq_le [symmetric])
  next
    case 4
    obtain a b c f where e: "r div 262144 = a" "r div 4096 mod 64 = b" "r div 64 mod 64 = c" "r mod 64 = f" by blast
    have "a < 5" using 4 d m unfolding e by linarith
    moreover have "a = 0 \<Longrightarrow> 16 \<le> b" using 4 d m unfolding e by linarith
    moreover have "a = 4 \<Longrightarrow> b < 16" using 4 d m unfolding e by linarith
    moreover have "a * 262144 + b * 4096 + c * 64 + f = r" using d unfolding e by linarith
    moreover have "b < 64" "c < 64" "f < 64" using m unfolding e by simp_all
    ultimately show ?thesis using assms 4
      by (simp add: encode_rune_def second_lo_def second_hi_def e less_Suc_eq_le [symmetric])
  qed
qed

lemma encode_rune_not_Nil [simp]: "encode_rune r \<noteq> []"
  by (simp add: encode_rune_def Let_def)

lemma decode_encode: "\<forall>r \<in> set rs. valid_rune r \<Longrightarrow> decode_utf8 (concat (map encode_rune rs)) = rs"
proof (induction rs)
  case (Cons r rs)
  obtain b bs where b: "encode_rune r = b # bs" by (cases "encode_rune r") auto
  have "decode_rune (encode_rune r @ concat (map encode_rune rs)) = (r, length (encode_rune r))"
    by (rule decode_encode_rune) (use Cons.prems in simp)
  then have "decode_utf8 (encode_rune r @ concat (map encode_rune rs)) = r # decode_utf8 (concat (map encode_rune rs))"
    unfolding b by (simp del: decode_rune.simps)
  with Cons show ?case by simp
qed simp

lemma valid_small [simp]: "r < 0xD800 \<Longrightarrow> valid_rune r" "valid_rune 0xFFFD"
  by (simp_all add: valid_rune_def)

lemma valid_two: "valid_rune (b0 mod 32 * 64 + b1 mod 64)"
proof (rule valid_small(1))
  have "b0 mod 32 < 32" "b1 mod 64 < 64" by simp_all
  then show "b0 mod 32 * 64 + b1 mod 64 < 0xD800" by linarith
qed

lemma valid_three:
  assumes "0xE0 \<le> b0" "b0 < 0xF0" "byte_in (second_lo b0) b1 (second_hi b0)"
  shows "valid_rune (b0 mod 16 * 4096 + b1 mod 64 * 64 + b2 mod 64)"
proof -
  have m: "b1 mod 64 < 64" "b2 mod 64 < 64" by simp_all
  have b: "0x80 \<le> b1" "b1 \<le> 0xBF" "b0 = 0xED \<Longrightarrow> b1 \<le> 0x9F"
    using assms(3) by (auto simp: second_hi_def second_lo_def split: if_splits)
  note e = lead_mod(1) [OF assms(1,2)] continuation_mod [OF b(1,2)]
  consider "b0 < 0xED" | "b0 = 0xED" | "0xEE \<le> b0" by linarith
  then show ?thesis
  proof cases
    case 2
    with b(3) have "b1 mod 64 < 32" unfolding e(2) by linarith
    moreover have "b0 mod 16 = 13" unfolding e(1) using 2 by simp
    ultimately show ?thesis using m unfolding valid_rune_def by linarith
  next
    case 3
    then have "14 \<le> b0 mod 16" "b0 mod 16 < 16" unfolding e(1) using assms(2) by linarith+
    then show ?thesis using m unfolding valid_rune_def by linarith
  next
    case 1
    then have "b0 mod 16 \<le> 12" unfolding e(1) by linarith
    then show ?thesis using m unfolding valid_rune_def by linarith
  qed
qed

lemma valid_four:
  assumes "0xF0 \<le> b0" "b0 \<le> 0xF4" "byte_in (second_lo b0) b1 (second_hi b0)"
  shows "valid_rune (b0 mod 8 * 262144 + b1 mod 64 * 4096 + b2 mod 64 * 64 + b3 mod 64)"
proof -
  have m: "b1 mod 64 < 64" "b2 mod 64 < 64" "b3 mod 64 < 64" by simp_all
  have b: "0x80 \<le> b1" "b1 \<le> 0xBF" "b0 = 0xF4 \<Longrightarrow> b1 \<le> 0x8F" "b0 = 0xF0 \<Longrightarrow> 0x90 \<le> b1"
    using assms(3) by (auto simp: second_hi_def second_lo_def split: if_splits)
  note e = lead_mod(2) [OF assms(1,2)] continuation_mod [OF b(1,2)]
  have "b0 mod 8 = 0 \<Longrightarrow> 16 \<le> b1 mod 64" unfolding e using assms(1) b by linarith
  moreover have "b0 mod 8 = 4 \<Longrightarrow> b1 mod 64 < 16" unfolding e using assms(1) b by linarith
  moreover have "b0 mod 8 \<le> 4" unfolding e using assms(1,2) by linarith
  ultimately show ?thesis using m unfolding valid_rune_def by linarith
qed

lemma decode_rune_valid: "\<forall>b \<in> set bs. b < 256 \<Longrightarrow> valid_rune (fst (decode_rune bs))"
  by (cases bs) (auto simp del: One_nat_def split: list.split intro: valid_two valid_three valid_four)

lemma decode_utf8_valid: "\<forall>b \<in> set bs. b < 256 \<Longrightarrow> r \<in> set (decode_utf8 bs) \<Longrightarrow> valid_rune r"
proof (induction bs rule: decode_utf8.induct)
  case (2 b bs)
  obtain q w where qw: "decode_rune (b # bs) = (q, w)" by fastforce
  have "valid_rune q" using decode_rune_valid [OF 2(2)] by (simp add: qw del: decode_rune.simps)
  moreover have "\<forall>b \<in> set (drop w (b # bs)). b < 256" using 2(2) by (meson in_set_dropD)
  ultimately show ?case using 2(1) [OF qw [symmetric]] 2(3) by (auto simp: qw simp del: decode_rune.simps drop.simps)
qed simp

section \<open>Strings\<close>

definition runes :: "string \<Rightarrow> nat list" where
  "runes s = decode_utf8 (map of_char s)"

definition string_of_runes :: "nat list \<Rightarrow> string" where
  "string_of_runes rs = map char_of (concat (map encode_rune rs))"

lemma encode_rune_byte: "b \<in> set (encode_rune r) \<Longrightarrow> b < 256"
  by (auto simp: encode_rune_def valid_rune_def Let_def split: if_splits)

lemma runes_valid: "r \<in> set (runes s) \<Longrightarrow> valid_rune r"
  unfolding runes_def by (rule decode_utf8_valid [rotated]) auto

lemma runes_string_of_runes: "\<forall>r \<in> set rs. valid_rune r \<Longrightarrow> runes (string_of_runes rs) = rs"
proof -
  assume v: "\<forall>r \<in> set rs. valid_rune r"
  have "map (of_char \<circ> char_of) (concat (map encode_rune rs)) = concat (map encode_rune rs)"
    by (rule map_idI) (auto dest: encode_rune_byte simp: of_char_of)
  then show ?thesis by (simp add: runes_def string_of_runes_def decode_encode [OF v])
qed

lemma runes_prefix [simp]: "runes (string_of_runes (take n (runes s))) = take n (runes s)"
  by (rule runes_string_of_runes) (meson in_set_takeD runes_valid)

text \<open>A rune takes at most four bytes.\<close>

lemma length_decode_utf8: "length bs \<le> 4 * length (decode_utf8 bs)"
proof (induction bs rule: decode_utf8.induct)
  case (2 b bs)
  obtain q w where qw: "decode_rune (b # bs) = (q, w)" by fastforce
  then have "w \<le> 4" by (auto split: list.splits if_splits)
  with 2 [OF qw [symmetric]] show ?case by (simp add: qw del: decode_rune.simps)
qed simp

lemma length_runes: "length s \<le> 4 * length (runes s)"
  using length_decode_utf8 [of "map of_char s"] by (simp add: runes_def)

end
