(* ===== verification/Tokens.thy ===== *)
theory Tokens
  imports KTypes Utf8
begin

text \<open>
  Messages of a conversation and their estimated size in tokens (\<open>context/context.go\<close>,
  \<open>context/tokenizer.go\<close>), and the two ways of cutting a text to a token budget
  (\<open>context/truncate.go\<close>, \<open>context/compact.go\<close>).
\<close>

section \<open>Messages\<close>

text \<open>
  A tool's input is a JSON object; a number is kept as the text Go prints for it. \<open>json_marshal\<close> is
  \<open>json.Marshal\<close> on such values: sorted keys, HTML characters and undecodable bytes escaped.
\<close>

datatype json = JNull | JBool bool | JNum string | JStr string | JArr "json list" | JObj "(string \<times> json) list"

type_synonym Role = string

definition RoleSystem :: Role where "RoleSystem = ''system''"
definition RoleUser :: Role where "RoleUser = ''user''"
definition RoleAssistant :: Role where "RoleAssistant = ''assistant''"
definition RoleTool :: Role where "RoleTool = ''tool''"

lemmas role_defs = RoleSystem_def RoleUser_def RoleAssistant_def RoleTool_def

record ToolCall =
  tc_ID :: string
  tc_Name :: string
  tc_Input :: "(string \<times> json) list"

record ReasoningBlock =
  rb_Type :: string
  rb_Thinking :: string
  rb_Signature :: string
  rb_Data :: string
  rb_ThoughtSignature :: string

record ctx_Message =
  m_Role :: Role
  m_Content :: string
  m_ToolCallID :: string
  m_ToolCalls :: "ToolCall list"
  m_ReasoningBlocks :: "ReasoningBlock list"
  m_Reasoning :: string

definition plain_message :: "Role \<Rightarrow> string \<Rightarrow> ctx_Message" where
  "plain_message role content =
     \<lparr>m_Role = role, m_Content = content, m_ToolCallID = [], m_ToolCalls = [], m_ReasoningBlocks = [], m_Reasoning = []\<rparr>"

section \<open>JSON text\<close>

definition hex_digit :: "nat \<Rightarrow> char" where
  "hex_digit n = char_of (if n < 10 then 48 + n else 87 + n)"

definition u_escape :: "nat \<Rightarrow> string" where
  "u_escape r = [CHR 0x5C, CHR ''u''] @ map (\<lambda>k. hex_digit (r div 16 ^ k mod 16)) [3, 2, 1, 0]"

definition json_escape :: "nat \<times> bool \<Rightarrow> string" where
  "json_escape rv =
     (case rv of (r, ok) \<Rightarrow>
        if \<not> ok then CHR 0x5C # ''ufffd''
        else if r = 34 then [CHR 0x5C, CHR 0x22]
        else if r = 92 then [CHR 0x5C, CHR 0x5C]
        else if r = 8 then CHR 0x5C # ''b''
        else if r = 12 then CHR 0x5C # ''f''
        else if r = 10 then CHR 0x5C # ''n''
        else if r = 13 then CHR 0x5C # ''r''
        else if r = 9 then CHR 0x5C # ''t''
        else if r < 32 \<or> r \<in> {60, 62, 38, 0x2028, 0x2029} then u_escape r
        else map char_of (encode_rune r))"

text \<open>The runes of a string, each with whether its bytes were valid UTF-8.\<close>

function checked_runes :: "nat list \<Rightarrow> (nat \<times> bool) list" where
  "checked_runes [] = []"
| "checked_runes (b # bs) =
     (case decode_rune (b # bs) of (r, w) \<Rightarrow> (r, r \<noteq> 0xFFFD \<or> w \<noteq> 1) # checked_runes (drop w (b # bs)))"
  by pat_completeness auto

termination
proof (relation "measure length")
  fix b bs r w
  assume "(r, w) = decode_rune (b # bs)"
  then have "0 < w" using decode_rune_width [of b bs] by (metis snd_conv)
  then show "(drop w (b # bs), b # bs) \<in> measure length" by simp
qed simp

definition json_string :: "string \<Rightarrow> string" where
  "json_string s = [CHR 0x22] @ concat (map json_escape (checked_runes (map of_char s))) @ [CHR 0x22]"

definition commas :: "string list \<Rightarrow> string" where
  "commas ss = (case ss of [] \<Rightarrow> [] | s # rest \<Rightarrow> s @ concat (map (\<lambda>t. CHR '','' # t) rest))"

primrec json_marshal :: "json \<Rightarrow> string"
  and json_marshal_list :: "json list \<Rightarrow> string list"
  and json_marshal_fields :: "(string \<times> json) list \<Rightarrow> (string \<times> string) list"
  and json_marshal_field :: "string \<times> json \<Rightarrow> string \<times> string" where
  "json_marshal JNull = ''null''"
| "json_marshal (JBool b) = (if b then ''true'' else ''false'')"
| "json_marshal (JNum n) = n"
| "json_marshal (JStr s) = json_string s"
| "json_marshal (JArr vs) = ''['' @ commas (json_marshal_list vs) @ '']''"
| "json_marshal (JObj fs) = ''{'' @ commas (map (\<lambda>(k, v). json_string k @ '':'' @ v) (sort_key fst (json_marshal_fields fs))) @ ''}''"
| "json_marshal_list [] = []"
| "json_marshal_list (v # vs) = json_marshal v # json_marshal_list vs"
| "json_marshal_fields [] = []"
| "json_marshal_fields (f # fs) = json_marshal_field f # json_marshal_fields fs"
| "json_marshal_field (k, v) = (k, json_marshal v)"

section \<open>Counting tokens\<close>

text \<open>
  \<open>math.Ceil(ascii/3.5 + other/1.5)\<close> is the ceiling of (6 ascii + 14 other) / 21. The quotients are
  computed in floating point, but the sum is an integer only if both are exact, so below 2^40 runes rounding cannot
  cross an integer.
\<close>

definition tokens_of :: "nat list \<Rightarrow> int" where
  "tokens_of rs =
     (let asciiBytes = length (filter (\<lambda>r. r < 128) rs); nonASCIIRunes = length (filter (\<lambda>r. \<not> r < 128) rs)
      in int ((6 * asciiBytes + 14 * nonASCIIRunes + 20) div 21))"

definition EstimateTokens :: "string \<Rightarrow> int" where
  "EstimateTokens text = (if text = [] then 0 else tokens_of (runes text))"

definition tool_call_tokens :: "ToolCall \<Rightarrow> int" where
  "tool_call_tokens tc =
     EstimateTokens (tc_ID tc) + EstimateTokens (tc_Name tc) +
     (if tc_Input tc = [] then 0 else EstimateTokens (json_marshal (JObj (tc_Input tc))))"

definition reasoning_tokens :: "ReasoningBlock \<Rightarrow> int" where
  "reasoning_tokens rb = EstimateTokens (rb_Type rb) + EstimateTokens (rb_Thinking rb) + EstimateTokens (rb_Data rb)"

definition EstimateMessageTokens :: "ctx_Message \<Rightarrow> int" where
  "EstimateMessageTokens msg =
     EstimateTokens (m_Content msg) + EstimateTokens (m_Reasoning msg) + EstimateTokens (m_ToolCallID msg) +
     sum_list (map tool_call_tokens (m_ToolCalls msg)) + sum_list (map reasoning_tokens (m_ReasoningBlocks msg))"

definition estimateMessagesTokens :: "ctx_Message list \<Rightarrow> int" where
  "estimateMessagesTokens msgs = sum_list (map EstimateMessageTokens msgs)"

lemma tokens_of_Nil [simp]: "tokens_of [] = 0"
  by (simp add: tokens_of_def)

lemma EstimateTokens_runes: "EstimateTokens text = tokens_of (runes text)"
  by (simp add: EstimateTokens_def runes_def)

lemma tokens_of_append: "tokens_of rs \<le> tokens_of (rs @ ss)"
  by (simp add: tokens_of_def Let_def div_le_mono)

lemma tokens_of_take: "m \<le> n \<Longrightarrow> tokens_of (take m rs) \<le> tokens_of (take n rs)"
  using tokens_of_append [of "take m rs" "drop m (take n rs)"] by (metis append_take_drop_id min.absorb1 take_take)

lemma EstimateTokens_nonneg [simp]: "0 \<le> EstimateTokens text"
  by (simp add: EstimateTokens_def tokens_of_def Let_def)

lemma EstimateMessageTokens_nonneg [simp]: "0 \<le> EstimateMessageTokens msg"
  unfolding EstimateMessageTokens_def
  by (intro add_nonneg_nonneg sum_list_nonneg) (auto simp: tool_call_tokens_def reasoning_tokens_def)

lemma token_bytes:
  fixes a n q m :: nat
  assumes "q * 21 + m = 6 * a + 14 * n + 20" and "m < 21"
  shows "4 * (a + n) \<le> 14 * q"
  using assms by (simp add: algebra_simps)

text \<open>A token stands for at most 14 bytes, so a long text is worth many.\<close>

lemma EstimateTokens_long: "int (length text) \<le> 14 * EstimateTokens text"
proof -
  let ?a = "length (filter (\<lambda>r. r < 128) (runes text))" and ?n = "length (filter (\<lambda>r. \<not> r < 128) (runes text))"
  have "?a + ?n = length (runes text)" by (rule sum_length_filter_compl)
  then have "length text \<le> 4 * (?a + ?n)" using length_runes [of "text"] by simp
  moreover have "4 * (?a + ?n) \<le> 14 * ((6 * ?a + 14 * ?n + 20) div 21)"
    by (rule token_bytes [OF div_mult_mod_eq]) simp
  ultimately have "length text \<le> 14 * ((6 * ?a + 14 * ?n + 20) div 21)" by (rule le_trans)
  then show ?thesis unfolding EstimateTokens_runes tokens_of_def Let_def by linarith
qed

section \<open>Cutting a text\<close>

text \<open>The binary search of \<open>truncateToTokens\<close> for the number of runes that still fit.\<close>

function cut_search :: "nat list \<Rightarrow> int \<Rightarrow> nat \<Rightarrow> nat \<Rightarrow> nat" where
  "cut_search rs maxTokens lo hi =
     (if lo < hi
      then let mid = (lo + hi + 1) div 2
           in if EstimateTokens (string_of_runes (take mid rs)) \<le> maxTokens
              then cut_search rs maxTokens mid hi else cut_search rs maxTokens lo (mid - 1)
      else lo)"
  by pat_completeness auto

termination
  by (relation "measure (\<lambda>(rs, maxTokens, lo, hi). hi - lo)") auto

declare cut_search.simps [simp del]

definition truncateToTokens :: "string \<Rightarrow> int \<Rightarrow> string" where
  "truncateToTokens text maxTokens =
     (if maxTokens \<le> 0 then []
      else if EstimateTokens text \<le> maxTokens then text
      else let rs = runes text; lo = cut_search rs maxTokens 0 (length rs)
           in if lo = 0 then [] else string_of_runes (take lo rs))"

text \<open>
  \<open>TruncateResult\<close> starts from \<open>scale (length of the text) maxTokens tokens\<close>, the floating-point product
  of the length and the ratio of the two token counts rounded down, and steps back until the text fits.
\<close>

function step_back :: "nat list \<Rightarrow> int \<Rightarrow> nat \<Rightarrow> nat" where
  "step_back rs maxTokens cutIdx =
     (if maxTokens < EstimateTokens (string_of_runes (take cutIdx rs)) \<and> 0 < cutIdx
      then step_back rs maxTokens (cutIdx - max (cutIdx div 10) 1) else cutIdx)"
  by pat_completeness auto

termination
  by (relation "measure (\<lambda>(rs, maxTokens, cutIdx). cutIdx)") auto

declare step_back.simps [simp del]

definition TruncateResult :: "(nat \<Rightarrow> int \<Rightarrow> int \<Rightarrow> nat) \<Rightarrow> string \<Rightarrow> int \<Rightarrow> string \<times> bool" where
  "TruncateResult scale content maxTokens =
     (if maxTokens \<le> 0 \<or> content = [] then (content, False)
      else let tokens = EstimateTokens content
           in if tokens \<le> maxTokens then (content, False)
              else let rs = runes content; cutIdx = min (scale (length rs) maxTokens tokens) (length rs)
                   in (string_of_runes (take (step_back rs maxTokens cutIdx) rs), True))"

lemma cut_search_max:
  assumes "tokens_of (take lo rs) \<le> m" and "\<And>k. hi < k \<Longrightarrow> k \<le> length rs \<Longrightarrow> m < tokens_of (take k rs)"
    and "lo \<le> hi" and "hi \<le> length rs" and "\<And>k. EstimateTokens (string_of_runes (take k rs)) = tokens_of (take k rs)"
  shows "tokens_of (take (cut_search rs m lo hi) rs) \<le> m \<and>
    (\<forall>k. cut_search rs m lo hi < k \<longrightarrow> k \<le> length rs \<longrightarrow> m < tokens_of (take k rs)) \<and> cut_search rs m lo hi \<le> length rs"
  using assms
proof (induction rs m lo hi rule: cut_search.induct)
  case (1 rs m lo hi)
  show ?case
  proof (cases "lo < hi")
    case True
    let ?mid = "(lo + hi + 1) div 2"
    have mid: "lo < ?mid" "?mid \<le> hi" using True by simp_all
    show ?thesis
    proof (cases "tokens_of (take ?mid rs) \<le> m")
      case fits: True
      then have "cut_search rs m lo hi = cut_search rs m ?mid hi"
        using True 1(7) by (subst cut_search.simps) (simp add: Let_def)
      with 1(1) [OF True refl _ fits 1(4) mid(2) 1(6,7)] fits 1(7) show ?thesis by simp
    next
      case False
      then have e: "cut_search rs m lo hi = cut_search rs m lo (?mid - 1)"
        using True 1(7) by (subst cut_search.simps) (simp add: Let_def)
      have above: "m < tokens_of (take k rs)" if "?mid - 1 < k" for k
        using False tokens_of_take [of ?mid k rs] that by linarith
      have "lo \<le> ?mid - 1" "?mid - 1 \<le> length rs" using mid 1(6) by linarith+
      with 1(2) [OF True refl _ 1(3) above this 1(7)] False 1(7) show ?thesis unfolding e by simp
    qed
  next
    case False
    then have "lo = hi" "cut_search rs m lo hi = lo" using 1(5) by (simp_all add: cut_search.simps)
    with 1(3,4,6) show ?thesis by simp
  qed
qed

lemma step_back_fits: "0 \<le> m \<Longrightarrow> step_back rs m n \<le> n \<and> EstimateTokens (string_of_runes (take (step_back rs m n) rs)) \<le> m"
proof (induction rs m n rule: step_back.induct)
  case (1 rs m n)
  show ?case
  proof (cases "m < EstimateTokens (string_of_runes (take n rs)) \<and> 0 < n")
    case True
    with 1 show ?thesis by (subst (1 2) step_back.simps) (auto intro: le_trans)
  next
    case False
    with 1(2) show ?thesis by (subst (1 2) step_back.simps) (auto simp: EstimateTokens_def string_of_runes_def not_less)
  qed
qed

text \<open>
  Cutting a text to a token budget keeps the longest prefix of its characters that fits: the text
  itself if it fits, otherwise a cut after which one more character would be over the budget.
\<close>

lemma truncation_keeps_longest_prefix:
  assumes "0 < maxTokens"
  shows "EstimateTokens (truncateToTokens text maxTokens) \<le> maxTokens \<and>
    (EstimateTokens text \<le> maxTokens \<longrightarrow> truncateToTokens text maxTokens = text) \<and>
    (\<exists>n \<le> length (runes text). runes (truncateToTokens text maxTokens) = take n (runes text) \<and>
       (\<forall>k. n < k \<longrightarrow> k \<le> length (runes text) \<longrightarrow> maxTokens < EstimateTokens (string_of_runes (take k (runes text)))))"
proof (cases "EstimateTokens text \<le> maxTokens")
  case True
  with assms show ?thesis by (auto simp: truncateToTokens_def intro!: exI [of _ "length (runes text)"])
next
  case False
  let ?rs = "runes text" and ?n = "cut_search (runes text) maxTokens 0 (length (runes text))"
  have e: "EstimateTokens (string_of_runes (take k ?rs)) = tokens_of (take k ?rs)" for k
    by (simp add: EstimateTokens_runes)
  have t: "truncateToTokens text maxTokens = string_of_runes (take ?n ?rs)"
    using assms False by (simp add: truncateToTokens_def Let_def string_of_runes_def)
  have "tokens_of (take ?n ?rs) \<le> maxTokens \<and> (\<forall>k. ?n < k \<longrightarrow> k \<le> length ?rs \<longrightarrow> maxTokens < tokens_of (take k ?rs)) \<and> ?n \<le> length ?rs"
    by (rule cut_search_max) (use assms e in simp_all)
  with False show ?thesis unfolding t e by (intro conjI exI [of _ ?n]) auto
qed

end
