(* ===== verification/ContextMgr.thy ===== *)
theory ContextMgr
  imports Tokens
begin

text \<open>
  The context manager (\<open>context/context.go\<close>, \<open>context/section.go\<close>): conversation contexts with an optional
  ceiling on their messages, and the sections a system prompt is built from. Each operation takes the
  context's lock for its whole body, so it is one step here. Formatting, percentages and JSON text
  are left out: a snapshot is the structure that is marshalled, a write the outcome of parsing its bytes.
\<close>

section \<open>Prompt sections\<close>

text \<open>A section's function reads the surrounding state \<open>'e\<close>; \<open>None\<close> is a panic, which is recovered.\<close>

record 'e PromptSection =
  ps_Name :: string
  ps_ComputeFn :: "'e \<Rightarrow> string option"
  ps_Cached :: bool
  ps_value :: string
  ps_computed :: bool

type_synonym 'e SectionRegistry = "'e PromptSection list"

definition Register :: "string \<Rightarrow> ('e \<Rightarrow> string option) \<Rightarrow> bool \<Rightarrow> 'e SectionRegistry \<Rightarrow> 'e SectionRegistry" where
  "Register name f cached r =
     r @ [\<lparr>ps_Name = name, ps_ComputeFn = f, ps_Cached = cached, ps_value = [], ps_computed = False\<rparr>]"

definition computeSection :: "'e \<Rightarrow> 'e PromptSection \<Rightarrow> string" where
  "computeSection e s = (case ps_ComputeFn s e of None \<Rightarrow> [] | Some v \<Rightarrow> v)"

definition section_value :: "'e \<Rightarrow> 'e PromptSection \<Rightarrow> string" where
  "section_value e s = (if ps_Cached s \<and> ps_computed s then ps_value s else computeSection e s)"

definition store_section :: "'e \<Rightarrow> 'e PromptSection \<Rightarrow> 'e PromptSection" where
  "store_section e s =
     (if \<not> (ps_Cached s \<and> ps_computed s) \<and> ps_Cached s
      then s\<lparr>ps_value := section_value e s, ps_computed := True\<rparr> else s)"

definition join_parts :: "string list \<Rightarrow> string" where
  "join_parts parts = (case parts of [] \<Rightarrow> [] | p # ps \<Rightarrow> p @ concat (map (\<lambda>q. [CHR 0x0A, CHR 0x0A] @ q) ps))"

definition sections_Build :: "'e \<Rightarrow> 'e SectionRegistry \<Rightarrow> string \<times> 'e SectionRegistry" where
  "sections_Build e r = (join_parts (filter (\<lambda>v. v \<noteq> []) (map (section_value e) r)), map (store_section e) r)"

definition sections_Invalidate :: "'e SectionRegistry \<Rightarrow> 'e SectionRegistry" where
  "sections_Invalidate r = map (\<lambda>s. if ps_Cached s then s\<lparr>ps_value := [], ps_computed := False\<rparr> else s) r"

section \<open>Contexts\<close>

record 'e Context =
  cx_ID :: CtxID
  cx_SystemPrompt :: string
  cx_Sections :: "'e SectionRegistry option"
  cx_Messages :: "ctx_Message list"
  cx_MaxSize :: int
  cx_TokenLimit :: int

text \<open>\<open>snap_Messages\<close> is \<open>None\<close> where the JSON text has \<open>null\<close> or no messages field.\<close>

record contextSnapshot =
  snap_SystemPrompt :: string
  snap_Messages :: "ctx_Message list option"
  snap_MaxSize :: int

record 'e Manager =
  mgr_contexts :: "CtxID \<Rightarrow> 'e Context option"
  mgr_nextID :: nat

text \<open>\<open>ce_Full\<close>: the error wraps \<open>ErrContextFull\<close>.\<close>

datatype ContextError = ContextError (ce_Op: string) (ce_CID: CtxID) (ce_Code: ErrCode) (ce_Full: bool)

definition DefaultTokenLimit :: int where "DefaultTokenLimit = 200000"
definition unlimitedSlots :: int where "unlimitedSlots = 2147483647"

definition effectiveTokenLimit :: "'e Context \<Rightarrow> int" where
  "effectiveTokenLimit c = (if 0 < cx_TokenLimit c then cx_TokenLimit c else DefaultTokenLimit)"

definition NewManager :: "'e Manager" where
  "NewManager = \<lparr>mgr_contexts = (\<lambda>_. None), mgr_nextID = 0\<rparr>"

definition CtxAlloc :: "int \<Rightarrow> 'e Manager \<Rightarrow> CtxID \<times> 'e Manager" where
  "CtxAlloc sz m =
     (let sz' = if sz < 0 then 0 else sz; id = mgr_nextID m + 1;
          c = \<lparr>cx_ID = id, cx_SystemPrompt = [], cx_Sections = None, cx_Messages = [], cx_MaxSize = sz', cx_TokenLimit = 0\<rparr>
      in (id, m\<lparr>mgr_nextID := id, mgr_contexts := (mgr_contexts m)(id \<mapsto> c)\<rparr>))"

definition CtxFree :: "CtxID \<Rightarrow> 'e Manager \<Rightarrow> (ContextError + unit) \<times> 'e Manager" where
  "CtxFree cid m =
     (case mgr_contexts m cid of
        None \<Rightarrow> (Inl (ContextError ''CtxFree'' cid ErrNotFound False), m)
      | Some _ \<Rightarrow> (Inr (), m\<lparr>mgr_contexts := (mgr_contexts m)(cid := None)\<rparr>))"

definition getContext :: "string \<Rightarrow> CtxID \<Rightarrow> 'e Manager \<Rightarrow> ContextError + 'e Context" where
  "getContext op cid m =
     (case mgr_contexts m cid of None \<Rightarrow> Inl (ContextError op cid ErrNotFound False) | Some c \<Rightarrow> Inr c)"

definition put_context :: "CtxID \<Rightarrow> 'e Context \<Rightarrow> 'e Manager \<Rightarrow> 'e Manager" where
  "put_context cid c m = m\<lparr>mgr_contexts := (mgr_contexts m)(cid \<mapsto> c)\<rparr>"

text \<open>An operation on one context: its body is given the context and returns the updated one.\<close>

definition on_context ::
  "string \<Rightarrow> CtxID \<Rightarrow> ('e Context \<Rightarrow> (ContextError + 'r) \<times> 'e Context) \<Rightarrow> 'e Manager \<Rightarrow> (ContextError + 'r) \<times> 'e Manager" where
  "on_context op cid f m =
     (case getContext op cid m of
        Inl err \<Rightarrow> (Inl err, m)
      | Inr c \<Rightarrow> (case f c of (r, c') \<Rightarrow> (r, put_context cid c' m)))"

definition SetTokenLimit :: "CtxID \<Rightarrow> int \<Rightarrow> 'e Manager \<Rightarrow> (ContextError + unit) \<times> 'e Manager" where
  "SetTokenLimit cid limit = on_context ''SetTokenLimit'' cid (\<lambda>c. (Inr (), c\<lparr>cx_TokenLimit := limit\<rparr>))"

definition Serialize :: "'e Context \<Rightarrow> contextSnapshot" where
  "Serialize c = \<lparr>snap_SystemPrompt = cx_SystemPrompt c, snap_Messages = Some (cx_Messages c), snap_MaxSize = cx_MaxSize c\<rparr>"

definition Deserialize :: "contextSnapshot \<Rightarrow> 'e Context \<Rightarrow> 'e Context" where
  "Deserialize snap c =
     c\<lparr>cx_SystemPrompt := snap_SystemPrompt snap,
       cx_Messages := (case snap_Messages snap of None \<Rightarrow> [] | Some msgs \<Rightarrow> msgs), cx_MaxSize := 0\<rparr>"

definition is_full :: "'e Context \<Rightarrow> bool" where
  "is_full c \<longleftrightarrow> 0 < cx_MaxSize c \<and> cx_MaxSize c \<le> int (length (cx_Messages c))"

text \<open>The bytes of a write are given as the message they parse to, \<open>None\<close> if they do not parse.\<close>

definition CtxWrite :: "CtxID \<Rightarrow> int \<Rightarrow> ctx_Message option \<Rightarrow> 'e Manager \<Rightarrow> (ContextError + unit) \<times> 'e Manager" where
  "CtxWrite cid offset parsed =
     on_context ''CtxWrite'' cid (\<lambda>c.
       case parsed of
         None \<Rightarrow> (Inl (ContextError ''CtxWrite'' cid ErrInternal False), c)
       | Some msg \<Rightarrow>
           if offset = 0
           then if is_full c then (Inl (ContextError ''CtxWrite'' cid ErrInternal False), c)
                else (Inr (), c\<lparr>cx_Messages := cx_Messages c @ [msg]\<rparr>)
           else if offset < 1 \<or> int (length (cx_Messages c)) < offset
           then (Inl (ContextError ''CtxWrite'' cid ErrInternal False), c)
           else (Inr (), c\<lparr>cx_Messages := (cx_Messages c)[nat (offset - 1) := msg]\<rparr>))"

text \<open>The window a read takes of the messages; \<open>None\<close> is the panic of a slice out of range.\<close>

definition read_window :: "int \<Rightarrow> int \<Rightarrow> 'a list \<Rightarrow> 'a list option" where
  "read_window offset len msgs =
     (if 0 < offset \<or> 0 < len
      then let start = min offset (int (length msgs));
               stop = (if 0 < len \<and> i64 (start + len) < int (length msgs) then i64 (start + len) else int (length msgs))
           in if start < 0 \<or> stop < start then None else Some (drop (nat start) (take (nat stop) msgs))
      else Some msgs)"

definition CtxRead :: "CtxID \<Rightarrow> int \<Rightarrow> int \<Rightarrow> 'e Manager \<Rightarrow> (ContextError + string \<times> ctx_Message list) option" where
  "CtxRead cid offset len m =
     (case getContext ''CtxRead'' cid m of
        Inl err \<Rightarrow> Some (Inl err)
      | Inr c \<Rightarrow> map_option (\<lambda>msgs. Inr (cx_SystemPrompt c, msgs)) (read_window offset len (cx_Messages c)))"

definition SetSystemPrompt :: "CtxID \<Rightarrow> string \<Rightarrow> 'e Manager \<Rightarrow> (ContextError + unit) \<times> 'e Manager" where
  "SetSystemPrompt cid prompt = on_context ''SetSystemPrompt'' cid (\<lambda>c. (Inr (), c\<lparr>cx_SystemPrompt := prompt\<rparr>))"

definition SetSections :: "CtxID \<Rightarrow> 'e SectionRegistry option \<Rightarrow> 'e Manager \<Rightarrow> (ContextError + unit) \<times> 'e Manager" where
  "SetSections cid sections = on_context ''SetSections'' cid (\<lambda>c. (Inr (), c\<lparr>cx_Sections := sections\<rparr>))"

definition InvalidateSections :: "CtxID \<Rightarrow> 'e Manager \<Rightarrow> (ContextError + unit) \<times> 'e Manager" where
  "InvalidateSections cid =
     on_context ''InvalidateSections'' cid (\<lambda>c. (Inr (), c\<lparr>cx_Sections := map_option sections_Invalidate (cx_Sections c)\<rparr>))"

definition AppendMessage :: "CtxID \<Rightarrow> Role \<Rightarrow> string \<Rightarrow> 'e Manager \<Rightarrow> (ContextError + unit) \<times> 'e Manager" where
  "AppendMessage cid role content =
     on_context ''AppendMessage'' cid (\<lambda>c.
       if is_full c then (Inl (ContextError ''AppendMessage'' cid ErrInternal False), c)
       else (Inr (), c\<lparr>cx_Messages := cx_Messages c @ [plain_message role content]\<rparr>))"

definition AppendToolResult :: "CtxID \<Rightarrow> string \<Rightarrow> string \<Rightarrow> 'e Manager \<Rightarrow> (ContextError + unit) \<times> 'e Manager" where
  "AppendToolResult cid toolCallID content =
     on_context ''AppendToolResult'' cid (\<lambda>c.
       if is_full c then (Inl (ContextError ''AppendToolResult'' cid ErrInternal False), c)
       else (Inr (), c\<lparr>cx_Messages := cx_Messages c @ [(plain_message RoleTool content)\<lparr>m_ToolCallID := toolCallID\<rparr>]\<rparr>))"

definition AppendAssistantWithToolCalls ::
  "CtxID \<Rightarrow> string \<Rightarrow> string \<Rightarrow> ReasoningBlock list \<Rightarrow> ToolCall list \<Rightarrow> 'e Manager \<Rightarrow> (ContextError + unit) \<times> 'e Manager" where
  "AppendAssistantWithToolCalls cid content reasoning reasoningBlocks toolCalls =
     on_context ''AppendAssistantWithToolCalls'' cid (\<lambda>c.
       let required = 1 + int (length toolCalls)
       in if 0 < cx_MaxSize c \<and> cx_MaxSize c < int (length (cx_Messages c)) + required
          then (Inl (ContextError ''AppendAssistantWithToolCalls'' cid ErrInternal True), c)
          else (Inr (), c\<lparr>cx_Messages := cx_Messages c @
                 [(plain_message RoleAssistant content)\<lparr>m_ToolCalls := toolCalls, m_ReasoningBlocks := reasoningBlocks,
                    m_Reasoning := reasoning\<rparr>]\<rparr>))"

definition build_system :: "'e \<Rightarrow> 'e Context \<Rightarrow> string \<times> 'e Context" where
  "build_system e c =
     (case cx_Sections c of
        None \<Rightarrow> (cx_SystemPrompt c, c)
      | Some r \<Rightarrow> (case sections_Build e r of (s, r') \<Rightarrow> (s, c\<lparr>cx_Sections := Some r'\<rparr>)))"

definition BuildPrompt :: "'e \<Rightarrow> CtxID \<Rightarrow> 'e Manager \<Rightarrow> (ContextError + string \<times> ctx_Message list) \<times> 'e Manager" where
  "BuildPrompt e cid =
     on_context ''BuildPrompt'' cid (\<lambda>c. case build_system e c of (s, c') \<Rightarrow> (Inr (s, cx_Messages c), c'))"

definition AvailableSlots :: "CtxID \<Rightarrow> 'e Manager \<Rightarrow> ContextError + int" where
  "AvailableSlots cid m =
     (case getContext ''AvailableSlots'' cid m of
        Inl err \<Rightarrow> Inl err
      | Inr c \<Rightarrow> Inr (if cx_MaxSize c \<le> 0 then unlimitedSlots else cx_MaxSize c - int (length (cx_Messages c))))"

definition SlotUsage :: "CtxID \<Rightarrow> 'e Manager \<Rightarrow> ContextError + nat \<times> int" where
  "SlotUsage cid m =
     (case getContext ''SlotUsage'' cid m of
        Inl err \<Rightarrow> Inl err
      | Inr c \<Rightarrow> Inr (length (cx_Messages c), cx_MaxSize c))"

record TokenStats =
  tst_Used :: int
  tst_Limit :: int
  tst_SlotUsed :: nat
  tst_SlotMax :: int

definition TokenUsage :: "'e \<Rightarrow> CtxID \<Rightarrow> 'e Manager \<Rightarrow> (ContextError + TokenStats) \<times> 'e Manager" where
  "TokenUsage e cid =
     on_context ''TokenUsage'' cid (\<lambda>c. case build_system e c of (s, c') \<Rightarrow>
       (Inr \<lparr>tst_Used = EstimateTokens s + estimateMessagesTokens (cx_Messages c), tst_Limit = effectiveTokenLimit c,
             tst_SlotUsed = length (cx_Messages c), tst_SlotMax = cx_MaxSize c\<rparr>, c'))"

section \<open>Basic facts\<close>

lemma getContext_simps [simp]:
  "mgr_contexts m cid = Some c \<Longrightarrow> getContext op cid m = Inr c"
  "mgr_contexts m cid = None \<Longrightarrow> getContext op cid m = Inl (ContextError op cid ErrNotFound False)"
  by (simp_all add: getContext_def)

lemma put_context_contexts [simp]: "mgr_contexts (put_context cid c m) = (mgr_contexts m)(cid \<mapsto> c)"
  by (simp add: put_context_def)

lemma put_put_context [simp]: "put_context cid c (put_context cid c' m) = put_context cid c m"
  by (simp add: put_context_def)

lemma on_context_Some: "mgr_contexts m cid = Some c \<Longrightarrow> on_context op cid f m = (fst (f c), put_context cid (snd (f c)) m)"
  by (simp add: on_context_def split: prod.split)

text \<open>The manager as a key-value store of contexts.\<close>

interpretation ctx_store: kv_store mgr_contexts put_context "\<lambda>cid m. snd (CtxFree cid m)"
  by unfold_locales (auto simp: CtxFree_def split: option.split)

section \<open>A tool round\<close>

definition append_results :: "CtxID \<Rightarrow> (string \<times> string) list \<Rightarrow> 'e Manager \<Rightarrow> 'e Manager option" where
  "append_results cid results m =
     fold_opt (\<lambda>(id, content) m. case AppendToolResult cid id content m of (Inr _, m') \<Rightarrow> Some m' | (Inl _, m') \<Rightarrow> None) results m"

definition tool_message :: "string \<times> string \<Rightarrow> ctx_Message" where
  "tool_message ic = (plain_message RoleTool (snd ic))\<lparr>m_ToolCallID := fst ic\<rparr>"

lemma append_results_room:
  "mgr_contexts m cid = Some c \<Longrightarrow> cx_MaxSize c \<le> 0 \<or> int (length (cx_Messages c) + length results) \<le> cx_MaxSize c \<Longrightarrow>
   \<exists>m'. append_results cid results m = Some m' \<and>
     mgr_contexts m' cid = Some (c\<lparr>cx_Messages := cx_Messages c @ map tool_message results\<rparr>)"
proof (induction results arbitrary: m c)
  case (Cons ic results)
  obtain id content where ic: "ic = (id, content)" by (cases ic)
  have nf: "\<not> is_full c" using Cons.prems(2) by (auto simp: is_full_def)
  let ?c = "c\<lparr>cx_Messages := cx_Messages c @ [tool_message ic]\<rparr>"
  have a: "AppendToolResult cid id content m = (Inr (), put_context cid ?c m)"
    by (simp add: AppendToolResult_def on_context_Some [OF Cons.prems(1)] nf tool_message_def ic)
  have "mgr_contexts (put_context cid ?c m) cid = Some ?c" by simp
  from Cons.IH [OF this] Cons.prems(2) show ?case
    by (auto simp: append_results_def ic a)
qed (simp add: append_results_def)

text \<open>
  An assistant message with tool calls is written only if every one of its results will fit: when the
  call succeeds, appending one result per call, whatever it says, succeeds as well and leaves the
  messages in order; when the context cannot take them all, the call fails with the context-full error
  and nothing is written.
\<close>

lemma tool_round_is_atomic:
  assumes "mgr_contexts m cid = Some c" and "length results = length toolCalls"
  shows "case AppendAssistantWithToolCalls cid content reasoning blocks toolCalls m of
      (Inr _, m1) \<Rightarrow>
        (\<exists>m2. append_results cid results m1 = Some m2 \<and>
          (\<exists>c2 asst. mgr_contexts m2 cid = Some c2 \<and> m_Role asst = RoleAssistant \<and> m_ToolCalls asst = toolCalls \<and>
            cx_Messages c2 = cx_Messages c @ [asst] @ map tool_message results))
    | (Inl err, m1) \<Rightarrow> ce_Full err \<and> mgr_contexts m1 = mgr_contexts m \<and> 0 < cx_MaxSize c \<and>
        cx_MaxSize c < int (length (cx_Messages c) + 1 + length toolCalls)"
proof (cases "0 < cx_MaxSize c \<and> cx_MaxSize c < int (length (cx_Messages c)) + (1 + int (length toolCalls))")
  case True
  then show ?thesis using assms(1)
    by (auto simp: AppendAssistantWithToolCalls_def on_context_Some [OF assms(1)] Let_def fun_upd_idem)
next
  case False
  let ?a = "(plain_message RoleAssistant content)\<lparr>m_ToolCalls := toolCalls, m_ReasoningBlocks := blocks, m_Reasoning := reasoning\<rparr>"
  let ?c = "c\<lparr>cx_Messages := cx_Messages c @ [?a]\<rparr>"
  have e: "AppendAssistantWithToolCalls cid content reasoning blocks toolCalls m = (Inr (), put_context cid ?c m)"
    using False by (simp add: AppendAssistantWithToolCalls_def on_context_Some [OF assms(1)])
  have "mgr_contexts (put_context cid ?c m) cid = Some ?c" by simp
  from append_results_room [OF this, of results] False assms(2) show ?thesis
    unfolding e by (auto simp: plain_message_def)
qed

definition demo_call :: ToolCall where
  "demo_call = \<lparr>tc_ID = ''t1'', tc_Name = ''read'', tc_Input = []\<rparr>"

definition demo_mgr :: "unit Manager" where
  "demo_mgr = snd (AppendMessage 1 RoleUser ''hi'' (snd (CtxAlloc 3 NewManager)))"

end
