(* ===== verification/Prune.thy ===== *)
theory Prune
  imports ContextMgr
begin

text \<open>
  Mechanical reclamation (\<open>context/prune.go\<close>, \<open>context/compact.go\<close>): clearing large cold tool results in
  place, and dropping the oldest rounds of a conversation whole.
\<close>

section \<open>Zones\<close>

definition MinActiveWindow :: nat where "MinActiveWindow = 4"
definition MinWarmWindow :: nat where "MinWarmWindow = 6"
definition LeakedThreshold :: nat where "LeakedThreshold = 1000"
definition minMessagesForCompact :: nat where "minMessagesForCompact = 2"

definition ActiveWindowSize :: "nat \<Rightarrow> nat" where
  "ActiveWindowSize n = (let adaptive = n div 5 in if MinActiveWindow < adaptive then adaptive else MinActiveWindow)"

definition WarmWindowSize :: "nat \<Rightarrow> nat" where
  "WarmWindowSize n = (let adaptive = n * 3 div 10 in if MinWarmWindow < adaptive then adaptive else MinWarmWindow)"

text \<open>Subtraction of naturals stops at 0, as \<open>max(0, ...)\<close> does.\<close>

definition ColdZoneEnd :: "nat \<Rightarrow> nat" where
  "ColdZoneEnd n = (let activeStart = n - ActiveWindowSize n in activeStart - WarmWindowSize n)"

definition IsLeakedToolResult :: "ctx_Message \<Rightarrow> bool" where
  "IsLeakedToolResult msg \<longleftrightarrow> m_Role msg = RoleTool \<and> LeakedThreshold < length (m_Content msg)"

section \<open>Clearing tool results\<close>

definition DefaultPrunePlaceholder :: string where
  "DefaultPrunePlaceholder = ''[tool output cleared to free context]''"

definition droppedHistoryMarker :: string where
  "droppedHistoryMarker = ''[earlier conversation history dropped to free context]''"

record PruneOpts =
  po_TargetTokens :: int
  po_MinTokens :: int
  po_ClearAtLeast :: int
  po_Placeholder :: string

record PruneResult =
  pr_Pruned :: nat
  pr_TokensFreed :: int
  pr_CandidateTokens :: int
  pr_ReleasableTokens :: int
  pr_SlotsFreed :: int

definition with_content :: "string \<Rightarrow> ctx_Message \<Rightarrow> ctx_Message" where
  "with_content s msg = msg\<lparr>m_Content := s\<rparr>"

definition freed_by :: "string \<Rightarrow> ctx_Message \<Rightarrow> int" where
  "freed_by placeholder msg = max (EstimateMessageTokens msg - EstimateMessageTokens (with_content placeholder msg)) 0"

definition prune_candidates :: "string \<Rightarrow> ctx_Message list \<Rightarrow> nat list" where
  "prune_candidates placeholder msgs =
     filter (\<lambda>i. IsLeakedToolResult (msgs ! i) \<and> m_Content (msgs ! i) \<noteq> placeholder) [0..<ColdZoneEnd (length msgs)]"

text \<open>The rewriting pass: the messages, the number of entries rewritten and the tokens freed so far.\<close>

fun prune_pass :: "string \<Rightarrow> int \<Rightarrow> nat list \<Rightarrow> ctx_Message list \<times> nat \<times> int \<Rightarrow> ctx_Message list \<times> nat \<times> int" where
  "prune_pass placeholder target [] st = st"
| "prune_pass placeholder target (i # is) (msgs, pruned, freed) =
     (let freed' = freed + freed_by placeholder (msgs ! i);
          st = (msgs[i := with_content placeholder (msgs ! i)], Suc pruned, freed')
      in if 0 < target \<and> target \<le> freed' then st else prune_pass placeholder target is st)"

definition prune_messages :: "PruneOpts \<Rightarrow> ctx_Message list \<Rightarrow> PruneResult \<times> ctx_Message list" where
  "prune_messages opts msgs =
     (let placeholder = (if po_Placeholder opts = [] then DefaultPrunePlaceholder else po_Placeholder opts);
          candidates = prune_candidates placeholder msgs;
          candidateTokens = sum_list (map (\<lambda>i. EstimateMessageTokens (msgs ! i)) candidates);
          releasable = sum_list (map (\<lambda>i. freed_by placeholder (msgs ! i)) candidates);
          declined = \<lparr>pr_Pruned = 0, pr_TokensFreed = 0, pr_CandidateTokens = candidateTokens,
                      pr_ReleasableTokens = releasable, pr_SlotsFreed = 0\<rparr>
      in if 0 < po_MinTokens opts \<and> candidateTokens < po_MinTokens opts then (declined, msgs)
         else if 0 < po_ClearAtLeast opts \<and> releasable < po_ClearAtLeast opts then (declined, msgs)
         else let target = (if 0 < po_ClearAtLeast opts \<and> 0 < po_TargetTokens opts \<and> po_TargetTokens opts < po_ClearAtLeast opts
                            then po_ClearAtLeast opts else po_TargetTokens opts)
              in case prune_pass placeholder target candidates (msgs, 0, 0) of
                   (msgs', pruned, freed) \<Rightarrow> (declined\<lparr>pr_Pruned := pruned, pr_TokensFreed := freed\<rparr>, msgs'))"

definition PruneToolResults :: "CtxID \<Rightarrow> PruneOpts \<Rightarrow> 'e Manager \<Rightarrow> (ContextError + PruneResult) \<times> 'e Manager" where
  "PruneToolResults cid opts =
     on_context ''PruneToolResults'' cid (\<lambda>c.
       case prune_messages opts (cx_Messages c) of (r, msgs) \<Rightarrow> (Inr r, c\<lparr>cx_Messages := msgs\<rparr>))"

section \<open>Dropping rounds\<close>

record DropOpts =
  do_NeedSlots :: int
  do_KeepRounds :: int

record DropResult =
  dr_DroppedMessages :: int
  dr_DroppedRounds :: nat
  dr_SlotsFreed :: int
  dr_TokensFreed :: int

fun group_from :: "ctx_Message list \<Rightarrow> ctx_Message list list \<Rightarrow> ctx_Message list \<Rightarrow> ctx_Message list list" where
  "group_from [] groups current = (if current \<noteq> [] then groups @ [current] else groups)"
| "group_from (msg # msgs) groups current =
     (if m_Role msg = RoleAssistant \<and> current \<noteq> [] then group_from msgs (groups @ [current]) [msg]
      else group_from msgs groups (current @ [msg]))"

definition groupMessagesByAPIRound :: "ctx_Message list \<Rightarrow> ctx_Message list list" where
  "groupMessagesByAPIRound msgs = group_from msgs [] []"

definition flattenGroups :: "ctx_Message list list \<Rightarrow> ctx_Message list" where
  "flattenGroups groups = concat groups"

text \<open>
  The sweep over the leading groups, as far as \<open>keepRounds\<close> allows: the number of groups to drop, of
  messages and of tokens freed. \<open>k\<close> counts the groups visited.
\<close>

fun drop_sweep :: "nat \<Rightarrow> int \<Rightarrow> nat \<Rightarrow> ctx_Message list list \<Rightarrow> nat \<times> nat \<times> int \<Rightarrow> nat \<times> nat \<times> int" where
  "drop_sweep tot needSlots k [] st = st"
| "drop_sweep tot needSlots k (g # gs) (dropUpTo, freed, tokens) =
     (if int tot - int freed - int (length g) < int minMessagesForCompact then (dropUpTo, freed, tokens)
      else let freed' = freed + length g; tokens' = tokens + estimateMessagesTokens g; st = (Suc k, freed', tokens')
           in if needSlots \<le> int freed' then st else drop_sweep tot needSlots (Suc k) gs st)"

definition no_drop :: DropResult where
  "no_drop = \<lparr>dr_DroppedMessages = 0, dr_DroppedRounds = 0, dr_SlotsFreed = 0, dr_TokensFreed = 0\<rparr>"

definition drop_messages :: "DropOpts \<Rightarrow> ctx_Message list \<Rightarrow> DropResult \<times> ctx_Message list" where
  "drop_messages opts msgs =
     (let groups = groupMessagesByAPIRound msgs
      in if length groups \<le> 1 then (no_drop, msgs)
         else let keepRounds = max (do_KeepRounds opts) 1;
                  droppable = take (nat (int (length groups) - keepRounds)) groups
              in case drop_sweep (length msgs) (do_NeedSlots opts) 0 droppable (0, 0, 0) of
                   (dropUpTo, freed, tokens) \<Rightarrow>
                     if dropUpTo = 0 then (no_drop, msgs)
                     else let rest = flattenGroups (drop dropUpTo groups); marker = plain_message RoleUser droppedHistoryMarker
                          in if rest \<noteq> [] \<and> m_Role (hd rest) \<noteq> RoleUser
                             then (\<lparr>dr_DroppedMessages = int freed - 1, dr_DroppedRounds = dropUpTo, dr_SlotsFreed = int freed - 1,
                                    dr_TokensFreed = tokens - EstimateMessageTokens marker\<rparr>, marker # rest)
                             else (\<lparr>dr_DroppedMessages = int freed, dr_DroppedRounds = dropUpTo, dr_SlotsFreed = int freed,
                                    dr_TokensFreed = tokens\<rparr>, rest))"

definition DropOldestRounds :: "CtxID \<Rightarrow> DropOpts \<Rightarrow> 'e Manager \<Rightarrow> (ContextError + DropResult) \<times> 'e Manager" where
  "DropOldestRounds cid opts =
     on_context ''DropOldestRounds'' cid (\<lambda>c.
       if do_NeedSlots opts \<le> 0 then (Inr no_drop, c)
       else case drop_messages opts (cx_Messages c) of (r, msgs) \<Rightarrow>
         (Inr r, if dr_DroppedRounds r = 0 then c
                 else c\<lparr>cx_Messages := msgs, cx_Sections := map_option sections_Invalidate (cx_Sections c)\<rparr>))"

section \<open>What clearing does\<close>

lemma with_content_sel [simp]:
  "m_Content (with_content s msg) = s" "m_Role (with_content s msg) = m_Role msg"
  "m_ToolCallID (with_content s msg) = m_ToolCallID msg" "m_ToolCalls (with_content s msg) = m_ToolCalls msg"
  "with_content s (with_content t msg) = with_content s msg"
  by (simp_all add: with_content_def)

text \<open>Outside a set of positions two lists of messages agree, inside they differ in the content only.\<close>

definition cleared_at :: "string \<Rightarrow> nat set \<Rightarrow> ctx_Message list \<Rightarrow> ctx_Message list \<Rightarrow> bool" where
  "cleared_at placeholder P msgs msgs' \<longleftrightarrow>
     length msgs' = length msgs \<and>
     (\<forall>i < length msgs. msgs' ! i = (if i \<in> P then with_content placeholder (msgs ! i) else msgs ! i))"

lemma total_update:
  "i < length msgs \<Longrightarrow>
   estimateMessagesTokens (msgs[i := msg]) = estimateMessagesTokens msgs - EstimateMessageTokens (msgs ! i) + EstimateMessageTokens msg"
proof (induction msgs arbitrary: i)
  case (Cons m msgs)
  then show ?case by (cases i) (simp_all add: estimateMessagesTokens_def)
qed simp

lemma prune_pass_effect:
  assumes "distinct is" and "\<forall>i \<in> set is. i < length msgs"
    and "\<forall>i \<in> set is. EstimateMessageTokens (with_content placeholder (msgs ! i)) \<le> EstimateMessageTokens (msgs ! i)"
  shows "case prune_pass placeholder target is (msgs, p, f) of (msgs', p', f') \<Rightarrow>
     (\<exists>k \<le> length is. p' = p + k \<and> cleared_at placeholder (set (take k is)) msgs msgs' \<and>
        f' = f + sum_list (map (\<lambda>i. freed_by placeholder (msgs ! i)) (take k is)) \<and>
        (k = length is \<or> 0 < target \<and> target \<le> f')) \<and>
     estimateMessagesTokens msgs' + f' = estimateMessagesTokens msgs + f"
  using assms
proof (induction "is" arbitrary: msgs p f)
  case Nil
  then show ?case by (simp add: cleared_at_def)
next
  case (Cons i "is")
  let ?msgs = "msgs[i := with_content placeholder (msgs ! i)]" and ?f = "f + freed_by placeholder (msgs ! i)"
  have i: "i < length msgs" "i \<notin> set is" using Cons.prems(1,2) by simp_all
  have tot: "estimateMessagesTokens ?msgs + ?f = estimateMessagesTokens msgs + f"
    using Cons.prems(3) by (simp add: total_update [OF i(1)] freed_by_def)
  show ?case
  proof (cases "0 < target \<and> target \<le> ?f")
    case True
    have "cleared_at placeholder (set (take 1 (i # is))) msgs ?msgs" using i by (simp add: cleared_at_def nth_list_update)
    with True tot show ?thesis by (auto simp: Let_def intro!: exI [of _ 1])
  next
    case False
    have same: "j \<in> set is \<Longrightarrow> ?msgs ! j = msgs ! j" for j using i by (metis nth_list_update_neq)
    have sums: "map (\<lambda>j. freed_by placeholder (?msgs ! j)) (take k is) = map (\<lambda>j. freed_by placeholder (msgs ! j)) (take k is)" for k
      by (rule map_cong [OF refl]) (metis in_set_takeD same)
    obtain msgs' p' f' where r: "prune_pass placeholder target is (?msgs, Suc p, ?f) = (msgs', p', f')" by (metis prod_cases3)
    have "\<forall>j \<in> set is. j < length ?msgs"
      "\<forall>j \<in> set is. EstimateMessageTokens (with_content placeholder (?msgs ! j)) \<le> EstimateMessageTokens (?msgs ! j)"
      using Cons.prems(2,3) same by simp_all
    from Cons.IH [OF _ this, of "Suc p" ?f] Cons.prems(1) obtain k where k: "k \<le> length is" "p' = Suc p + k"
      "cleared_at placeholder (set (take k is)) ?msgs msgs'"
      "f' = ?f + sum_list (map (\<lambda>j. freed_by placeholder (msgs ! j)) (take k is))"
      "k = length is \<or> 0 < target \<and> target \<le> f'" "estimateMessagesTokens msgs' + f' = estimateMessagesTokens ?msgs + ?f"
      unfolding r prod.case sums by auto
    have "i \<notin> set (take k is)" using i(2) by (meson in_set_takeD)
    then have "cleared_at placeholder (set (take (Suc k) (i # is))) msgs msgs'"
      using k(3) i(1) unfolding cleared_at_def by (auto simp: nth_list_update)
    moreover have "prune_pass placeholder target (i # is) (msgs, p, f) = (msgs', p', f')" using False r by (auto simp: Let_def)
    ultimately show ?thesis using k tot by (auto intro!: exI [of _ "Suc k"])
  qed
qed

lemma prune_candidates_facts:
  "distinct (prune_candidates ph msgs)"
  "i \<in> set (prune_candidates ph msgs) \<longleftrightarrow>
     i < ColdZoneEnd (length msgs) \<and> IsLeakedToolResult (msgs ! i) \<and> m_Content (msgs ! i) \<noteq> ph"
  by (auto simp: prune_candidates_def)

lemma ColdZoneEnd_le: "ColdZoneEnd n \<le> n"
  by (simp add: ColdZoneEnd_def)

lemma leaked_shrinks:
  assumes "IsLeakedToolResult msg" and "EstimateTokens ph \<le> 71"
  shows "EstimateMessageTokens (with_content ph msg) < EstimateMessageTokens msg"
proof -
  have "1000 < int (length (m_Content msg))" using assms(1) by (simp add: IsLeakedToolResult_def LeakedThreshold_def)
  then have "71 < EstimateTokens (m_Content msg)" using EstimateTokens_long [of "m_Content msg"] by linarith
  with assms(2) show ?thesis by (simp add: EstimateMessageTokens_def with_content_def)
qed

lemma placeholder_tokens: "EstimateTokens DefaultPrunePlaceholder \<le> 71"
  by code_simp

lemma prune_messages_effect:
  assumes "po_Placeholder opts = []"
  shows "case prune_messages opts msgs of (r, msgs') \<Rightarrow>
    \<exists>P. P \<subseteq> set (prune_candidates DefaultPrunePlaceholder msgs) \<and> card P = pr_Pruned r \<and>
      cleared_at DefaultPrunePlaceholder P msgs msgs' \<and> estimateMessagesTokens msgs = estimateMessagesTokens msgs' + pr_TokensFreed r \<and>
      (0 < po_ClearAtLeast opts \<longrightarrow> pr_Pruned r = 0 \<or> po_ClearAtLeast opts \<le> pr_TokensFreed r) \<and>
      (po_TargetTokens opts \<le> 0 \<longrightarrow> pr_Pruned r = 0 \<or> P = set (prune_candidates DefaultPrunePlaceholder msgs))"
proof -
  let ?ph = DefaultPrunePlaceholder
  let ?cands = "prune_candidates ?ph msgs"
  let ?rel = "sum_list (map (\<lambda>i. freed_by ?ph (msgs ! i)) ?cands)"
  let ?target = "if 0 < po_ClearAtLeast opts \<and> 0 < po_TargetTokens opts \<and> po_TargetTokens opts < po_ClearAtLeast opts
    then po_ClearAtLeast opts else po_TargetTokens opts"
  have none: "cleared_at ?ph {} msgs msgs" by (simp add: cleared_at_def)
  obtain target where T: "target = ?target" by blast
  obtain msgs' k f where p: "prune_pass ?ph target ?cands (msgs, 0, 0) = (msgs', k, f)" by (metis prod_cases3)
  have A: "\<forall>i \<in> set ?cands. i < length msgs" using ColdZoneEnd_le [of "length msgs"] by (auto simp: prune_candidates_facts(2))
  have B: "\<forall>i \<in> set ?cands. EstimateMessageTokens (with_content ?ph (msgs ! i)) \<le> EstimateMessageTokens (msgs ! i)"
    using leaked_shrinks [OF _ placeholder_tokens] by (auto simp: prune_candidates_facts(2) less_imp_le)
  from prune_pass_effect [OF prune_candidates_facts(1) A B, where target = target and p = 0 and f = 0]
  have e: "k \<le> length ?cands" "cleared_at ?ph (set (take k ?cands)) msgs msgs'"
    "f = sum_list (map (\<lambda>i. freed_by ?ph (msgs ! i)) (take k ?cands))" "k = length ?cands \<or> 0 < target \<and> target \<le> f"
    "estimateMessagesTokens msgs' + f = estimateMessagesTokens msgs"
    unfolding p by auto
  have card: "card (set (take k ?cands)) = k"
    using e(1) prune_candidates_facts(1) [of ?ph msgs] by (simp add: distinct_card)
  have sub: "set (take k ?cands) \<subseteq> set ?cands" by (rule set_take_subset)
  show ?thesis
  proof (cases "0 < po_MinTokens opts \<and> sum_list (map (\<lambda>i. EstimateMessageTokens (msgs ! i)) ?cands) < po_MinTokens opts
      \<or> 0 < po_ClearAtLeast opts \<and> ?rel < po_ClearAtLeast opts")
    case True
    then show ?thesis using none assms by (auto simp: prune_messages_def Let_def intro!: exI [of _ "{}"])
  next
    case False
    have full: "f = ?rel" if "k = length ?cands" using e(3) that by simp
    have "po_ClearAtLeast opts \<le> f" if "0 < po_ClearAtLeast opts"
      using e(4) full False that unfolding T by (auto split: if_splits)
    moreover have "set (take k ?cands) = set ?cands" if "po_TargetTokens opts \<le> 0" using e(4) that unfolding T by (auto split: if_splits)
    moreover obtain r where "prune_messages opts msgs = (r, msgs')" "pr_Pruned r = k" "pr_TokensFreed r = f"
      using False assms p unfolding T by (auto simp: prune_messages_def Let_def)
    ultimately show ?thesis using card sub e(2,5) by auto
  qed
qed

lemma no_candidates_left:
  assumes "cleared_at ph (set (prune_candidates ph msgs)) msgs msgs'"
  shows "prune_candidates ph msgs' = []"
proof -
  have l: "length msgs' = length msgs" using assms by (simp add: cleared_at_def)
  have "i \<notin> set (prune_candidates ph msgs')" for i
  proof
    assume i: "i \<in> set (prune_candidates ph msgs')"
    then have "i < length msgs" using ColdZoneEnd_le [of "length msgs"] l by (simp add: prune_candidates_facts(2))
    then have "msgs' ! i = (if i \<in> set (prune_candidates ph msgs) then with_content ph (msgs ! i) else msgs ! i)"
      using assms by (simp add: cleared_at_def)
    with i l show False by (auto simp: prune_candidates_facts(2) split: if_splits)
  qed
  then show ?thesis by (metis list.set_intros(1) neq_Nil_conv)
qed

text \<open>
  Clearing tool results touches only large tool results of the cold zone and of those only the
  content, so no call loses its answer; the tokens reported as freed are exactly the tokens the conversation got smaller by;
  with a minimum release, either nothing is rewritten or at least that much is freed; and an unlimited
  sweep that rewrote anything leaves nothing for a second one to rewrite.
\<close>

lemma pruning_frees_what_it_reports:
  assumes "mgr_contexts m cid = Some c" and "po_Placeholder opts = []"
  shows "\<exists>r c' P. fst (PruneToolResults cid opts m) = Inr r \<and> mgr_contexts (snd (PruneToolResults cid opts m)) cid = Some c' \<and>
    P \<subseteq> {i. i < ColdZoneEnd (length (cx_Messages c)) \<and> IsLeakedToolResult (cx_Messages c ! i)} \<and> card P = pr_Pruned r \<and>
    cleared_at DefaultPrunePlaceholder P (cx_Messages c) (cx_Messages c') \<and>
    estimateMessagesTokens (cx_Messages c) = estimateMessagesTokens (cx_Messages c') + pr_TokensFreed r \<and>
    (0 < po_ClearAtLeast opts \<longrightarrow> pr_Pruned r = 0 \<or> po_ClearAtLeast opts \<le> pr_TokensFreed r) \<and>
    (po_TargetTokens opts \<le> 0 \<longrightarrow> pr_Pruned r = 0 \<or> prune_candidates DefaultPrunePlaceholder (cx_Messages c') = [])"
proof -
  obtain r msgs where p: "prune_messages opts (cx_Messages c) = (r, msgs)" by fastforce
  have e: "PruneToolResults cid opts m = (Inr r, put_context cid (c\<lparr>cx_Messages := msgs\<rparr>) m)"
    by (simp add: PruneToolResults_def on_context_Some [OF assms(1)] p)
  from prune_messages_effect [OF assms(2), of "cx_Messages c"] obtain P where
    P: "P \<subseteq> set (prune_candidates DefaultPrunePlaceholder (cx_Messages c))" "card P = pr_Pruned r"
      "cleared_at DefaultPrunePlaceholder P (cx_Messages c) msgs"
      "estimateMessagesTokens (cx_Messages c) = estimateMessagesTokens msgs + pr_TokensFreed r"
      "0 < po_ClearAtLeast opts \<longrightarrow> pr_Pruned r = 0 \<or> po_ClearAtLeast opts \<le> pr_TokensFreed r"
      "po_TargetTokens opts \<le> 0 \<longrightarrow> pr_Pruned r = 0 \<or> P = set (prune_candidates DefaultPrunePlaceholder (cx_Messages c))"
    unfolding p by auto
  have s: "P \<subseteq> {i. i < ColdZoneEnd (length (cx_Messages c)) \<and> IsLeakedToolResult (cx_Messages c ! i)}"
    using P(1) by (auto simp: prune_candidates_facts(2))
  show ?thesis unfolding e fst_conv snd_conv
    by (intro exI [of _ r] exI [of _ "c\<lparr>cx_Messages := msgs\<rparr>"] exI [of _ P])
       (use P(2-6) s no_candidates_left in auto)
qed

definition demo_long :: ctx_Message where
  "demo_long = (plain_message RoleTool (replicate 2000 (CHR ''x'')))\<lparr>m_ToolCallID := ''t1''\<rparr>"

definition demo_history :: "ctx_Message list" where
  "demo_history =
     [plain_message RoleUser ''go'', (plain_message RoleAssistant [])\<lparr>m_ToolCalls := [demo_call]\<rparr>, demo_long] @
     concat (replicate 6 [plain_message RoleAssistant ''a'', plain_message RoleUser ''b''])"

definition demo_ctx :: "unit Context" where
  "demo_ctx = \<lparr>cx_ID = 1, cx_SystemPrompt = [], cx_Sections = None, cx_Messages = demo_history, cx_MaxSize = 0, cx_TokenLimit = 0\<rparr>"

definition demo_full :: "unit Manager" where
  "demo_full = \<lparr>mgr_contexts = [1 \<mapsto> demo_ctx], mgr_nextID = 1\<rparr>"

section \<open>What dropping does\<close>

lemma group_from_concat: "concat (group_from msgs groups current) = concat groups @ current @ msgs"
  by (induction msgs groups current rule: group_from.induct) simp_all

definition starts_round :: "ctx_Message list \<Rightarrow> bool" where
  "starts_round g \<longleftrightarrow> g \<noteq> [] \<and> m_Role (hd g) = RoleAssistant"

lemma group_from_starts:
  "\<forall>g \<in> set (tl (groups @ [current])). starts_round g \<Longrightarrow> \<forall>g \<in> set groups. g \<noteq> [] \<Longrightarrow>
   \<forall>g \<in> set (tl (group_from msgs groups current)). starts_round g"
proof (induction msgs groups current rule: group_from.induct)
  case (1 groups current)
  then show ?case by (cases groups) auto
next
  case (2 msg msgs groups current)
  show ?case
  proof (cases "m_Role msg = RoleAssistant \<and> current \<noteq> []")
    case True
    have "\<forall>g \<in> set (tl ((groups @ [current]) @ [[msg]])). starts_round g"
      using 2(3) True by (cases groups) (auto simp: starts_round_def)
    with 2(1) [OF True] 2(4) True show ?thesis by simp
  next
    case False
    have "\<forall>g \<in> set (tl (groups @ [current @ [msg]])). starts_round g"
      using 2(3) by (cases groups) (auto simp: starts_round_def hd_append)
    with 2(2) [OF False] 2(4) False show ?thesis by (simp only: group_from.simps if_False)
  qed
qed

lemma groups_facts:
  "concat (groupMessagesByAPIRound msgs) = msgs" "0 < n \<Longrightarrow> n < length (groupMessagesByAPIRound msgs) \<Longrightarrow>
   starts_round (groupMessagesByAPIRound msgs ! n)"
proof -
  show "concat (groupMessagesByAPIRound msgs) = msgs" by (simp add: groupMessagesByAPIRound_def group_from_concat)
  assume n: "0 < n" "n < length (groupMessagesByAPIRound msgs)"
  then have "groupMessagesByAPIRound msgs ! n = tl (groupMessagesByAPIRound msgs) ! (n - 1)" "n - 1 < length (tl (groupMessagesByAPIRound msgs))"
    by (simp_all add: nth_tl)
  moreover have "\<forall>g \<in> set (tl (groupMessagesByAPIRound msgs)). starts_round g"
    unfolding groupMessagesByAPIRound_def by (rule group_from_starts) simp_all
  ultimately show "starts_round (groupMessagesByAPIRound msgs ! n)" by (metis nth_mem)
qed

lemma estimate_append [simp]:
  "estimateMessagesTokens (xs @ ys) = estimateMessagesTokens xs + estimateMessagesTokens ys"
  "estimateMessagesTokens [] = 0" "estimateMessagesTokens (x # xs) = EstimateMessageTokens x + estimateMessagesTokens xs"
  by (simp_all add: estimateMessagesTokens_def)

lemma drop_sweep_effect:
  "case drop_sweep tot need k gs (k, f, t) of (u, f', t') \<Rightarrow>
     k \<le> u \<and> u - k \<le> length gs \<and> f' = f + length (concat (take (u - k) gs)) \<and>
     t' = t + estimateMessagesTokens (concat (take (u - k) gs)) \<and> (u = k \<or> 2 \<le> int tot - int f')"
proof (induction gs arbitrary: k f t)
  case (Cons g gs)
  show ?case
  proof (cases "int tot - int f - int (length g) < int minMessagesForCompact \<or> need \<le> int (f + length g)")
    case True
    then show ?thesis by (auto simp: Let_def minMessagesForCompact_def)
  next
    case False
    obtain u f' t' where r: "drop_sweep tot need (Suc k) gs (Suc k, f + length g, t + estimateMessagesTokens g) = (u, f', t')"
      by (metis prod_cases3)
    with False have e: "drop_sweep tot need k (g # gs) (k, f, t) = (u, f', t')" by (auto simp: Let_def)
    from Cons.IH [of "Suc k" "f + length g" "t + estimateMessagesTokens g"] have
      ih: "Suc k \<le> u" "u - Suc k \<le> length gs" "f' = f + length g + length (concat (take (u - Suc k) gs))"
        "t' = t + estimateMessagesTokens g + estimateMessagesTokens (concat (take (u - Suc k) gs))"
        "u = Suc k \<or> 2 \<le> int tot - int f'" unfolding r by auto
    have "u - k = Suc (u - Suc k)" using ih(1) by simp
    then have u: "take (u - k) (g # gs) = g # take (u - Suc k) gs" by simp
    show ?thesis unfolding e prod.case u using ih False by (auto simp: minMessagesForCompact_def)
  qed
qed simp

text \<open>Every tool result answers a call of the last assistant message before it.\<close>

primrec pair_ok :: "string set \<Rightarrow> ctx_Message list \<Rightarrow> bool" where
  "pair_ok S [] \<longleftrightarrow> True"
| "pair_ok S (msg # msgs) \<longleftrightarrow>
     (if m_Role msg = RoleAssistant then pair_ok (set (map tc_ID (m_ToolCalls msg))) msgs
      else (m_Role msg = RoleTool \<longrightarrow> m_ToolCallID msg \<in> S) \<and> pair_ok S msgs)"

lemma pair_ok_suffix: "pair_ok S (xs @ ys) \<Longrightarrow> m_Role (hd ys) = RoleAssistant \<Longrightarrow> ys \<noteq> [] \<Longrightarrow> pair_ok T ys"
  by (induction xs arbitrary: S) (auto split: if_splits simp: neq_Nil_conv)

lemma drop_messages_effect:
  "case drop_messages opts msgs of (r, msgs') \<Rightarrow>
     (dr_DroppedRounds r = 0 \<and> r = no_drop \<and> msgs' = msgs) \<or>
     (0 < dr_DroppedRounds r \<and> (\<exists>n. msgs' = plain_message RoleUser droppedHistoryMarker # drop n msgs \<and> 2 \<le> length (drop n msgs) \<and>
        m_Role (hd (drop n msgs)) = RoleAssistant \<and> int (length msgs) = int (length msgs') + dr_SlotsFreed r \<and>
        estimateMessagesTokens msgs = estimateMessagesTokens msgs' + dr_TokensFreed r))"
proof -
  let ?groups = "groupMessagesByAPIRound msgs"
  let ?dr = "take (nat (int (length ?groups) - max (do_KeepRounds opts) 1)) ?groups"
  obtain u f t where sw: "drop_sweep (length msgs) (do_NeedSlots opts) 0 ?dr (0, 0, 0) = (u, f, t)" by (metis prod_cases3)
  show ?thesis
  proof (cases "length ?groups \<le> 1 \<or> u = 0")
    case True
    then show ?thesis using sw by (auto simp: drop_messages_def Let_def no_drop_def)
  next
    case False
    from drop_sweep_effect [where tot = "length msgs" and need = "do_NeedSlots opts" and k = 0 and gs = ?dr and f = 0 and t = 0] False have
      e: "u \<le> length ?dr" "f = length (concat (take u ?dr))" "t = estimateMessagesTokens (concat (take u ?dr))" "2 \<le> int (length msgs) - int f"
      unfolding sw by auto
    from False have u: "0 < u" "u < length ?groups" using e(1) by auto
    have tk: "take u ?dr = take u ?groups" using e(1) by (simp add: min.absorb2)
    let ?rest = "concat (drop u ?groups)"
    have cat: "msgs = concat (take u ?groups) @ ?rest" by (metis append_take_drop_id concat_append groups_facts(1))
    then have rest: "?rest = drop f msgs" using e(2) unfolding tk by (metis append_eq_conv_conj)
    have "starts_round (?groups ! u)" by (rule groups_facts(2) [OF u])
    moreover have "drop u ?groups = ?groups ! u # drop (Suc u) ?groups" using u(2) by (simp add: Cons_nth_drop_Suc)
    ultimately have hd: "?rest \<noteq> []" "m_Role (hd ?rest) = RoleAssistant" by (auto simp: starts_round_def)
    have "m_Role (hd ?rest) \<noteq> RoleUser" using hd(2) by (simp add: role_defs)
    then have d: "drop_messages opts msgs = (\<lparr>dr_DroppedMessages = int f - 1, dr_DroppedRounds = u, dr_SlotsFreed = int f - 1,
        dr_TokensFreed = t - EstimateMessageTokens (plain_message RoleUser droppedHistoryMarker)\<rparr>,
        plain_message RoleUser droppedHistoryMarker # ?rest)"
      using False sw hd(1) by (simp add: drop_messages_def Let_def flattenGroups_def)
    have len: "int (length msgs) = int f + int (length ?rest)" using arg_cong [OF cat, of length] e(2) unfolding tk by simp
    have est: "estimateMessagesTokens msgs = t + estimateMessagesTokens ?rest"
      using arg_cong [OF cat, of estimateMessagesTokens] e(3) unfolding tk by simp
    show ?thesis unfolding d prod.case using u(1) hd len est e(4)
      by (intro disjI2 conjI exI [of _ f]) (simp_all add: rest)
  qed
qed

text \<open>
  C15: dropping history removes whole rounds from the front. Either nothing changes, or what is left is a
  suffix of at least two messages that begins with an assistant message, headed by one user marker, so the
  provider still sees a user message first; no tool result is separated from the call it answers; and
  the slots and tokens reported as freed are exactly the differences.
\<close>

theorem dropping_keeps_rounds_whole:
  assumes "mgr_contexts m cid = Some c" and "pair_ok {} (cx_Messages c)"
  shows "\<exists>r c'. fst (DropOldestRounds cid opts m) = Inr r \<and> mgr_contexts (snd (DropOldestRounds cid opts m)) cid = Some c' \<and>
    pair_ok {} (cx_Messages c') \<and>
    int (length (cx_Messages c)) = int (length (cx_Messages c')) + dr_SlotsFreed r \<and>
    estimateMessagesTokens (cx_Messages c) = estimateMessagesTokens (cx_Messages c') + dr_TokensFreed r \<and>
    (dr_DroppedRounds r = 0 \<and> cx_Messages c' = cx_Messages c \<or>
     (\<exists>n. cx_Messages c' = plain_message RoleUser droppedHistoryMarker # drop n (cx_Messages c) \<and>
        2 \<le> length (drop n (cx_Messages c)) \<and> m_Role (drop n (cx_Messages c) ! 0) = RoleAssistant))"
proof (cases "do_NeedSlots opts \<le> 0")
  case True
  with assms show ?thesis by (simp add: DropOldestRounds_def on_context_Some [OF assms(1)] no_drop_def)
next
  case False
  obtain r msgs where d: "drop_messages opts (cx_Messages c) = (r, msgs)" by fastforce
  from drop_messages_effect [where opts = opts and msgs = "cx_Messages c"] consider
      "dr_DroppedRounds r = 0" "r = no_drop"
    | n where "0 < dr_DroppedRounds r" "msgs = plain_message RoleUser droppedHistoryMarker # drop n (cx_Messages c)"
        "2 \<le> length (drop n (cx_Messages c))" "m_Role (hd (drop n (cx_Messages c))) = RoleAssistant"
        "int (length (cx_Messages c)) = int (length msgs) + dr_SlotsFreed r"
        "estimateMessagesTokens (cx_Messages c) = estimateMessagesTokens msgs + dr_TokensFreed r"
    unfolding d by auto
  then show ?thesis
  proof cases
    case 1
    with False assms d show ?thesis by (simp add: DropOldestRounds_def on_context_Some [OF assms(1)] no_drop_def)
  next
    case 2
    have ne: "drop n (cx_Messages c) \<noteq> []" using 2(3) by (metis list.size(3) not_numeral_le_zero)
    have "pair_ok {} (take n (cx_Messages c) @ drop n (cx_Messages c))" using assms(2) by simp
    from pair_ok_suffix [OF this 2(4) ne] have "pair_ok {} msgs"
      by (simp add: 2(2) plain_message_def role_defs)
    with 2 False d ne show ?thesis
      by (auto simp: DropOldestRounds_def on_context_Some [OF assms(1)] hd_conv_nth)
  qed
qed

theorem dropping_keeps_rounds_whole_witness:
  "\<exists>r c'. fst (DropOldestRounds 1 \<lparr>do_NeedSlots = 4, do_KeepRounds = 0\<rparr> demo_full) = Inr r \<and>
     mgr_contexts (snd (DropOldestRounds 1 \<lparr>do_NeedSlots = 4, do_KeepRounds = 0\<rparr> demo_full)) 1 = Some c' \<and> pair_ok {} (cx_Messages c')"
proof -
  have m: "mgr_contexts demo_full 1 = Some demo_ctx" by (simp add: demo_full_def)
  have "pair_ok {} (cx_Messages demo_ctx)"
    by (simp add: demo_ctx_def demo_history_def demo_long_def plain_message_def role_defs demo_call_def numeral_eq_Suc)
  from dropping_keeps_rounds_whole [OF m this] show ?thesis by blast
qed

end
