(* ===== verification/Compact.thy ===== *)
theory Compact
  imports Prune
begin

text \<open>
  Compaction (\<open>context/compact.go\<close>): a conversation is summarised by the model and replaced by the summary
  and the restored files, skills and plan. The request is sent without the context's lock, so what
  other goroutines do meanwhile is an argument of the operation.
\<close>

section \<open>Strings\<close>

text \<open>\<open>strings.Cut\<close> and \<open>strings.TrimSpace\<close>.\<close>

fun str_cut :: "string \<Rightarrow> string \<Rightarrow> (string \<times> string) option" where
  "str_cut [] sep = (if sep = [] then Some ([], []) else None)"
| "str_cut (c # s) sep =
     (if take (length sep) (c # s) = sep then Some ([], drop (length sep) (c # s))
      else map_option (\<lambda>(a, b). (c # a, b)) (str_cut s sep))"

definition unicode_space :: "nat \<Rightarrow> bool" where
  "unicode_space r \<longleftrightarrow> (9 \<le> r \<and> r \<le> 13) \<or> (0x2000 \<le> r \<and> r \<le> 0x200A) \<or>
     r \<in> {0x20, 0x85, 0xA0, 0x1680, 0x2028, 0x2029, 0x202F, 0x205F, 0x3000}"

function rune_chunks :: "nat list \<Rightarrow> (nat \<times> nat list) list" where
  "rune_chunks [] = []"
| "rune_chunks (b # bs) =
     (case decode_rune (b # bs) of (r, w) \<Rightarrow> (r, take w (b # bs)) # rune_chunks (drop w (b # bs)))"
  by pat_completeness auto

termination
proof (relation "measure length")
  fix b bs r w
  assume "(r, w) = decode_rune (b # bs)"
  then have "0 < w" using decode_rune_width [of b bs] by (metis snd_conv)
  then show "(drop w (b # bs), b # bs) \<in> measure length" by simp
qed simp

definition TrimSpace :: "string \<Rightarrow> string" where
  "TrimSpace s =
     (let trim = dropWhile (\<lambda>c. unicode_space (fst c))
      in map char_of (concat (map snd (rev (trim (rev (trim (rune_chunks (map of_char s)))))))))"

fun decimal :: "nat \<Rightarrow> string" where
  "decimal n = (if n < 10 then [char_of (48 + n)] else decimal (n div 10) @ [char_of (48 + n mod 10)])"

definition print_int :: "int \<Rightarrow> string" where
  "print_int i = (if i < 0 then CHR ''-'' # decimal (nat (- i)) else decimal (nat i))"

definition stripAnalysis :: "string \<Rightarrow> string" where
  "stripAnalysis raw =
     (case str_cut raw ''<summary>'' of
        None \<Rightarrow>
          (case str_cut raw ''<analysis>'' of
             None \<Rightarrow> TrimSpace raw
           | Some (before, afterStart) \<Rightarrow>
               (case str_cut afterStart ''</analysis>'' of
                  None \<Rightarrow> TrimSpace raw
                | Some (_, afterEnd) \<Rightarrow> TrimSpace (before @ afterEnd)))
      | Some (_, afterSummaryStart) \<Rightarrow>
          (case str_cut afterSummaryStart ''</summary>'' of
             None \<Rightarrow> TrimSpace afterSummaryStart
           | Some (summaryContent, _) \<Rightarrow> TrimSpace summaryContent))"

section \<open>The request\<close>

definition compactToolResultTokenLimit :: int where "compactToolResultTokenLimit = 600"

definition FormatTruncationNotice :: "int \<Rightarrow> int \<Rightarrow> string \<Rightarrow> string" where
  "FormatTruncationNotice originalTokens shownTokens overflowPath =
     [CHR 0x0A] @ ''[Truncated: original '' @ print_int originalTokens @ '' tokens, showing first '' @ print_int shownTokens @
     (if overflowPath = [] then '' tokens]'' else '' tokens. Full content saved to '' @ overflowPath @ '']'')"

definition shrink_message :: "(nat \<Rightarrow> int \<Rightarrow> int \<Rightarrow> nat) \<Rightarrow> ctx_Message \<Rightarrow> ctx_Message" where
  "shrink_message scale msg =
     (if m_Role msg \<noteq> RoleTool \<or> m_Content msg = DefaultPrunePlaceholder then msg
      else case TruncateResult scale (m_Content msg) compactToolResultTokenLimit of
        (trimmed, didTrim) \<Rightarrow>
          if \<not> didTrim then msg
          else with_content (trimmed @ FormatTruncationNotice (EstimateTokens (m_Content msg)) compactToolResultTokenLimit []) msg)"

definition shrinkToolResultsForCompact :: "(nat \<Rightarrow> int \<Rightarrow> int \<Rightarrow> nat) \<Rightarrow> ctx_Message list \<Rightarrow> ctx_Message list" where
  "shrinkToolResultsForCompact scale msgs = map (shrink_message scale) msgs"

text \<open>
  The model as the code sees it: the answer to its n-th request, \<open>Inl\<close> an error's text.
\<close>

type_synonym llm = "nat \<Rightarrow> ctx_Message list \<Rightarrow> string + string"

definition maxPTLRetries :: nat where "maxPTLRetries = 3"

definition is_ptl_error :: "string \<Rightarrow> bool" where
  "is_ptl_error err \<longleftrightarrow>
     (let errStr = map ascii_lower err
      in str_cut errStr ''prompt too long'' \<noteq> None \<or> str_cut errStr ''too many tokens'' \<noteq> None \<or>
         str_cut errStr ''context length exceeded'' \<noteq> None)"

primrec ptl_attempts :: "llm \<Rightarrow> ctx_Message \<Rightarrow> nat \<Rightarrow> ctx_Message list \<Rightarrow> string + string" where
  "ptl_attempts call prompt 0 conv = Inl ''prompt too long after retries''"
| "ptl_attempts call prompt (Suc n) conv =
     (case call (maxPTLRetries - Suc n) (conv @ [prompt]) of
        Inr result \<Rightarrow> Inr result
      | Inl err \<Rightarrow>
          if \<not> is_ptl_error err then Inl err
          else let groups = groupMessagesByAPIRound conv
               in if length groups \<le> 1 then Inl ''prompt too long: cannot reduce further''
                  else ptl_attempts call prompt n (flattenGroups (tl groups)))"

definition compactWithPTLRetry :: "llm \<Rightarrow> ctx_Message list \<Rightarrow> string + string" where
  "compactWithPTLRetry call messages =
     (if length messages < 2 then Inl ''not enough messages for compact''
      else ptl_attempts call (last messages) maxPTLRetries (butlast messages))"

section \<open>What is restored\<close>

record ReadFileEntry =
  rf_Content :: string
  rf_Timestamp :: int

record CompactOpts =
  co_LLMCall :: "llm option"
  co_CustomInstructions :: string
  co_Trigger :: string
  co_ReadFileState :: "(string \<times> ReadFileEntry) list"
  co_ActiveSkills :: "(string \<times> string) list"
  co_ActivePlan :: string

definition maxRestoreFiles :: nat where "maxRestoreFiles = 5"
definition maxRestoreFileTokens :: int where "maxRestoreFileTokens = 50000"
definition perFileTokenLimit :: int where "perFileTokenLimit = 5000"
definition maxSkillTokens :: int where "maxSkillTokens = 25000"
definition perSkillTokenLimit :: int where "perSkillTokenLimit = 5000"

definition restorePlan :: "string \<Rightarrow> ctx_Message option" where
  "restorePlan plan =
     (if plan = [] then None
      else Some (plain_message RoleUser (''[Post-compact restore: plan]'' @ [CHR 0x0A] @ plan)))"

text \<open>The text and the token charge of one file or skill.\<close>

definition file_part :: "string \<Rightarrow> string \<times> int" where
  "file_part content =
     (let tokens = EstimateTokens content
      in if perFileTokenLimit < tokens then (truncateToTokens content perFileTokenLimit, perFileTokenLimit) else (content, tokens))"

fun restore_files_loop :: "(string \<times> ReadFileEntry) list \<Rightarrow> int \<Rightarrow> nat \<Rightarrow> ctx_Message list" where
  "restore_files_loop [] totalTokens count = []"
| "restore_files_loop ((path, entry) # items) totalTokens count =
     (if maxRestoreFiles \<le> count \<or> maxRestoreFileTokens \<le> totalTokens then []
      else case file_part (rf_Content entry) of (content, tokens) \<Rightarrow>
        if maxRestoreFileTokens < totalTokens + tokens then []
        else plain_message RoleUser (''[Post-compact restore: file] '' @ path @ [CHR 0x0A] @ content) #
             restore_files_loop items (totalTokens + tokens) (Suc count))"

text \<open>Files of equal time come in the order of the association list, which is arbitrary.\<close>

definition restoreFiles :: "(string \<times> ReadFileEntry) list \<Rightarrow> ctx_Message list" where
  "restoreFiles state = restore_files_loop (sort_key (\<lambda>(p, e). - rf_Timestamp e) state) 0 0"

definition skill_notice :: string where
  "skill_notice = [CHR 0x0A] @ ''[... skill content truncated for compaction; use skill path if you need the full text]''"

definition skill_part :: "string \<Rightarrow> string \<times> int" where
  "skill_part content =
     (let tokens = EstimateTokens content
      in if perSkillTokenLimit < tokens then (truncateToTokens content perSkillTokenLimit @ skill_notice, perSkillTokenLimit)
         else (content, tokens))"

fun restore_skills_loop :: "(string \<times> string) list \<Rightarrow> int \<Rightarrow> ctx_Message list" where
  "restore_skills_loop [] totalTokens = []"
| "restore_skills_loop ((name, body) # skills) totalTokens =
     (if maxSkillTokens \<le> totalTokens then []
      else case skill_part body of (content, tokens) \<Rightarrow>
        if maxSkillTokens < totalTokens + tokens then []
        else plain_message RoleUser (''[Post-compact restore: skill] '' @ name @ [CHR 0x0A] @ content) #
             restore_skills_loop skills (totalTokens + tokens))"

definition restoreSkills :: "(string \<times> string) list \<Rightarrow> ctx_Message list" where
  "restoreSkills skills = restore_skills_loop skills 0"

definition restore_all :: "CompactOpts \<Rightarrow> (ctx_Message \<times> string) list" where
  "restore_all opts =
     map (\<lambda>m. (m, ''file'')) (restoreFiles (co_ReadFileState opts)) @
     map (\<lambda>m. (m, ''skill'')) (restoreSkills (co_ActiveSkills opts)) @
     (case restorePlan (co_ActivePlan opts) of None \<Rightarrow> [] | Some m \<Rightarrow> [(m, ''plan'')])"

definition EstimateRestoreTokens :: "CompactOpts \<Rightarrow> int" where
  "EstimateRestoreTokens opts =
     estimateMessagesTokens (restoreFiles (co_ReadFileState opts)) + estimateMessagesTokens (restoreSkills (co_ActiveSkills opts)) +
     (case restorePlan (co_ActivePlan opts) of None \<Rightarrow> 0 | Some m \<Rightarrow> EstimateMessageTokens m)"

section \<open>Compaction\<close>

record CompactResult =
  cr_PreTokens :: int
  cr_PostTokens :: int
  cr_ItemsRestored :: "string list"

definition compact_error :: "CtxID \<Rightarrow> ContextError" where
  "compact_error cid = ContextError ''Compact'' cid ErrInternal False"

text \<open>\<open>getCompactPrompt\<close> is the instruction text for the given custom instructions.\<close>

definition compact_summary ::
  "(nat \<Rightarrow> int \<Rightarrow> int \<Rightarrow> nat) \<Rightarrow> (string \<Rightarrow> string) \<Rightarrow> llm \<Rightarrow> CompactOpts \<Rightarrow> ctx_Message list \<Rightarrow> string + string" where
  "compact_summary scale getCompactPrompt call opts msgs =
     compactWithPTLRetry call
       (shrinkToolResultsForCompact scale msgs @ [plain_message RoleUser (getCompactPrompt (co_CustomInstructions opts))])"

definition compact_replacement :: "CompactOpts \<Rightarrow> int \<Rightarrow> string \<Rightarrow> ctx_Message list" where
  "compact_replacement opts preTokens summary =
     [plain_message RoleUser (''[compact_boundary: trigger='' @ (if co_Trigger opts = [] then ''manual'' else co_Trigger opts) @
        '', pre_tokens='' @ print_int preTokens @ '']''),
      plain_message RoleUser (stripAnalysis summary)] @ map fst (restore_all opts)"

text \<open>The last step takes the lock again. A context freed meanwhile is not in the table any more.\<close>

definition compact_commit :: "CtxID \<Rightarrow> ctx_Message list \<Rightarrow> 'e Manager \<Rightarrow> 'e Manager" where
  "compact_commit cid newMessages m =
     (case mgr_contexts m cid of
        None \<Rightarrow> m
      | Some c \<Rightarrow> put_context cid (c\<lparr>cx_Messages := newMessages, cx_Sections := map_option sections_Invalidate (cx_Sections c)\<rparr>) m)"

definition Compact ::
  "(nat \<Rightarrow> int \<Rightarrow> int \<Rightarrow> nat) \<Rightarrow> (string \<Rightarrow> string) \<Rightarrow> ('e Manager \<Rightarrow> 'e Manager) \<Rightarrow> CtxID \<Rightarrow> CompactOpts \<Rightarrow> 'e Manager
   \<Rightarrow> (ContextError + CompactResult) \<times> 'e Manager" where
  "Compact scale getCompactPrompt others cid opts m =
     (case co_LLMCall opts of
        None \<Rightarrow> (Inl (compact_error cid), m)
      | Some call \<Rightarrow>
          (case getContext ''Compact'' cid m of
             Inl err \<Rightarrow> (Inl err, m)
           | Inr c \<Rightarrow>
               if length (cx_Messages c) < minMessagesForCompact then (Inl (compact_error cid), m)
               else let preTokens = estimateMessagesTokens (cx_Messages c); m1 = others m
                    in case compact_summary scale getCompactPrompt call opts (cx_Messages c) of
                         Inl err \<Rightarrow> (Inl (compact_error cid), m1)
                       | Inr summary \<Rightarrow>
                           let newMessages = compact_replacement opts preTokens summary
                           in (Inr \<lparr>cr_PreTokens = preTokens, cr_PostTokens = estimateMessagesTokens newMessages,
                                    cr_ItemsRestored = map snd (restore_all opts)\<rparr>,
                               compact_commit cid newMessages m1)))"

section \<open>Facts\<close>

lemma restore_files_bound:
  "count \<le> maxRestoreFiles \<Longrightarrow> length (restore_files_loop items tot count) \<le> maxRestoreFiles - count"
proof (induction items tot count rule: restore_files_loop.induct)
  case (2 path entry items tot count)
  then show ?case by (auto split: prod.split)
qed simp

lemma restored_role: "m \<in> fst ` set (restore_all opts) \<Longrightarrow> m_Role m = RoleUser \<and> m_ToolCalls m = []"
proof -
  have f: "m \<in> set (restore_files_loop items tot count) \<Longrightarrow> m_Role m = RoleUser \<and> m_ToolCalls m = []" for items tot count
    by (induction items tot count rule: restore_files_loop.induct) (auto simp: plain_message_def split: if_splits prod.splits)
  have s: "m \<in> set (restore_skills_loop skills tot) \<Longrightarrow> m_Role m = RoleUser \<and> m_ToolCalls m = []" for skills tot
    by (induction skills tot rule: restore_skills_loop.induct) (auto simp: plain_message_def split: if_splits prod.splits)
  show "m \<in> fst ` set (restore_all opts) \<Longrightarrow> ?thesis"
    using f s by (auto simp: restore_all_def restoreFiles_def restoreSkills_def restorePlan_def plain_message_def split: option.splits if_splits)
qed

lemma pair_ok_users: "\<forall>m \<in> set ms. m_Role m = RoleUser \<Longrightarrow> pair_ok S (ms @ ns) = pair_ok S ns"
  by (induction ms) (auto simp: role_defs)

lemma replacement_users: "m \<in> set (compact_replacement opts p s) \<Longrightarrow> m_Role m = RoleUser"
  using restored_role [of m opts] by (auto simp: compact_replacement_def plain_message_def)

lemma estimate_restored: "estimateMessagesTokens (map fst (restore_all opts)) = EstimateRestoreTokens opts"
  by (simp add: restore_all_def EstimateRestoreTokens_def comp_def split: option.split)

lemma Compact_success:
  assumes "fst (Compact scale prompt others cid opts m) = Inr r"
  obtains c summary where "mgr_contexts m cid = Some c"
    "snd (Compact scale prompt others cid opts m) = compact_commit cid (compact_replacement opts (estimateMessagesTokens (cx_Messages c)) summary) (others m)"
    "cr_PreTokens r = estimateMessagesTokens (cx_Messages c)"
    "cr_PostTokens r = estimateMessagesTokens (compact_replacement opts (estimateMessagesTokens (cx_Messages c)) summary)"
    "cr_ItemsRestored r = map snd (restore_all opts)"
proof -
  obtain c where c: "mgr_contexts m cid = Some c"
    using assms by (cases "mgr_contexts m cid") (auto simp: Compact_def split: option.splits)
  show ?thesis
    by (rule that [OF c, of "projr (compact_summary scale prompt (the (co_LLMCall opts)) opts (cx_Messages c))"])
       (use assms c in \<open>auto simp: Compact_def Let_def split: option.splits sum.splits if_splits\<close>)
qed

text \<open>
  A compaction that fails leaves the conversation as the other goroutines left it. One that succeeds
  replaces it by a boundary marker, the summary and the restored items, all user messages, so no tool
  result is left without its call; it reports the size of the old conversation and of the new
  one, and what restoring added is exactly what the estimate made before the request says; at most five
  files come back.
\<close>

lemma compaction_replaces_history:
  assumes "mgr_contexts (others m) cid = Some c1"
  shows "case Compact scale prompt others cid opts m of
      (Inl err, m') \<Rightarrow> m' = m \<or> m' = others m
    | (Inr r, m') \<Rightarrow> \<exists>c c' boundary summary. mgr_contexts m cid = Some c \<and> mgr_contexts m' cid = Some c' \<and>
        cx_Messages c' = boundary # summary # map fst (restore_all opts) \<and> length (restoreFiles (co_ReadFileState opts)) \<le> 5 \<and>
        (\<forall>msg \<in> set (cx_Messages c'). m_Role msg = RoleUser) \<and> pair_ok {} (cx_Messages c') \<and>
        cr_PreTokens r = estimateMessagesTokens (cx_Messages c) \<and> cr_PostTokens r = estimateMessagesTokens (cx_Messages c') \<and>
        cr_PostTokens r = EstimateMessageTokens boundary + EstimateMessageTokens summary + EstimateRestoreTokens opts"
proof (cases "fst (Compact scale prompt others cid opts m)")
  case (Inl err)
  then show ?thesis by (auto simp: Compact_def Let_def split: option.splits sum.splits if_splits)
next
  case (Inr r)
  from Compact_success [OF this] obtain c s where
    c: "mgr_contexts m cid = Some c" "cr_PreTokens r = estimateMessagesTokens (cx_Messages c)" and
    e: "snd (Compact scale prompt others cid opts m) = compact_commit cid (compact_replacement opts (estimateMessagesTokens (cx_Messages c)) s) (others m)"
      "cr_PostTokens r = estimateMessagesTokens (compact_replacement opts (estimateMessagesTokens (cx_Messages c)) s)" by blast
  let ?new = "compact_replacement opts (estimateMessagesTokens (cx_Messages c)) s"
  obtain b t where n: "?new = b # t # map fst (restore_all opts)" by (simp add: compact_replacement_def)
  have users: "\<forall>msg \<in> set ?new. m_Role msg = RoleUser" using replacement_users by blast
  have pr: "pair_ok {} ?new" using pair_ok_users [OF users, of "{}" "[]"] by simp
  have est: "estimateMessagesTokens ?new = EstimateMessageTokens b + EstimateMessageTokens t + EstimateRestoreTokens opts"
    unfolding n by (simp add: estimate_restored)
  have len: "length (restoreFiles (co_ReadFileState opts)) \<le> 5"
    using restore_files_bound [of 0] by (simp add: restoreFiles_def maxRestoreFiles_def)
  obtain m' where m': "Compact scale prompt others cid opts m = (Inr r, m')" using Inr by (metis prod.collapse)
  obtain c' where c': "mgr_contexts m' cid = Some c'" "cx_Messages c' = ?new"
    using e(1) assms by (simp add: m' compact_commit_def)
  show ?thesis unfolding m' prod.case sum.case
    by (rule exI [of _ c], rule exI [of _ c'], rule exI [of _ b], rule exI [of _ t])
       (use c c'(1) len e(2) users n pr est in \<open>simp only: c'(2) simp_thms\<close>)
qed

text \<open>
  C16: the table of contexts does not protect a running conversation from a manual compaction. If the
  reasoning loop writes an assistant message with a tool call while the summary is being
  produced, the compaction discards it, and the tool's result is then appended without the call it answers:
  a conversation that was well paired no longer is.
\<close>

theorem compaction_orphans_concurrent_round:
  fixes cid :: CtxID and m :: "'e Manager"
  defines "loop \<equiv> \<lambda>tc m :: 'e Manager. snd (AppendAssistantWithToolCalls cid [] [] [] [tc] m)"
  assumes "mgr_contexts m cid = Some c" and "pair_ok {} (cx_Messages c)" and "cx_MaxSize c = 0"
    and "fst (Compact scale prompt (loop tc) cid opts m) = Inr r"
  shows "(\<exists>c'. mgr_contexts (snd (AppendToolResult cid (tc_ID tc) out (snd (Compact scale prompt (loop tc) cid opts m)))) cid = Some c' \<and>
      \<not> pair_ok {} (cx_Messages c')) \<and>
    (\<exists>c'. mgr_contexts (snd (AppendToolResult cid (tc_ID tc) out (loop tc (snd (Compact scale prompt id cid opts m))))) cid = Some c' \<and>
      pair_ok {} (cx_Messages c'))"
proof -
  from Compact_success [OF assms(5)] obtain c0 s where "mgr_contexts m cid = Some c0"
    and e: "snd (Compact scale prompt (loop tc) cid opts m) =
      compact_commit cid (compact_replacement opts (estimateMessagesTokens (cx_Messages c0)) s) (loop tc m)" by blast
  have "fst (Compact scale prompt id cid opts m) = Inr r"
    using assms(5) by (auto simp: Compact_def Let_def split: option.splits sum.splits if_splits)
  from Compact_success [OF this] obtain c2 t where "mgr_contexts m cid = Some c2"
    and f: "snd (Compact scale prompt id cid opts m) =
      compact_commit cid (compact_replacement opts (estimateMessagesTokens (cx_Messages c2)) t) m" by (metis id_apply)
  let ?n = "compact_replacement opts (estimateMessagesTokens (cx_Messages c0)) s"
  let ?k = "compact_replacement opts (estimateMessagesTokens (cx_Messages c2)) t"
  have u: "\<forall>msg \<in> set ?n. m_Role msg = RoleUser" "\<forall>msg \<in> set ?k. m_Role msg = RoleUser" using replacement_users by blast+
  have "\<exists>c1. mgr_contexts (loop tc m) cid = Some c1 \<and> cx_MaxSize c1 = 0"
    using assms(2,4) by (simp add: loop_def AppendAssistantWithToolCalls_def on_context_Some [OF assms(2)])
  then obtain c1 where c1: "mgr_contexts (loop tc m) cid = Some c1" "cx_MaxSize c1 = 0" by blast
  have a: "\<exists>c'. mgr_contexts (snd (AppendToolResult cid (tc_ID tc) out (compact_commit cid ?n (loop tc m)))) cid = Some c' \<and>
      cx_Messages c' = ?n @ [tool_message (tc_ID tc, out)]"
    using c1 by (simp add: compact_commit_def AppendToolResult_def on_context_def is_full_def tool_message_def)
  have b: "\<exists>c'. mgr_contexts (snd (AppendToolResult cid (tc_ID tc) out (loop tc (compact_commit cid ?k m)))) cid = Some c' \<and>
      cx_Messages c' = ?k @ [(plain_message RoleAssistant [])\<lparr>m_ToolCalls := [tc], m_ReasoningBlocks := [], m_Reasoning := []\<rparr>,
        tool_message (tc_ID tc, out)]"
    using assms(2,4) by (simp add: compact_commit_def loop_def AppendAssistantWithToolCalls_def AppendToolResult_def on_context_def
      is_full_def tool_message_def)
  show ?thesis unfolding e f using a b
    by (auto simp: pair_ok_users [OF u(1)] pair_ok_users [OF u(2)] tool_message_def plain_message_def role_defs)
qed

definition demo_opts :: CompactOpts where
  "demo_opts =
     \<lparr>co_LLMCall = Some (\<lambda>n msgs. Inr ''<summary>done</summary>''), co_CustomInstructions = [], co_Trigger = [],
      co_ReadFileState = [(''a.go'', \<lparr>rf_Content = ''package a'', rf_Timestamp = 7\<rparr>)], co_ActiveSkills = [], co_ActivePlan = ''plan''\<rparr>"

lemma demo_compact: "fst (Compact (\<lambda>n b t. n) (\<lambda>i. i) others 1 demo_opts demo_full) \<noteq> Inl e"
  by (simp add: Compact_def demo_opts_def demo_full_def getContext_def demo_ctx_def demo_history_def minMessagesForCompact_def
    compact_summary_def compactWithPTLRetry_def shrinkToolResultsForCompact_def maxPTLRetries_def numeral_eq_Suc Let_def)

theorem compaction_orphans_concurrent_round_witness:
  "\<exists>c'. mgr_contexts (snd (AppendToolResult 1 ''t1'' ''ok'' (snd (Compact (\<lambda>n b t. n) (\<lambda>i. i)
     (\<lambda>m. snd (AppendAssistantWithToolCalls 1 [] [] [] [demo_call] m)) 1 demo_opts demo_full)))) 1 = Some c' \<and> \<not> pair_ok {} (cx_Messages c')"
proof -
  have m: "mgr_contexts demo_full 1 = Some demo_ctx" by (simp add: demo_full_def)
  have p: "pair_ok {} (cx_Messages demo_ctx)"
    by (simp add: demo_ctx_def demo_history_def demo_long_def plain_message_def role_defs demo_call_def numeral_eq_Suc)
  have z: "cx_MaxSize demo_ctx = 0" by (simp add: demo_ctx_def)
  obtain r where "fst (Compact (\<lambda>n b t. n) (\<lambda>i. i) (\<lambda>m. snd (AppendAssistantWithToolCalls 1 [] [] [] [demo_call] m)) 1 demo_opts demo_full) = Inr r"
    using demo_compact by (metis sum.exhaust)
  from compaction_orphans_concurrent_round [OF m p z this, of "''ok''"] show ?thesis by (simp add: demo_call_def del: One_nat_def)
qed

end
