(* ===== verification/Mounts.thy ===== *)
theory Mounts
  imports Vfs
begin

text \<open>
  The mounts of MCP servers (\<open>vfs/mount.go\<close>) and the files behind them (\<open>vfs/mcp.go\<close>).

  A mount entry is a heap object: the registry of mounts maps a path to its address, so that an
  operation that waited for an entry's lock can find that the path now leads to another entry. The
  lock is the flag \<open>mm_locked\<close>. \<open>Mount\<close> holds it while it connects, so it is cut into the steps
  \<open>mount_reserve\<close>, then \<open>mount_abort\<close> or \<open>mount_finalize\<close>; the other critical sections of one entry
  are one step each, except that the last \<open>Unmount\<close> first removes the entry from the registry of
  mounts and then its device, two maps that others read in between. A transport is an object
  \<open>'t\<close> the factory returned; of its methods the manager calls \<open>Connect\<close> and \<open>Close\<close>, and the state
  logs the calls to \<open>Close\<close>.
\<close>

section \<open>Configuration and status\<close>

record MCPConfig =
  mc_ServerName :: string
  mc_Command :: string
  mc_Args :: "string list"
  mc_Env :: "(string \<times> string) list"
  mc_TransportType :: string
  mc_WorkDir :: string
  mc_Instructions :: string
  mc_URL :: string
  mc_Headers :: "(string \<times> string) list"
  mc_MountTimeout :: int
  mc_RequestTimeout :: int
  mc_MaxOutputBytes :: int

datatype MCPStatus =
    MCPStatusConnected | MCPStatusDisconnected | MCPStatusError | MCPStatusReconnecting
  | MCPStatusBackoffExhausted | MCPStatusConnecting

fun MCPStatusString :: "MCPStatus \<Rightarrow> string" where
  "MCPStatusString MCPStatusConnected = ''connected''"
| "MCPStatusString MCPStatusDisconnected = ''disconnected''"
| "MCPStatusString MCPStatusError = ''error''"
| "MCPStatusString MCPStatusReconnecting = ''reconnecting''"
| "MCPStatusString MCPStatusBackoffExhausted = ''backoff_exhausted''"
| "MCPStatusString MCPStatusConnecting = ''connecting''"

section \<open>Files of a mount\<close>

text \<open>
  \<open>readFromBuffer\<close> takes up to \<open>length\<close> bytes off a response; \<open>None\<close> is the nil slice.
\<close>

definition readFromBuffer :: "string option \<Rightarrow> int \<Rightarrow> string option \<times> string option" where
  "readFromBuffer buf len =
     (case buf of
        None \<Rightarrow> (None, None)
      | Some b \<Rightarrow>
          if b = [] then (None, None)
          else let n = (if len \<le> 0 \<or> len > int (length b) then length b else nat len)
               in (Some (take n b), Some (drop n b)))"

definition parseToolName :: "string \<Rightarrow> string" where
  "parseToolName subpath = TrimPrefix (TrimPrefix subpath ''/tools/'') ''/''"

definition mcpCallErrCode :: "go_error \<Rightarrow> ErrCode" where
  "mcpCallErrCode err =
     (case err of DriverError _ _ c \<Rightarrow> if c = ErrDeviceDisconnected then ErrDeviceDisconnected else ErrServiceUnavailable
      | _ \<Rightarrow> ErrServiceUnavailable)"

record 't mcpFile =
  mf_subpath :: string
  mf_transport :: 't
  mf_response :: "string option"
  mf_closed :: bool
  mf_writeErr :: "go_error option"

definition newMCPFile :: "string \<Rightarrow> 't \<Rightarrow> 't mcpFile" where
  "newMCPFile subpath transport =
     \<lparr>mf_subpath = subpath, mf_transport = transport, mf_response = None, mf_closed = False, mf_writeErr = None\<rparr>"

text \<open>
  \<open>Write\<close> checks the file, calls the transport without the lock, and stores the outcome: \<open>mf_begin\<close>
  gives the tool to call, \<open>mf_end\<close> takes what the call returned.
\<close>

definition mf_begin :: "'t mcpFile \<Rightarrow> go_error + 't \<times> string" where
  "mf_begin f =
     (if mf_closed f then Inl (DriverError ''Write'' (mf_subpath f) ErrDriver)
      else Inr (mf_transport f, parseToolName (mf_subpath f)))"

definition mf_end :: "go_error + string option \<Rightarrow> 't mcpFile \<Rightarrow> go_error option \<times> 't mcpFile" where
  "mf_end resp f =
     (if mf_closed f then (Some (DriverError ''Write'' (mf_subpath f) ErrDriver), f)
      else case resp of
             Inl err \<Rightarrow> (Some (DriverError ''Write'' (mf_subpath f) (mcpCallErrCode err)), f\<lparr>mf_writeErr := Some err\<rparr>)
           | Inr r \<Rightarrow> (None, f\<lparr>mf_response := r, mf_writeErr := None\<rparr>))"

definition mf_Read :: "int \<Rightarrow> 't mcpFile \<Rightarrow> (go_error + string option) \<times> 't mcpFile" where
  "mf_Read len f =
     (if mf_closed f then (Inl (DriverError ''Read'' (mf_subpath f) ErrDriver), f)
      else if mf_writeErr f \<noteq> None then (Inl (DriverError ''Read'' (mf_subpath f) ErrServiceUnavailable), f)
      else if mf_response f = None then (Inl (DriverError ''Read'' (mf_subpath f) ErrInvalid), f)
      else case readFromBuffer (mf_response f) len of (dat, remaining) \<Rightarrow>
             (Inr dat, f\<lparr>mf_response := remaining\<rparr>))"

definition mf_Close :: "'t mcpFile \<Rightarrow> go_error option \<times> 't mcpFile" where
  "mf_Close f =
     (if mf_closed f then (Some (DriverError ''Close'' (mf_subpath f) ErrDriver), f)
      else (None, f\<lparr>mf_closed := True, mf_response := None\<rparr>))"

definition mf_Stat :: "'t mcpFile \<Rightarrow> go_error + FileStat" where
  "mf_Stat f =
     (if mf_closed f then Inl (DriverError ''Stat'' (mf_subpath f) ErrDriver)
      else Inr (FileStat (mf_subpath f) 0 True []))"

text \<open>The kind of file a subpath of a mount opens.\<close>

datatype 't mcp_file =
    mcpRootFile | mcpToolListFile 't | McpFile "'t mcpFile" | mcpResourceListFile 't | mcpResourceFile string 't

definition TrimRightSlash :: "string \<Rightarrow> string" where
  "TrimRightSlash s = rev (dropWhile (\<lambda>c. c = CHR ''/'') (rev s))"

definition mcpFileFactory :: "('t mcp_file \<Rightarrow> 'f) \<Rightarrow> 't \<Rightarrow> ('f, 'w) VFSFileFactory" where
  "mcpFileFactory file transport subpath0 flags workDir w =
     (let s1 = TrimRightSlash subpath0;
          subpath = (if s1 = [] then ''/'' else s1)
      in if subpath = ''/'' then (Inr (file mcpRootFile), w)
         else if subpath = ''/tools'' then (Inr (file (mcpToolListFile transport)), w)
         else if prefix ''/tools/'' subpath then (Inr (file (McpFile (newMCPFile subpath transport))), w)
         else if subpath = ''/resources'' then (Inr (file (mcpResourceListFile transport)), w)
         else if prefix ''/resources/'' subpath then (Inr (file (mcpResourceFile subpath transport)), w)
         else (Inl (DriverError ''Open'' subpath ErrNotFound), w))"

section \<open>The mount manager\<close>

record 't MCPMount =
  mm_Path :: string
  mm_Config :: MCPConfig
  mm_Status :: MCPStatus
  mm_transport :: "'t option"
  mm_refCount :: int
  mm_locked :: bool

record ('f, 'w, 't) MountManager =
  mt_heap :: "nat \<Rightarrow> 't MCPMount"
  mt_next :: nat
  mt_mounts :: "(string, nat) SyncMap"
  mt_devReg :: "('f, 'w, nat) DeviceRegistry"
  mt_closed :: "'t list"

definition empty_config :: MCPConfig where
  "empty_config = \<lparr>mc_ServerName = [], mc_Command = [], mc_Args = [], mc_Env = [], mc_TransportType = [],
     mc_WorkDir = [], mc_Instructions = [], mc_URL = [], mc_Headers = [], mc_MountTimeout = 0,
     mc_RequestTimeout = 0, mc_MaxOutputBytes = 0\<rparr>"

definition placeholder :: "string \<Rightarrow> MCPConfig \<Rightarrow> 't MCPMount" where
  "placeholder path config = \<lparr>mm_Path = path, mm_Config = config, mm_Status = MCPStatusConnecting,
     mm_transport = None, mm_refCount = 0, mm_locked = True\<rparr>"

definition NewMountManager :: "('f, 'w, nat) DeviceRegistry \<Rightarrow> ('f, 'w, 't) MountManager" where
  "NewMountManager devReg = \<lparr>mt_heap = (\<lambda>_. placeholder [] empty_config), mt_next = 0, mt_mounts = NewSyncMap,
     mt_devReg = devReg, mt_closed = []\<rparr>"

definition upd_mount :: "nat \<Rightarrow> ('t MCPMount \<Rightarrow> 't MCPMount) \<Rightarrow> ('f, 'w, 't) MountManager \<Rightarrow> ('f, 'w, 't) MountManager" where
  "upd_mount a g m = m\<lparr>mt_heap := (mt_heap m)(a := g (mt_heap m a))\<rparr>"

definition mm_unlock :: "nat \<Rightarrow> ('f, 'w, 't) MountManager \<Rightarrow> ('f, 'w, 't) MountManager" where
  "mm_unlock a m = upd_mount a (\<lambda>e. e\<lparr>mm_locked := False\<rparr>) m"

definition close_transport :: "'t \<Rightarrow> ('f, 'w, 't) MountManager \<Rightarrow> ('f, 'w, 't) MountManager" where
  "close_transport t m = m\<lparr>mt_closed := mt_closed m @ [t]\<rparr>"

definition not_mounted :: "string \<Rightarrow> go_error" where
  "not_mounted path = PlainError (''not mounted: '' @ path)"

text \<open>\<open>Mount\<close> up to the factory: a locked placeholder is published unless the path is taken.\<close>

definition mount_reserve ::
  "string \<Rightarrow> MCPConfig \<Rightarrow> ('f, 'w, 't) MountManager \<Rightarrow> (go_error + nat) \<times> ('f, 'w, 't) MountManager" where
  "mount_reserve path config m =
     (let a = mt_next m;
          m1 = m\<lparr>mt_heap := (mt_heap m)(a := placeholder path config), mt_next := a + 1\<rparr>
      in case sm_load_or_store path a (mt_mounts m1) of ((_, loaded), mounts) \<Rightarrow>
           if loaded then (Inl (DriverError ''Mount'' path ErrAlreadyMounted), mm_unlock a m1)
           else (Inr a, m1\<lparr>mt_mounts := mounts\<rparr>))"

text \<open>The failing ends of \<open>Mount\<close>: the factory, \<open>Connect\<close> or the device registry said no.\<close>

definition mount_abort :: "string \<Rightarrow> nat \<Rightarrow> 't option \<Rightarrow> ('f, 'w, 't) MountManager \<Rightarrow> ('f, 'w, 't) MountManager" where
  "mount_abort path a transport m =
     (let m1 = mm_unlock a (m\<lparr>mt_mounts := sm_delete path (mt_mounts m)\<rparr>)
      in case transport of None \<Rightarrow> m1 | Some t \<Rightarrow> close_transport t m1)"

definition mount_finalize ::
  "('t mcp_file \<Rightarrow> 'f) \<Rightarrow> string \<Rightarrow> nat \<Rightarrow> 't \<Rightarrow> ('f, 'w, 't) MountManager
   \<Rightarrow> go_error option \<times> ('f, 'w, 't) MountManager" where
  "mount_finalize file path a t m =
     (let m1 = upd_mount a (\<lambda>e. e\<lparr>mm_transport := Some t, mm_Status := MCPStatusConnected, mm_refCount := 1\<rparr>) m
      in case dev_RegisterWithDriver path (mcpFileFactory file t) a (mt_devReg m1) of
           Inl e \<Rightarrow> (Some e, mount_abort path a (Some t) m1)
         | Inr d \<Rightarrow> (None, mm_unlock a (m1\<lparr>mt_devReg := d\<rparr>)))"

text \<open>
  \<open>Unmount\<close> under the entry's lock. \<open>Inr True\<close> is the last owner: the entry has left the registry of
  mounts and its lock is still held, for \<open>unmount_unregister\<close>.
\<close>

definition unmount_release ::
  "string \<Rightarrow> nat \<Rightarrow> ('f, 'w, 't) MountManager \<Rightarrow> (go_error + bool) \<times> ('f, 'w, 't) MountManager" where
  "unmount_release path a m =
     (if sm_load (mt_mounts m) path \<noteq> Some a then (Inl (not_mounted path), m)
      else if mm_refCount (mt_heap m a) \<le> 0 then (Inl (not_mounted path), m)
      else
        let m1 = upd_mount a (\<lambda>e. e\<lparr>mm_refCount := mm_refCount e - 1\<rparr>) m
        in if mm_refCount (mt_heap m1 a) > 0 then (Inr False, m1)
           else (Inr True, upd_mount a (\<lambda>e. e\<lparr>mm_locked := True\<rparr>) (m1\<lparr>mt_mounts := sm_delete path (mt_mounts m1)\<rparr>)))"

definition unmount_unregister :: "string \<Rightarrow> nat \<Rightarrow> ('f, 'w, 't) MountManager \<Rightarrow> 't option \<times> ('f, 'w, 't) MountManager" where
  "unmount_unregister path a m =
     (let m1 = m\<lparr>mt_devReg := snd (dev_Unregister path (mt_devReg m))\<rparr>
      in (mm_transport (mt_heap m1 a), mm_unlock a m1))"

definition unmount_close :: "'t option \<Rightarrow> ('f, 'w, 't) MountManager \<Rightarrow> ('f, 'w, 't) MountManager" where
  "unmount_close transport m = (case transport of None \<Rightarrow> m | Some t \<Rightarrow> close_transport t m)"

definition acquire_locked :: "string \<Rightarrow> nat \<Rightarrow> ('f, 'w, 't) MountManager \<Rightarrow> go_error option \<times> ('f, 'w, 't) MountManager" where
  "acquire_locked path a m =
     (let e = mt_heap m a
      in if sm_load (mt_mounts m) path \<noteq> Some a then (Some (not_mounted path), m)
         else if mm_Status e \<noteq> MCPStatusConnected \<or> mm_transport e = None
         then (Some (PlainError (''not mounted: '' @ path @ '' (status '' @ MCPStatusString (mm_Status e) @ '')'')), m)
         else (None, upd_mount a (\<lambda>e. e\<lparr>mm_refCount := mm_refCount e + 1\<rparr>) m))"

section \<open>Whole calls, nothing in between\<close>

text \<open>
  What the factory returns, what \<open>Connect\<close> says within its timeout, and what \<open>Close\<close> says.
\<close>

record 't transport_env =
  te_factory :: "MCPConfig \<Rightarrow> go_error + 't"
  te_Connect :: "'t \<Rightarrow> int \<Rightarrow> go_error option"
  te_Close :: "'t \<Rightarrow> go_error option"

definition defaultMountTimeout :: int where
  "defaultMountTimeout = 5 * 1000000000"

definition Mount ::
  "('t mcp_file \<Rightarrow> 'f) \<Rightarrow> 't transport_env \<Rightarrow> string \<Rightarrow> MCPConfig \<Rightarrow> ('f, 'w, 't) MountManager
   \<Rightarrow> go_error option \<times> ('f, 'w, 't) MountManager" where
  "Mount file te path config m =
     (case mount_reserve path config m of
        (Inl e, m1) \<Rightarrow> (Some e, m1)
      | (Inr a, m1) \<Rightarrow>
          (case te_factory te config of
             Inl e \<Rightarrow> (Some e, mount_abort path a None m1)
           | Inr t \<Rightarrow>
               let timeout = (if mc_MountTimeout config \<le> 0 then defaultMountTimeout else mc_MountTimeout config)
               in case te_Connect te t timeout of
                    Some e \<Rightarrow> (Some e, mount_abort path a (Some t) m1)
                  | None \<Rightarrow> mount_finalize file path a t m1))"

definition Unmount ::
  "'t transport_env \<Rightarrow> string \<Rightarrow> ('f, 'w, 't) MountManager \<Rightarrow> go_error option \<times> ('f, 'w, 't) MountManager" where
  "Unmount te path m =
     (case sm_load (mt_mounts m) path of
        None \<Rightarrow> (Some (not_mounted path), m)
      | Some a \<Rightarrow>
          (case unmount_release path a m of
             (Inl e, m1) \<Rightarrow> (Some e, m1)
           | (Inr False, m1) \<Rightarrow> (None, m1)
           | (Inr True, m1) \<Rightarrow>
               (case unmount_unregister path a m1 of
                  (transport, m2) \<Rightarrow>
                    (case transport of None \<Rightarrow> None | Some t \<Rightarrow> te_Close te t, unmount_close transport m2))))"

definition Acquire :: "string \<Rightarrow> ('f, 'w, 't) MountManager \<Rightarrow> go_error option \<times> ('f, 'w, 't) MountManager" where
  "Acquire path m =
     (case sm_load (mt_mounts m) path of
        None \<Rightarrow> (Some (not_mounted path), m)
      | Some a \<Rightarrow> acquire_locked path a m)"

definition mt_GetStatus :: "string \<Rightarrow> ('f, 'w, 't) MountManager \<Rightarrow> go_error + MCPStatus" where
  "mt_GetStatus path m =
     (case sm_load (mt_mounts m) path of
        None \<Rightarrow> Inl (not_mounted path)
      | Some a \<Rightarrow> Inr (mm_Status (mt_heap m a)))"

definition ListMounts :: "('f, 'w, 't) MountManager \<Rightarrow> 't MCPMount list" where
  "ListMounts m = sm_range (\<lambda>_ a result. (True, result @ [mt_heap m a])) (mt_mounts m) []"

definition UnmountAll ::
  "'t transport_env \<Rightarrow> ('f, 'w, 't) MountManager \<Rightarrow> go_error option \<times> ('f, 'w, 't) MountManager" where
  "UnmountAll te m =
     (let paths = sm_range (\<lambda>path _ ps. (True, ps @ [path])) (mt_mounts m) []
      in fold (\<lambda>path (firstErr, m).
                case Unmount te path m of
                  (Some e, m') \<Rightarrow> (if firstErr = None then Some e else firstErr, m')
                | (None, m') \<Rightarrow> (firstErr, m'))
           paths (None, m))"

end
