(* ===== verification/MountSys.thy ===== *)
theory MountSys
  imports Mounts
begin

text \<open>
  The mount manager used by any number of goroutines. A step is one critical section of one
  goroutine; the interleaving is arbitrary. What a goroutine remembers between its steps is the
  entry it loaded or holds. The transports the factory hands out are new objects.
\<close>

section \<open>The system\<close>

datatype 't mpc =
    MIdle
  | MConnecting string nat
  | MUnmounting string nat
  | MUnregister string nat
  | MClosing nat 't
  | MAcquiring string nat

datatype mount_op = OMount | OUnmount | OAcquire

datatype mlabel = MTau | MOk mount_op string | MErr mount_op string

record ('f, 'w, 't) msys =
  ms_pc :: "nat \<Rightarrow> 't mpc"
  ms_m :: "('f, 'w, 't) MountManager"
  ms_used :: "'t set"

definition msys_init :: "('f, 'w, nat) DeviceRegistry \<Rightarrow> ('f, 'w, 't) msys" where
  "msys_init devReg = \<lparr>ms_pc = (\<lambda>_. MIdle), ms_m = NewMountManager devReg, ms_used = {}\<rparr>"

definition ms_go ::
  "nat \<Rightarrow> 't mpc \<Rightarrow> ('f, 'w, 't) MountManager \<Rightarrow> 't set \<Rightarrow> ('f, 'w, 't) msys \<Rightarrow> ('f, 'w, 't) msys" where
  "ms_go t pc m used s = s\<lparr>ms_pc := (ms_pc s)(t := pc), ms_m := m, ms_used := used\<rparr>"

inductive mstep :: "('t mcp_file \<Rightarrow> 'f) \<Rightarrow> ('f, 'w, 't) msys \<Rightarrow> mlabel \<Rightarrow> ('f, 'w, 't) msys \<Rightarrow> bool" for mkfile where
  mount_taken:
    "ms_pc s t = MIdle \<Longrightarrow> mount_reserve path config (ms_m s) = (Inl e, m')
     \<Longrightarrow> mstep mkfile s (MErr OMount path) (ms_go t MIdle m' (ms_used s) s)"
| mount_reserved:
    "ms_pc s t = MIdle \<Longrightarrow> mount_reserve path config (ms_m s) = (Inr a, m')
     \<Longrightarrow> mstep mkfile s MTau (ms_go t (MConnecting path a) m' (ms_used s) s)"
| mount_no_transport:
    "ms_pc s t = MConnecting path a
     \<Longrightarrow> mstep mkfile s (MErr OMount path) (ms_go t MIdle (mount_abort path a None (ms_m s)) (ms_used s) s)"
| mount_not_connected:
    "ms_pc s t = MConnecting path a \<Longrightarrow> tr \<notin> ms_used s
     \<Longrightarrow> mstep mkfile s (MErr OMount path)
           (ms_go t MIdle (mount_abort path a (Some tr) (ms_m s)) (insert tr (ms_used s)) s)"
| mount_connected:
    "ms_pc s t = MConnecting path a \<Longrightarrow> tr \<notin> ms_used s \<Longrightarrow> mount_finalize mkfile path a tr (ms_m s) = (r, m')
     \<Longrightarrow> mstep mkfile s (if r = None then MOk OMount path else MErr OMount path)
           (ms_go t MIdle m' (insert tr (ms_used s)) s)"
| unmount_missing:
    "ms_pc s t = MIdle \<Longrightarrow> sm_load (mt_mounts (ms_m s)) path = None
     \<Longrightarrow> mstep mkfile s (MErr OUnmount path) s"
| unmount_loaded:
    "ms_pc s t = MIdle \<Longrightarrow> sm_load (mt_mounts (ms_m s)) path = Some a
     \<Longrightarrow> mstep mkfile s MTau (ms_go t (MUnmounting path a) (ms_m s) (ms_used s) s)"
| unmount_decides:
    "ms_pc s t = MUnmounting path a \<Longrightarrow> \<not> mm_locked (mt_heap (ms_m s) a)
     \<Longrightarrow> unmount_release path a (ms_m s) = (r, m')
     \<Longrightarrow> mstep mkfile s (case r of Inl _ \<Rightarrow> MErr OUnmount path | Inr _ \<Rightarrow> MOk OUnmount path)
           (ms_go t (if r = Inr True then MUnregister path a else MIdle) m' (ms_used s) s)"
| unmount_unregisters:
    "ms_pc s t = MUnregister path a \<Longrightarrow> unmount_unregister path a (ms_m s) = (transport, m')
     \<Longrightarrow> mstep mkfile s MTau
           (ms_go t (case transport of None \<Rightarrow> MIdle | Some tr \<Rightarrow> MClosing a tr) m' (ms_used s) s)"
| unmount_closes:
    "ms_pc s t = MClosing a tr
     \<Longrightarrow> mstep mkfile s MTau (ms_go t MIdle (unmount_close (Some tr) (ms_m s)) (ms_used s) s)"
| acquire_missing:
    "ms_pc s t = MIdle \<Longrightarrow> sm_load (mt_mounts (ms_m s)) path = None
     \<Longrightarrow> mstep mkfile s (MErr OAcquire path) s"
| acquire_loaded:
    "ms_pc s t = MIdle \<Longrightarrow> sm_load (mt_mounts (ms_m s)) path = Some a
     \<Longrightarrow> mstep mkfile s MTau (ms_go t (MAcquiring path a) (ms_m s) (ms_used s) s)"
| acquire_decides:
    "ms_pc s t = MAcquiring path a \<Longrightarrow> \<not> mm_locked (mt_heap (ms_m s) a)
     \<Longrightarrow> acquire_locked path a (ms_m s) = (r, m')
     \<Longrightarrow> mstep mkfile s (if r = None then MOk OAcquire path else MErr OAcquire path)
           (ms_go t MIdle m' (ms_used s) s)"

section \<open>The specification: a number of owners per path\<close>

inductive owner_step :: "(string \<Rightarrow> nat) \<Rightarrow> mlabel \<Rightarrow> (string \<Rightarrow> nat) \<Rightarrow> bool" where
  owner_tau: "owner_step q MTau q"
| owner_err: "owner_step q (MErr opn path) q"
| owner_mount: "q path = 0 \<Longrightarrow> owner_step q (MOk OMount path) (q(path := 1))"
| owner_acquire: "0 < q path \<Longrightarrow> owner_step q (MOk OAcquire path) (q(path := q path + 1))"
| owner_release: "0 < q path \<Longrightarrow> owner_step q (MOk OUnmount path) (q(path := q path - 1))"

text \<open>The refinement mapping: an entry counts its owners; one that is still connecting has none.\<close>

definition owners :: "('f, 'w, 't) MountManager \<Rightarrow> string \<Rightarrow> nat" where
  "owners m path = (case sm_load (mt_mounts m) path of None \<Rightarrow> 0 | Some a \<Rightarrow> nat (mm_refCount (mt_heap m a)))"

section \<open>The invariant\<close>

text \<open>
  Over what the operations see: the program counters, the registry of mounts \<open>L\<close>, the heap \<open>H\<close>
  below \<open>n\<close>, the registered device paths \<open>R\<close> and their drivers \<open>V\<close>, the closed transports \<open>C\<close> and
  those handed out, \<open>U\<close>. A goroutine holds the entry it connects, unregisters or closes.
\<close>

fun holds_entry :: "'t mpc \<Rightarrow> nat \<Rightarrow> bool" where
  "holds_entry (MConnecting p a) b \<longleftrightarrow> a = b"
| "holds_entry (MUnregister p a) b \<longleftrightarrow> a = b"
| "holds_entry (MClosing a tr) b \<longleftrightarrow> a = b"
| "holds_entry _ b \<longleftrightarrow> False"

definition live_ok :: "(string \<Rightarrow> nat option) \<Rightarrow> (nat \<Rightarrow> 't MCPMount) \<Rightarrow> nat \<Rightarrow> (string \<Rightarrow> bool) \<Rightarrow> (string \<Rightarrow> nat option) \<Rightarrow> bool" where
  "live_ok L H n R V \<longleftrightarrow> (\<forall>p a. L p = Some a \<longrightarrow> a < n \<and> mm_Path (H a) = p \<and>
     (if mm_locked (H a) then mm_refCount (H a) = 0 \<and> mm_transport (H a) = None
      else mm_Status (H a) = MCPStatusConnected \<and> 1 \<le> mm_refCount (H a) \<and> mm_transport (H a) \<noteq> None \<and> R p \<and> V p = Some a))"

fun pc_ok :: "'t mpc \<Rightarrow> (string \<Rightarrow> nat option) \<Rightarrow> (nat \<Rightarrow> 't MCPMount) \<Rightarrow> nat \<Rightarrow> (string \<Rightarrow> bool) \<Rightarrow> bool" where
  "pc_ok MIdle L H n R \<longleftrightarrow> True"
| "pc_ok (MConnecting p a) L H n R \<longleftrightarrow> L p = Some a \<and> mm_locked (H a)"
| "pc_ok (MUnmounting p a) L H n R \<longleftrightarrow> a < n"
| "pc_ok (MAcquiring p a) L H n R \<longleftrightarrow> a < n"
| "pc_ok (MUnregister p a) L H n R \<longleftrightarrow>
     a < n \<and> L p \<noteq> Some a \<and> mm_Path (H a) = p \<and> mm_locked (H a) \<and> mm_transport (H a) \<noteq> None \<and> R p \<and>
     (\<forall>b. L p = Some b \<longrightarrow> mm_locked (H b))"
| "pc_ok (MClosing a tr) L H n R \<longleftrightarrow> a < n \<and> L (mm_Path (H a)) \<noteq> Some a \<and> mm_transport (H a) = Some tr"

definition holder_ok :: "(nat \<Rightarrow> 't mpc) \<Rightarrow> (string \<Rightarrow> nat option) \<Rightarrow> (nat \<Rightarrow> 't MCPMount) \<Rightarrow> bool" where
  "holder_ok P L H \<longleftrightarrow> (\<forall>t t' a. holds_entry (P t) a \<longrightarrow> holds_entry (P t') a \<longrightarrow> t = t') \<and>
     (\<forall>t t' p a b. P t = MUnregister p a \<longrightarrow> P t' = MUnregister p b \<longrightarrow> t = t') \<and>
     (\<forall>p a. L p = Some a \<longrightarrow> mm_locked (H a) \<longrightarrow> (\<exists>t. P t = MConnecting p a))"

definition entry_gone :: "(nat \<Rightarrow> 't mpc) \<Rightarrow> (string \<Rightarrow> nat option) \<Rightarrow> (nat \<Rightarrow> 't MCPMount) \<Rightarrow> nat \<Rightarrow> bool" where
  "entry_gone P L H a \<longleftrightarrow> L (mm_Path (H a)) \<noteq> Some a \<and> (\<forall>t. \<not> holds_entry (P t) a)"

definition transport_ok :: "(nat \<Rightarrow> 't mpc) \<Rightarrow> (string \<Rightarrow> nat option) \<Rightarrow> (nat \<Rightarrow> 't MCPMount) \<Rightarrow> nat \<Rightarrow> 't list \<Rightarrow> 't set \<Rightarrow> bool" where
  "transport_ok P L H n C U \<longleftrightarrow>
     distinct C \<and> set C \<subseteq> U \<and>
     (\<forall>a tr. a < n \<longrightarrow> mm_transport (H a) = Some tr \<longrightarrow> tr \<in> U \<and> (\<forall>b < n. mm_transport (H b) = Some tr \<longrightarrow> a = b)) \<and>
     (\<forall>a tr. a < n \<longrightarrow> mm_transport (H a) = Some tr \<longrightarrow>
        (tr \<in> set C \<longleftrightarrow> entry_gone P L H a)) \<and>
     (\<forall>tr \<in> U. tr \<in> set C \<or> (\<exists>a < n. mm_transport (H a) = Some tr))"

definition mount_inv where
  "mount_inv P L H n R V C U \<longleftrightarrow>
     live_ok L H n R V \<and> (\<forall>t. pc_ok (P t) L H n R) \<and> holder_ok P L H \<and> transport_ok P L H n C U"

definition msys_ok :: "('f, 'w, 't) msys \<Rightarrow> bool" where
  "msys_ok s \<longleftrightarrow>
     mount_inv (ms_pc s) (sm_load (mt_mounts (ms_m s))) (mt_heap (ms_m s)) (mt_next (ms_m s))
       (\<lambda>p. reg_get (dr_registry (mt_devReg (ms_m s))) p \<noteq> None) (dev_GetDriver (mt_devReg (ms_m s)))
       (mt_closed (ms_m s)) (ms_used s)"

section \<open>What the operations do to what they see\<close>

lemma map_update_fun: "sm_load (sm_store k v m) = (sm_load m)(k \<mapsto> v)"
  by (rule ext) (simp add: sm.lookup_store)

lemma map_delete_fun: "sm_load (sm_delete k m) = (sm_load m)(k := None)"
  by (rule ext) (simp add: sm.lookup_remove)

lemma reserve_taken:
  assumes "mount_reserve path config m = (Inl e, m')"
  shows "sm_load (mt_mounts m) path \<noteq> None"
    and "m' = m\<lparr>mt_heap := (mt_heap m)(mt_next m := (placeholder path config)\<lparr>mm_locked := False\<rparr>), mt_next := mt_next m + 1\<rparr>"
  using assms by (auto simp: mount_reserve_def sm_load_or_store_def sm_load_def mm_unlock_def upd_mount_def Let_def
      split: option.splits)

lemma reserve_new:
  assumes "mount_reserve path config m = (Inr a, m')"
  shows "sm_load (mt_mounts m) path = None" and "a = mt_next m"
    and "m' = m\<lparr>mt_heap := (mt_heap m)(mt_next m := placeholder path config), mt_next := mt_next m + 1,
               mt_mounts := sm_store path (mt_next m) (mt_mounts m)\<rparr>"
  using assms by (auto simp: mount_reserve_def sm_load_or_store_def sm_load_def sm_store_def Let_def
      split: option.splits)

lemma register_with_driver:
  "dev_RegisterWithDriver p fac a d = Inr d' \<Longrightarrow>
     reg_get (dr_registry d) p = None \<and> dev_GetDriver d' = (dev_GetDriver d)(p \<mapsto> a) \<and>
     (\<lambda>q. reg_get (dr_registry d') q \<noteq> None) = (\<lambda>q. reg_get (dr_registry d) q \<noteq> None)(p := True)"
  "dev_RegisterWithDriver p fac a d = Inl e \<Longrightarrow> reg_get (dr_registry d) p \<noteq> None"
  by (auto simp: dev_RegisterWithDriver_def reg_register_def reg_get_def dev_GetDriver_def map_update_fun fun_eq_iff
      update_conv' split: sum.splits option.splits)

lemma unregister_device:
  "dev_GetDriver (snd (dev_Unregister p d)) = (dev_GetDriver d)(p := None)"
  "(\<lambda>q. reg_get (dr_registry (snd (dev_Unregister p d))) q \<noteq> None) = (\<lambda>q. reg_get (dr_registry d) q \<noteq> None)(p := False)"
  by (auto simp: dev_Unregister_def reg_unregister_def reg_get_def dev_GetDriver_def map_delete_fun fun_eq_iff
      delete_conv' Let_def split: sum.splits option.splits)

section \<open>Preservation, step by step\<close>

lemma mount_invI:
  assumes "live_ok L H n R V" "\<And>t. pc_ok (P t) L H n R" "holder_ok P L H" "transport_ok P L H n C U"
  shows "mount_inv P L H n R V C U"
  using assms by (simp add: mount_inv_def)

lemma mount_invD:
  assumes "mount_inv P L H n R V C U"
  shows "live_ok L H n R V" and "pc_ok (P t) L H n R" and "holder_ok P L H" and "transport_ok P L H n C U"
  using assms by (simp_all add: mount_inv_def)

lemma live_okD:
  assumes "live_ok L H n R V" "L p = Some a"
  shows "a < n" "mm_Path (H a) = p"
    and "mm_locked (H a) \<Longrightarrow> mm_refCount (H a) = 0" "mm_locked (H a) \<Longrightarrow> mm_transport (H a) = None"
    and "\<not> mm_locked (H a) \<Longrightarrow> mm_Status (H a) = MCPStatusConnected" "\<not> mm_locked (H a) \<Longrightarrow> 1 \<le> mm_refCount (H a)"
    and "\<not> mm_locked (H a) \<Longrightarrow> mm_transport (H a) \<noteq> None" "\<not> mm_locked (H a) \<Longrightarrow> R p" "\<not> mm_locked (H a) \<Longrightarrow> V p = Some a"
  using assms by (auto simp: live_ok_def split: if_splits)

lemma holder_okD:
  assumes "holder_ok P L H"
  shows "holds_entry (P t) a \<Longrightarrow> holds_entry (P t') a \<Longrightarrow> t = t'"
    and "P t = MUnregister p a \<Longrightarrow> P t' = MUnregister p b \<Longrightarrow> t = t'"
    and "L p = Some a \<Longrightarrow> mm_locked (H a) \<Longrightarrow> \<exists>t. P t = MConnecting p a"
  using assms unfolding holder_ok_def by blast+

lemma holder_okI:
  assumes "\<And>t t' a. holds_entry (P t) a \<Longrightarrow> holds_entry (P t') a \<Longrightarrow> t = t'"
    and "\<And>t t' p a b. P t = MUnregister p a \<Longrightarrow> P t' = MUnregister p b \<Longrightarrow> t = t'"
    and "\<And>p a. L p = Some a \<Longrightarrow> mm_locked (H a) \<Longrightarrow> \<exists>t. P t = MConnecting p a"
  shows "holder_ok P L H"
  using assms unfolding holder_ok_def by blast

lemma live_ok_cong:
  assumes "live_ok L H n R V" "\<And>p a. L' p = Some a \<Longrightarrow> L p = Some a \<and> H' a = H a" "n \<le> n'"
  shows "live_ok L' H' n' R V"
  unfolding live_ok_def
proof (intro allI impI)
  fix p a assume "L' p = Some a"
  from assms(2) [OF this] have a: "L p = Some a" and eq: "H' a = H a" by simp_all
  show "a < n' \<and> mm_Path (H' a) = p \<and>
     (if mm_locked (H' a) then mm_refCount (H' a) = 0 \<and> mm_transport (H' a) = None
      else mm_Status (H' a) = MCPStatusConnected \<and> 1 \<le> mm_refCount (H' a) \<and> mm_transport (H' a) \<noteq> None \<and> R p \<and> V p = Some a)"
    unfolding eq using live_okD [OF assms(1) a] assms(3) by simp
qed

lemma transport_okD:
  assumes "transport_ok P L H n C U"
  shows "distinct C" and "set C \<subseteq> U"
    and "a < n \<Longrightarrow> mm_transport (H a) = Some tr \<Longrightarrow> tr \<in> U"
    and "a < n \<Longrightarrow> b < n \<Longrightarrow> mm_transport (H a) = Some tr \<Longrightarrow> mm_transport (H b) = Some tr \<Longrightarrow> a = b"
    and "a < n \<Longrightarrow> mm_transport (H a) = Some tr \<Longrightarrow> tr \<in> set C \<longleftrightarrow> entry_gone P L H a"
    and "tr \<in> U \<Longrightarrow> tr \<in> set C \<or> (\<exists>a < n. mm_transport (H a) = Some tr)"
  using assms unfolding transport_ok_def by blast+

lemma transport_okI:
  assumes "distinct C" "set C \<subseteq> U"
    and "\<And>a tr. a < n \<Longrightarrow> mm_transport (H a) = Some tr \<Longrightarrow> tr \<in> U"
    and "\<And>a b tr. a < n \<Longrightarrow> b < n \<Longrightarrow> mm_transport (H a) = Some tr \<Longrightarrow> mm_transport (H b) = Some tr \<Longrightarrow> a = b"
    and "\<And>a tr. a < n \<Longrightarrow> mm_transport (H a) = Some tr \<Longrightarrow> tr \<in> set C \<longleftrightarrow> entry_gone P L H a"
    and "\<And>tr. tr \<in> U \<Longrightarrow> tr \<in> set C \<or> (\<exists>a < n. mm_transport (H a) = Some tr)"
  shows "transport_ok P L H n C U"
  using assms unfolding transport_ok_def by blast

text \<open>Nothing changes for the transports when the entries keep theirs and those that have one stay gone or not.\<close>

lemma transport_ok_same:
  assumes T: "transport_ok P L H n C U" and n: "n \<le> n'"
    and same: "\<And>a. a < n \<Longrightarrow> mm_transport (H' a) = mm_transport (H a)"
    and new: "\<And>a. n \<le> a \<Longrightarrow> a < n' \<Longrightarrow> mm_transport (H' a) = None"
    and gone: "\<And>a. a < n \<Longrightarrow> mm_transport (H a) \<noteq> None \<Longrightarrow> entry_gone P' L' H' a = entry_gone P L H a"
  shows "transport_ok P' L' H' n' C U"
proof -
  have old: "a < n \<and> mm_transport (H a) = Some tr" if "a < n'" "mm_transport (H' a) = Some tr" for a tr
    using that same new by (metis linorder_not_less option.distinct(1))
  note D = transport_okD [OF T]
  show ?thesis
  proof (rule transport_okI)
    show "\<And>tr. tr \<in> U \<Longrightarrow> tr \<in> set C \<or> (\<exists>a < n'. mm_transport (H' a) = Some tr)"
      using D(6) same n by (metis order_less_le_trans)
    show "\<And>a tr. a < n' \<Longrightarrow> mm_transport (H' a) = Some tr \<Longrightarrow> tr \<in> set C \<longleftrightarrow> entry_gone P' L' H' a"
      using D(5) gone old by (metis option.distinct(1))
    show "\<And>a b tr. a < n' \<Longrightarrow> b < n' \<Longrightarrow> mm_transport (H' a) = Some tr \<Longrightarrow> mm_transport (H' b) = Some tr \<Longrightarrow> a = b"
      using D(4) old by blast
  qed (use D old in blast)+
qed

text \<open>An entry a goroutine holds exists, and a goroutine holds only entries it may hold.\<close>

lemma held_bound:
  assumes "mount_inv P L H n R V C U" "holds_entry (P t) a"
  shows "a < n"
  using mount_invD(2) [OF assms(1), of t] live_okD(1) [OF mount_invD(1) [OF assms(1)]] assms(2)
  by (cases "P t") auto

text \<open>A step that only moves a program counter between points where no entry is held.\<close>

lemma inv_pc:
  assumes I: "mount_inv P L H n R V C U" and free: "\<And>a. \<not> holds_entry (P t) a" "\<And>a. \<not> holds_entry pc a"
    and ok: "pc_ok pc L H n R"
  shows "mount_inv (P(t := pc)) L H n R V C U"
proof (rule mount_invI)
  note D = mount_invD [OF I]
  have hold: "holds_entry ((P(t := pc)) u) a = holds_entry (P u) a" for u a
    using free by auto
  show "live_ok L H n R V" by (rule D(1))
  show "pc_ok ((P(t := pc)) u) L H n R" for u
    using D(2) [of u] ok by simp
  show "holder_ok (P(t := pc)) L H"
  proof (rule holder_okI)
    fix u u' a assume "holds_entry ((P(t := pc)) u) a" "holds_entry ((P(t := pc)) u') a"
    then show "u = u'" unfolding hold by (rule holder_okD(1) [OF D(3)])
  next
    fix u u' p a b assume "(P(t := pc)) u = MUnregister p a" "(P(t := pc)) u' = MUnregister p b"
    with free(2) have "P u = MUnregister p a" "P u' = MUnregister p b"
      by (auto split: if_splits)
    then show "u = u'" by (rule holder_okD(2) [OF D(3)])
  next
    fix p a assume "L p = Some a" "mm_locked (H a)"
    then obtain u where u: "P u = MConnecting p a" using holder_okD(3) [OF D(3)] by blast
    with free(1) [of a] have "u \<noteq> t" by auto
    with u show "\<exists>u. (P(t := pc)) u = MConnecting p a" by auto
  qed
  show "transport_ok (P(t := pc)) L H n C U"
    by (rule transport_ok_same [OF D(4)]) (auto simp: entry_gone_def hold simp del: fun_upd_apply)
qed

text \<open>A new entry outside the registry of mounts, for the \<open>Mount\<close> that came too late.\<close>

lemma inv_spare:
  assumes I: "mount_inv P L H n R V C U" and e: "mm_transport e = None"
  shows "mount_inv P L (H(n := e)) (n + 1) R V C U"
proof (rule mount_invI)
  note D = mount_invD [OF I]
  have L: "L p = Some a \<Longrightarrow> a < n" for p a using live_okD(1) [OF D(1)] .
  then have same: "L p = Some a \<Longrightarrow> (H(n := e)) a = H a" for p a by fastforce
  show "live_ok L (H(n := e)) (n + 1) R V"
    by (rule live_ok_cong [OF D(1)]) (use same in auto)
  show "pc_ok (P u) L (H(n := e)) (n + 1) R" for u
    using D(2) [of u] by (cases "P u") (auto dest: L)
  show "holder_ok P L (H(n := e))"
    using holder_okD [OF D(3)] by (intro holder_okI) (blast, blast, simp only: same)
  show "transport_ok P L (H(n := e)) (n + 1) C U"
    by (rule transport_ok_same [OF D(4)]) (use e in \<open>auto simp: entry_gone_def less_Suc_eq\<close>)
qed

text \<open>A new locked entry under a free path, held by the goroutine that mounts it.\<close>

lemma inv_reserve:
  assumes I: "mount_inv P L H n R V C U" and pc: "P t = MIdle" and free: "L path = None"
  shows "mount_inv (P(t := MConnecting path n)) (L(path \<mapsto> n)) (H(n := placeholder path config)) (n + 1) R V C U"
proof (rule mount_invI)
  note D = mount_invD [OF I]
  have L: "L p = Some a \<Longrightarrow> a < n" for p a using live_okD(1) [OF D(1)] .
  have held: "holds_entry (P u) a \<Longrightarrow> a < n" for u a using held_bound [OF I] .
  let ?L = "L(path \<mapsto> n)" and ?H = "H(n := placeholder path config)" and ?P = "P(t := MConnecting path n)"
  show "live_ok ?L ?H (n + 1) R V"
    using D(1) by (auto simp: live_ok_def placeholder_def split: if_splits dest: L)
  show "pc_ok (?P u) ?L ?H (n + 1) R" for u
    using D(2) [of u] free by (cases "P u") (auto simp: placeholder_def dest: L)
  show "holder_ok ?P ?L ?H"
  proof (rule holder_okI)
    fix u u' a assume "holds_entry (?P u) a" "holds_entry (?P u') a"
    moreover have "holds_entry (?P v) a \<Longrightarrow> v = t \<and> a = n \<or> v \<noteq> t \<and> a < n \<and> holds_entry (P v) a" for v
      using held by (cases "v = t") auto
    ultimately show "u = u'" using holder_okD(1) [OF D(3)] by (metis less_irrefl)
  next
    fix u u' p a b assume "?P u = MUnregister p a" "?P u' = MUnregister p b"
    then show "u = u'" using holder_okD(2) [OF D(3)] by (auto split: if_splits)
  next
    fix p a assume a: "?L p = Some a" "mm_locked (?H a)"
    show "\<exists>u. ?P u = MConnecting p a"
    proof (cases "p = path")
      case False
      with a L [of p a] have "L p = Some a" "mm_locked (H a)" by auto
      then obtain u where "P u = MConnecting p a" using holder_okD(3) [OF D(3)] by blast
      with pc show ?thesis by (intro exI [of _ u]) auto
    qed (use a in auto)
  qed
  show "transport_ok ?P ?L ?H (n + 1) C U"
  proof (rule transport_ok_same [OF D(4)])
    fix a assume a: "a < n"
    have "holds_entry (?P u) a = holds_entry (P u) a" for u using a pc by auto
    then show "entry_gone ?P ?L ?H a = entry_gone P L H a"
      using a free by (auto simp: entry_gone_def)
  qed (auto simp: placeholder_def less_Suc_eq)
qed

text \<open>A \<open>Mount\<close> gives up: its entry leaves the registry of mounts and nobody holds it.\<close>

lemma inv_abort_parts:
  assumes I: "mount_inv P L H n R V C U" and pc: "P t = MConnecting path a"
  shows "live_ok (L(path := None)) (H(a := e)) n R V"
    and "pc_ok ((P(t := MIdle)) u) (L(path := None)) (H(a := e)) n R"
    and "holder_ok (P(t := MIdle)) (L(path := None)) (H(a := e))"
proof -
  note D = mount_invD [OF I]
  have La: "L path = Some a" using D(2) [of t] pc by simp
  then have Pa: "mm_Path (H a) = path" using live_okD(2) [OF D(1)] by blast
  have other: "L p = Some b \<Longrightarrow> p \<noteq> path \<Longrightarrow> b \<noteq> a" for p b
    using live_okD(2) [OF D(1)] Pa by blast
  have mine: "holds_entry (P v) a \<Longrightarrow> v = t" for v
    using holder_okD(1) [OF D(3), of v a t] pc by simp
  show "live_ok (L(path := None)) (H(a := e)) n R V"
    by (rule live_ok_cong [OF D(1)]) (auto dest: other split: if_splits)
  show "pc_ok ((P(t := MIdle)) u) (L(path := None)) (H(a := e)) n R"
    using D(2) [of u] mine [of u] La Pa by (cases "P u") (auto dest: other)
  show "holder_ok (P(t := MIdle)) (L(path := None)) (H(a := e))"
  proof (rule holder_okI)
    fix p b assume b: "(L(path := None)) p = Some b" "mm_locked ((H(a := e)) b)"
    then have p: "p \<noteq> path" "L p = Some b" by (auto split: if_splits)
    with b(2) other have "mm_locked (H b)" by auto
    with p obtain v where v: "P v = MConnecting p b" using holder_okD(3) [OF D(3)] by blast
    with pc p have "v \<noteq> t" by auto
    with v show "\<exists>v. (P(t := MIdle)) v = MConnecting p b" by auto
  qed (use holder_okD(1,2) [OF D(3)] in \<open>auto split: if_splits\<close>)
qed

lemma gone_abort:
  assumes I: "mount_inv P L H n R V C U" and pc: "P t = MConnecting path a" and e: "mm_Path e = path"
  shows "b \<noteq> a \<Longrightarrow> entry_gone (P(t := MIdle)) (L(path := None)) (H(a := e)) b = entry_gone P L H b"
    and "entry_gone (P(t := MIdle)) (L(path := None)) (H(a := e)) a"
proof -
  note D = mount_invD [OF I]
  have La: "L path = Some a" using D(2) [of t] pc by simp
  have mine: "holds_entry (P v) a \<Longrightarrow> v = t" for v
    using holder_okD(1) [OF D(3), of v a t] pc by simp
  have hold: "b \<noteq> a \<Longrightarrow> holds_entry ((P(t := MIdle)) v) b = holds_entry (P v) b" for v b
    using pc by auto
  show "b \<noteq> a \<Longrightarrow> entry_gone (P(t := MIdle)) (L(path := None)) (H(a := e)) b = entry_gone P L H b"
    unfolding entry_gone_def hold using La by auto
  show "entry_gone (P(t := MIdle)) (L(path := None)) (H(a := e)) a"
    using mine e by (auto simp: entry_gone_def)
qed

lemma inv_abort:
  assumes I: "mount_inv P L H n R V C U" and pc: "P t = MConnecting path a"
    and e: "mm_Path e = path" "mm_transport e = None"
  shows "mount_inv (P(t := MIdle)) (L(path := None)) (H(a := e)) n R V C U"
proof (rule mount_invI)
  note D = mount_invD [OF I]
  have "L path = Some a" "mm_locked (H a)" using D(2) [of t] pc by simp_all
  then have Ta: "mm_transport (H a) = None" using live_okD(4) [OF D(1)] by blast
  show "transport_ok (P(t := MIdle)) (L(path := None)) (H(a := e)) n C U"
  proof (rule transport_ok_same [OF D(4)])
    fix b assume "mm_transport (H b) \<noteq> None"
    with Ta have "b \<noteq> a" by auto
    then show "entry_gone (P(t := MIdle)) (L(path := None)) (H(a := e)) b = entry_gone P L H b"
      by (rule gone_abort(1) [OF I pc e(1)])
  qed (use Ta e in auto)
qed (rule inv_abort_parts [OF I pc])+

lemma inv_fresh_closed:
  assumes I: "mount_inv P L H n R V C U" and tr: "tr \<notin> U"
  shows "mount_inv P L H n R V (C @ [tr]) (insert tr U)"
proof (rule mount_invI)
  note D = mount_invD [OF I] and T = transport_okD [OF mount_invD(4) [OF I]]
  have new: "a < n \<Longrightarrow> mm_transport (H a) \<noteq> Some tr" for a using T(3) tr by blast
  show "transport_ok P L H n (C @ [tr]) (insert tr U)"
  proof (rule transport_okI)
    show "distinct (C @ [tr])" "set (C @ [tr]) \<subseteq> insert tr U" using T(1,2) tr by auto
    show "\<And>a tr'. a < n \<Longrightarrow> mm_transport (H a) = Some tr' \<Longrightarrow> tr' \<in> set (C @ [tr]) \<longleftrightarrow> entry_gone P L H a"
      using T(5) new by auto
    show "\<And>tr'. tr' \<in> insert tr U \<Longrightarrow> tr' \<in> set (C @ [tr]) \<or> (\<exists>a < n. mm_transport (H a) = Some tr')"
      using T(6) by auto
  qed (use T(3,4) in auto)
qed (use mount_invD [OF I] in auto)

text \<open>The device registry refused the mount: the entry is gone with its new transport, which is closed.\<close>

lemma inv_refused:
  assumes I: "mount_inv P L H n R V C U" and pc: "P t = MConnecting path a"
    and e: "mm_Path e = path" "mm_transport e = Some tr" and tr: "tr \<notin> U"
  shows "mount_inv (P(t := MIdle)) (L(path := None)) (H(a := e)) n R V (C @ [tr]) (insert tr U)"
proof (rule mount_invI)
  note D = mount_invD [OF I] and T = transport_okD [OF mount_invD(4) [OF I]]
  have La: "L path = Some a" "mm_locked (H a)" using D(2) [of t] pc by simp_all
  then have Ta: "mm_transport (H a) = None" and an: "a < n" using live_okD(1,4) [OF D(1)] by blast+
  have new: "b < n \<Longrightarrow> mm_transport (H b) \<noteq> Some tr" for b using T(3) tr by blast
  show "transport_ok (P(t := MIdle)) (L(path := None)) (H(a := e)) n (C @ [tr]) (insert tr U)"
  proof (rule transport_okI)
    show "distinct (C @ [tr])" "set (C @ [tr]) \<subseteq> insert tr U" using T(1,2) tr by auto
    fix b tr' assume b: "b < n" "mm_transport ((H(a := e)) b) = Some tr'"
    then show "tr' \<in> insert tr U" using T(3) e by (auto split: if_splits)
    show "tr' \<in> set (C @ [tr]) \<longleftrightarrow> entry_gone (P(t := MIdle)) (L(path := None)) (H(a := e)) b"
    proof (cases "b = a")
      case True
      then show ?thesis using gone_abort(2) [OF I pc e(1)] b e by simp
    next
      case False
      then show ?thesis using gone_abort(1) [OF I pc e(1)] T(5) new b by auto
    qed
    fix c assume "c < n" "mm_transport ((H(a := e)) c) = Some tr'"
    then show "b = c" using b T(4) new e by (auto split: if_splits)
  next
    fix tr' assume "tr' \<in> insert tr U"
    then show "tr' \<in> set (C @ [tr]) \<or> (\<exists>b < n. mm_transport ((H(a := e)) b) = Some tr')"
      using T(6) Ta by (auto, metis option.distinct(1))
  qed
qed (rule inv_abort_parts [OF I pc])+

text \<open>The mount is complete: the entry is unlocked, connected, has one owner and its device.\<close>

lemma inv_connected:
  assumes I: "mount_inv P L H n R V C U" and pc: "P t = MConnecting path a" and free: "\<not> R path" and tr: "tr \<notin> U"
    and e: "e = (H a)\<lparr>mm_transport := Some tr, mm_Status := MCPStatusConnected, mm_refCount := 1, mm_locked := False\<rparr>"
  shows "mount_inv (P(t := MIdle)) L (H(a := e)) n (R(path := True)) (V(path \<mapsto> a)) C (insert tr U)"
proof (rule mount_invI)
  note D = mount_invD [OF I] and T = transport_okD [OF mount_invD(4) [OF I]]
  have La: "L path = Some a" "mm_locked (H a)" using D(2) [of t] pc by simp_all
  then have Ta: "mm_transport (H a) = None" and an: "a < n" and Pa: "mm_Path (H a) = path"
    using live_okD [OF D(1)] by blast+
  have new: "b < n \<Longrightarrow> mm_transport (H b) \<noteq> Some tr" for b using T(3) tr by blast
  have other: "L p = Some b \<Longrightarrow> p \<noteq> path \<Longrightarrow> b \<noteq> a" for p b
    using live_okD(2) [OF D(1)] Pa by blast
  have mine: "holds_entry (P v) a \<Longrightarrow> v = t" for v
    using holder_okD(1) [OF D(3), of v a t] pc by simp
  let ?H = "H(a := e)"
  have path_same: "mm_Path (?H b) = mm_Path (H b)" for b by (simp add: e)
  show "live_ok L ?H n (R(path := True)) (V(path \<mapsto> a))"
    unfolding live_ok_def
  proof (intro allI impI, goal_cases)
    case (1 p b)
    show ?case
    proof (cases "p = path")
      case True
      then show ?thesis using 1 La an Pa e by simp
    next
      case False
      then show ?thesis using live_okD [OF D(1) 1] other [OF 1] by auto
    qed
  qed
  show "pc_ok ((P(t := MIdle)) u) L ?H n (R(path := True))" for u
    using D(2) [of u] mine [of u] free La an by (cases "P u") (auto simp: e dest: other)
  show "holder_ok (P(t := MIdle)) L ?H"
  proof (rule holder_okI)
    fix p b assume b: "L p = Some b" "mm_locked (?H b)"
    then have p: "b \<noteq> a" "mm_locked (H b)" by (auto simp: e split: if_splits)
    with b obtain v where v: "P v = MConnecting p b" using holder_okD(3) [OF D(3)] by blast
    with pc p have "v \<noteq> t" by auto
    with v show "\<exists>v. (P(t := MIdle)) v = MConnecting p b" by auto
  qed (use holder_okD(1,2) [OF D(3)] in \<open>auto split: if_splits\<close>)
  have hold: "b \<noteq> a \<Longrightarrow> holds_entry ((P(t := MIdle)) v) b = holds_entry (P v) b" for v b
    using pc by auto
  have gone: "entry_gone (P(t := MIdle)) L ?H b = (b \<noteq> a \<and> entry_gone P L H b)" for b
    using hold [of b] La Pa unfolding entry_gone_def path_same by (cases "b = a") auto
  show "transport_ok (P(t := MIdle)) L ?H n C (insert tr U)"
  proof (rule transport_okI)
    show "distinct C" "set C \<subseteq> insert tr U" using T(1,2) by auto
    fix b tr' assume b: "b < n" "mm_transport (?H b) = Some tr'"
    then show "tr' \<in> insert tr U" using T(3) by (auto simp: e split: if_splits)
    show "tr' \<in> set C \<longleftrightarrow> entry_gone (P(t := MIdle)) L ?H b"
      unfolding gone using b T(2,5) tr by (auto simp: e split: if_splits)
    fix c assume "c < n" "mm_transport (?H c) = Some tr'"
    then show "b = c" using b T(4) new by (auto simp: e split: if_splits)
  next
    fix tr' assume "tr' \<in> insert tr U"
    then show "tr' \<in> set C \<or> (\<exists>b < n. mm_transport (?H b) = Some tr')"
      using T(6) Ta an by (auto simp: e, metis option.distinct(1))
  qed
qed

text \<open>An owner comes or goes while others remain.\<close>

lemma inv_count:
  assumes I: "mount_inv P L H n R V C U" and pc: "\<And>a. \<not> holds_entry (P t) a"
    and a: "L path = Some a" "\<not> mm_locked (H a)" and e: "e = (H a)\<lparr>mm_refCount := k\<rparr>" "1 \<le> k"
  shows "mount_inv (P(t := MIdle)) L (H(a := e)) n R V C U"
proof -
  note D = mount_invD [OF I]
  have same: "mm_Path ((H(a := e)) b) = mm_Path (H b)" "mm_locked ((H(a := e)) b) = mm_locked (H b)"
    "mm_transport ((H(a := e)) b) = mm_transport (H b)" for b
    by (simp_all add: e)
  have "mount_inv P L (H(a := e)) n R V C U"
  proof (rule mount_invI)
    show "live_ok L (H(a := e)) n R V"
      unfolding live_ok_def
    proof (intro allI impI, goal_cases)
      case (1 p b)
      then show ?case using live_okD [OF D(1) 1] a e by (cases "b = a") auto
    qed
    show "pc_ok (P u) L (H(a := e)) n R" for u
      using D(2) [of u] by (cases "P u") (simp_all add: same del: fun_upd_apply)
    show "holder_ok P L (H(a := e))"
      using D(3) unfolding holder_ok_def same .
    show "transport_ok P L (H(a := e)) n C U"
      using D(4) unfolding transport_ok_def entry_gone_def same .
  qed
  then show ?thesis by (rule inv_pc) (use pc in auto)
qed

text \<open>The last owner leaves: the entry is out of the registry of mounts, its lock still held.\<close>

lemma inv_last_owner:
  assumes I: "mount_inv P L H n R V C U" and pc: "P t = MUnmounting path a"
    and a: "L path = Some a" "\<not> mm_locked (H a)"
    and e: "e = (H a)\<lparr>mm_refCount := k, mm_locked := True\<rparr>"
  shows "mount_inv (P(t := MUnregister path a)) (L(path := None)) (H(a := e)) n R V C U"
proof (rule mount_invI)
  note D = mount_invD [OF I]
  note A = live_okD [OF D(1) a(1)]
  have other: "L p = Some b \<Longrightarrow> p \<noteq> path \<Longrightarrow> b \<noteq> a" for p b
    using live_okD(2) [OF D(1)] A(2) by blast
  have nobody: "\<not> holds_entry (P v) a" for v
    using D(2) [of v] a A(2) by (cases "P v") auto
  have none: "P v \<noteq> MUnregister path b" for v b
    using D(2) [of v] a by auto
  let ?P = "P(t := MUnregister path a)" and ?L = "L(path := None)" and ?H = "H(a := e)"
  show "live_ok ?L ?H n R V"
    by (rule live_ok_cong [OF D(1)]) (auto dest: other split: if_splits)
  show "pc_ok (?P u) ?L ?H n R" for u
  proof (cases "u = t")
    case True
    then show ?thesis using A a e by simp
  next
    case False
    then show ?thesis using D(2) [of u] nobody [of u] none [of u] a A(2)
      by (cases "P u") (auto simp: e dest: other)
  qed
  show "holder_ok ?P ?L ?H"
  proof (rule holder_okI)
    fix u u' b assume "holds_entry (?P u) b" "holds_entry (?P u') b"
    moreover have "holds_entry (?P v) b \<Longrightarrow> v = t \<and> b = a \<or> v \<noteq> t \<and> b \<noteq> a \<and> holds_entry (P v) b" for v
      using nobody [of v] by (cases "v = t") auto
    ultimately show "u = u'" using holder_okD(1) [OF D(3)] by metis
  next
    fix u u' p b c assume "?P u = MUnregister p b" "?P u' = MUnregister p c"
    then show "u = u'" using holder_okD(2) [OF D(3)] none by (auto split: if_splits)
  next
    fix p b assume b: "?L p = Some b" "mm_locked (?H b)"
    then have p: "L p = Some b" "mm_locked (H b)" by (auto dest: other split: if_splits)
    then obtain v where v: "P v = MConnecting p b" using holder_okD(3) [OF D(3)] by blast
    with pc have "v \<noteq> t" by auto
    with v show "\<exists>v. ?P v = MConnecting p b" by auto
  qed
  show "transport_ok ?P ?L ?H n C U"
  proof (rule transport_ok_same [OF D(4)])
    fix b
    have "b \<noteq> a \<Longrightarrow> holds_entry (?P v) b = holds_entry (P v) b" for v using pc by auto
    then show "entry_gone ?P ?L ?H b = entry_gone P L H b"
      using a A(2) unfolding entry_gone_def
      by (cases "b = a") (auto simp: e)
  qed (auto simp: e)
qed

text \<open>The device of the entry is removed and its lock released.\<close>

lemma inv_unregister:
  assumes I: "mount_inv P L H n R V C U" and pc: "P t = MUnregister path a" and tr: "mm_transport (H a) = Some tr"
    and e: "e = (H a)\<lparr>mm_locked := False\<rparr>"
  shows "mount_inv (P(t := MClosing a tr)) L (H(a := e)) n (R(path := False)) (V(path := None)) C U"
proof (rule mount_invI)
  note D = mount_invD [OF I]
  have A: "a < n" "L path \<noteq> Some a" "mm_Path (H a) = path" "\<And>b. L path = Some b \<Longrightarrow> mm_locked (H b)"
    using D(2) [of t] pc by auto
  have other: "L p = Some b \<Longrightarrow> b \<noteq> a" for p b
    using live_okD(2) [OF D(1)] A by blast
  have mine: "holds_entry (P v) a \<Longrightarrow> v = t" for v
    using holder_okD(1) [OF D(3), of v a t] pc by simp
  let ?P = "P(t := MClosing a tr)" and ?H = "H(a := e)"
  have hold: "holds_entry (?P v) b = holds_entry (P v) b" for v b using pc by auto
  show "live_ok L ?H n (R(path := False)) (V(path := None))"
    unfolding live_ok_def
  proof (intro allI impI, goal_cases)
    case (1 p b)
    then show ?case using live_okD [OF D(1) 1] other [OF 1] A(4) by (cases "p = path") auto
  qed
  show "pc_ok (?P u) L ?H n (R(path := False))" for u
  proof (cases "u = t")
    case True
    then show ?thesis using A tr by (simp add: e)
  next
    case False
    with holder_okD(2) [OF D(3) _ pc] have "P u \<noteq> MUnregister path b" for b by blast
    then show ?thesis using False D(2) [of u] mine [of u] by (cases "P u") (auto dest: other)
  qed
  show "holder_ok ?P L ?H"
  proof (rule holder_okI)
    fix u u' b assume "holds_entry (?P u) b" "holds_entry (?P u') b"
    then show "u = u'" unfolding hold by (rule holder_okD(1) [OF D(3)])
  next
    fix u u' p b c assume "?P u = MUnregister p b" "?P u' = MUnregister p c"
    then show "u = u'" using holder_okD(2) [OF D(3)] by (auto split: if_splits)
  next
    fix p b assume b: "L p = Some b" "mm_locked (?H b)"
    with other have "mm_locked (H b)" by auto
    with b obtain v where v: "P v = MConnecting p b" using holder_okD(3) [OF D(3)] by blast
    with pc have "v \<noteq> t" by auto
    with v show "\<exists>v. ?P v = MConnecting p b" by auto
  qed
  show "transport_ok ?P L ?H n C U"
  proof (rule transport_ok_same [OF D(4)])
    show "entry_gone ?P L ?H b = entry_gone P L H b" for b
      unfolding entry_gone_def hold by (simp add: e)
  qed (auto simp: e)
qed

text \<open>The transport of an unmounted entry is closed, once.\<close>

lemma inv_close:
  assumes I: "mount_inv P L H n R V C U" and pc: "P t = MClosing a tr"
  shows "mount_inv (P(t := MIdle)) L H n R V (C @ [tr]) U"
proof (rule mount_invI)
  note D = mount_invD [OF I] and T = transport_okD [OF mount_invD(4) [OF I]]
  have A: "a < n" "L (mm_Path (H a)) \<noteq> Some a" "mm_transport (H a) = Some tr"
    using D(2) [of t] pc by simp_all
  have mine: "holds_entry (P v) a \<Longrightarrow> v = t" for v
    using holder_okD(1) [OF D(3), of v a t] pc by simp
  show "live_ok L H n R V" by (rule D(1))
  show "pc_ok ((P(t := MIdle)) u) L H n R" for u using D(2) [of u] by simp
  show "holder_ok (P(t := MIdle)) L H"
  proof (rule holder_okI)
    fix p b assume b: "L p = Some b" "mm_locked (H b)"
    then obtain v where v: "P v = MConnecting p b" using holder_okD(3) [OF D(3)] by blast
    with pc have "v \<noteq> t" by auto
    with v show "\<exists>v. (P(t := MIdle)) v = MConnecting p b" by auto
  qed (use holder_okD(1,2) [OF D(3)] in \<open>auto split: if_splits\<close>)
  have hold: "b \<noteq> a \<Longrightarrow> holds_entry ((P(t := MIdle)) v) b = holds_entry (P v) b" for v b
    using pc by auto
  have gone: "entry_gone (P(t := MIdle)) L H b = (b = a \<or> entry_gone P L H b)" for b
    using hold [of b] A mine unfolding entry_gone_def by (cases "b = a") auto
  have "\<not> entry_gone P L H a" using pc by (auto simp: entry_gone_def intro!: exI [of _ t])
  then have tr: "tr \<notin> set C" "tr \<in> U" using T(3,5) A by blast+
  show "transport_ok (P(t := MIdle)) L H n (C @ [tr]) U"
  proof (rule transport_okI)
    show "distinct (C @ [tr])" "set (C @ [tr]) \<subseteq> U" using T(1,2) tr by auto
    fix b tr' assume b: "b < n" "mm_transport (H b) = Some tr'"
    show "tr' \<in> set (C @ [tr]) \<longleftrightarrow> entry_gone (P(t := MIdle)) L H b"
      unfolding gone using b T(5) T(4) [OF b(1) A(1)] A by auto
  qed (use T(3,4,6) in auto)
qed

section \<open>Every step keeps the invariant and is a step of the specification\<close>

lemma msys_init_ok: "msys_ok (msys_init devReg)"
  by (auto simp: msys_ok_def msys_init_def NewMountManager_def NewSyncMap_def sm_load_def mount_inv_def
      live_ok_def holder_ok_def transport_ok_def)

lemma ms_go_sel [simp]:
  "ms_pc (ms_go t pc m u s) = (ms_pc s)(t := pc)" "ms_m (ms_go t pc m u s) = m" "ms_used (ms_go t pc m u s) = u"
  by (simp_all add: ms_go_def)

lemma owners_eq:
  assumes "sm_load (mt_mounts m') = sm_load (mt_mounts m)"
    and "\<And>p a. sm_load (mt_mounts m) p = Some a \<Longrightarrow> mm_refCount (mt_heap m' a) = mm_refCount (mt_heap m a)"
  shows "owners m' = owners m"
  by (rule ext) (simp add: owners_def assms split: option.split)

text \<open>One entry changes: only its path can have another number of owners.\<close>

lemma owners_update:
  assumes I: "live_ok (sm_load (mt_mounts m)) (mt_heap m) n R V"
    and La: "sm_load (mt_mounts m) path = Some a"
    and L': "\<And>p. p \<noteq> path \<Longrightarrow> sm_load (mt_mounts m') p = sm_load (mt_mounts m) p"
    and H': "\<And>b. b \<noteq> a \<Longrightarrow> mm_refCount (mt_heap m' b) = mm_refCount (mt_heap m b)"
    and k: "owners m' path = k"
  shows "owners m' = (owners m)(path := k)"
proof (rule ext)
  fix p
  show "owners m' p = ((owners m)(path := k)) p"
  proof (cases "p = path")
    case False
    have "sm_load (mt_mounts m) p = Some b \<Longrightarrow> b \<noteq> a" for b
      using live_okD(2) [OF I] La False by blast
    then show ?thesis using False L' H' by (simp add: owners_def split: option.split)
  qed (use k in simp)
qed

lemmas mount_op_defs = mount_abort_def mm_unlock_def upd_mount_def close_transport_def Let_def map_delete_fun

lemma connecting_entry:
  assumes "mount_inv P L H n R V C U" "P t = MConnecting path a"
  shows "L path = Some a" "mm_Path (H a) = path" "mm_transport (H a) = None" "mm_refCount (H a) = 0"
proof -
  have "L path = Some a" "mm_locked (H a)" using mount_invD(2) [OF assms(1), of t] assms(2) by simp_all
  then show "L path = Some a" "mm_Path (H a) = path" "mm_transport (H a) = None" "mm_refCount (H a) = 0"
    using live_okD [OF mount_invD(1) [OF assms(1)]] by blast+
qed

text \<open>A mount given up had no owner.\<close>

lemma owners_abort:
  assumes I: "mount_inv P (sm_load (mt_mounts m)) (mt_heap m) n R V C U" "P t = MConnecting path a"
    and m': "mt_mounts m' = sm_delete path (mt_mounts m)" "\<And>b. b \<noteq> a \<Longrightarrow> mt_heap m' b = mt_heap m b"
  shows "owners m' = owners m"
proof -
  note E = connecting_entry [OF I]
  have "owners m' = (owners m)(path := 0)"
    by (rule owners_update [OF mount_invD(1) [OF I(1)] E(1)]) (simp_all add: m' map_delete_fun owners_def)
  also have "\<dots> = owners m" using E by (auto simp: owners_def)
  finally show ?thesis .
qed

lemma unmount_decides_ok:
  assumes ok: "msys_ok s" and pc: "ms_pc s t = MUnmounting path a" and free: "\<not> mm_locked (mt_heap (ms_m s) a)"
    and rel: "unmount_release path a (ms_m s) = (r, m')"
  shows "msys_ok (ms_go t (if r = Inr True then MUnregister path a else MIdle) m' (ms_used s) s) \<and>
    owner_step (owners (ms_m s)) (case r of Inl _ \<Rightarrow> MErr OUnmount path | Inr _ \<Rightarrow> MOk OUnmount path) (owners m')"
proof (cases r)
  case (Inl e)
  then have "m' = ms_m s" using rel by (auto simp: unmount_release_def Let_def split: if_splits)
  then show ?thesis
    using inv_pc [OF ok [unfolded msys_ok_def], of t MIdle] pc Inl by (simp add: msys_ok_def owner_err)
next
  case (Inr last)
  note I = ok [unfolded msys_ok_def]
  let ?e = "mt_heap (ms_m s) a"
  have L: "sm_load (mt_mounts (ms_m s)) path = Some a" and pos: "0 < mm_refCount ?e"
    using rel Inr by (auto simp: unmount_release_def Let_def split: if_splits)
  have last: "last \<longleftrightarrow> mm_refCount ?e = 1"
    using rel Inr pos by (auto simp: unmount_release_def upd_mount_def Let_def split: if_splits)
  have own: "0 < owners (ms_m s) path" using L pos by (simp add: owners_def)
  show ?thesis
  proof (cases last)
    case True
    then have m': "m' = (ms_m s)\<lparr>mt_heap := (mt_heap (ms_m s))(a := ?e\<lparr>mm_refCount := 0, mm_locked := True\<rparr>),
        mt_mounts := sm_delete path (mt_mounts (ms_m s))\<rparr>"
      using rel L last by (auto simp: unmount_release_def upd_mount_def Let_def)
    have "owners m' = (owners (ms_m s))(path := owners (ms_m s) path - 1)"
      by (rule owners_update [OF mount_invD(1) [OF I] L])
         (use L last True in \<open>simp_all add: m' map_delete_fun owners_def\<close>)
    then have "owner_step (owners (ms_m s)) (MOk OUnmount path) (owners m')"
      using owner_release own by metis
    then show ?thesis
      using inv_last_owner [OF I pc L free, where k = 0] Inr True by (simp add: msys_ok_def m' map_delete_fun)
  next
    case False
    then have m': "m' = (ms_m s)\<lparr>mt_heap := (mt_heap (ms_m s))(a := ?e\<lparr>mm_refCount := mm_refCount ?e - 1\<rparr>)\<rparr>"
      using rel L last pos by (simp add: unmount_release_def upd_mount_def Let_def)
    have "owners m' = (owners (ms_m s))(path := owners (ms_m s) path - 1)"
      by (rule owners_update [OF mount_invD(1) [OF I] L])
         (use L last False pos in \<open>simp_all add: m' owners_def nat_diff_distrib\<close>)
    then have "owner_step (owners (ms_m s)) (MOk OUnmount path) (owners m')"
      using owner_release own by metis
    then show ?thesis
      using inv_count [OF I _ L free refl, where t = t and k = "mm_refCount ?e - 1"] pc pos last Inr False
      by (simp add: msys_ok_def m')
  qed
qed

lemma mstep_ok:
  assumes "mstep mkfile s l s'" "msys_ok s"
  shows "msys_ok s' \<and> owner_step (owners (ms_m s)) l (owners (ms_m s'))"
  using assms(1)
proof cases
  case (mount_taken t path config e m')
  note I = assms(2) [unfolded msys_ok_def]
  note m' = reserve_taken(2) [OF mount_taken(4)]
  have "sm_load (mt_mounts (ms_m s)) p \<noteq> Some (mt_next (ms_m s))" for p
    using live_okD(1) [OF mount_invD(1) [OF I]] by blast
  then have "owners m' = owners (ms_m s)" by (intro owners_eq) (auto simp: m')
  moreover have "(ms_pc s)(t := MIdle) = ms_pc s" using mount_taken(3) by auto
  ultimately show ?thesis
    using inv_spare [OF I, where e = "(placeholder path config)\<lparr>mm_locked := False\<rparr>"] mount_taken(1,2)
    by (simp add: msys_ok_def m' placeholder_def owner_err)
next
  case (mount_reserved t path config a m')
  note I = assms(2) [unfolded msys_ok_def]
  note m' = reserve_new [OF mount_reserved(4)]
  have L: "sm_load (mt_mounts (ms_m s)) p \<noteq> Some (mt_next (ms_m s))" for p
    using live_okD(1) [OF mount_invD(1) [OF I]] by blast
  have "owners m' p = owners (ms_m s) p" for p
    using L [of p] by (auto simp: owners_def m' map_update_fun placeholder_def split: option.splits)
  then have "owners m' = owners (ms_m s)" by auto
  with inv_reserve [OF I mount_reserved(3) m'(1)] show ?thesis
    using mount_reserved(1,2) by (simp add: msys_ok_def m' map_update_fun owner_tau)
next
  case (mount_no_transport t path a)
  note I = assms(2) [unfolded msys_ok_def]
  have L: "sm_load (mt_mounts (ms_m s)) path = Some a"
    using mount_invD(2) [OF I, of t] mount_no_transport(3) by simp
  have "mm_Path (mt_heap (ms_m s) a) = path" "mm_transport (mt_heap (ms_m s) a) = None"
    using connecting_entry [OF I mount_no_transport(3)] by simp_all
  with inv_abort [OF I mount_no_transport(3), where e = "(mt_heap (ms_m s) a)\<lparr>mm_locked := False\<rparr>"]
  show ?thesis
    using owners_abort [OF I mount_no_transport(3), where m' = "mount_abort path a None (ms_m s)"] mount_no_transport(1,2)
    by (simp add: msys_ok_def mount_op_defs owner_err)
next
  case (mount_not_connected t path a tr)
  note I = assms(2) [unfolded msys_ok_def]
  have "mm_Path (mt_heap (ms_m s) a) = path" "mm_transport (mt_heap (ms_m s) a) = None"
    using connecting_entry [OF I mount_not_connected(3)] by simp_all
  with inv_fresh_closed [OF inv_abort [OF I mount_not_connected(3), where e = "(mt_heap (ms_m s) a)\<lparr>mm_locked := False\<rparr>"]
      mount_not_connected(4)]
  show ?thesis
    using owners_abort [OF I mount_not_connected(3), where m' = "mount_abort path a (Some tr) (ms_m s)"] mount_not_connected(1,2)
    by (simp add: msys_ok_def mount_op_defs owner_err)
next
  case (mount_connected t path a tr r m')
  note I = assms(2) [unfolded msys_ok_def]
  note E = connecting_entry [OF I mount_connected(3)]
  let ?d = "dev_RegisterWithDriver path (mcpFileFactory mkfile tr) a (mt_devReg (ms_m s))"
  show ?thesis
  proof (cases ?d)
    case (Inl e)
    then have m': "r = Some e" "m' = mount_abort path a (Some tr) (upd_mount a
        (\<lambda>e. e\<lparr>mm_transport := Some tr, mm_Status := MCPStatusConnected, mm_refCount := 1\<rparr>) (ms_m s))"
      using mount_connected(5) by (simp_all add: mount_finalize_def upd_mount_def Let_def)
    have "owners m' = owners (ms_m s)"
      by (rule owners_abort [OF I mount_connected(3)]) (simp_all add: m' mount_op_defs)
    then show ?thesis
      using inv_refused [OF I mount_connected(3), where tr = tr and e = "mt_heap m' a"] E mount_connected(1,2,4) m'
      by (simp add: msys_ok_def mount_op_defs owner_err)
  next
    case (Inr d)
    note R = register_with_driver(1) [OF Inr]
    have m': "r = None" "m' = mm_unlock a ((upd_mount a
        (\<lambda>e. e\<lparr>mm_transport := Some tr, mm_Status := MCPStatusConnected, mm_refCount := 1\<rparr>) (ms_m s))\<lparr>mt_devReg := d\<rparr>)"
      using mount_connected(5) Inr by (simp_all add: mount_finalize_def upd_mount_def Let_def)
    have "owners m' = (owners (ms_m s))(path := 1)"
      by (rule owners_update [OF mount_invD(1) [OF I] E(1)])
         (use E(1) in \<open>simp_all add: m' mount_op_defs owners_def\<close>)
    moreover have "owners (ms_m s) path = 0" using E by (simp add: owners_def)
    ultimately have "owner_step (owners (ms_m s)) (MOk OMount path) (owners m')"
      using owner_mount by metis
    moreover have "msys_ok s'"
      using inv_connected [OF I mount_connected(3), where tr = tr and e = "mt_heap m' a"] R E mount_connected(2,4) m'
      by (simp add: msys_ok_def mount_op_defs)
    ultimately show ?thesis using m' mount_connected(1,2) by simp
  qed
next
  case (unmount_missing t path)
  then show ?thesis using assms(2) by (simp add: owner_err)
next
  case (unmount_loaded t path a)
  note I = assms(2) [unfolded msys_ok_def]
  have "a < mt_next (ms_m s)" using live_okD(1) [OF mount_invD(1) [OF I] unmount_loaded(4)] .
  then show ?thesis
    using inv_pc [OF I, of t "MUnmounting path a"] unmount_loaded by (simp add: msys_ok_def owner_tau)
next
  case (acquire_missing t path)
  then show ?thesis using assms(2) by (simp add: owner_err)
next
  case (acquire_loaded t path a)
  note I = assms(2) [unfolded msys_ok_def]
  have "a < mt_next (ms_m s)" using live_okD(1) [OF mount_invD(1) [OF I] acquire_loaded(4)] .
  then show ?thesis
    using inv_pc [OF I, of t "MAcquiring path a"] acquire_loaded by (simp add: msys_ok_def owner_tau)
next
  case (acquire_decides t path a r m')
  note I = assms(2) [unfolded msys_ok_def]
  note idle = inv_pc [OF I, of t MIdle]
  show ?thesis
  proof (cases "r = None")
    case False
    then have "m' = ms_m s" using acquire_decides(5) by (auto simp: acquire_locked_def Let_def split: if_splits)
    then show ?thesis using idle acquire_decides False by (simp add: msys_ok_def owner_err)
  next
    case True
    then have L: "sm_load (mt_mounts (ms_m s)) path = Some a"
      and m': "m' = upd_mount a (\<lambda>e. e\<lparr>mm_refCount := mm_refCount e + 1\<rparr>) (ms_m s)"
      using acquire_decides(5) by (auto simp: acquire_locked_def Let_def split: if_splits)
    note A = live_okD [OF mount_invD(1) [OF I] L]
    have "owners m' = (owners (ms_m s))(path := owners (ms_m s) path + 1)"
      by (rule owners_update [OF mount_invD(1) [OF I] L])
         (use L A acquire_decides(4) in \<open>simp_all add: m' upd_mount_def owners_def\<close>)
    moreover have "0 < owners (ms_m s) path" using L A acquire_decides(4) by (simp add: owners_def)
    ultimately have "owner_step (owners (ms_m s)) (MOk OAcquire path) (owners m')"
      using owner_acquire by metis
    moreover have "msys_ok s'"
      using inv_count [OF I _ L acquire_decides(4) refl, where t = t and k = "mm_refCount (mt_heap (ms_m s) a) + 1"]
        A acquire_decides by (simp add: msys_ok_def m' upd_mount_def)
    ultimately show ?thesis using True acquire_decides(1,2) by simp
  qed
next
  case (unmount_unregisters t path a transport m')
  note I = assms(2) [unfolded msys_ok_def]
  obtain tr where tr: "mm_transport (mt_heap (ms_m s) a) = Some tr"
    using mount_invD(2) [OF I, of t] unmount_unregisters(3) by auto
  have m': "transport = Some tr" "m' = mm_unlock a ((ms_m s)\<lparr>mt_devReg := snd (dev_Unregister path (mt_devReg (ms_m s)))\<rparr>)"
    using unmount_unregisters(4) tr by (auto simp: unmount_unregister_def Let_def)
  have "owners m' = owners (ms_m s)" by (rule owners_eq) (auto simp: m' mount_op_defs)
  then show ?thesis
    using inv_unregister [OF I unmount_unregisters(3) tr refl] unmount_unregisters(1,2) m'
    by (simp add: msys_ok_def mount_op_defs unregister_device owner_tau del: not_None_eq)
next
  case (unmount_closes t a tr)
  note I = assms(2) [unfolded msys_ok_def]
  have "owners (unmount_close (Some tr) (ms_m s)) = owners (ms_m s)"
    by (rule owners_eq) (auto simp: unmount_close_def mount_op_defs)
  then show ?thesis
    using inv_close [OF I unmount_closes(3)] unmount_closes(1,2)
    by (simp add: msys_ok_def unmount_close_def mount_op_defs owner_tau)
next
  case (unmount_decides t path a r m')
  then show ?thesis using unmount_decides_ok [OF assms(2) unmount_decides(3,4,5)] by simp
qed

interpretation mounts_ref: refinement "mstep mkfile" owner_step msys_ok "\<lambda>s. owners (ms_m s)" for mkfile
  by unfold_locales (use mstep_ok in blast)+

lemma msys_ok_live:
  assumes "msys_ok s" "0 < owners (ms_m s) path"
  shows "\<exists>a tr. sm_load (mt_mounts (ms_m s)) path = Some a \<and> mm_Status (mt_heap (ms_m s) a) = MCPStatusConnected \<and>
    mm_transport (mt_heap (ms_m s) a) = Some tr \<and> tr \<notin> set (mt_closed (ms_m s)) \<and>
    dev_GetDriver (mt_devReg (ms_m s)) path = Some a \<and> reg_get (dr_registry (mt_devReg (ms_m s))) path \<noteq> None"
proof -
  note D = mount_invD [OF assms(1) [unfolded msys_ok_def]]
  obtain a where L: "sm_load (mt_mounts (ms_m s)) path = Some a" and k: "0 < mm_refCount (mt_heap (ms_m s) a)"
    using assms(2) by (auto simp: owners_def split: option.splits)
  note A = live_okD [OF D(1) L]
  from k A(3) have free: "\<not> mm_locked (mt_heap (ms_m s) a)" by auto
  with A(7) obtain tr where tr: "mm_transport (mt_heap (ms_m s) a) = Some tr" by blast
  have "\<not> entry_gone (ms_pc s) (sm_load (mt_mounts (ms_m s))) (mt_heap (ms_m s)) a"
    using L A(2) by (simp add: entry_gone_def)
  then have "tr \<notin> set (mt_closed (ms_m s))" using transport_okD(5) [OF D(4) A(1) tr] by simp
  then show ?thesis using L A free tr by blast
qed

lemma msys_ok_quiet:
  assumes "msys_ok s" "\<And>t. ms_pc s t = MIdle" "tr \<in> ms_used s" "tr \<notin> set (mt_closed (ms_m s))"
  shows "\<exists>path a. sm_load (mt_mounts (ms_m s)) path = Some a \<and> mm_transport (mt_heap (ms_m s) a) = Some tr \<and>
    0 < owners (ms_m s) path"
proof -
  note D = mount_invD [OF assms(1) [unfolded msys_ok_def]]
  obtain a where a: "a < mt_next (ms_m s)" "mm_transport (mt_heap (ms_m s) a) = Some tr"
    using transport_okD(6) [OF D(4) assms(3)] assms(4) by blast
  with transport_okD(5) [OF D(4)] assms(4)
  have "\<not> entry_gone (ms_pc s) (sm_load (mt_mounts (ms_m s))) (mt_heap (ms_m s)) a" by blast
  then have L: "sm_load (mt_mounts (ms_m s)) (mm_Path (mt_heap (ms_m s) a)) = Some a"
    using assms(2) by (simp add: entry_gone_def)
  note A = live_okD [OF D(1) L]
  from A(4) a(2) have "\<not> mm_locked (mt_heap (ms_m s) a)" by auto
  with A(6) have "1 \<le> mm_refCount (mt_heap (ms_m s) a)" .
  then have "0 < owners (ms_m s) (mm_Path (mt_heap (ms_m s) a))" using L by (simp add: owners_def)
  with L a(2) show ?thesis by blast
qed

lemma owners_init: "owners (ms_m (msys_init devReg)) = (\<lambda>_. 0)"
  by (rule ext) (simp add: msys_init_def NewMountManager_def NewSyncMap_def sm_load_def owners_def)

text \<open>A goroutine alone mounts a free path in two steps.\<close>

lemma mount_alone:
  assumes pc: "ms_pc s t = MIdle" and free: "sm_load (mt_mounts (ms_m s)) path = None"
    and dev: "reg_get (dr_registry (mt_devReg (ms_m s))) path = None" and tr: "tr \<notin> ms_used s"
  shows "\<exists>s1 s2. mstep mkfile s MTau s1 \<and> mstep mkfile s1 (MOk OMount path) s2 \<and> ms_pc s2 = ms_pc s \<and>
    ms_used s2 = insert tr (ms_used s) \<and> mt_closed (ms_m s2) = mt_closed (ms_m s) \<and> owners (ms_m s2) path = 1"
proof -
  obtain a m1 where r: "mount_reserve path config (ms_m s) = (Inr a, m1)"
    using free by (auto simp: mount_reserve_def sm_load_or_store_def sm_load_def Let_def)
  note m1 = reserve_new [OF r]
  let ?s1 = "ms_go t (MConnecting path a) m1 (ms_used s) s"
  have s1: "mstep mkfile s MTau ?s1" by (rule mount_reserved [OF pc r])
  obtain d where d: "dev_RegisterWithDriver path (mcpFileFactory mkfile tr) a (mt_devReg m1) = Inr d"
    using dev by (auto simp: m1 dev_RegisterWithDriver_def reg_register_def reg_get_def)
  obtain m2 where m2: "mount_finalize mkfile path a tr m1 = (None, m2)"
    "m2 = mm_unlock a ((upd_mount a (\<lambda>e. e\<lparr>mm_transport := Some tr, mm_Status := MCPStatusConnected, mm_refCount := 1\<rparr>) m1)\<lparr>mt_devReg := d\<rparr>)"
    using d by (simp add: mount_finalize_def upd_mount_def Let_def)
  let ?s2 = "ms_go t MIdle m2 (insert tr (ms_used s)) ?s1"
  have "mstep mkfile ?s1 (if None = (None :: go_error option) then MOk OMount path else MErr OMount path) (ms_go t MIdle m2 (insert tr (ms_used ?s1)) ?s1)"
    by (rule mount_connected) (use tr m2(1) in simp_all)
  then have s2: "mstep mkfile ?s1 (MOk OMount path) ?s2" by simp
  have "(ms_pc s)(t := MIdle) = ms_pc s" using pc by auto
  then have "ms_pc ?s2 = ms_pc s" by simp
  moreover have "owners m2 path = 1" "mt_closed m2 = mt_closed (ms_m s)"
    by (simp_all add: m2(2) m1 mount_op_defs map_update_fun owners_def)
  ultimately show ?thesis
    by (intro exI [of _ ?s1] exI [of _ ?s2] conjI s1 s2) simp_all
qed

lemma one_mount_one_path:
  assumes "lrun owner_step (\<lambda>_. 0) [MTau, MOk OMount p] q" "0 < q path"
  shows "path = p"
proof -
  from assms(1) obtain q1 where "lrun owner_step (\<lambda>_. 0) [MTau] q1" and q: "owner_step q1 (MOk OMount p) q"
    by (cases rule: lrun.cases) auto
  from this(1) obtain q0 where "lrun owner_step (\<lambda>_. 0) [] q0" and q1: "owner_step q0 MTau q1"
    by (cases rule: lrun.cases) auto
  from this(1) have "q0 = (\<lambda>_. 0)" by (cases rule: lrun.cases) auto
  with q1 have "q1 = (\<lambda>_. 0)" by (auto elim: owner_step.cases)
  with q assms(2) show ?thesis by (auto elim!: owner_step.cases split: if_splits)
qed

section \<open>Properties\<close>

text \<open>
  C19: Whatever goroutines mount, acquire and unmount MCP servers in whatever interleaving, the
  manager behaves as one number of owners per path: a successful \<open>Mount\<close> takes a path without
  owners to one, \<open>Acquire\<close> adds one to a mounted path, \<open>Unmount\<close> takes one off, and no call that
  fails changes anything. While a path has an owner, its transport is connected and not closed and
  its device is registered with the live entry; no transport is closed twice; and when all calls have
  returned, every transport ever connected is closed, except those of paths that have owners.
\<close>

theorem mounts_refine_owner_counts:
  assumes "lrun (mstep mkfile) (msys_init devReg) ls s"
  shows "lrun owner_step (\<lambda>_. 0) ls (owners (ms_m s)) \<and>
    (\<forall>path. 0 < owners (ms_m s) path \<longrightarrow>
       (\<exists>a tr. sm_load (mt_mounts (ms_m s)) path = Some a \<and> mm_Status (mt_heap (ms_m s) a) = MCPStatusConnected \<and>
          mm_transport (mt_heap (ms_m s) a) = Some tr \<and> tr \<notin> set (mt_closed (ms_m s)) \<and>
          dev_GetDriver (mt_devReg (ms_m s)) path = Some a \<and> reg_get (dr_registry (mt_devReg (ms_m s))) path \<noteq> None)) \<and>
    distinct (mt_closed (ms_m s)) \<and>
    ((\<forall>t. ms_pc s t = MIdle) \<longrightarrow>
       (\<forall>tr \<in> ms_used s. tr \<in> set (mt_closed (ms_m s)) \<or>
          (\<exists>path a. sm_load (mt_mounts (ms_m s)) path = Some a \<and> mm_transport (mt_heap (ms_m s) a) = Some tr \<and>
             0 < owners (ms_m s) path)))"
proof -
  have ok: "msys_ok s" using mounts_ref.run_cinv [OF assms msys_init_ok] .
  have "lrun owner_step (\<lambda>_. 0) ls (owners (ms_m s))"
    using mounts_ref.run_refines [OF assms msys_init_ok] by (simp add: owners_init)
  moreover have "distinct (mt_closed (ms_m s))"
    using transport_okD(1) [OF mount_invD(4) [OF ok [unfolded msys_ok_def]]] .
  ultimately show ?thesis using msys_ok_live [OF ok] msys_ok_quiet [OF ok] by blast
qed

theorem mounts_refine_owner_counts_witness:
  "\<exists>s :: (unit, unit, nat) msys. lrun (mstep (\<lambda>_. ())) (msys_init NewDeviceRegistry) [MTau, MOk OMount ''/mnt/mcp/9-git''] s \<and>
     (\<forall>t. ms_pc s t = MIdle) \<and> owners (ms_m s) ''/mnt/mcp/9-git'' = 1 \<and>
     (\<exists>a. sm_load (mt_mounts (ms_m s)) ''/mnt/mcp/9-git'' = Some a \<and> mm_transport (mt_heap (ms_m s) a) = Some 7)"
proof -
  let ?i = "msys_init NewDeviceRegistry :: (unit, unit, nat) msys" and ?p = "''/mnt/mcp/9-git''"
  have "\<exists>s1 s2. mstep (\<lambda>_. ()) ?i MTau s1 \<and> mstep (\<lambda>_. ()) s1 (MOk OMount ?p) s2 \<and> ms_pc s2 = ms_pc ?i \<and>
    ms_used s2 = insert 7 (ms_used ?i) \<and> mt_closed (ms_m s2) = mt_closed (ms_m ?i) \<and> owners (ms_m s2) ?p = 1"
    by (rule mount_alone [where t = 0])
       (simp_all add: msys_init_def NewMountManager_def NewSyncMap_def NewDeviceRegistry_def NewRegistry_def sm_load_def reg_get_def)
  then obtain s1 s where st: "mstep (\<lambda>_. ()) ?i MTau s1" "mstep (\<lambda>_. ()) s1 (MOk OMount ?p) s"
    and s: "ms_pc s = ms_pc ?i" "ms_used s = insert 7 (ms_used ?i)" "mt_closed (ms_m s) = mt_closed (ms_m ?i)" "owners (ms_m s) ?p = 1"
    by blast
  have "lrun (mstep (\<lambda>_. ())) ?i ([] @ [MTau]) s1" by (rule lrun_snoc) (rule lrun_nil, rule st(1))
  then have "lrun (mstep (\<lambda>_. ())) ?i (([] @ [MTau]) @ [MOk OMount ?p]) s" by (rule lrun_snoc) (rule st(2))
  then have run: "lrun (mstep (\<lambda>_. ())) ?i [MTau, MOk OMount ?p] s" by simp
  have idle: "\<forall>t. ms_pc s t = MIdle" by (simp add: s(1) msys_init_def)
  have "7 \<in> ms_used s" "mt_closed (ms_m s) = []" using s by (simp_all add: msys_init_def NewMountManager_def)
  with mounts_refine_owner_counts [OF run] idle
  obtain path a where a: "sm_load (mt_mounts (ms_m s)) path = Some a" "mm_transport (mt_heap (ms_m s) a) = Some 7"
    "0 < owners (ms_m s) path" by fastforce
  have "lrun owner_step (\<lambda>_. 0) [MTau, MOk OMount ?p] (owners (ms_m s))"
    using mounts_refine_owner_counts [OF run] by simp
  then have "path = ?p" using a(3) by (rule one_mount_one_path)
  with run idle s a show ?thesis by auto
qed

end
