(* ===== verification/MountProps.thy ===== *)
theory MountProps
  imports MountSys
begin

text \<open>
  Whole calls of the mount manager made while no other is under way: an \<open>Unmount\<close> is a run of one
  goroutine, and \<open>UnmountAll\<close> is one \<open>Unmount\<close> per mounted path.
\<close>

section \<open>A call as a run\<close>

abbreviation quiet :: "('f, 'w, 't) msys \<Rightarrow> bool" where
  "quiet s \<equiv> (\<forall>t. ms_pc s t = MIdle)"

lemma mrun_step:
  assumes "mstep mkfile s l s'"
  shows "lrun (mstep mkfile) s [l] s'"
proof -
  have "lrun (mstep mkfile) s ([] @ [l]) s'" by (rule lrun_snoc) (rule lrun_nil, rule assms)
  then show ?thesis by simp
qed

lemma mrun_trans:
  assumes "lrun (mstep mkfile) s ls s'" "lrun (mstep mkfile) s' ls' s''"
  shows "lrun (mstep mkfile) s (ls @ ls') s''"
  using assms(2,1)
proof (induction rule: lrun.induct)
  case (lrun_snoc s' ls' s1 l s2)
  then have "lrun (mstep mkfile) s ((ls @ ls') @ [l]) s2" by (intro lrun.lrun_snoc)
  then show ?case by simp
qed simp

lemma quiet_unlocked:
  assumes "msys_ok s" "quiet s" "sm_load (mt_mounts (ms_m s)) path = Some a"
  shows "\<not> mm_locked (mt_heap (ms_m s) a)"
  using holder_okD(3) [OF mount_invD(3) [OF assms(1) [unfolded msys_ok_def]] assms(3)] assms(2) by auto

lemma quiet_owners:
  assumes "msys_ok s" "quiet s"
  shows "0 < owners (ms_m s) path \<longleftrightarrow> sm_load (mt_mounts (ms_m s)) path \<noteq> None"
proof (cases "sm_load (mt_mounts (ms_m s)) path")
  case (Some a)
  have "1 \<le> mm_refCount (mt_heap (ms_m s) a)"
    using live_okD(6) [OF mount_invD(1) [OF assms(1) [unfolded msys_ok_def]] Some quiet_unlocked [OF assms Some]] .
  with Some show ?thesis by (simp add: owners_def)
qed (simp add: owners_def)

lemma owner_release_inv:
  assumes "owner_step q (MOk OUnmount p) q'"
  shows "0 < q p \<and> q' = q(p := q p - 1)"
  using assms by (auto elim: owner_step.cases)

text \<open>An \<open>Unmount\<close> with nobody else around takes one owner off a mounted path, and else changes nothing.\<close>

lemma Unmount_run:
  fixes s :: "('f, 'w, 't) msys"
  assumes ok: "msys_ok s" and q: "quiet s" and u: "Unmount te path (ms_m s) = (r, m')"
  shows "\<exists>s' ls. lrun (mstep mkfile) s ls s' \<and> ms_m s' = m' \<and> ms_used s' = ms_used s \<and> quiet s' \<and>
    owners m' = (owners (ms_m s))(path := owners (ms_m s) path - 1)"
proof (cases "sm_load (mt_mounts (ms_m s)) path")
  case None
  then have "m' = ms_m s" using u by (simp add: Unmount_def)
  moreover from None have "owners (ms_m s) path = 0" by (simp add: owners_def)
  ultimately show ?thesis using q lrun_nil by (intro exI [of _ s] exI [of _ "[]"]) auto
next
  case (Some a)
  let ?m = "ms_m s" and ?u = "ms_used s"
  note D = mount_invD [OF ok [unfolded msys_ok_def]]
  note A = live_okD [OF D(1) Some]
  note free = quiet_unlocked [OF ok q Some]
  let ?s1 = "ms_go 0 (MUnmounting path a) ?m ?u s"
  have s1: "mstep mkfile s MTau ?s1" by (rule unmount_loaded) (use q Some in auto)
  obtain r1 m1 where rel: "unmount_release path a ?m = (r1, m1)" by fastforce
  have "1 \<le> mm_refCount (mt_heap ?m a)" using A(6) free by blast
  with rel Some obtain last where r1: "r1 = Inr last"
    by (auto simp: unmount_release_def Let_def split: if_splits)
  let ?s2 = "ms_go 0 (if r1 = Inr True then MUnregister path a else MIdle) m1 ?u ?s1"
  have "mstep mkfile ?s1 (case r1 of Inl _ \<Rightarrow> MErr OUnmount path | Inr _ \<Rightarrow> MOk OUnmount path)
      (ms_go 0 (if r1 = Inr True then MUnregister path a else MIdle) m1 (ms_used ?s1) ?s1)"
    by (rule unmount_decides) (use free rel in simp_all)
  then have s2: "mstep mkfile ?s1 (MOk OUnmount path) ?s2" using r1 by simp
  have run2: "lrun (mstep mkfile) s [MTau, MOk OUnmount path] ?s2"
    using mrun_trans [OF mrun_step [OF s1] mrun_step [OF s2]] by simp
  have own: "owners m1 = (owners ?m)(path := owners ?m path - 1)"
    using owner_release_inv [OF conjunct2 [OF mstep_ok [OF s2 conjunct1 [OF mstep_ok [OF s1 ok]]], simplified]]
    by simp
  show ?thesis
  proof (cases last)
    case False
    then have "m' = m1" using u rel r1 Some by (simp add: Unmount_def)
    then show ?thesis using run2 own q r1 False by (intro exI [of _ ?s2] exI) auto
  next
    case True
    have ok2: "msys_ok ?s2" using mounts_ref.run_cinv [OF run2 ok] .
    obtain transport m2 where un: "unmount_unregister path a m1 = (transport, m2)" by fastforce
    have pc2: "ms_pc ?s2 0 = MUnregister path a" using r1 True by simp
    then obtain tr where tr: "transport = Some tr"
      using mount_invD(2) [OF ok2 [unfolded msys_ok_def], of 0] un by (auto simp: unmount_unregister_def upd_mount_def mm_unlock_def Let_def)
    let ?s3 = "ms_go 0 (MClosing a tr) m2 ?u ?s2"
    have "mstep mkfile ?s2 MTau (ms_go 0 (case transport of None \<Rightarrow> MIdle | Some tr \<Rightarrow> MClosing a tr) m2 (ms_used ?s2) ?s2)"
      by (rule unmount_unregisters [OF pc2]) (use un in simp)
    then have s3: "mstep mkfile ?s2 MTau ?s3" by (simp add: tr)
    let ?s4 = "ms_go 0 MIdle (unmount_close (Some tr) m2) ?u ?s3"
    have "mstep mkfile ?s3 MTau (ms_go 0 MIdle (unmount_close (Some tr) (ms_m ?s3)) (ms_used ?s3) ?s3)"
      by (rule unmount_closes [where a = a]) simp
    then have s4: "mstep mkfile ?s3 MTau ?s4" by simp
    have "lrun (mstep mkfile) s ([MTau, MOk OUnmount path] @ [MTau] @ [MTau]) ?s4"
      by (intro mrun_trans [OF run2] mrun_trans [OF mrun_step [OF s3] mrun_step [OF s4]])
    moreover have m': "m' = unmount_close (Some tr) m2" using u rel r1 Some un tr True by (simp add: Unmount_def)
    moreover have "owners m' = owners m1"
      unfolding m' using un by (intro owners_eq) (auto simp: unmount_unregister_def unmount_close_def mount_op_defs)
    ultimately show ?thesis using own q by (intro exI [of _ ?s4] exI) auto
  qed
qed

lemma acquire_alone:
  assumes ok: "msys_ok s" and q: "quiet s" and p: "0 < owners (ms_m s) path"
  shows "\<exists>ls s'. lrun (mstep mkfile) s ls s' \<and> quiet s' \<and> owners (ms_m s') path = owners (ms_m s) path + 1"
proof -
  obtain a where L: "sm_load (mt_mounts (ms_m s)) path = Some a" using quiet_owners [OF ok q] p by auto
  note free = quiet_unlocked [OF ok q L]
  note A = live_okD [OF mount_invD(1) [OF ok [unfolded msys_ok_def]] L]
  let ?m' = "upd_mount a (\<lambda>e. e\<lparr>mm_refCount := mm_refCount e + 1\<rparr>) (ms_m s)"
  let ?s1 = "ms_go 0 (MAcquiring path a) (ms_m s) (ms_used s) s"
  have s1: "mstep mkfile s MTau ?s1" by (rule acquire_loaded) (use q L in auto)
  have acq: "acquire_locked path a (ms_m s) = (None, ?m')"
    using L A(5,7) free by (simp add: acquire_locked_def Let_def)
  let ?s2 = "ms_go 0 MIdle ?m' (ms_used s) ?s1"
  have "mstep mkfile ?s1 (if None = (None :: go_error option) then MOk OAcquire path else MErr OAcquire path)
      (ms_go 0 MIdle ?m' (ms_used ?s1) ?s1)"
    by (rule acquire_decides [where a = a]) (use free acq in simp_all)
  then have s2: "mstep mkfile ?s1 (MOk OAcquire path) ?s2" by simp
  have "owners ?m' path = owners (ms_m s) path + 1"
    using L A(6) free by (simp add: owners_def upd_mount_def)
  then show ?thesis using mrun_trans [OF mrun_step [OF s1] mrun_step [OF s2]] q
    by (intro exI [of _ "[MTau] @ [MOk OAcquire path]"] exI [of _ ?s2]) auto
qed

section \<open>All mounts\<close>

text \<open>The registry of mounts has each path once, so \<open>Range\<close> visits each once.\<close>

lemma mstep_unique:
  assumes "mstep mkfile s l s'" "unique_keys (mt_mounts (ms_m s))"
  shows "unique_keys (mt_mounts (ms_m s'))"
  using assms
  by cases (auto simp: mount_reserve_def sm_load_or_store_def unmount_close_def mount_abort_def mount_finalize_def mm_unlock_def
      upd_mount_def close_transport_def unmount_release_def unmount_unregister_def acquire_locked_def Let_def
      intro: sm_unique_keys split: option.splits sum.splits if_splits)

lemma mrun_unique:
  "lrun (mstep mkfile) s ls s' \<Longrightarrow> unique_keys (mt_mounts (ms_m s)) \<Longrightarrow> unique_keys (mt_mounts (ms_m s'))"
  by (induction rule: lrun.induct) (auto intro: mstep_unique)

lemma range_keys: "sm_range (\<lambda>k v ks. (True, ks @ [k])) m ks = ks @ map fst m"
  by (induction m arbitrary: ks) auto

lemma unmount_list_run:
  fixes s :: "('f, 'w, 't) msys"
  assumes "msys_ok s" "quiet s" "distinct paths"
    and "fold (\<lambda>path (firstErr, m). case Unmount te path m of
           (Some e, m') \<Rightarrow> (if firstErr = None then Some e else firstErr, m') | (None, m') \<Rightarrow> (firstErr, m')) paths (r0, ms_m s) = (r, m')"
  shows "\<exists>s' ls. lrun (mstep mkfile) s ls s' \<and> ms_m s' = m' \<and> ms_used s' = ms_used s \<and> quiet s' \<and>
    (\<forall>p. owners m' p = (if p \<in> set paths then owners (ms_m s) p - 1 else owners (ms_m s) p))"
  using assms
proof (induction paths arbitrary: s r0)
  case Nil
  then show ?case using lrun_nil by fastforce
next
  case (Cons path paths)
  obtain e m1 where u: "Unmount te path (ms_m s) = (e, m1)" by fastforce
  from Unmount_run [OF Cons.prems(1,2) u, where mkfile = mkfile]
  obtain s1 ls1 where s1: "lrun (mstep mkfile) s ls1 s1" "ms_m s1 = m1" "ms_used s1 = ms_used s" "quiet s1"
    and o1: "owners m1 = (owners (ms_m s))(path := owners (ms_m s) path - 1)" by blast
  have ok1: "msys_ok s1" using mounts_ref.run_cinv [OF s1(1) Cons.prems(1)] .
  obtain r1 where f1: "fold (\<lambda>path (firstErr, m). case Unmount te path m of
      (Some e, m') \<Rightarrow> (if firstErr = None then Some e else firstErr, m') | (None, m') \<Rightarrow> (firstErr, m')) paths (r1, ms_m s1) = (r, m')"
    using Cons.prems(4) u s1(2) by (cases e) auto
  from Cons.IH [OF ok1 s1(4) _ f1] Cons.prems(3) obtain s' ls where s': "lrun (mstep mkfile) s1 ls s'" "ms_m s' = m'" "ms_used s' = ms_used s1" "quiet s'"
    and o': "\<forall>p. owners m' p = (if p \<in> set paths then owners (ms_m s1) p - 1 else owners (ms_m s1) p)"
    by auto
  have "\<forall>p. owners m' p = (if p \<in> set (path # paths) then owners (ms_m s) p - 1 else owners (ms_m s) p)"
    using o' o1 s1(2) Cons.prems(3) by auto
  with mrun_trans [OF s1(1) s'(1)] s' s1 show ?case by metis
qed

section \<open>Properties\<close>

text \<open>
  C20: Shutting the mounts down while no other call is under way takes exactly one owner off every
  mounted path. A server with a single owner is closed and unregistered, but one shared by two or more
  processes stays mounted with its transport open: these, and no others, are left running.
\<close>

theorem unmount_all_leaves_shared_mounts:
  fixes s :: "('f, 'w, 't) msys"
  assumes run: "lrun (mstep mkfile) (msys_init devReg) ls s" and idle: "\<forall>t. ms_pc s t = MIdle"
    and all: "UnmountAll te (ms_m s) = (r, m')"
  shows "(\<forall>path. owners m' path = owners (ms_m s) path - 1) \<and>
    (\<forall>path. 1 < owners (ms_m s) path \<longrightarrow>
       (\<exists>a tr. sm_load (mt_mounts m') path = Some a \<and> mm_transport (mt_heap m' a) = Some tr \<and> tr \<notin> set (mt_closed m'))) \<and>
    (\<forall>path. owners (ms_m s) path = 1 \<longrightarrow> sm_load (mt_mounts m') path = None) \<and>
    (\<forall>tr \<in> ms_used s. tr \<in> set (mt_closed m') \<or>
       (\<exists>path a. 1 < owners (ms_m s) path \<and> sm_load (mt_mounts m') path = Some a \<and> mm_transport (mt_heap m' a) = Some tr))"
proof -
  have ok: "msys_ok s" using mounts_ref.run_cinv [OF run msys_init_ok] .
  have "unique_keys (mt_mounts (ms_m s))"
    by (rule mrun_unique [OF run]) (simp add: msys_init_def NewMountManager_def NewSyncMap_def)
  then have dist: "distinct (map fst (mt_mounts (ms_m s)))" by simp
  obtain s' ls' where s': "lrun (mstep mkfile) s ls' s'" "ms_m s' = m'" "ms_used s' = ms_used s" "quiet s'"
    and o': "\<forall>p. owners m' p = (if p \<in> set (map fst (mt_mounts (ms_m s))) then owners (ms_m s) p - 1 else owners (ms_m s) p)"
    using unmount_list_run [OF ok idle dist, of te None r m' mkfile] all by (auto simp: UnmountAll_def range_keys)
  have "p \<notin> set (map fst (mt_mounts (ms_m s))) \<Longrightarrow> owners (ms_m s) p = 0" for p
    by (simp add: owners_def sm_load_def map_of_eq_None_iff [symmetric] split: option.split)
  with o' have own: "\<forall>path. owners m' path = owners (ms_m s) path - 1" by (metis diff_0_eq_0)
  have ok': "msys_ok s'" using mounts_ref.run_cinv [OF s'(1) ok] .
  have "1 < owners (ms_m s) path \<Longrightarrow> 0 < owners (ms_m s') path" for path using own s'(2) by simp
  then have live: "\<forall>path. 1 < owners (ms_m s) path \<longrightarrow>
       (\<exists>a tr. sm_load (mt_mounts m') path = Some a \<and> mm_transport (mt_heap m' a) = Some tr \<and> tr \<notin> set (mt_closed m'))"
    using msys_ok_live [OF ok'] s'(2) by blast
  have gone: "\<forall>path. owners (ms_m s) path = 1 \<longrightarrow> sm_load (mt_mounts m') path = None"
  proof (intro allI impI)
    fix path assume "owners (ms_m s) path = 1"
    with own s'(2) have "\<not> 0 < owners (ms_m s') path" by simp
    then show "sm_load (mt_mounts m') path = None"
      using quiet_owners [OF ok' s'(4), of path] s'(2) by auto
  qed
  have "\<forall>tr \<in> ms_used s. tr \<in> set (mt_closed m') \<or>
       (\<exists>path a. 1 < owners (ms_m s) path \<and> sm_load (mt_mounts m') path = Some a \<and> mm_transport (mt_heap m' a) = Some tr)"
  proof (intro ballI disjCI)
    fix tr assume "tr \<in> ms_used s" "\<not> (\<exists>path a. 1 < owners (ms_m s) path \<and> sm_load (mt_mounts m') path = Some a \<and> mm_transport (mt_heap m' a) = Some tr)"
    then show "tr \<in> set (mt_closed m')" using msys_ok_quiet [OF ok', of tr] s' own by force
  qed
  with own live gone show ?thesis by blast
qed

text \<open>Nine's git server, mounted by nine and acquired by a process resumed from it.\<close>

lemma shared_mount_run:
  obtains s :: "(unit, unit, nat) msys" and ls where
    "lrun (mstep (\<lambda>_. ())) (msys_init NewDeviceRegistry) ls s" "\<forall>t. ms_pc s t = MIdle" "owners (ms_m s) ''/mnt/mcp/9-git'' = 2"
proof -
  let ?i = "msys_init NewDeviceRegistry :: (unit, unit, nat) msys" and ?p = "''/mnt/mcp/9-git''"
  have "\<exists>s1 s2. mstep (\<lambda>_. ()) ?i MTau s1 \<and> mstep (\<lambda>_. ()) s1 (MOk OMount ?p) s2 \<and> ms_pc s2 = ms_pc ?i \<and>
    ms_used s2 = insert 7 (ms_used ?i) \<and> mt_closed (ms_m s2) = mt_closed (ms_m ?i) \<and> owners (ms_m s2) ?p = 1"
    by (rule mount_alone [where t = 0])
       (simp_all add: msys_init_def NewMountManager_def NewSyncMap_def NewDeviceRegistry_def NewRegistry_def sm_load_def reg_get_def)
  then obtain s1 s2 where m: "mstep (\<lambda>_. ()) ?i MTau s1" "mstep (\<lambda>_. ()) s1 (MOk OMount ?p) s2"
    and s2: "ms_pc s2 = ms_pc ?i" "owners (ms_m s2) ?p = 1" by blast
  have run2: "lrun (mstep (\<lambda>_. ())) ?i ([MTau] @ [MOk OMount ?p]) s2"
    by (rule mrun_trans [OF mrun_step [OF m(1)] mrun_step [OF m(2)]])
  have q2: "quiet s2" by (simp add: s2(1) msys_init_def)
  have ok2: "msys_ok s2" using mounts_ref.run_cinv [OF run2 msys_init_ok] .
  from acquire_alone [OF ok2 q2, of ?p "\<lambda>_. ()"] s2(2)
  obtain ls s where "lrun (mstep (\<lambda>_. ())) s2 ls s" "quiet s" "owners (ms_m s) ?p = 2" by auto
  with mrun_trans [OF run2 this(1)] show thesis by (intro that) auto
qed

theorem unmount_all_leaves_shared_mounts_witness:
  "\<exists>(s :: (unit, unit, nat) msys) r m' a tr. owners (ms_m s) ''/mnt/mcp/9-git'' = 2 \<and>
     UnmountAll \<lparr>te_factory = \<lambda>_. Inr 7, te_Connect = \<lambda>_ _. None, te_Close = \<lambda>_. None\<rparr> (ms_m s) = (r, m') \<and>
     sm_load (mt_mounts m') ''/mnt/mcp/9-git'' = Some a \<and> mm_transport (mt_heap m' a) = Some tr \<and> tr \<notin> set (mt_closed m')"
proof -
  obtain s :: "(unit, unit, nat) msys" and ls where s: "lrun (mstep (\<lambda>_. ())) (msys_init NewDeviceRegistry) ls s"
    "\<forall>t. ms_pc s t = MIdle" "owners (ms_m s) ''/mnt/mcp/9-git'' = 2"
    by (rule shared_mount_run)
  obtain r m' where u: "UnmountAll \<lparr>te_factory = \<lambda>_. Inr 7, te_Connect = \<lambda>_ _. None, te_Close = \<lambda>_. None\<rparr> (ms_m s) = (r, m')"
    by fastforce
  from unmount_all_leaves_shared_mounts [OF s(1,2) u] s(3)
  obtain a tr where "sm_load (mt_mounts m') ''/mnt/mcp/9-git'' = Some a" "mm_transport (mt_heap m' a) = Some tr" "tr \<notin> set (mt_closed m')"
    by (metis one_less_numeral_iff semiring_norm(76))
  with s(3) u show ?thesis by blast
qed

end
