(* ===== verification/Permissions.thy ===== *)
theory Permissions
  imports Vfs Tokens
begin

text \<open>
  Who may call which tool: the tool tables built from the registered drivers (\<open>kernel/toolgen.go\<close>),
  the device and tool whitelists of a process and how a declaration is turned into them
  (\<open>kernel/devices.go\<close>), the whitelists of a spawned child (\<open>kernel/spawn.go\<close>, the Agent and Skill
  actions of \<open>kernel/tool_exec.go\<close>) and the check in front of every VFS tool call
  (\<open>executeVFSTool\<close>).

  A driver is opaque; that it implements \<open>ToolDescriptor\<close>, and with which tools, is the parameter
  \<open>td\<close>. A nil slice is the empty list: every slice here is nil exactly when it is empty. The wording
  of a refusal is cut to its subject.
\<close>

section \<open>Tools and their routes\<close>

datatype ActionType =
    ActionNone | ActionText | ActionToolCall | ActionPlan | ActionSpawn | ActionComplete | ActionReplan
  | ActionSpecialize | ActionDiscoverSkill | ActionDeferredSkillPlaceholder

record ToolDef =
  td_Name :: string
  td_Description :: string
  td_Parameters :: json
  td_MaxResultTokens :: int
  td_IsReadOnly :: bool
  td_IsConcurrencySafe :: bool
  td_IsDestructive :: bool
  td_ShouldDefer :: bool
  td_SearchHint :: string
  td_Subpath :: string

record toolMapping =
  tm_Type :: string
  tm_VFSPath :: string
  tm_Action :: ActionType
  tm_FSOperation :: string

type_synonym 'd describer = "'d \<Rightarrow> ToolDef list option"

definition mcpPathPrefix :: string where
  "mcpPathPrefix = ''/mnt/mcp/''"

definition vfs_mapping :: "string \<Rightarrow> ToolDef \<Rightarrow> toolMapping" where
  "vfs_mapping devPath d = \<lparr>tm_Type = ''vfs'', tm_VFSPath = devPath @ td_Subpath d, tm_Action = ActionNone,
     tm_FSOperation = (if td_Name d \<in> {''Read'', ''Write'', ''Edit'', ''Glob'', ''Grep''} then td_Name d else [])\<rparr>"

definition collectFromDriver ::
  "'d describer \<Rightarrow> string \<Rightarrow> 'd \<Rightarrow> ToolDef list \<times> (string \<times> toolMapping) list \<Rightarrow> ToolDef list \<times> (string \<times> toolMapping) list" where
  "collectFromDriver td devPath driver s =
     (if prefix ''/dev/llm'' devPath then s
      else case td driver of
             None \<Rightarrow> s
           | Some ds \<Rightarrow> (fst s @ ds, fold (\<lambda>d m. AList.update (td_Name d) (vfs_mapping devPath d) m) ds (snd s)))"

definition baseDeviceWhitelistActive :: "string list \<Rightarrow> bool" where
  "baseDeviceWhitelistActive allowedDevices = list_ex (\<lambda>dev. \<not> prefix mcpPathPrefix dev) allowedDevices"

definition toolWhitelistActive :: "string list \<Rightarrow> bool" where
  "toolWhitelistActive allowedTools \<longleftrightarrow> allowedTools \<noteq> []"

definition deviceAllowed :: "string \<Rightarrow> string list \<Rightarrow> bool" where
  "deviceAllowed cleanPath allowedDevices = list_ex (\<lambda>dev. cleanPath = dev \<or> prefix (dev @ ''/'') cleanPath) allowedDevices"

definition buildToolDefs ::
  "'d describer \<Rightarrow> ('f, 'w, 'd) DeviceRegistry \<Rightarrow> string list \<Rightarrow> ToolDef list \<times> (string \<times> toolMapping) list" where
  "buildToolDefs td devReg allowedDevices =
     (if baseDeviceWhitelistActive allowedDevices
      then fold (\<lambda>devPath s. case dev_GetDriver devReg devPath of
                               None \<Rightarrow> s
                             | Some driver \<Rightarrow> collectFromDriver td devPath driver s) allowedDevices ([], [])
      else sm_range (\<lambda>devPath driver s. (True, collectFromDriver td devPath driver s)) (dr_driverMap devReg) ([], []))"

section \<open>Lists of devices and tools\<close>

definition orchestrationOnlyDevices :: "string list" where
  "orchestrationOnlyDevices = [''/dev/intent'']"

definition stripOrchestrationDevices :: "string list \<Rightarrow> string list" where
  "stripOrchestrationDevices devs = filter (\<lambda>d. d \<notin> set orchestrationOnlyDevices) devs"

definition add_new :: "'a \<Rightarrow> 'a list \<Rightarrow> 'a list" where
  "add_new d xs = (if d \<in> set xs then xs else xs @ [d])"

definition unionDevices :: "string list \<Rightarrow> string list \<Rightarrow> string list" where
  "unionDevices a b = fold add_new b (fold add_new a [])"

definition intersectDevices :: "string list \<Rightarrow> string list \<Rightarrow> string list" where
  "intersectDevices parent child = filter (\<lambda>d. d \<in> set parent) child"

definition expandDevicesToTools ::
  "'d describer \<Rightarrow> ('f, 'w, 'd) DeviceRegistry option \<Rightarrow> string list \<Rightarrow> string list" where
  "expandDevicesToTools td reg devices =
     (case reg of
        None \<Rightarrow> []
      | Some r \<Rightarrow>
          fold (\<lambda>devPath tools.
                  if prefix mcpPathPrefix devPath \<or> prefix ''/dev/llm'' devPath then tools
                  else case dev_GetDriver r devPath of
                         None \<Rightarrow> tools
                       | Some driver \<Rightarrow>
                           (case td driver of
                              None \<Rightarrow> tools
                            | Some ds \<Rightarrow> fold (\<lambda>d ts. add_new (td_Name d) ts) ds tools))
               devices [])"

definition isDevicePathValue :: "string \<Rightarrow> bool" where
  "isDevicePathValue v \<longleftrightarrow> prefix ''/dev/'' v \<or> prefix mcpPathPrefix v"

definition toolDeviceRoots ::
  "'d describer \<Rightarrow> ('f, 'w, 'd) DeviceRegistry option \<Rightarrow> (string \<times> string) list" where
  "toolDeviceRoots td reg =
     (case reg of
        None \<Rightarrow> []
      | Some r \<Rightarrow>
          sm_range (\<lambda>devPath driver index.
              (True, if prefix ''/dev/llm'' devPath \<or> prefix mcpPathPrefix devPath then index
                     else case td driver of
                            None \<Rightarrow> index
                          | Some ds \<Rightarrow> fold (\<lambda>d m. if map_of m (td_Name d) = None then AList.update (td_Name d) devPath m else m) ds index))
            (dr_driverMap r) [])"

definition knownToolNames :: "string list" where
  "knownToolNames =
     [''Read'', ''Write'', ''Edit'', ''Glob'', ''Grep'', ''Bash'', ''LSP'', ''WebFetch'', ''WebSearch'', ''AskUserQuestion'',
      ''TaskCreate'', ''TaskGet'', ''TaskList'', ''TaskUpdate'', ''CronCreate'', ''CronDelete'', ''CronList'',
      ''IntentDecompose'', ''IntentConfirm'', ''IntentExecute'', ''IntentStatus'',
      ''MemoryCommit'', ''MemoryRecall'', ''MemoryProfile'', ''SkillManage'',
      ''Agent'', ''Skill'', ''ToolSearch'', ''EnterPlanMode'', ''Replan'', ''Complete'']"

definition IsKnownToolName :: "string \<Rightarrow> bool" where
  "IsKnownToolName v \<longleftrightarrow> v \<in> set knownToolNames"

definition normalize_value ::
  "'d describer \<Rightarrow> ('f, 'w, 'd) DeviceRegistry option \<Rightarrow> string \<Rightarrow> string list \<times> string list \<Rightarrow> string list \<times> string list" where
  "normalize_value td reg v s =
     (case s of (tools, devices) \<Rightarrow>
        if isDevicePathValue v then (fold add_new (expandDevicesToTools td reg [v]) tools, add_new v devices)
        else case map_of (toolDeviceRoots td reg) v of
               Some root \<Rightarrow>
                 if root \<noteq> [] then (add_new v tools, add_new root devices)
                 else if IsKnownToolName v then (add_new v tools, devices) else (tools, devices)
             | None \<Rightarrow> if IsKnownToolName v then (add_new v tools, devices) else (tools, devices))"

definition normalizeDeclaredAllowedTools ::
  "'d describer \<Rightarrow> ('f, 'w, 'd) DeviceRegistry option \<Rightarrow> string list \<Rightarrow> string list \<times> string list" where
  "normalizeDeclaredAllowedTools td reg declared =
     (case fold (normalize_value td reg) declared ([], []) of (tools, devices) \<Rightarrow> (sort tools, sort devices))"

section \<open>Paths\<close>

text \<open>
  \<open>path.Clean\<close> of the Go library: empty and \<open>.\<close> elements go, \<open>..\<close> takes the element before it away,
  at the root it vanishes, at the start of a relative path it stays.
\<close>

fun split_slash :: "string \<Rightarrow> string list" where
  "split_slash [] = [[]]"
| "split_slash (c # s) =
     (if c = CHR ''/'' then [] # split_slash s
      else case split_slash s of [] \<Rightarrow> [[c]] | x # xs \<Rightarrow> (c # x) # xs)"

definition clean_push :: "bool \<Rightarrow> string \<Rightarrow> string list \<Rightarrow> string list" where
  "clean_push rooted seg stack =
     (if seg = [] \<or> seg = ''.'' then stack
      else if seg = ''..'' then
        (case stack of
           [] \<Rightarrow> if rooted then [] else [seg]
         | seg0 # rest \<Rightarrow> if seg0 = ''..'' then seg # stack else rest)
      else seg # stack)"

fun join_slash :: "string list \<Rightarrow> string" where
  "join_slash [] = []"
| "join_slash [x] = x"
| "join_slash (x # y # xs) = x @ ''/'' @ join_slash (y # xs)"

definition path_Clean :: "string \<Rightarrow> string" where
  "path_Clean p =
     (let rooted = prefix ''/'' p;
          body = join_slash (rev (fold (clean_push rooted) (split_slash p) []))
      in if rooted then ''/'' @ body else if body = [] then ''.'' else body)"

section \<open>The check before a tool call\<close>

text \<open>The permission fields of \<open>Process\<close>.\<close>

record perms =
  pm_DeniedDevices :: "string list"
  pm_AllowedDevices :: "string list"
  pm_AllowedTools :: "string list"

definition denied_err :: "string \<Rightarrow> go_error" where
  "denied_err what = PlainError (''permission denied: '' @ what)"

definition permission_check :: "perms \<Rightarrow> string \<Rightarrow> string \<Rightarrow> go_error option" where
  "permission_check p tool vfsPath =
     (let cleanPath = path_Clean vfsPath
      in if list_ex (\<lambda>denied. cleanPath = denied \<or> prefix (denied @ ''/'') cleanPath) (pm_DeniedDevices p)
         then Some (denied_err vfsPath)
         else if prefix mcpPathPrefix cleanPath then
           (if pm_AllowedDevices p \<noteq> [] \<and> \<not> deviceAllowed cleanPath (pm_AllowedDevices p)
            then Some (denied_err vfsPath) else None)
         else if toolWhitelistActive (pm_AllowedTools p) then
           (if tool \<notin> set (pm_AllowedTools p) then Some (denied_err tool) else None)
         else if baseDeviceWhitelistActive (pm_AllowedDevices p) then
           (if \<not> deviceAllowed cleanPath (pm_AllowedDevices p) then Some (denied_err vfsPath) else None)
         else None)"

text \<open>
  The route of a call (\<open>executeToolCalls\<close>): the process's tool table, else the name itself for a path
  below \<open>/mnt/\<close>.
\<close>

definition resolve_tool :: "(string \<times> toolMapping) list \<Rightarrow> string \<Rightarrow> toolMapping option" where
  "resolve_tool toolMap name =
     (case map_of toolMap name of
        Some m \<Rightarrow> Some m
      | None \<Rightarrow>
          if prefix ''/mnt/'' name
          then Some \<lparr>tm_Type = ''vfs'', tm_VFSPath = name, tm_Action = ActionNone, tm_FSOperation = []\<rparr> else None)"

section \<open>The whitelists of a new process\<close>

text \<open>
  The permission part of \<open>Spawn\<close>. An agent is its name and what \<open>AgentInfo.AllowedTools\<close> declares; the
  options carry the parent's constraint.
\<close>

definition agent_AllowedTools :: "string list list \<Rightarrow> string list \<Rightarrow> string list" where
  "agent_AllowedTools skillTools manifestTools = sort (remdups (concat skillTools @ manifestTools))"

definition spawn_devices ::
  "string \<Rightarrow> string list \<Rightarrow> string list \<Rightarrow> go_error + string list" where
  "spawn_devices agentName agentDevices optDevices =
     (if optDevices \<noteq> [] \<and> agentDevices \<noteq> [] then
        (let common = intersectDevices optDevices agentDevices
         in if common = [] then Inl (PlainError (''spawn: no device overlap for agent '' @ agentName)) else Inr common)
      else if optDevices \<noteq> [] then Inr optDevices
      else Inr agentDevices)"

definition spawn_tools ::
  "'d describer \<Rightarrow> ('f, 'w, 'd) DeviceRegistry option \<Rightarrow> string list \<Rightarrow> string list \<Rightarrow> string list \<Rightarrow> string list" where
  "spawn_tools td reg devices tools optTools =
     (if devices \<noteq> [] \<or> optTools \<noteq> [] then
        (let deviceTools = (if devices \<noteq> [] then expandDevicesToTools td reg devices else []);
             tools1 = (if tools = [] then deviceTools
                       else if deviceTools \<noteq> [] then intersectDevices deviceTools tools else tools)
         in if optTools \<noteq> [] then (if tools1 \<noteq> [] then intersectDevices optTools tools1 else optTools) else tools1)
      else tools)"

definition spawn_permissions ::
  "'d describer \<Rightarrow> ('f, 'w, 'd) DeviceRegistry option \<Rightarrow> (string \<times> string list) option \<Rightarrow> perms \<Rightarrow> go_error + perms" where
  "spawn_permissions td reg agent opts =
     (case agent of
        None \<Rightarrow>
          Inr (opts\<lparr>pm_AllowedTools := spawn_tools td reg (pm_AllowedDevices opts) [] (pm_AllowedTools opts)\<rparr>)
      | Some (name, declared) \<Rightarrow>
          (case normalizeDeclaredAllowedTools td reg declared of (agentTools, agentDevices) \<Rightarrow>
             case spawn_devices name agentDevices (pm_AllowedDevices opts) of
               Inl e \<Rightarrow> Inl e
             | Inr devices \<Rightarrow>
                 Inr (opts\<lparr>pm_AllowedDevices := devices,
                           pm_AllowedTools := spawn_tools td reg devices agentTools (pm_AllowedTools opts)\<rparr>)))"

text \<open>The mounts of the agent's MCP servers join the device whitelist afterwards.\<close>

definition spawn_mounts :: "string list \<Rightarrow> perms \<Rightarrow> perms" where
  "spawn_mounts mountedPaths p = p\<lparr>pm_AllowedDevices := pm_AllowedDevices p @ mountedPaths\<rparr>"

text \<open>The Agent action: the options a parent gives to \<open>Spawn\<close>, and the limit on the depth.\<close>

definition MaxSpawnDepth :: int where
  "MaxSpawnDepth = 4"

definition child_opts :: "'d describer \<Rightarrow> ('f, 'w, 'd) DeviceRegistry option \<Rightarrow> perms \<Rightarrow> perms" where
  "child_opts td reg p =
     \<lparr>pm_DeniedDevices = unionDevices (pm_DeniedDevices p) orchestrationOnlyDevices,
      pm_AllowedDevices = stripOrchestrationDevices (pm_AllowedDevices p),
      pm_AllowedTools = intersectDevices (pm_AllowedTools p)
        (expandDevicesToTools td reg (stripOrchestrationDevices (pm_AllowedDevices p)))\<rparr>"

definition spawn_child ::
  "'d describer \<Rightarrow> ('f, 'w, 'd) DeviceRegistry option \<Rightarrow> (string \<times> string list) option \<Rightarrow> int \<Rightarrow> perms \<Rightarrow> go_error + perms" where
  "spawn_child td reg agent depth p =
     (if depth + 1 > MaxSpawnDepth then Inl (PlainError ''spawn rejected: maximum spawn depth reached'')
      else spawn_permissions td reg agent (child_opts td reg p))"

text \<open>The whitelist of a process read back from a snapshot.\<close>

definition restoreAllowedTools ::
  "'d describer \<Rightarrow> ('f, 'w, 'd) DeviceRegistry option \<Rightarrow> string list \<Rightarrow> perms \<Rightarrow> perms" where
  "restoreAllowedTools td reg persisted p =
     (if persisted \<noteq> [] then p\<lparr>pm_AllowedTools := persisted\<rparr>
      else if pm_AllowedDevices p \<noteq> [] then p\<lparr>pm_AllowedTools := expandDevicesToTools td reg (pm_AllowedDevices p)\<rparr>
      else p)"

section \<open>Loading a skill into a running process\<close>

text \<open>
  The Skill action on the whitelists: what the skill declares is cut down to what a constrained process
  has, and what was added is remembered for the rollback.
\<close>

definition append_missing :: "string list \<Rightarrow> string list \<Rightarrow> string list \<times> string list" where
  "append_missing decl xs =
     fold (\<lambda>d (xs, added). if d \<in> set xs then (xs, added) else (xs @ [d], added @ [d])) decl (xs, [])"

definition specialize_grant ::
  "'d describer \<Rightarrow> ('f, 'w, 'd) DeviceRegistry option \<Rightarrow> string list \<Rightarrow> perms \<Rightarrow> perms \<times> (string list \<times> string list) \<times> int" where
  "specialize_grant td reg declared p =
     (case normalizeDeclaredAllowedTools td reg declared of (declTools0, declDevices0) \<Rightarrow>
        let constrained = (pm_AllowedDevices p \<noteq> [] \<or> pm_AllowedTools p \<noteq> []);
            declDevices = (if constrained then intersectDevices (pm_AllowedDevices p) declDevices0 else declDevices0);
            declTools = (if constrained then intersectDevices (pm_AllowedTools p) declTools0 else declTools0)
        in case append_missing declDevices (pm_AllowedDevices p) of (devices, addedDevices) \<Rightarrow>
             case append_missing declTools (pm_AllowedTools p) of (tools, addedTools) \<Rightarrow>
               (p\<lparr>pm_AllowedDevices := devices, pm_AllowedTools := tools\<rparr>, (addedDevices, addedTools),
                int (length declTools0) - int (length declTools)))"

definition specialize_rollback :: "string list \<times> string list \<Rightarrow> perms \<Rightarrow> perms" where
  "specialize_rollback added p =
     p\<lparr>pm_AllowedDevices := filter (\<lambda>d. d \<notin> set (fst added)) (pm_AllowedDevices p),
       pm_AllowedTools := filter (\<lambda>t. t \<notin> set (snd added)) (pm_AllowedTools p)\<rparr>"

end
