(* ===== verification/PermProps.thy ===== *)
theory PermProps
  imports Permissions Mounts
begin

text \<open>
  What the permission rules promise: a child stays within its parent's tools unless the two whitelists
  have nothing in common, a skill never widens a constrained process, and where the check in front of
  a call and the file system behind it disagree about a path.
\<close>

section \<open>Whitelists as sets\<close>

lemma set_intersect [simp]: "set (intersectDevices a b) = set a \<inter> set b"
  by (auto simp: intersectDevices_def)

lemma set_strip [simp]: "set (stripOrchestrationDevices a) = set a - set orchestrationOnlyDevices"
  by (auto simp: stripOrchestrationDevices_def)

lemma set_add_new [simp]: "set (add_new d xs) = insert d (set xs)"
  by (auto simp: add_new_def)

lemma set_fold_add_new [simp]: "set (fold add_new ds xs) = set ds \<union> set xs"
  by (induction ds arbitrary: xs) auto

lemma set_union [simp]: "set (unionDevices a b) = set a \<union> set b"
  by (auto simp: unionDevices_def)

lemma deviceAllowed_mono: "deviceAllowed p a \<Longrightarrow> set a \<subseteq> set b \<Longrightarrow> deviceAllowed p b"
  by (auto simp: deviceAllowed_def list_ex_iff)

definition device_tools :: "'d describer \<Rightarrow> ('f, 'w, 'd) DeviceRegistry \<Rightarrow> string \<Rightarrow> string set" where
  "device_tools td r d =
     (if prefix mcpPathPrefix d \<or> prefix ''/dev/llm'' d then {}
      else case dev_GetDriver r d of None \<Rightarrow> {}
         | Some driver \<Rightarrow> (case td driver of None \<Rightarrow> {} | Some ds \<Rightarrow> td_Name ` set ds))"

lemma set_fold_names: "set (fold (\<lambda>d ts. add_new (td_Name d) ts) ds xs) = td_Name ` set ds \<union> set xs"
  by (induction ds arbitrary: xs) auto

lemma set_expand: "set (expandDevicesToTools td (Some r) ds) = (\<Union>d \<in> set ds. device_tools td r d)"
proof -
  let ?f = "\<lambda>devPath tools.
      if prefix mcpPathPrefix devPath \<or> prefix ''/dev/llm'' devPath then tools
      else case dev_GetDriver r devPath of None \<Rightarrow> tools
         | Some driver \<Rightarrow> (case td driver of None \<Rightarrow> tools | Some ds \<Rightarrow> fold (\<lambda>d ts. add_new (td_Name d) ts) ds tools)"
  have "set (fold ?f ds xs) = (\<Union>d \<in> set ds. device_tools td r d) \<union> set xs" for xs
  proof (induction ds arbitrary: xs)
    case (Cons d ds)
    have "set (?f d xs) = device_tools td r d \<union> set xs"
      by (auto simp: device_tools_def set_fold_names split: option.splits)
    with Cons.IH [of "?f d xs"] show ?case by auto
  qed simp
  from this [of "[]"] show ?thesis by (simp add: expandDevicesToTools_def)
qed

lemma expand_mono:
  assumes "set a \<subseteq> set b"
  shows "set (expandDevicesToTools td reg a) \<subseteq> set (expandDevicesToTools td reg b)"
proof (cases reg)
  case None
  then show ?thesis by (simp add: expandDevicesToTools_def)
next
  case (Some r)
  with assms show ?thesis by (auto simp only: set_expand)
qed

lemma expand_Nil [simp]: "expandDevicesToTools td reg [] = []"
  by (cases reg) (simp_all add: expandDevicesToTools_def)

section \<open>What a child gets\<close>

lemma child_opts_sel [simp]:
  "set (pm_DeniedDevices (child_opts td reg p)) = set (pm_DeniedDevices p) \<union> set orchestrationOnlyDevices"
  "pm_AllowedDevices (child_opts td reg p) = stripOrchestrationDevices (pm_AllowedDevices p)"
  "set (pm_AllowedTools (child_opts td reg p)) =
     set (pm_AllowedTools p) \<inter> set (expandDevicesToTools td reg (stripOrchestrationDevices (pm_AllowedDevices p)))"
  by (simp_all add: child_opts_def)

lemma spawn_child_cases:
  assumes "spawn_child td reg agent depth p = Inr c" and t: "pm_AllowedTools (child_opts td reg p) \<noteq> []"
  shows "pm_DeniedDevices c = pm_DeniedDevices (child_opts td reg p)"
    and "pm_AllowedDevices c \<noteq> []" and "set (pm_AllowedDevices c) \<subseteq> set (pm_AllowedDevices p)"
    and "\<exists>tools. pm_AllowedTools c = spawn_tools td reg (pm_AllowedDevices c) tools (pm_AllowedTools (child_opts td reg p)) \<and>
           (case agent of None \<Rightarrow> tools = [] | Some (name, declared) \<Rightarrow> tools = fst (normalizeDeclaredAllowedTools td reg declared))"
proof -
  let ?o = "child_opts td reg p"
  have dev: "stripOrchestrationDevices (pm_AllowedDevices p) \<noteq> []"
    using t by (auto simp: child_opts_def intersectDevices_def)
  have sub: "set (stripOrchestrationDevices (pm_AllowedDevices p)) \<subseteq> set (pm_AllowedDevices p)" by auto
  have run: "spawn_permissions td reg agent ?o = Inr c"
    using assms(1) by (simp add: spawn_child_def split: if_splits)
  have "pm_DeniedDevices c = pm_DeniedDevices ?o \<and> pm_AllowedDevices c \<noteq> [] \<and> set (pm_AllowedDevices c) \<subseteq> set (pm_AllowedDevices p) \<and>
    (\<exists>tools. pm_AllowedTools c = spawn_tools td reg (pm_AllowedDevices c) tools (pm_AllowedTools ?o) \<and>
       (case agent of None \<Rightarrow> tools = [] | Some (name, declared) \<Rightarrow> tools = fst (normalizeDeclaredAllowedTools td reg declared)))"
  proof (cases agent)
    case None
    then have "c = ?o\<lparr>pm_AllowedTools := spawn_tools td reg (pm_AllowedDevices ?o) [] (pm_AllowedTools ?o)\<rparr>"
      using run by (simp add: spawn_permissions_def)
    with None dev sub show ?thesis by auto
  next
    case (Some a)
    obtain name declared where a: "a = (name, declared)" by fastforce
    obtain tools devices where n: "normalizeDeclaredAllowedTools td reg declared = (tools, devices)" by fastforce
    from run Some a n obtain ds where ds: "spawn_devices name devices (pm_AllowedDevices ?o) = Inr ds"
      and c: "c = ?o\<lparr>pm_AllowedDevices := ds, pm_AllowedTools := spawn_tools td reg ds tools (pm_AllowedTools ?o)\<rparr>"
      by (auto simp: spawn_permissions_def split: sum.splits)
    have "ds \<noteq> [] \<and> set ds \<subseteq> set (pm_AllowedDevices p)"
      using ds dev by (auto simp: spawn_devices_def Let_def split: if_splits)
    with Some a n c show ?thesis by auto
  qed
  then show "pm_DeniedDevices c = pm_DeniedDevices (child_opts td reg p)"
    and "pm_AllowedDevices c \<noteq> []" and "set (pm_AllowedDevices c) \<subseteq> set (pm_AllowedDevices p)"
    and "\<exists>tools. pm_AllowedTools c = spawn_tools td reg (pm_AllowedDevices c) tools (pm_AllowedTools (child_opts td reg p)) \<and>
           (case agent of None \<Rightarrow> tools = [] | Some (name, declared) \<Rightarrow> tools = fst (normalizeDeclaredAllowedTools td reg declared))"
    by blast+
qed

lemma spawn_tools_subset:
  assumes "optTools \<noteq> []"
  shows "set (spawn_tools td reg devices tools optTools) \<subseteq> set optTools"
  using assms by (auto simp: spawn_tools_def Let_def)


section \<open>Examples\<close>

text \<open>A registry with a file system and a shell; a driver is its list of tools.\<close>

definition demo_tool :: "string \<Rightarrow> ToolDef" where
  "demo_tool n = \<lparr>td_Name = n, td_Description = [], td_Parameters = JObj [], td_MaxResultTokens = 0, td_IsReadOnly = False,
     td_IsConcurrencySafe = False, td_IsDestructive = False, td_ShouldDefer = False, td_SearchHint = [], td_Subpath = []\<rparr>"

definition demo_devices :: "(unit, unit, ToolDef list) DeviceRegistry" where
  "demo_devices = \<lparr>dr_registry = [(''/dev/fs'', \<lambda>_ _ _ w. (Inr (), w)), (''/dev/shell'', \<lambda>_ _ _ w. (Inr (), w))],
     dr_driverMap = [(''/dev/fs'', [demo_tool ''Read'', demo_tool ''Write'']), (''/dev/shell'', [demo_tool ''Bash''])]\<rparr>"

definition demo_reader :: perms where
  "demo_reader = \<lparr>pm_DeniedDevices = [], pm_AllowedDevices = [''/dev/fs''], pm_AllowedTools = [''Read'']\<rparr>"

lemmas demo_perm_simps = demo_devices_def demo_reader_def demo_tool_def child_opts_def spawn_child_def spawn_permissions_def
  spawn_devices_def spawn_tools_def expandDevicesToTools_def intersectDevices_def unionDevices_def add_new_def
  stripOrchestrationDevices_def orchestrationOnlyDevices_def dev_GetDriver_def sm_load_def mcpPathPrefix_def
  normalizeDeclaredAllowedTools_def normalize_value_def isDevicePathValue_def toolDeviceRoots_def MaxSpawnDepth_def


section \<open>Where a child escapes\<close>

text \<open>
  C22: The limit of that guarantee: when an agent definition declares tools of the shared devices but
  none of its parent's tools, the intersection of the two whitelists is empty, and an empty whitelist
  means no whitelist. The child may then call every tool of the shared devices, also those the parent
  is refused.
\<close>

theorem disjoint_agent_escapes_tool_whitelist:
  assumes "spawn_child td reg (Some (name, declared)) depth p = Inr c"
    and "pm_AllowedTools (child_opts td reg p) \<noteq> []"
    and "normalizeDeclaredAllowedTools td reg declared = (tools, devices)"
    and "set tools \<inter> set (expandDevicesToTools td reg (pm_AllowedDevices c)) \<noteq> {}"
    and "set tools \<inter> set (pm_AllowedTools p) = {}"
  shows "pm_AllowedTools c = [] \<and>
    (\<forall>tool path. \<not> list_ex (\<lambda>d. path_Clean path = d \<or> prefix (d @ ''/'') (path_Clean path)) (pm_DeniedDevices c) \<longrightarrow>
       \<not> prefix mcpPathPrefix (path_Clean path) \<longrightarrow> deviceAllowed (path_Clean path) (pm_AllowedDevices c) \<longrightarrow>
       permission_check c tool path = None \<and> (tool \<notin> set (pm_AllowedTools p) \<longrightarrow> permission_check p tool path \<noteq> None))"
proof -
  note C = spawn_child_cases [OF assms(1,2)]
  let ?o = "pm_AllowedTools (child_opts td reg p)"
  have c: "pm_AllowedTools c = spawn_tools td reg (pm_AllowedDevices c) tools ?o"
    using C(4) assms(3) by simp
  let ?d = "expandDevicesToTools td reg (pm_AllowedDevices c)"
  have ne: "?d \<noteq> []" "tools \<noteq> []" "intersectDevices ?d tools \<noteq> []"
    using assms(4) by (auto simp: intersectDevices_def filter_empty_conv)
  have "set (intersectDevices ?o (intersectDevices ?d tools)) = {}"
    using assms(5) by auto
  then have "intersectDevices ?o (intersectDevices ?d tools) = []" by (simp only: set_empty)
  with ne C(2) assms(2) have none: "pm_AllowedTools c = []" unfolding c by (simp add: spawn_tools_def)
  have some: "pm_AllowedTools p \<noteq> []" using assms(2) by (auto simp: child_opts_def intersectDevices_def)
  show ?thesis
    using none some by (auto simp: permission_check_def toolWhitelistActive_def Let_def)
qed

theorem disjoint_agent_escapes_tool_whitelist_witness:
  "\<exists>c. spawn_child Some (Some demo_devices) (Some (''writer'', [''Write''])) 0 demo_reader = Inr c \<and>
       permission_check demo_reader ''Write'' ''/dev/fs'' \<noteq> None \<and> permission_check c ''Write'' ''/dev/fs'' = None"
proof -
  obtain c where c: "spawn_child Some (Some demo_devices) (Some (''writer'', [''Write''])) 0 demo_reader = Inr c"
    and f: "pm_AllowedDevices c = [''/dev/fs'']" "pm_DeniedDevices c = [''/dev/intent'']"
    by (simp add: demo_perm_simps)
  have o1: "pm_AllowedTools (child_opts Some (Some demo_devices) demo_reader) \<noteq> []" by (simp add: demo_perm_simps)
  have n: "normalizeDeclaredAllowedTools Some (Some demo_devices) [''Write''] = ([''Write''], [''/dev/fs''])"
    by (simp add: demo_perm_simps)
  have e: "set [''Write''] \<inter> set (expandDevicesToTools Some (Some demo_devices) (pm_AllowedDevices c)) \<noteq> {}"
    by (simp add: f demo_perm_simps)
  have d: "set [''Write''] \<inter> set (pm_AllowedTools demo_reader) = {}" by (simp add: demo_reader_def)
  have clean: "path_Clean ''/dev/fs'' = ''/dev/fs''" by (simp add: path_Clean_def clean_push_def)
  have "permission_check c ''Write'' ''/dev/fs'' = None \<and>
      (''Write'' \<notin> set (pm_AllowedTools demo_reader) \<longrightarrow> permission_check demo_reader ''Write'' ''/dev/fs'' \<noteq> None)"
    using disjoint_agent_escapes_tool_whitelist [OF c o1 n e d] clean f
    by (auto simp: mcpPathPrefix_def deviceAllowed_def)
  with c show ?thesis by (auto simp: demo_reader_def)
qed

text \<open>
  A process whose agent only has MCP servers is otherwise unconstrained, but its device list is not
  empty: no agent that declares a device can be spawned from it.
\<close>

lemma mcp_parent_rejects_declared_agent:
  assumes "pm_AllowedDevices p \<noteq> []" "\<And>d. d \<in> set (pm_AllowedDevices p) \<Longrightarrow> prefix mcpPathPrefix d"
    and "normalizeDeclaredAllowedTools td reg declared = (tools, devices)" "devices \<noteq> []"
    and "\<And>d. d \<in> set devices \<Longrightarrow> \<not> prefix mcpPathPrefix d" and "depth + 1 \<le> MaxSpawnDepth"
  shows "\<not> baseDeviceWhitelistActive (pm_AllowedDevices p) \<and>
    spawn_child td reg (Some (name, declared)) depth p = Inl (PlainError (''spawn: no device overlap for agent '' @ name))"
proof -
  have "\<not> prefix mcpPathPrefix ''/dev/intent''" by (simp add: mcpPathPrefix_def)
  then have "''/dev/intent'' \<notin> set (pm_AllowedDevices p)" using assms(2) by blast
  then have strip: "stripOrchestrationDevices (pm_AllowedDevices p) = pm_AllowedDevices p"
    by (auto simp: stripOrchestrationDevices_def orchestrationOnlyDevices_def filter_id_conv)
  have "intersectDevices (pm_AllowedDevices p) devices = []"
    using assms(2,5) by (auto simp: intersectDevices_def filter_empty_conv)
  then show ?thesis
    using assms strip by (auto simp: spawn_child_def spawn_permissions_def spawn_devices_def child_opts_def
        baseDeviceWhitelistActive_def list_ex_iff)
qed

section \<open>The path that is checked and the path that is opened\<close>

lemma split_slash_app:
  "CHR ''/'' \<notin> set s \<Longrightarrow> split_slash (s @ CHR ''/'' # r) = s # split_slash r"
  by (induction s) auto

lemma split_slash_one: "CHR ''/'' \<notin> set s \<Longrightarrow> split_slash s = [s]"
  by (induction s) auto

lemma TrimRightSlash_id: "s \<noteq> [] \<Longrightarrow> last s \<noteq> CHR ''/'' \<Longrightarrow> TrimRightSlash s = s"
  by (cases s rule: rev_cases) (simp_all add: TrimRightSlash_def)

definition abs_path :: "string list \<Rightarrow> string" where
  "abs_path segs = concat (map (\<lambda>s. ''/'' @ s) segs)"

lemma split_abs_path:
  "segs \<noteq> [] \<Longrightarrow> \<forall>s \<in> set segs. CHR ''/'' \<notin> set s \<Longrightarrow> split_slash (abs_path segs) = [] # segs"
proof (induction segs)
  case (Cons s segs)
  show ?case
  proof (cases segs)
    case Nil
    with Cons.prems show ?thesis by (simp add: abs_path_def split_slash_one)
  next
    case (Cons s' rest)
    with Cons.IH Cons.prems have IH: "split_slash (abs_path segs) = [] # segs" by simp
    from Cons have "abs_path (s # segs) = ''/'' @ s @ abs_path segs" by (simp add: abs_path_def)
    moreover from Cons have "abs_path segs = CHR ''/'' # drop 1 (abs_path segs)" by (simp add: abs_path_def)
    moreover from this IH have "split_slash (drop 1 (abs_path segs)) = segs"
      by (metis list.inject split_slash.simps(2))
    ultimately show ?thesis using Cons.prems split_slash_app [of s "drop 1 (abs_path segs)"]
      by (metis Cons_eq_appendI append_Nil list.set_intros(1) split_slash.simps(2))
  qed
qed simp

lemma join_abs: "segs \<noteq> [] \<Longrightarrow> ''/'' @ join_slash segs = abs_path segs"
proof (induction segs rule: join_slash.induct)
  case (3 x y xs)
  then show ?case by (simp add: abs_path_def)
qed (simp_all add: abs_path_def)

lemma clean_abs_path:
  assumes "segs \<noteq> []" "\<forall>s \<in> set segs. CHR ''/'' \<notin> set s" "rev (fold (clean_push True) segs []) = segs'" "segs' \<noteq> []"
  shows "path_Clean (abs_path segs) = abs_path segs'"
proof -
  have "prefix ''/'' (abs_path segs)" using assms(1) by (cases segs) (simp_all add: abs_path_def)
  moreover have "fold (clean_push True) (split_slash (abs_path segs)) [] = fold (clean_push True) segs []"
    using split_abs_path [OF assms(1,2)] by (simp add: clean_push_def)
  ultimately show ?thesis using assms(3) join_abs [OF assms(4)] by (simp add: path_Clean_def Let_def)
qed

text \<open>A server name as it stands in a mount path: one path element.\<close>

definition path_element :: "string \<Rightarrow> bool" where
  "path_element s \<longleftrightarrow> s \<noteq> [] \<and> s \<noteq> ''.'' \<and> s \<noteq> ''..'' \<and> CHR ''/'' \<notin> set s"

definition mcp_mount :: "string \<Rightarrow> string" where
  "mcp_mount server = mcpPathPrefix @ server"

text \<open>
  C23: The check cleans the path of a tool call, the file system opens the path as it was written. A
  process that may only use its own MCP server can name a tool whose path climbs out of another server's
  mount into its own: the check sees its own mount, the call opens a tool file on the other
  server's transport.
\<close>

theorem cleaned_check_opens_foreign_mount:
  fixes mkfile :: "'t mcp_file \<Rightarrow> 'f" and d :: "('f, 'w, 'd) DeviceRegistry"
  assumes own: "path_element own" and other: "path_element other" and tool: "path_element tool"
    and name: "name = mcp_mount other @ ''/tools/../../'' @ own @ ''/tools/'' @ tool"
    and perms: "pm_AllowedDevices p = [mcp_mount own]" "set (pm_DeniedDevices p) \<subseteq> set orchestrationOnlyDevices"
    and new: "map_of toolMap name = None"
    and reg: "unique_keys (dr_registry d)" "map_of (dr_registry d) (mcp_mount other) = Some (mcpFileFactory mkfile tr)"
    and only: "\<forall>(k, f) \<in> set (dr_registry d). prefix (k @ ''/'') (name @ ''/'') \<longrightarrow> k = mcp_mount other"
  shows "\<exists>m sub. resolve_tool toolMap name = Some m \<and> permission_check p name (tm_VFSPath m) = None \<and>
    dev_Open d (tm_VFSPath m) flags wd w = (Inr (mkfile (McpFile (newMCPFile sub tr))), w)"
proof -
  let ?segs = "[''mnt'', ''mcp'', other, ''tools'', ''..'', ''..'', own, ''tools'', tool]"
  have segs: "name = abs_path ?segs" by (simp add: name mcp_mount_def mcpPathPrefix_def abs_path_def)
  have "path_Clean name = abs_path [''mnt'', ''mcp'', own, ''tools'', tool]"
    unfolding segs
    by (rule clean_abs_path) (use own other tool in \<open>auto simp: path_element_def clean_push_def\<close>)
  then have clean: "path_Clean name = mcp_mount own @ ''/tools/'' @ tool"
    by (simp add: abs_path_def mcp_mount_def mcpPathPrefix_def)
  have "\<not> list_ex (\<lambda>x. path_Clean name = x \<or> prefix (x @ ''/'') (path_Clean name)) (pm_DeniedDevices p)"
    using perms(2) by (auto simp: list_ex_iff clean orchestrationOnlyDevices_def mcp_mount_def mcpPathPrefix_def)
  moreover have "deviceAllowed (path_Clean name) (pm_AllowedDevices p)"
    by (simp add: clean perms deviceAllowed_def)
  moreover have "prefix mcpPathPrefix (path_Clean name)"
    by (simp add: clean mcp_mount_def)
  ultimately have check: "permission_check p name name = None"
    by (simp add: permission_check_def Let_def)
  have res: "resolve_tool toolMap name =
      Some \<lparr>tm_Type = ''vfs'', tm_VFSPath = name, tm_Action = ActionNone, tm_FSOperation = []\<rparr>"
    using new by (simp add: resolve_tool_def name mcp_mount_def mcpPathPrefix_def)
  have in_reg: "(mcp_mount other, mcpFileFactory mkfile tr) \<in> set (dr_registry d)"
    using reg(2) by (rule map_of_SomeD)
  have "best_match (dr_registry d) name (mcp_mount other) (mcpFileFactory mkfile tr)"
    unfolding best_match_def
  proof (intro conjI)
    show "prefix (mcp_mount other @ ''/'') name" by (simp add: name)
    show "mcp_mount other \<noteq> []" by (simp add: mcp_mount_def mcpPathPrefix_def)
    show "\<forall>(k, f) \<in> set (dr_registry d). prefix (k @ ''/'') name \<longrightarrow> length k \<le> length (mcp_mount other)"
      using only by (auto intro: prefix_order.trans)
  qed (rule in_reg)
  then have range: "reg_range (open_visit name) (dr_registry d) ([], None) = (mcp_mount other, Some (mcpFileFactory mkfile tr))"
    by (rule best_match_range [OF reg(1)])
  have none: "map_of (dr_registry d) name = None"
  proof (rule ccontr)
    assume "map_of (dr_registry d) name \<noteq> None"
    then obtain f where "(name, f) \<in> set (dr_registry d)" by (auto dest: map_of_SomeD)
    with only have "name = mcp_mount other" by auto
    then show False by (simp add: name)
  qed
  let ?sub = "''/tools/../../'' @ own @ ''/tools/'' @ tool"
  have trim: "TrimPrefix name (mcp_mount other) = ?sub"
    by (simp add: TrimPrefix_def name)
  have ne: "tool \<noteq> []" using tool by (simp add: path_element_def)
  have "last tool \<noteq> CHR ''/''" using tool last_in_set [OF ne] unfolding path_element_def by metis
  then have "last ?sub \<noteq> CHR ''/''" using ne by simp
  then have "TrimRightSlash ?sub = ?sub" by (intro TrimRightSlash_id) simp_all
  then have "mcpFileFactory mkfile tr ?sub flags wd w = (Inr (mkfile (McpFile (newMCPFile ?sub tr))), w)"
    by (simp add: mcpFileFactory_def)
  then have "dev_Open d name flags wd w = (Inr (mkfile (McpFile (newMCPFile ?sub tr))), w)"
    using none range trim by (simp add: dev_Open_def reg_get_def call_factory_def mcp_mount_def mcpPathPrefix_def)
  with res check show ?thesis by auto
qed

definition demo_mounts :: "(nat mcp_file, unit, unit) DeviceRegistry" where
  "demo_mounts = \<lparr>dr_registry = [(''/mnt/mcp/9-git'', mcpFileFactory id 9), (''/mnt/mcp/4-vault'', mcpFileFactory id 4)],
     dr_driverMap = []\<rparr>"

theorem cleaned_check_opens_foreign_mount_witness:
  "\<exists>sub. permission_check \<lparr>pm_DeniedDevices = [], pm_AllowedDevices = [''/mnt/mcp/9-git''], pm_AllowedTools = []\<rparr>
       ''/mnt/mcp/4-vault/tools/../../9-git/tools/x'' ''/mnt/mcp/4-vault/tools/../../9-git/tools/x'' = None \<and>
     dev_Open demo_mounts ''/mnt/mcp/4-vault/tools/../../9-git/tools/x'' 2 [] ()
       = (Inr (McpFile (newMCPFile sub (4::nat))), ())"
proof -
  let ?name = "''/mnt/mcp/4-vault/tools/../../9-git/tools/x''"
  let ?p = "\<lparr>pm_DeniedDevices = [], pm_AllowedDevices = [''/mnt/mcp/9-git''], pm_AllowedTools = []\<rparr>"
  have m: "mcp_mount ''9-git'' = ''/mnt/mcp/9-git''" "mcp_mount ''4-vault'' = ''/mnt/mcp/4-vault''"
    by (simp_all add: mcp_mount_def mcpPathPrefix_def)
  have "\<exists>m sub. resolve_tool [] ?name = Some m \<and> permission_check ?p ?name (tm_VFSPath m) = None \<and>
      dev_Open demo_mounts (tm_VFSPath m) 2 [] () = (Inr (id (McpFile (newMCPFile sub (4::nat)))), ())"
    by (rule cleaned_check_opens_foreign_mount [where mkfile = id and own = "''9-git''" and other = "''4-vault''" and tool = "''x''"])
       (simp_all add: m demo_mounts_def path_element_def)
  then obtain mm sub where mm: "resolve_tool [] ?name = Some mm" and r: "permission_check ?p ?name (tm_VFSPath mm) = None"
    "dev_Open demo_mounts (tm_VFSPath mm) 2 [] () = (Inr (id (McpFile (newMCPFile sub (4::nat)))), ())" by blast
  from mm have "tm_VFSPath mm = ?name" by (auto simp: resolve_tool_def)
  with r show ?thesis by auto
qed

section \<open>Skills\<close>

lemma distinct_fold_add_new: "distinct xs \<Longrightarrow> distinct (fold add_new ds xs)"
  by (induction ds arbitrary: xs) (auto simp: add_new_def)

lemma normalize_distinct:
  assumes "normalizeDeclaredAllowedTools td reg declared = (tools, devices)"
  shows "distinct tools" and "distinct devices"
proof -
  have add: "distinct xs \<Longrightarrow> distinct (add_new d xs)" for d :: string and xs by (simp add: add_new_def)
  have step: "distinct (fst s) \<and> distinct (snd s) \<Longrightarrow>
      distinct (fst (normalize_value td reg v s)) \<and> distinct (snd (normalize_value td reg v s))" for v s
    by (cases s) (auto simp: normalize_value_def add distinct_fold_add_new split: option.splits)
  have "distinct (fst s) \<and> distinct (snd s) \<Longrightarrow>
      distinct (fst (fold (normalize_value td reg) declared s)) \<and> distinct (snd (fold (normalize_value td reg) declared s))" for s
    by (induction declared arbitrary: s) (simp, simp only: fold_Cons comp_apply step)
  from this [of "([], [])"] assms show "distinct tools" "distinct devices"
    by (auto simp: normalizeDeclaredAllowedTools_def split: prod.splits)
qed

lemma append_missing_none: "set decl \<subseteq> set xs \<Longrightarrow> append_missing decl xs = (xs, [])"
  unfolding append_missing_def by (induction decl) auto

lemma append_missing_all:
  assumes "distinct decl"
  shows "append_missing decl [] = (decl, decl)"
proof -
  have "distinct (ys @ decl) \<Longrightarrow> fold (\<lambda>d (xs, added). if d \<in> set xs then (xs, added) else (xs @ [d], added @ [d])) decl (ys, ys)
      = (ys @ decl, ys @ decl)" for ys
    by (induction decl arbitrary: ys) auto
  from this [of "[]"] assms show ?thesis by (simp add: append_missing_def)
qed

text \<open>
  Loading a skill never widens what a constrained process may do: its whitelists stay as they are,
  whatever the skill declares, so a process that took its tools from a first skill gets none from
  a second. An unconstrained process becomes confined to exactly what the skill declares. Taking the load
  back restores the whitelists as they were.
\<close>

lemma skill_never_widens:
  assumes "specialize_grant td reg declared p = (p', added, withheld)"
  shows "(pm_AllowedDevices p \<noteq> [] \<or> pm_AllowedTools p \<noteq> [] \<longrightarrow> p' = p) \<and>
    (pm_AllowedDevices p = [] \<and> pm_AllowedTools p = [] \<longrightarrow>
       (pm_AllowedTools p', pm_AllowedDevices p') = normalizeDeclaredAllowedTools td reg declared \<and> withheld = 0) \<and>
    specialize_rollback added p' = p"
proof -
  obtain tools devices where n: "normalizeDeclaredAllowedTools td reg declared = (tools, devices)" by fastforce
  note dist = normalize_distinct [OF n]
  show ?thesis
  proof (cases "pm_AllowedDevices p \<noteq> [] \<or> pm_AllowedTools p \<noteq> []")
    case True
    have "append_missing (intersectDevices a b) a = (a, [])" for a b :: "string list"
      by (rule append_missing_none) auto
    with True assms n have "p' = p" "added = ([], [])" by (auto simp: specialize_grant_def Let_def)
    moreover have "specialize_rollback ([], []) p = p" by (simp add: specialize_rollback_def)
    ultimately show ?thesis using True by auto
  next
    case False
    with assms n have "p' = p\<lparr>pm_AllowedDevices := devices, pm_AllowedTools := tools\<rparr>" "added = (devices, tools)" "withheld = 0"
      by (simp_all add: specialize_grant_def append_missing_all [OF dist(1)] append_missing_all [OF dist(2)])
    with False n show ?thesis by (simp add: specialize_rollback_def)
  qed
qed

end
