(* ===== verification/Breaker.thy ===== *)
theory Breaker
  imports Compact ProcState "HOL-Library.Sublist"
begin

text \<open>
  The circuit breaker of the tool loop (\<open>kernel/tool_exec.go\<close>): failed calls are counted by fingerprint,
  the error code and the path that failed, and altogether; a process whose calls keep failing is
  ended. A timeout has its own limit and does not count towards the total; an error that only
  informs (not found, no permission) counts as nothing. Within one step a fingerprint counts once:
  \<open>seen\<close> holds the fingerprints the step has counted.
\<close>

section \<open>The counter\<close>

definition TotalToolErrorThreshold :: int where "TotalToolErrorThreshold = 6"
definition TimeoutErrorThreshold :: int where "TimeoutErrorThreshold = 8"

text \<open>The text of a code, the value the constant has in \<open>internal/types/types.go\<close>.\<close>

fun code_text :: "ErrCode \<Rightarrow> string" where
  "code_text ErrTimeout = ''TIMEOUT''"
| "code_text ErrNotFound = ''NOT_FOUND''"
| "code_text ErrPermission = ''PERMISSION''"
| "code_text ErrInternal = ''INTERNAL''"
| "code_text ErrDriver = ''DRIVER''"
| "code_text ErrInvalid = ''INVALID''"
| "code_text ErrIsDirectory = ''IS_DIRECTORY''"
| "code_text ErrBrokenPipe = ''BROKEN_PIPE''"
| "code_text ErrServiceUnavailable = ''SERVICE_UNAVAILABLE''"
| "code_text ErrAlreadyMounted = ''ALREADY_MOUNTED''"
| "code_text ErrResourceExhausted = ''RESOURCE_EXHAUSTED''"
| "code_text ErrRateLimit = ''RATE_LIMIT''"
| "code_text ErrForceKilled = ''FORCE_KILLED''"
| "code_text ErrDeviceDisconnected = ''DEVICE_DISCONNECTED''"

definition isInformationalErrCode :: "ErrCode \<Rightarrow> bool" where
  "isInformationalErrCode code \<longleftrightarrow> code = ErrNotFound \<or> code = ErrPermission"

record errFingerprintCounter =
  efc_fp :: string
  efc_count :: int
  efc_total :: int

definition zero_counter :: errFingerprintCounter where
  "zero_counter = \<lparr>efc_fp = [], efc_count = 0, efc_total = 0\<rparr>"

definition fingerprint :: "ErrCode \<Rightarrow> string \<Rightarrow> string" where
  "fingerprint code toolPath = code_text code @ ''|'' @ toolPath"

definition bump :: "ErrCode \<Rightarrow> string \<Rightarrow> errFingerprintCounter \<Rightarrow> int \<times> errFingerprintCounter" where
  "bump code toolPath c =
     (let fp = fingerprint code toolPath;
          c1 = (if code \<noteq> ErrTimeout then c\<lparr>efc_total := efc_total c + 1\<rparr> else c);
          c2 = (if efc_fp c1 \<noteq> fp then c1\<lparr>efc_fp := fp, efc_count := 1\<rparr> else c1\<lparr>efc_count := efc_count c1 + 1\<rparr>)
      in (efc_count c2, c2))"

definition recordSuccess :: "errFingerprintCounter \<Rightarrow> errFingerprintCounter" where
  "recordSuccess c =
     (let c1 = c\<lparr>efc_fp := [], efc_count := 0\<rparr>
      in if 0 < efc_total c1 then c1\<lparr>efc_total := efc_total c1 - 1\<rparr> else c1)"

text \<open>\<open>extractErrCode\<close>: the code of a \<open>DriverError\<close>, for any other error \<open>ErrInternal\<close>.\<close>

fun extractErrCode :: "go_error \<Rightarrow> ErrCode" where
  "extractErrCode (DriverError opn dev c) = c"
| "extractErrCode (SyscallError opn p c) = ErrInternal"
| "extractErrCode (PlainError m) = ErrInternal"

definition circuitBreakerReason :: "errFingerprintCounter \<Rightarrow> string" where
  "circuitBreakerReason c =
     (let streakLimit = (if prefix (code_text ErrTimeout @ ''|'') (efc_fp c) then TimeoutErrorThreshold else 3)
      in if streakLimit \<le> efc_count c
         then ''circuit_breaker: '' @ print_int (efc_count c) @ '' consecutive errors with fingerprint '' @ efc_fp c
         else ''circuit_breaker: '' @ print_int (efc_total c) @ '' cumulative tool errors across fingerprints'')"

type_synonym breaker = "errFingerprintCounter \<times> string list"

definition bumpToolError :: "ErrCode \<Rightarrow> string \<Rightarrow> breaker \<Rightarrow> (int \<times> bool) \<times> breaker" where
  "bumpToolError code toolPath b =
     (case b of (c, seen) \<Rightarrow>
        if isInformationalErrCode code then ((0, False), (c\<lparr>efc_fp := [], efc_count := 0\<rparr>, seen))
        else let fp = fingerprint code toolPath
             in if fp \<in> set seen then ((efc_count c, False), (c, seen))
                else case bump code toolPath c of (n, c') \<Rightarrow>
                       ((n, if code = ErrTimeout then TimeoutErrorThreshold \<le> n
                            else 3 \<le> n \<or> TotalToolErrorThreshold \<le> efc_total c'), (c', fp # seen)))"

definition spawnBreakerOutcome :: "int \<Rightarrow> breaker \<Rightarrow> bool \<times> breaker" where
  "spawnBreakerOutcome code b =
     (if code = ExitOK then (False, (recordSuccess (fst b), snd b))
      else if code = ExitError
      then (case bumpToolError ErrInternal ''spawn'' b of ((_, tripped), b') \<Rightarrow> (tripped, b'))
      else (False, b))"

section \<open>Runs\<close>

text \<open>
  What the tool loop tells the breaker: for every call of a step whether it failed, and how, or
  succeeded. A run ends (\<open>None\<close>) when the breaker trips; every step starts with nothing seen.
\<close>

datatype call_outcome = CallFailed ErrCode string | CallSucceeded

fun breaker_call :: "call_outcome \<Rightarrow> breaker \<Rightarrow> bool \<times> breaker" where
  "breaker_call (CallFailed code toolPath) b = (case bumpToolError code toolPath b of ((_, tripped), b') \<Rightarrow> (tripped, b'))"
| "breaker_call CallSucceeded b = (False, (recordSuccess (fst b), snd b))"

fun breaker_step :: "call_outcome list \<Rightarrow> breaker \<Rightarrow> breaker option" where
  "breaker_step [] b = Some b"
| "breaker_step (call # calls) b =
     (case breaker_call call b of (tripped, b') \<Rightarrow> if tripped then None else breaker_step calls b')"

fun breaker_run :: "call_outcome list list \<Rightarrow> errFingerprintCounter \<Rightarrow> errFingerprintCounter option" where
  "breaker_run [] c = Some c"
| "breaker_run (calls # steps) c =
     (case breaker_step calls (c, []) of None \<Rightarrow> None | Some b \<Rightarrow> breaker_run steps (fst b))"

text \<open>A failure that raises the total: neither a timeout nor informational.\<close>

fun counted :: "call_outcome \<Rightarrow> bool" where
  "counted (CallFailed code toolPath) \<longleftrightarrow> code \<noteq> ErrTimeout \<and> \<not> isInformationalErrCode code"
| "counted CallSucceeded \<longleftrightarrow> False"

definition failing_steps :: "call_outcome list list \<Rightarrow> nat" where
  "failing_steps steps = length (filter (list_ex counted) steps)"

definition successes :: "call_outcome list \<Rightarrow> nat" where
  "successes calls = length (filter (\<lambda>c. c = CallSucceeded) calls)"

lemma successes_simps [simp]:
  "successes [] = 0" "successes (CallSucceeded # calls) = Suc (successes calls)"
  "successes (CallFailed code p # calls) = successes calls"
  by (simp_all add: successes_def)

lemma successes_concat_Cons: "successes (concat (calls # steps)) = successes calls + successes (concat steps)"
  by (simp add: successes_def)

lemma timeout_fingerprint [simp]:
  "code \<noteq> ErrTimeout \<Longrightarrow> fingerprint code p \<noteq> fingerprint ErrTimeout q"
  "code \<noteq> ErrTimeout \<Longrightarrow> fingerprint ErrTimeout q \<noteq> fingerprint code p"
  by (cases code; simp add: fingerprint_def)+

lemma fingerprint_timeout_inj [simp]: "fingerprint code p = fingerprint code q \<longleftrightarrow> p = q"
  by (simp add: fingerprint_def)

text \<open>A step that does not trip: how the total moves.\<close>

lemma breaker_step_total:
  "breaker_step calls (c, seen) = Some (c', seen') \<Longrightarrow> 0 \<le> efc_total c \<Longrightarrow> efc_total c < 6 \<Longrightarrow>
   0 \<le> efc_total c' \<and> efc_total c' < 6 \<and>
   efc_total c - int (successes calls)
     + (if \<exists>code p. CallFailed code p \<in> set calls \<and> counted (CallFailed code p) \<and> fingerprint code p \<notin> set seen
        then 1 else 0) \<le> efc_total c'"
proof (induction calls arbitrary: c seen)
  case Nil
  then show ?case by simp
next
  case (Cons call calls)
  show ?case
  proof (cases call)
    case CallSucceeded
    let ?c = "recordSuccess c"
    from Cons.prems have run: "breaker_step calls (?c, seen) = Some (c', seen')" by (simp add: CallSucceeded)
    have t: "0 \<le> efc_total ?c" "efc_total ?c < 6" "efc_total c - 1 \<le> efc_total ?c"
      using Cons.prems(2,3) by (auto simp: recordSuccess_def Let_def)
    from Cons.IH [OF run t(1,2)] t(3) show ?thesis by (auto simp: CallSucceeded)
  next
    case (CallFailed code p)
    show ?thesis
    proof (cases "isInformationalErrCode code \<or> fingerprint code p \<in> set seen")
      case True
      then obtain c1 where c1: "breaker_step calls (c1, seen) = Some (c', seen')" "efc_total c1 = efc_total c"
        using Cons.prems(1) by (auto simp: CallFailed bumpToolError_def Let_def split: if_splits)
      from Cons.IH [OF c1(1)] Cons.prems(2,3) c1(2) True show ?thesis by (auto simp: CallFailed split: if_splits)
    next
      case False
      obtain n c1 where b: "bump code p c = (n, c1)" by (cases "bump code p c")
      have tot: "efc_total c1 = efc_total c + (if code = ErrTimeout then 0 else 1)"
        using b by (auto simp: bump_def Let_def split: if_splits)
      have run: "breaker_step calls (c1, fingerprint code p # seen) = Some (c', seen')"
        using Cons.prems(1) False by (auto simp: CallFailed bumpToolError_def Let_def b split: if_splits)
      have lim: "code \<noteq> ErrTimeout \<Longrightarrow> efc_total c1 < 6"
        using Cons.prems(1) False by (auto simp: CallFailed bumpToolError_def Let_def b TotalToolErrorThreshold_def split: if_splits)
      have t: "0 \<le> efc_total c1" "efc_total c1 < 6"
        using Cons.prems(2,3) tot lim by (cases "code = ErrTimeout"; simp)+
      show ?thesis
      proof (cases "code = ErrTimeout")
        case True
        have ex: "\<exists>code' q. CallFailed code' q \<in> set calls \<and> counted (CallFailed code' q) \<and>
            fingerprint code' q \<notin> set (fingerprint code p # seen)"
          if "\<exists>code' q. CallFailed code' q \<in> set (call # calls) \<and> counted (CallFailed code' q) \<and>
            fingerprint code' q \<notin> set seen"
        proof -
          from that obtain code' q where "CallFailed code' q \<in> set (call # calls)" "counted (CallFailed code' q)"
            "fingerprint code' q \<notin> set seen" by blast
          then have "CallFailed code' q \<in> set calls" "fingerprint code' q \<notin> set (fingerprint code p # seen)"
            using True by (auto simp: CallFailed)
          with \<open>counted (CallFailed code' q)\<close> show ?thesis by blast
        qed
        from Cons.IH [OF run t] tot True ex show ?thesis
          by (simp add: CallFailed split: if_splits) blast+
      next
        case False
        from Cons.IH [OF run t] tot False show ?thesis by (auto simp: CallFailed split: if_splits)
      qed
    qed
  qed
qed

lemma breaker_run_total:
  "breaker_run steps c = Some c' \<Longrightarrow> 0 \<le> efc_total c \<Longrightarrow> efc_total c < 6 \<Longrightarrow>
   efc_total c' < 6 \<and> efc_total c + int (failing_steps steps) - int (successes (concat steps)) \<le> efc_total c'"
proof (induction steps arbitrary: c)
  case (Cons calls steps)
  then obtain c1 seen1 where s: "breaker_step calls (c, []) = Some (c1, seen1)" "breaker_run steps c1 = Some c'"
    by (auto split: option.splits)
  note t = breaker_step_total [OF s(1) Cons.prems(2,3)]
  have ex: "list_ex counted calls \<Longrightarrow>
      \<exists>code p. CallFailed code p \<in> set calls \<and> counted (CallFailed code p) \<and> fingerprint code p \<notin> set []"
  proof -
    assume "list_ex counted calls"
    then obtain x where x: "x \<in> set calls" "counted x" by (auto simp: list_ex_iff)
    from x(2) obtain code p where "x = CallFailed code p" by (cases x) auto
    with x show ?thesis by auto
  qed
  from t Cons.IH [OF s(2)] ex show ?case
    unfolding successes_concat_Cons by (auto simp: failing_steps_def split: if_splits)
qed (simp add: failing_steps_def successes_def)


definition failing_history :: "call_outcome list list" where
  "failing_history =
     [[CallFailed ErrDriver ''/dev/web'', CallFailed ErrDriver ''/dev/web''], [CallFailed ErrInternal ''spawn'', CallSucceeded],
      [CallFailed ErrNotFound ''/dev/fs''], [CallFailed ErrDriver ''/dev/web'']]"


section \<open>Timeouts\<close>

definition timeout_round :: "string \<Rightarrow> string \<Rightarrow> call_outcome list list" where
  "timeout_round a b = [[CallFailed ErrTimeout a], [CallFailed ErrTimeout b]]"

lemma timeout_round_run:
  assumes "a \<noteq> b" and "efc_fp c \<noteq> fingerprint ErrTimeout a"
  shows "breaker_run (timeout_round a b @ steps) c =
     breaker_run steps (c\<lparr>efc_fp := fingerprint ErrTimeout b, efc_count := 1\<rparr>)"
  using assms by (simp add: timeout_round_def bumpToolError_def isInformationalErrCode_def bump_def TimeoutErrorThreshold_def Let_def)

text \<open>
  A process whose calls time out without end is never ended when two tools take turns: the limit on
  timeouts is a limit on one fingerprint in a row, and timeouts do not enter the total.
\<close>

lemma alternating_timeouts_never_trip:
  assumes "a \<noteq> b"
  shows "\<exists>c. breaker_run (concat (replicate n (timeout_round a b))) zero_counter = Some c \<and> efc_total c = 0"
proof -
  have "efc_fp c \<noteq> fingerprint ErrTimeout a \<Longrightarrow> efc_total c = 0 \<Longrightarrow>
      \<exists>c'. breaker_run (concat (replicate n (timeout_round a b))) c = Some c' \<and> efc_total c' = 0" for c
  proof (induction n arbitrary: c)
    case (Suc n)
    let ?c = "c\<lparr>efc_fp := fingerprint ErrTimeout b, efc_count := 1\<rparr>"
    have "\<exists>c'. breaker_run (concat (replicate n (timeout_round a b))) ?c = Some c' \<and> efc_total c' = 0"
      using Suc.IH [of ?c] Suc.prems(2) assms by simp
    then show ?case by (simp add: timeout_round_run [OF assms Suc.prems(1)])
  qed simp
  from this [of zero_counter] show ?thesis by (simp add: zero_counter_def fingerprint_def)
qed

end
