(* ===== verification/AutoCompact.thy ===== *)
theory AutoCompact
  imports Complex_Main Compact
begin

text \<open>
  The kernel's side of compaction (\<open>kernel/compact.go\<close>): when a process's context is reclaimed, how, and
  what happens when the language model cannot summarise it. The state is what the functions use of a
  process, with the context manager; the file state and the loaded skills feed the restore. The call to
  the language model is the parameter \<open>llm\<close> of \<open>Compact\<close>; log lines are left out, the events the
  compaction emits are kept in order. Percentages are exact (\<open>rat\<close>) where the code computes in
  \<open>float64\<close>, so a usage within rounding of a threshold may be judged differently.
\<close>

section \<open>State\<close>

record mechanicalFallbackResult =
  mf_Pruned :: nat
  mf_TokensFreed :: int
  mf_DroppedRounds :: nat
  mf_SlotsFreed :: int
  mf_ReleasableTokens :: int
  mf_ClearAtLeast :: int

record fallbackTarget =
  ft_NeedSlots :: int
  ft_ClearAtLeast :: int

datatype compact_event =
    CompactStarted int
  | CompactFailed int string mechanicalFallbackResult
  | CompactDone int string CompactResult
  | CompactLatch int
  | CompactTopUp int mechanicalFallbackResult
  | CtxReclaim int PruneResult
  | CompactUnlatched

record 'e compactor =
  cm_mgr :: "'e Manager"
  cm_CtxID :: CtxID
  cm_FinalSystemPrompt :: string
  cm_CompactionDisabled :: bool
  cm_CompactLatched :: bool
  cm_compactMu :: bool
  cm_CompactThreshold :: rat
  cm_ReadFileState :: "(string \<times> ReadFileEntry) list"
  cm_Skills :: "string list"
  cm_events :: "compact_event list"

text \<open>
  What surrounds one call: the language model, the skill loader (nil is \<open>None\<close>), the length scaling of
  the truncation, the compaction prompt, the state the prompt sections read and what others do to the
  contexts while the model answers.
\<close>

record 'e compact_env =
  ce_llm :: llm
  ce_skillLoader :: "(string \<Rightarrow> string option) option"
  ce_scale :: "nat \<Rightarrow> int \<Rightarrow> int \<Rightarrow> nat"
  ce_prompt :: "string \<Rightarrow> string"
  ce_sections :: 'e
  ce_others :: "'e Manager \<Rightarrow> 'e Manager"

definition emit :: "compact_event \<Rightarrow> 'e compactor \<Rightarrow> 'e compactor" where
  "emit ev s = s\<lparr>cm_events := cm_events s @ [ev]\<rparr>"

definition on_mgr :: "('e Manager \<Rightarrow> 'r \<times> 'e Manager) \<Rightarrow> 'e compactor \<Rightarrow> 'r \<times> 'e compactor" where
  "on_mgr f s = (case f (cm_mgr s) of (r, m) \<Rightarrow> (r, s\<lparr>cm_mgr := m\<rparr>))"

section \<open>Thresholds\<close>

definition DefaultCompactThreshold :: rat where "DefaultCompactThreshold = 80"
definition proactiveReclaimWatermarkRatio :: rat where "proactiveReclaimWatermarkRatio = 3 / 4"
definition compactHysteresisRatio :: rat where "compactHysteresisRatio = 3 / 2"
definition minReclaimTokens :: int where "minReclaimTokens = 1000"
definition minReclaimRatioPct :: int where "minReclaimRatioPct = 20"
definition minCompactionFractionPct :: int where "minCompactionFractionPct = 5"
definition resumeFallbackHeadroom :: int where "resumeFallbackHeadroom = 3"
definition slotCeilingUnloadThreshold :: rat where "slotCeilingUnloadThreshold = 80"

definition effectiveCompactThreshold :: "'e compactor \<Rightarrow> rat" where
  "effectiveCompactThreshold s = (if 0 < cm_CompactThreshold s then cm_CompactThreshold s else DefaultCompactThreshold)"

definition effectiveCompactLandingPct :: "'e compactor \<Rightarrow> rat" where
  "effectiveCompactLandingPct s = effectiveCompactThreshold s / compactHysteresisRatio"

definition percentage :: "TokenStats \<Rightarrow> rat" where
  "percentage usage = of_int (tst_Used usage) / of_int (tst_Limit usage) * 100"

definition clearAtLeastForLanding :: "'e compactor \<Rightarrow> TokenStats \<Rightarrow> int" where
  "clearAtLeastForLanding s usage =
     (if tst_Limit usage \<le> 0 then 0
      else let targetTokens = \<lfloor>of_int (tst_Limit usage) * effectiveCompactLandingPct s / 100\<rfloor>
           in max (tst_Used usage - targetTokens) 0)"

definition clearAtLeastNow :: "'e compact_env \<Rightarrow> 'e compactor \<Rightarrow> int \<times> 'e compactor" where
  "clearAtLeastNow e s =
     (case on_mgr (TokenUsage (ce_sections e) (cm_CtxID s)) s of
        (Inl _, s1) \<Rightarrow> (0, s1)
      | (Inr usage, s1) \<Rightarrow> (clearAtLeastForLanding s1 usage, s1))"

section \<open>Reclaiming without the language model\<close>

definition runMechanicalFallback :: "fallbackTarget \<Rightarrow> 'e compactor \<Rightarrow> mechanicalFallbackResult \<times> 'e compactor" where
  "runMechanicalFallback target s =
     (let out0 = \<lparr>mf_Pruned = 0, mf_TokensFreed = 0, mf_DroppedRounds = 0, mf_SlotsFreed = 0, mf_ReleasableTokens = 0,
                  mf_ClearAtLeast = ft_ClearAtLeast target\<rparr>;
          pruneOpts = \<lparr>po_TargetTokens = 0, po_MinTokens = 0, po_ClearAtLeast = ft_ClearAtLeast target, po_Placeholder = []\<rparr>
      in case on_mgr (PruneToolResults (cm_CtxID s) pruneOpts) s of
           (pruneRes, s1) \<Rightarrow>
             let out1 = (case pruneRes of
                           Inl _ \<Rightarrow> out0
                         | Inr r \<Rightarrow> out0\<lparr>mf_Pruned := pr_Pruned r, mf_TokensFreed := pr_TokensFreed r,
                                         mf_ReleasableTokens := pr_ReleasableTokens r\<rparr>)
             in if 0 < ft_NeedSlots target
                then (case on_mgr (DropOldestRounds (cm_CtxID s) \<lparr>do_NeedSlots = ft_NeedSlots target, do_KeepRounds = 0\<rparr>) s1 of
                        (Inl _, s2) \<Rightarrow> (out1, s2)
                      | (Inr d, s2) \<Rightarrow> (out1\<lparr>mf_DroppedRounds := dr_DroppedRounds d, mf_SlotsFreed := dr_SlotsFreed d,
                                           mf_TokensFreed := mf_TokensFreed out1 + dr_TokensFreed d\<rparr>, s2))
                else (out1, s1))"

text \<open>\<open>AvailableSlots\<close> with the zero value where the code drops the error.\<close>

definition slots_or_zero :: "'e compactor \<Rightarrow> int" where
  "slots_or_zero s = (case AvailableSlots (cm_CtxID s) (cm_mgr s) of Inl _ \<Rightarrow> 0 | Inr n \<Rightarrow> n)"

definition reclaimForResume :: "'e compactor \<Rightarrow> (mechanicalFallbackResult \<times> bool) \<times> 'e compactor" where
  "reclaimForResume s =
     (let needSlots = (case AvailableSlots (cm_CtxID s) (cm_mgr s) of
                         Inl _ \<Rightarrow> resumeFallbackHeadroom
                       | Inr avail \<Rightarrow> if avail < resumeFallbackHeadroom then resumeFallbackHeadroom - avail else 0)
      in case runMechanicalFallback \<lparr>ft_NeedSlots = needSlots, ft_ClearAtLeast = 0\<rparr> s of
           (res, s1) \<Rightarrow>
             ((res, case AvailableSlots (cm_CtxID s1) (cm_mgr s1) of Inl _ \<Rightarrow> False | Inr avail \<Rightarrow> resumeFallbackHeadroom \<le> avail), s1))"

definition unloadForResume :: "'e compact_env \<Rightarrow> int \<Rightarrow> 'e compactor \<Rightarrow> 'e compactor" where
  "unloadForResume e ctxSize s =
     (if ctxSize \<le> 0 then s
      else case SlotUsage (cm_CtxID s) (cm_mgr s) of
             Inl _ \<Rightarrow> s
           | Inr (used, _) \<Rightarrow>
               if of_nat used / of_int ctxSize * 100 \<le> slotCeilingUnloadThreshold then s
               else let target = \<lfloor>of_int ctxSize * slotCeilingUnloadThreshold / 100\<rfloor>
                    in case clearAtLeastNow e s of
                         (least, s1) \<Rightarrow>
                           snd (runMechanicalFallback
                             \<lparr>ft_NeedSlots = max (int used - target) resumeFallbackHeadroom, ft_ClearAtLeast = least\<rparr> s1))"

section \<open>The options of a compaction\<close>

definition extractActivePlan :: "ctx_Message list \<Rightarrow> string" where
  "extractActivePlan msgs =
     (case find (\<lambda>m. m_Role m = RoleAssistant \<and> take 6 (m_Content m) = ''[Plan]'') (rev msgs) of
        None \<Rightarrow> [] | Some m \<Rightarrow> m_Content m)"

definition active_plan :: "'e compact_env \<Rightarrow> 'e compactor \<Rightarrow> string \<times> 'e compactor" where
  "active_plan e s =
     (case on_mgr (BuildPrompt (ce_sections e) (cm_CtxID s)) s of
        (Inl _, s1) \<Rightarrow> ([], s1)
      | (Inr (_, msgs), s1) \<Rightarrow> (extractActivePlan msgs, s1))"

definition BuildActiveSkills :: "'e compact_env \<Rightarrow> 'e compactor \<Rightarrow> (string \<times> string) list" where
  "BuildActiveSkills e s =
     (case ce_skillLoader e of
        None \<Rightarrow> []
      | Some loader \<Rightarrow>
          concat (map (\<lambda>name. case loader name of None \<Rightarrow> [] | Some body \<Rightarrow> [(name, body)]) (cm_Skills s)))"

definition ClearReadFileState :: "'e compactor \<Rightarrow> 'e compactor" where
  "ClearReadFileState s = s\<lparr>cm_ReadFileState := []\<rparr>"

definition trackReadFile :: "string \<Rightarrow> string \<Rightarrow> int \<Rightarrow> 'e compactor \<Rightarrow> 'e compactor" where
  "trackReadFile path content now s =
     s\<lparr>cm_ReadFileState := AList.update path \<lparr>rf_Content = content, rf_Timestamp = now\<rparr> (cm_ReadFileState s)\<rparr>"

definition ClearCompactLatch :: "'e compactor \<Rightarrow> 'e compactor" where
  "ClearCompactLatch s = (if cm_CompactLatched s then emit CompactUnlatched (s\<lparr>cm_CompactLatched := False\<rparr>) else s)"

definition compact_opts :: "'e compact_env \<Rightarrow> string \<Rightarrow> 'e compactor \<Rightarrow> CompactOpts \<times> 'e compactor" where
  "compact_opts e trigger s =
     (case active_plan e s of
        (plan, s1) \<Rightarrow>
          (\<lparr>co_LLMCall = Some (ce_llm e), co_CustomInstructions = [], co_Trigger = trigger,
            co_ReadFileState = cm_ReadFileState s, co_ActiveSkills = BuildActiveSkills e s, co_ActivePlan = plan\<rparr>, s1))"

definition run_compact :: "'e compact_env \<Rightarrow> CompactOpts \<Rightarrow> 'e compactor \<Rightarrow> (ContextError + CompactResult) \<times> 'e compactor" where
  "run_compact e opts s = on_mgr (Compact (ce_scale e) (ce_prompt e) (ce_others e) (cm_CtxID s) opts) s"

section \<open>The three entry points\<close>

text \<open>
  \<open>reclaimLeakedIfNeeded\<close>: above the watermark the stale tool results are cleared, if they are worth it.
\<close>

definition reclaimLeakedIfNeeded :: "'e compact_env \<Rightarrow> int \<Rightarrow> 'e compactor \<Rightarrow> 'e compactor" where
  "reclaimLeakedIfNeeded e step s =
     (if cm_CompactionDisabled s \<or> cm_compactMu s then s
      else case on_mgr (TokenUsage (ce_sections e) (cm_CtxID s)) s of
             (Inl _, s1) \<Rightarrow> s1
           | (Inr usage, s1) \<Rightarrow>
               if percentage usage \<le> effectiveCompactThreshold s1 * proactiveReclaimWatermarkRatio then s1
               else let reclaimable = max (tst_Used usage - EstimateTokens (cm_FinalSystemPrompt s1)) 0;
                        minTokens = max minReclaimTokens (reclaimable * minReclaimRatioPct div 100);
                        opts = \<lparr>po_TargetTokens = 0, po_MinTokens = minTokens, po_ClearAtLeast = 0, po_Placeholder = []\<rparr>
                    in case on_mgr (PruneToolResults (cm_CtxID s1) opts) s1 of
                         (Inl _, s2) \<Rightarrow> s2
                       | (Inr res, s2) \<Rightarrow> if pr_Pruned res = 0 then s2 else emit (CtxReclaim step res) s2)"

text \<open>The gate before the request: too little of the context can go away.\<close>

definition not_worth_compacting :: "int \<Rightarrow> CompactOpts \<Rightarrow> TokenStats \<Rightarrow> bool" where
  "not_worth_compacting sysPromptTokens opts usage =
     (let reclaimable = max (tst_Used usage - sysPromptTokens) 0;
          compressible = max (reclaimable - EstimateRestoreTokens opts) 0
      in 0 < reclaimable \<and> compressible * 100 < reclaimable * minCompactionFractionPct)"

text \<open>The failed branch of the automatic compaction: reclaim mechanically, report, latch.\<close>

definition auto_failed :: "int \<Rightarrow> string \<Rightarrow> TokenStats \<Rightarrow> 'e compactor \<Rightarrow> 'e compactor" where
  "auto_failed step trigger usage s =
     (case runMechanicalFallback \<lparr>ft_NeedSlots = 0, ft_ClearAtLeast = clearAtLeastForLanding s usage\<rparr> s of
        (fallback, s1) \<Rightarrow>
          let s2 = emit (CompactFailed step trigger fallback) s1
          in if cm_CompactLatched s2 then s2 else emit (CompactLatch step) (s2\<lparr>cm_CompactLatched := True\<rparr>))"

definition autoCompactIfNeeded :: "'e compact_env \<Rightarrow> int \<Rightarrow> 'e compactor \<Rightarrow> 'e compactor" where
  "autoCompactIfNeeded e step s =
     (if cm_CompactionDisabled s then s
      else if cm_CompactLatched s then s
      else if cm_compactMu s then s
      else case on_mgr (TokenUsage (ce_sections e) (cm_CtxID s)) s of
             (Inl _, s1) \<Rightarrow> s1
           | (Inr usage, s1) \<Rightarrow>
               if percentage usage \<le> effectiveCompactThreshold s1 then s1
               else case compact_opts e ''token_threshold'' s1 of
                      (opts, s2) \<Rightarrow>
                        if not_worth_compacting (EstimateTokens (cm_FinalSystemPrompt s2)) opts usage then s2
                        else case run_compact e opts (emit (CompactStarted step) s2) of
                               (Inl _, s3) \<Rightarrow> auto_failed step ''token_threshold'' usage s3
                             | (Inr result, s3) \<Rightarrow>
                                 emit (CompactDone step ''token_threshold'' result)
                                   ((ClearReadFileState s3)\<lparr>cm_CompactLatched := False\<rparr>))"

text \<open>
  \<open>preCompactForToolCalls\<close>: room for an assistant message and the results of its calls. \<open>True\<close> is a nil
  error.
\<close>

definition precompact_top_up ::
  "'e compact_env \<Rightarrow> int \<Rightarrow> int \<Rightarrow> 'e compactor \<Rightarrow> (mechanicalFallbackResult \<times> bool) \<times> 'e compactor" where
  "precompact_top_up e required available s =
     (case clearAtLeastNow e s of
        (least, s1) \<Rightarrow>
          (case runMechanicalFallback \<lparr>ft_NeedSlots = required - available, ft_ClearAtLeast = least\<rparr> s1 of
             (fallback, s2) \<Rightarrow> ((fallback, required \<le> slots_or_zero s2), s2)))"

definition preCompactForToolCalls :: "'e compact_env \<Rightarrow> nat \<Rightarrow> int \<Rightarrow> 'e compactor \<Rightarrow> bool \<times> 'e compactor" where
  "preCompactForToolCalls e toolCallCount step s =
     (let required = 1 + int toolCallCount
      in case AvailableSlots (cm_CtxID s) (cm_mgr s) of
           Inl _ \<Rightarrow> (True, s)
         | Inr available \<Rightarrow>
             if required \<le> available \<or> cm_compactMu s then (True, s)
             else case compact_opts e ''precompact'' s of
                    (opts, s1) \<Rightarrow>
                      (case run_compact e opts s1 of
                         (Inl _, s2) \<Rightarrow>
                           (case precompact_top_up e required available s2 of
                              ((fallback, ok), s3) \<Rightarrow> (ok, emit (CompactFailed step ''precompact'' fallback) s3))
                       | (Inr result, s2) \<Rightarrow>
                           let s3 = emit (CompactDone step ''precompact'' result) (ClearReadFileState s2);
                               available' = slots_or_zero s3
                           in if required \<le> available' then (True, s3)
                              else case precompact_top_up e required available' s3 of
                                     ((fallback, ok), s4) \<Rightarrow> (ok, emit (CompactTopUp step fallback) s4)))"

end
