(* ===== verification/ToolExec.thy ===== *)
theory ToolExec
  imports Kernel Permissions Breaker AutoCompact
begin

text \<open>
  The tool calls of one reasoning step (\<open>executeToolCalls\<close> and \<open>executeMetaAction\<close> in
  \<open>kernel/tool_exec.go\<close>) over the process table, the context manager, the permissions and the breaker.
  The environment is what a call reaches outside: the file or driver behind a permitted VFS call, the
  run of a child from its spawn to its exit, the loaders of agents and skills, the search for skills
  and the texts the Go library formats. Step records, logs, metrics and events of the step are left
  out.
\<close>

section \<open>Calls and results\<close>

record llmToolCall =
  lc_ID :: string
  lc_Name :: string
  lc_Input :: "(string \<times> json) list"
  lc_ParseError :: string

record llmResponse =
  lr_Content :: string
  lr_Reasoning :: string
  lr_ToolCalls :: "llmToolCall list"
  lr_ReasoningBlocks :: "ReasoningBlock list"

definition convertToolCalls :: "llmToolCall list \<Rightarrow> ToolCall list" where
  "convertToolCalls calls = map (\<lambda>tc. \<lparr>tc_ID = lc_ID tc, tc_Name = lc_Name tc, tc_Input = lc_Input tc\<rparr>) calls"

record ToolCallRecord =
  tr_ID :: string
  tr_Name :: string
  tr_Path :: string
  tr_Result :: string
  tr_Error :: string
  tr_ErrorCode :: "ErrCode option"

text \<open>\<open>tc.Input[key].(string)\<close>, the empty string where the assertion fails.\<close>

definition input_str :: "llmToolCall \<Rightarrow> string \<Rightarrow> string" where
  "input_str tc key = (case map_of (lc_Input tc) key of Some (JStr s) \<Rightarrow> s | _ \<Rightarrow> [])"

section \<open>Environment and state\<close>

text \<open>A failed VFS call: its error, whether it is a cancellation and \<open>DriverError.FailsParent\<close>.\<close>

record vfs_failure =
  vf_err :: go_error
  vf_cancelled :: bool
  vf_FailsParent :: bool

record SkillInfo =
  sk_Body :: string
  sk_Dir :: string
  sk_AllowedTools :: "string list"

record spawn_request =
  sr_Intent :: string
  sr_Agent :: "(string \<times> string list) option"
  sr_Model :: string
  sr_Provider :: string
  sr_ParentPID :: PID
  sr_Depth :: int
  sr_TraceID :: string
  sr_ParentSpanID :: string
  sr_perms :: perms

text \<open>The child did not start, the parent was cancelled while waiting, or the child exited with a result.\<close>

datatype spawn_outcome =
    SpawnFailed go_error bool
  | WaitCancelled
  | ChildExited PID ExitStatus string

text \<open>The loaders answer with the loaded value or an error and whether it is a cancellation.\<close>

type_synonym 'a loader = "(string \<Rightarrow> (go_error \<times> bool) + 'a) option"

record ('e, 'w, 'f, 'v, 'd) tool_env =
  te_kenv :: kenv
  te_compact :: "'e compact_env"
  te_vfs :: "llmToolCall \<Rightarrow> toolMapping \<Rightarrow> 'w \<Rightarrow> (vfs_failure + string) \<times> 'w"
  te_spawn :: "spawn_request \<Rightarrow> kernel \<times> 'w \<Rightarrow> spawn_outcome \<times> kernel \<times> 'w"
  te_agentLoader :: "(string \<times> string list) loader"
  te_skillLoader :: "SkillInfo loader"
  te_discover :: "string list \<Rightarrow> llmToolCall \<Rightarrow> string"
  te_describer :: "'d describer"
  te_registry :: "('f, 'v, 'd) DeviceRegistry option"
  te_errText :: "go_error \<Rightarrow> string"
  te_quote :: "string \<Rightarrow> string"

text \<open>The fields of the process that the calls of a step do not change.\<close>

record proc_config =
  pc_PID :: PID
  pc_Depth :: int
  pc_Provider :: string
  pc_toolMap :: "(string \<times> toolMapping) list"
  pc_HasSections :: bool
  pc_Planning :: bool

record ('e, 'w) tool_state =
  tl_kern :: kernel
  tl_comp :: "'e compactor"
  tl_breaker :: breaker
  tl_perms :: perms
  tl_SkillBodies :: "(string \<times> string) list"
  tl_SkillDirs :: "(string \<times> string) list"
  tl_records :: "ToolCallRecord list"
  tl_world :: 'w

text \<open>How one call leaves the loop: go on, break with a result that did not fit, return.\<close>

datatype loop_control = LoopNext | LoopDropped string string | LoopReturn

section \<open>Shared steps\<close>

definition on_ctx ::
  "(CtxID \<Rightarrow> 'e Manager \<Rightarrow> (ContextError + unit) \<times> 'e Manager) \<Rightarrow> ('e, 'w) tool_state \<Rightarrow> bool \<times> ('e, 'w) tool_state" where
  "on_ctx f s =
     (case f (cm_CtxID (tl_comp s)) (cm_mgr (tl_comp s)) of
        (r, m) \<Rightarrow> (r = Inr (), s\<lparr>tl_comp := (tl_comp s)\<lparr>cm_mgr := m\<rparr>\<rparr>))"

definition appendToolResult :: "string \<Rightarrow> string \<Rightarrow> ('e, 'w) tool_state \<Rightarrow> bool \<times> ('e, 'w) tool_state" where
  "appendToolResult toolCallID content = on_ctx (\<lambda>cid. AppendToolResult cid toolCallID content)"

definition append_ignoring :: "string \<Rightarrow> string \<Rightarrow> ('e, 'w) tool_state \<Rightarrow> ('e, 'w) tool_state" where
  "append_ignoring toolCallID content s = snd (appendToolResult toolCallID content s)"

definition upd_kern :: "(kernel \<Rightarrow> kernel) \<Rightarrow> ('e, 'w) tool_state \<Rightarrow> ('e, 'w) tool_state" where
  "upd_kern f s = s\<lparr>tl_kern := f (tl_kern s)\<rparr>"

definition finish :: "('e, 'w, 'f, 'v, 'd) tool_env \<Rightarrow> proc_config \<Rightarrow> int \<Rightarrow> string \<Rightarrow> go_error option \<Rightarrow> ('e, 'w) tool_state \<Rightarrow> ('e, 'w) tool_state" where
  "finish e p code reason err = upd_kern (finishProcess (te_kenv e) (pc_PID p) (ExitStatus code reason [] err))"

text \<open>Feed the breaker; when it trips the process is finished and the step returns.\<close>

definition breaker_error ::
  "('e, 'w, 'f, 'v, 'd) tool_env \<Rightarrow> proc_config \<Rightarrow> ErrCode \<Rightarrow> string \<Rightarrow> ('e, 'w) tool_state \<Rightarrow> bool \<times> ('e, 'w) tool_state" where
  "breaker_error e p code toolPath s =
     (case bumpToolError code toolPath (tl_breaker s) of
        ((_, tripped), b) \<Rightarrow>
          let s1 = s\<lparr>tl_breaker := b\<rparr>
          in if tripped then (True, finish e p 1 (circuitBreakerReason (fst b)) None s1) else (False, s1))"

text \<open>A cancel by a signal overrides the verdict of a completion.\<close>

definition completionVerdict :: "proc_config \<Rightarrow> kernel \<Rightarrow> string \<Rightarrow> int \<Rightarrow> string \<times> int" where
  "completionVerdict p k base code =
     (case GetProcess k (pc_PID p) of
        None \<Rightarrow> (base, code)
      | Some q \<Rightarrow> if pr_cancelled q \<and> \<not> pr_suspendRequested q then (''interrupted'', 1) else (base, code))"

definition proc_field :: "proc_config \<Rightarrow> (Process \<Rightarrow> 'a) \<Rightarrow> 'a \<Rightarrow> kernel \<Rightarrow> 'a" where
  "proc_field p f d k = (case GetProcess k (pc_PID p) of None \<Rightarrow> d | Some q \<Rightarrow> f q)"

section \<open>VFS calls\<close>

text \<open>\<open>executeVFSTool\<close>: the permission check, then the file or driver behind the path.\<close>

definition executeVFSTool ::
  "('e, 'w, 'f, 'v, 'd) tool_env \<Rightarrow> llmToolCall \<Rightarrow> toolMapping \<Rightarrow> ('e, 'w) tool_state \<Rightarrow> (vfs_failure + string) \<times> ('e, 'w) tool_state" where
  "executeVFSTool e tc mapping s =
     (case permission_check (tl_perms s) (lc_Name tc) (tm_VFSPath mapping) of
        Some err \<Rightarrow> (Inl \<lparr>vf_err = err, vf_cancelled = False, vf_FailsParent = False\<rparr>, s)
      | None \<Rightarrow> (case te_vfs e tc mapping (tl_world s) of (r, w) \<Rightarrow> (r, s\<lparr>tl_world := w\<rparr>)))"

definition vfs_failed ::
  "('e, 'w, 'f, 'v, 'd) tool_env \<Rightarrow> proc_config \<Rightarrow> llmToolCall \<Rightarrow> toolMapping \<Rightarrow> vfs_failure \<Rightarrow> ('e, 'w) tool_state
   \<Rightarrow> loop_control \<times> ('e, 'w) tool_state" where
  "vfs_failed e p tc mapping failure s =
     (let errMsg = ''Tool error ('' @ lc_Name tc @ ''): '' @ te_errText e (vf_err failure);
          code = extractErrCode (vf_err failure)
      in case appendToolResult (lc_ID tc) errMsg s of
           (False, s1) \<Rightarrow> (LoopDropped (lc_ID tc) errMsg, s1)
         | (True, s1) \<Rightarrow>
             let s2 = (if vf_FailsParent failure then upd_kern (updProc (pc_PID p) MarkFailedChild) s1 else s1);
                 rec = \<lparr>tr_ID = lc_ID tc, tr_Name = lc_Name tc, tr_Path = tm_VFSPath mapping, tr_Result = [], tr_Error = errMsg,
                        tr_ErrorCode = (if vf_cancelled failure then None else Some code)\<rparr>;
                 s3 = s2\<lparr>tl_records := tl_records s2 @ [rec]\<rparr>
             in if vf_cancelled failure then (LoopNext, s3)
                else case breaker_error e p code (tm_VFSPath mapping) s3 of
                       (tripped, s4) \<Rightarrow> (if tripped then LoopReturn else LoopNext, s4))"

definition vfs_succeeded :: "llmToolCall \<Rightarrow> toolMapping \<Rightarrow> string \<Rightarrow> ('e, 'w) tool_state \<Rightarrow> loop_control \<times> ('e, 'w) tool_state" where
  "vfs_succeeded tc mapping result s =
     (case appendToolResult (lc_ID tc) result s of
        (False, s1) \<Rightarrow> (LoopDropped (lc_ID tc) result, s1)
      | (True, s1) \<Rightarrow>
          let rec = \<lparr>tr_ID = lc_ID tc, tr_Name = lc_Name tc, tr_Path = tm_VFSPath mapping, tr_Result = result, tr_Error = [],
                     tr_ErrorCode = None\<rparr>
          in (LoopNext, s1\<lparr>tl_breaker := (recordSuccess (fst (tl_breaker s1)), snd (tl_breaker s1)),
                           tl_records := tl_records s1 @ [rec]\<rparr>))"

definition vfs_call ::
  "('e, 'w, 'f, 'v, 'd) tool_env \<Rightarrow> proc_config \<Rightarrow> llmToolCall \<Rightarrow> toolMapping \<Rightarrow> ('e, 'w) tool_state
   \<Rightarrow> loop_control \<times> ('e, 'w) tool_state" where
  "vfs_call e p tc mapping s =
     (case executeVFSTool e tc mapping (upd_kern (updProc (pc_PID p) IncToolCallCount) s) of
        (Inl failure, s1) \<Rightarrow> vfs_failed e p tc mapping failure s1
      | (Inr result, s1) \<Rightarrow> vfs_succeeded tc mapping result s1)"

section \<open>Meta actions\<close>

text \<open>Every action returns whether the step goes on.\<close>

definition complete_action ::
  "('e, 'w, 'f, 'v, 'd) tool_env \<Rightarrow> proc_config \<Rightarrow> llmToolCall \<Rightarrow> ('e, 'w) tool_state \<Rightarrow> bool \<times> ('e, 'w) tool_state" where
  "complete_action e p tc s =
     (let s1 = upd_kern (updProc (pc_PID p) (\<lambda>q. q\<lparr>pr_Result := input_str tc ''result''\<rparr>)) s;
          failed = proc_field p pr_failedChildren 0 (tl_kern s1)
      in case completionVerdict p (tl_kern s1)
                (if 0 < failed then ''completed_with_'' @ print_int failed @ ''_failed_children'' else ''completed'')
                (if 0 < failed then 1 else 0) of
           (reason, code) \<Rightarrow> (False, finish e p code reason None s1))"

text \<open>A spawn that fails in any way answers the call and feeds the breaker, a cancellation only answers.\<close>

definition spawn_error ::
  "('e, 'w, 'f, 'v, 'd) tool_env \<Rightarrow> proc_config \<Rightarrow> llmToolCall \<Rightarrow> string \<Rightarrow> bool \<Rightarrow> ('e, 'w) tool_state \<Rightarrow> bool \<times> ('e, 'w) tool_state" where
  "spawn_error e p tc errMsg cancelled s =
     (let s1 = append_ignoring (lc_ID tc) errMsg s
      in if cancelled then (True, s1)
         else case breaker_error e p ErrInternal ''spawn'' s1 of (tripped, s2) \<Rightarrow> (\<not> tripped, s2))"

definition resolve_agent ::
  "('e, 'w, 'f, 'v, 'd) tool_env \<Rightarrow> string \<Rightarrow> (string \<times> bool) + (string \<times> string list) option" where
  "resolve_agent e agentStr =
     (if agentStr = [] then Inr None
      else case te_agentLoader e of
             None \<Rightarrow> Inl (''Agent error: agent '' @ te_quote e agentStr @ '' requested but no agent loader configured'', False)
           | Some loader \<Rightarrow>
               (case loader agentStr of
                  Inl (err, cancelled) \<Rightarrow>
                    Inl (''Agent error: agent '' @ te_quote e agentStr @ '' load failed: '' @ te_errText e err, cancelled)
                | Inr info \<Rightarrow> Inr (Some info)))"

definition depth_message :: "int \<Rightarrow> string" where
  "depth_message depth = ''spawn rejected: maximum spawn depth '' @ print_int MaxSpawnDepth @ '' reached (current depth '' @ print_int depth @
     ''). Child processes inherit your device restrictions and cannot gain new permissions by spawning deeper. Use complete to report your results with the devices you have''"

definition spawn_opts ::
  "('e, 'w, 'f, 'v, 'd) tool_env \<Rightarrow> proc_config \<Rightarrow> llmToolCall \<Rightarrow> (string \<times> string list) option \<Rightarrow> ('e, 'w) tool_state \<Rightarrow> spawn_request" where
  "spawn_opts e p tc agent s =
     (let trace = proc_field p pr_TraceID [] (tl_kern s)
      in \<lparr>sr_Intent = input_str tc ''intent'', sr_Agent = agent, sr_Model = input_str tc ''model'',
          sr_Provider = (if input_str tc ''provider'' = [] then pc_Provider p else input_str tc ''provider''),
          sr_ParentPID = pc_PID p, sr_Depth = pc_Depth p + 1, sr_TraceID = trace,
          sr_ParentSpanID = (if trace \<noteq> [] then proc_field p pr_SpanID [] (tl_kern s) else []),
          sr_perms = child_opts (te_describer e) (te_registry e) (tl_perms s)\<rparr>)"

definition child_finished ::
  "('e, 'w, 'f, 'v, 'd) tool_env \<Rightarrow> proc_config \<Rightarrow> llmToolCall \<Rightarrow> PID \<Rightarrow> ExitStatus \<Rightarrow> string \<Rightarrow> ('e, 'w) tool_state
   \<Rightarrow> bool \<times> ('e, 'w) tool_state" where
  "child_finished e p tc childPID childExit childResult s =
     (let result = (if childResult = [] then ''child PID '' @ print_int (int childPID) @ '' exited: '' @ exit_Reason childExit @
                      '' (code '' @ print_int (exit_Code childExit) @ '')'' else childResult);
          s1 = append_ignoring (lc_ID tc) result s;
          s2 = (if exit_Code childExit \<noteq> ExitOK then upd_kern (updProc (pc_PID p) MarkFailedChild) s1 else s1)
      in case spawnBreakerOutcome (exit_Code childExit) (tl_breaker s2) of
           (tripped, b) \<Rightarrow>
             let s3 = s2\<lparr>tl_breaker := b\<rparr>
             in if tripped then (False, finish e p 1 (circuitBreakerReason (fst b)) None s3) else (True, s3))"

definition spawn_action ::
  "('e, 'w, 'f, 'v, 'd) tool_env \<Rightarrow> proc_config \<Rightarrow> llmToolCall \<Rightarrow> ('e, 'w) tool_state \<Rightarrow> bool \<times> ('e, 'w) tool_state" where
  "spawn_action e p tc s =
     (if pc_Depth p + 1 > MaxSpawnDepth then spawn_error e p tc (depth_message (pc_Depth p)) False s
      else case resolve_agent e (input_str tc ''agent'') of
             Inl (errMsg, cancelled) \<Rightarrow> spawn_error e p tc errMsg cancelled s
           | Inr agent \<Rightarrow>
               (case te_spawn e (spawn_opts e p tc agent s) (tl_kern s, tl_world s) of
                  (r, k, w) \<Rightarrow>
                    let s1 = s\<lparr>tl_kern := k, tl_world := w\<rparr>
                    in case r of
                         SpawnFailed err cancelled \<Rightarrow> spawn_error e p tc (''Agent failed: '' @ te_errText e err) cancelled s1
                       | WaitCancelled \<Rightarrow>
                           (False, if proc_field p pr_suspendRequested False (tl_kern s1) then s1
                                   else finish e p 1 ''cancelled while waiting on child'' (Some (PlainError ''context canceled'')) s1)
                       | ChildExited childPID childExit childResult \<Rightarrow> child_finished e p tc childPID childExit childResult s1))"

text \<open>Loading a skill: the texts of its answer, the permissions, the body into the conversation.\<close>

definition skill_body :: "SkillInfo \<Rightarrow> string" where
  "skill_body sk =
     (if sk_Dir sk \<noteq> [] then ''Base directory for this skill: '' @ sk_Dir sk @ [CHR 0x0A, CHR 0x0A] @ sk_Body sk else sk_Body sk)"

definition set_skills :: "proc_config \<Rightarrow> string list \<Rightarrow> ('e, 'w) tool_state \<Rightarrow> ('e, 'w) tool_state" where
  "set_skills p skills s =
     upd_kern (updProc (pc_PID p) (\<lambda>q. q\<lparr>pr_Skills := skills\<rparr>)) (s\<lparr>tl_comp := (tl_comp s)\<lparr>cm_Skills := skills\<rparr>\<rparr>)"

definition load_skill ::
  "('e, 'w, 'f, 'v, 'd) tool_env \<Rightarrow> proc_config \<Rightarrow> llmToolCall \<Rightarrow> string \<Rightarrow> SkillInfo \<Rightarrow> ('e, 'w) tool_state \<Rightarrow> ('e, 'w) tool_state" where
  "load_skill e p tc skillName sk s =
     (case specialize_grant (te_describer e) (te_registry e) (sk_AllowedTools sk) (tl_perms s) of
        (pm, added, withheld) \<Rightarrow>
          let s1 = set_skills p (cm_Skills (tl_comp s) @ [skillName]) s;
              s2 = s1\<lparr>tl_perms := pm,
                      tl_SkillBodies := (if sk_Body sk \<noteq> [] then AList.update skillName (skill_body sk) (tl_SkillBodies s1) else tl_SkillBodies s1),
                      tl_SkillDirs := (if sk_Dir sk \<noteq> [] then AList.update skillName (sk_Dir sk) (tl_SkillDirs s1) else tl_SkillDirs s1)\<rparr>;
              needsUserMessage = (\<not> pc_HasSections p \<and> sk_Body sk \<noteq> [])
          in if needsUserMessage \<and> slots_or_zero (tl_comp s2) < 2
             then append_ignoring (lc_ID tc)
                    (''skill '' @ te_quote e skillName @ '' load failed: context full. The skill was NOT loaded. Try again after context is compacted.'')
                    ((set_skills p (filter (\<lambda>n. n \<noteq> skillName) (cm_Skills (tl_comp s2))) s2)
                       \<lparr>tl_perms := specialize_rollback added pm,
                        tl_SkillBodies := AList.delete skillName (tl_SkillBodies s2),
                        tl_SkillDirs := AList.delete skillName (tl_SkillDirs s2)\<rparr>)
             else let s3 = append_ignoring (lc_ID tc)
                        (''skill '' @ te_quote e skillName @ '' loaded successfully'' @
                         (if 0 < withheld then '' ('' @ print_int withheld @
                            '' declared tool(s) outside this process's permission whitelist were not granted)'' else [])) s2
                  in if needsUserMessage
                     then snd (on_ctx (\<lambda>cid. AppendMessage cid RoleUser
                            (''[Dynamic Skill Loaded: '' @ skillName @ '']'' @ [CHR 0x0A, CHR 0x0A] @ skill_body sk)) s3)
                     else s3)"

definition specialize_action ::
  "('e, 'w, 'f, 'v, 'd) tool_env \<Rightarrow> proc_config \<Rightarrow> llmToolCall \<Rightarrow> ('e, 'w) tool_state \<Rightarrow> ('e, 'w) tool_state" where
  "specialize_action e p tc s =
     (let skillName = input_str tc ''skill''
      in if skillName = [] then append_ignoring (lc_ID tc) ''Skill error: empty skill name'' s
         else case te_skillLoader e of
                None \<Rightarrow> append_ignoring (lc_ID tc) ''Skill error: no skill loader configured'' s
              | Some loader \<Rightarrow>
                  if skillName \<in> set (cm_Skills (tl_comp s))
                  then append_ignoring (lc_ID tc)
                         (''skill '' @ te_quote e skillName @ '' is already loaded '' @ [CHR 0xE2, CHR 0x80, CHR 0x94] @
                          '' its instructions are in your system prompt. Follow them using your available tools. Do NOT try to call this skill as a tool.'') s
                  else case loader skillName of
                         Inl (err, _) \<Rightarrow> append_ignoring (lc_ID tc)
                           (''Skill error: skill '' @ te_quote e skillName @ '' load failed: '' @ te_errText e err) s
                       | Inr sk \<Rightarrow> load_skill e p tc skillName sk s)"

text \<open>The text of a plan: its steps, the strings of the \<open>steps\<close> array.\<close>

definition plan_steps :: "llmToolCall \<Rightarrow> string list" where
  "plan_steps tc =
     (case map_of (lc_Input tc) ''steps'' of
        Some (JArr js) \<Rightarrow> concat (map (\<lambda>j. case j of JStr t \<Rightarrow> [t] | _ \<Rightarrow> []) js)
      | _ \<Rightarrow> [])"

definition plan_text :: "string list \<Rightarrow> string" where
  "plan_text steps =
     ''[Plan]'' @ [CHR 0x0A] @
     concat (map (\<lambda>(i, t). ''  '' @ print_int (int i + 1) @ ''. '' @ t @ [CHR 0x0A]) (zip [0..<length steps] steps))"

definition space_join :: "string list \<Rightarrow> string" where
  "space_join ts = (case ts of [] \<Rightarrow> [] | t # ts' \<Rightarrow> t @ concat (map (\<lambda>u. '' '' @ u) ts'))"

definition plan_action ::
  "('e, 'w, 'f, 'v, 'd) tool_env \<Rightarrow> proc_config \<Rightarrow> llmToolCall \<Rightarrow> ('e, 'w) tool_state \<Rightarrow> bool \<times> ('e, 'w) tool_state" where
  "plan_action e p tc s =
     (if \<not> pc_Planning p
      then let content = ''Plan ('' @ input_str tc ''reason'' @ ''): ['' @ space_join (plan_steps tc) @ '']'';
               s1 = upd_kern (updProc (pc_PID p) (\<lambda>q. q\<lparr>pr_Result := content\<rparr>)) s
           in case completionVerdict p (tl_kern s1) ''completed'' 0 of (reason, code) \<Rightarrow> (False, finish e p code reason None s1)
      else let planStr = plan_text (plan_steps tc)
           in case on_ctx (\<lambda>cid. AppendMessage cid RoleAssistant planStr) s of
                (False, s1) \<Rightarrow> (False, finish e p 1 ''append plan failed'' (Some (PlainError ''context full'')) s1)
              | (True, s1) \<Rightarrow> (True, append_ignoring (lc_ID tc) planStr s1))"

definition executeMetaAction ::
  "('e, 'w, 'f, 'v, 'd) tool_env \<Rightarrow> proc_config \<Rightarrow> llmToolCall \<Rightarrow> ActionType \<Rightarrow> ('e, 'w) tool_state \<Rightarrow> bool \<times> ('e, 'w) tool_state" where
  "executeMetaAction e p tc action s =
     (case action of
        ActionComplete \<Rightarrow> complete_action e p tc s
      | ActionSpawn \<Rightarrow> spawn_action e p tc s
      | ActionReplan \<Rightarrow> (True, append_ignoring (lc_ID tc) (''Replanning: '' @ input_str tc ''reason'') s)
      | ActionSpecialize \<Rightarrow> (True, specialize_action e p tc s)
      | ActionDiscoverSkill \<Rightarrow> (True, append_ignoring (lc_ID tc) (te_discover e (cm_Skills (tl_comp s)) tc) s)
      | ActionDeferredSkillPlaceholder \<Rightarrow>
          (True, append_ignoring (lc_ID tc)
             (''This skill ('' @ (if take 6 (lc_Name tc) = ''skill_'' then drop 6 (lc_Name tc) else lc_Name tc) @
              '') is deferred and not yet loaded. Use ToolSearch to search for it, then Skill to load it.'') s)
      | ActionPlan \<Rightarrow> plan_action e p tc s
      | _ \<Rightarrow> (True, s))"

section \<open>The loop\<close>

definition failed_call ::
  "('e, 'w, 'f, 'v, 'd) tool_env \<Rightarrow> proc_config \<Rightarrow> llmToolCall \<Rightarrow> ErrCode \<Rightarrow> string \<Rightarrow> ('e, 'w) tool_state
   \<Rightarrow> loop_control \<times> ('e, 'w) tool_state" where
  "failed_call e p tc code errMsg s =
     (case appendToolResult (lc_ID tc) errMsg s of
        (False, s1) \<Rightarrow> (LoopDropped (lc_ID tc) errMsg, s1)
      | (True, s1) \<Rightarrow> (case breaker_error e p code (lc_Name tc) s1 of
                        (tripped, s2) \<Rightarrow> (if tripped then LoopReturn else LoopNext, s2)))"

definition tool_call ::
  "('e, 'w, 'f, 'v, 'd) tool_env \<Rightarrow> proc_config \<Rightarrow> llmToolCall \<Rightarrow> ('e, 'w) tool_state \<Rightarrow> loop_control \<times> ('e, 'w) tool_state" where
  "tool_call e p tc s =
     (if lc_ParseError tc \<noteq> [] then
        failed_call e p tc ErrInvalid (''Tool error ('' @ lc_Name tc @ ''): arguments parse failed: '' @ lc_ParseError tc) s
      else if lc_Name tc = ''think'' \<or> lc_Name tc = ''thinking'' then (LoopNext, append_ignoring (lc_ID tc) ''ok'' s)
      else case resolve_tool (pc_toolMap p) (lc_Name tc) of
             None \<Rightarrow> failed_call e p tc ErrPermission (''error: unknown tool '' @ lc_Name tc) s
           | Some mapping \<Rightarrow>
               if tm_Type mapping = ''vfs'' then vfs_call e p tc mapping s
               else if tm_Type mapping = ''meta'' then
                 (case executeMetaAction e p tc (tm_Action mapping) s of
                    (continue, s1) \<Rightarrow> (if continue then LoopNext else LoopReturn, s1))
               else (LoopNext, s))"

text \<open>The loop ends with its control: \<open>LoopNext\<close> when all calls were run.\<close>

fun tool_loop ::
  "('e, 'w, 'f, 'v, 'd) tool_env \<Rightarrow> proc_config \<Rightarrow> llmToolCall list \<Rightarrow> ('e, 'w) tool_state \<Rightarrow> loop_control \<times> ('e, 'w) tool_state" where
  "tool_loop e p [] s = (LoopNext, s)"
| "tool_loop e p (tc # tcs) s =
     (case tool_call e p tc s of
        (LoopNext, s1) \<Rightarrow> tool_loop e p tcs s1
      | (LoopDropped callID content, s1) \<Rightarrow> (LoopDropped callID content, s1)
      | (LoopReturn, s1) \<Rightarrow> (LoopReturn, s1))"

text \<open>The assistant message cannot be appended: suspend for a full context, else end the process.\<close>

definition append_failed ::
  "('e, 'w, 'f, 'v, 'd) tool_env \<Rightarrow> proc_config \<Rightarrow> bool \<Rightarrow> ('e, 'w) tool_state \<Rightarrow> ('e, 'w) tool_state" where
  "append_failed e p full s =
     (if full
      then (case selfSuspend (te_kenv e) (pc_PID p) ''context_full'' ExitContextFull (tl_kern s) of
              (None, k) \<Rightarrow> s\<lparr>tl_kern := k\<rparr>
            | (Some err, k) \<Rightarrow> finish e p ExitError ''context_full + suspend failed'' (Some (PlainError ''context full'')) (s\<lparr>tl_kern := k\<rparr>))
      else finish e p ExitError ''append assistant with tool calls failed'' (Some (PlainError ''no such context'')) s)"

text \<open>\<open>executeToolCalls\<close>: whether the reasoning loop goes on. The records of the calls start empty.\<close>

definition executeToolCalls ::
  "('e, 'w, 'f, 'v, 'd) tool_env \<Rightarrow> proc_config \<Rightarrow> llmResponse \<Rightarrow> int \<Rightarrow> ('e, 'w) tool_state \<Rightarrow> bool \<times> ('e, 'w) tool_state" where
  "executeToolCalls e p resp step s =
     (let s0 = s\<lparr>tl_breaker := (fst (tl_breaker s), []), tl_records := [],
                 tl_comp := snd (preCompactForToolCalls (te_compact e) (length (lr_ToolCalls resp)) step (tl_comp s))\<rparr>
      in case AppendAssistantWithToolCalls (cm_CtxID (tl_comp s0)) (lr_Content resp) (lr_Reasoning resp) (lr_ReasoningBlocks resp)
                (convertToolCalls (lr_ToolCalls resp)) (cm_mgr (tl_comp s0)) of
           (Inl err, m) \<Rightarrow> (False, append_failed e p (ce_Full err) (s0\<lparr>tl_comp := (tl_comp s0)\<lparr>cm_mgr := m\<rparr>\<rparr>))
         | (Inr _, m) \<Rightarrow>
             (case tool_loop e p (lr_ToolCalls resp) (s0\<lparr>tl_comp := (tl_comp s0)\<lparr>cm_mgr := m\<rparr>\<rparr>) of
                (LoopReturn, s1) \<Rightarrow> (False, s1)
              | (LoopNext, s1) \<Rightarrow> (True, s1)
              | (LoopDropped callID content, s1) \<Rightarrow>
                  (True, append_ignoring callID content (s1\<lparr>tl_comp := autoCompactIfNeeded (te_compact e) step (tl_comp s1)\<rparr>))))"

end
