(* ===== verification/AutoCompactProps.thy ===== *)
theory AutoCompactProps
  imports AutoCompact
begin

text \<open>
  What the compaction policy of \<open>kernel/compact.go\<close> guarantees: after one failed attempt the automatic
  compaction stays off until it is switched on again, a failure costs no message, a successful
  pre-compaction makes the room the tool round needs; and what it loses, the plan at the second
  compaction.
\<close>

section \<open>The fields an operation leaves alone\<close>

lemma on_mgr_simps [simp]:
  "cm_events (snd (on_mgr f s)) = cm_events s" "cm_CompactLatched (snd (on_mgr f s)) = cm_CompactLatched s"
  "cm_CtxID (snd (on_mgr f s)) = cm_CtxID s" "cm_ReadFileState (snd (on_mgr f s)) = cm_ReadFileState s"
  "cm_mgr (snd (on_mgr f s)) = snd (f (cm_mgr s))" "fst (on_mgr f s) = fst (f (cm_mgr s))"
  "cm_compactMu (snd (on_mgr f s)) = cm_compactMu s" "cm_CompactionDisabled (snd (on_mgr f s)) = cm_CompactionDisabled s"
  by (simp_all add: on_mgr_def split: prod.split)

lemma on_mgr_eq:
  assumes "on_mgr f s = (r, s')"
  shows "cm_events s' = cm_events s" "cm_CompactLatched s' = cm_CompactLatched s" "cm_CtxID s' = cm_CtxID s"
    "cm_ReadFileState s' = cm_ReadFileState s" "cm_mgr s' = snd (f (cm_mgr s))" "r = fst (f (cm_mgr s))"
  using assms by (auto simp: on_mgr_def split: prod.splits)

lemma emit_simps [simp]:
  "cm_events (emit ev s) = cm_events s @ [ev]" "cm_CompactLatched (emit ev s) = cm_CompactLatched s"
  "cm_mgr (emit ev s) = cm_mgr s" "cm_CtxID (emit ev s) = cm_CtxID s" "cm_ReadFileState (emit ev s) = cm_ReadFileState s"
  "cm_Skills (emit ev s) = cm_Skills s" "cm_compactMu (emit ev s) = cm_compactMu s"
  "cm_CompactionDisabled (emit ev s) = cm_CompactionDisabled s"
  by (simp_all add: emit_def)

text \<open>The quiet helpers: no event, the latch as before.\<close>

definition quiet :: "'e compactor \<Rightarrow> 'e compactor \<Rightarrow> bool" where
  "quiet s s' \<longleftrightarrow> cm_events s' = cm_events s \<and> cm_CompactLatched s' = cm_CompactLatched s \<and> cm_CtxID s' = cm_CtxID s \<and>
     cm_ReadFileState s' = cm_ReadFileState s"

lemma quiet_refl [intro, simp]: "quiet s s"
  by (simp add: quiet_def)

lemma quiet_trans: "quiet s s' \<Longrightarrow> quiet s' s'' \<Longrightarrow> quiet s s''"
  by (simp add: quiet_def)

lemma quiet_on_mgr: "on_mgr f s = (r, s') \<Longrightarrow> quiet s s'"
  by (simp add: quiet_def on_mgr_eq)

lemma quiet_clearAtLeastNow: "clearAtLeastNow e s = (n, s') \<Longrightarrow> quiet s s'"
  by (auto simp: clearAtLeastNow_def split: prod.splits sum.splits dest: quiet_on_mgr)

lemma quiet_fallback: "runMechanicalFallback t s = (r, s') \<Longrightarrow> quiet s s'"
  by (auto simp: runMechanicalFallback_def Let_def split: prod.splits sum.splits if_splits
      dest!: quiet_on_mgr intro: quiet_trans)

lemma quiet_active_plan: "active_plan e s = (p, s') \<Longrightarrow> quiet s s'"
  by (auto simp: active_plan_def split: prod.splits sum.splits dest: quiet_on_mgr)

lemma quiet_compact_opts: "compact_opts e t s = (opts, s') \<Longrightarrow> quiet s s'"
  by (auto simp: compact_opts_def split: prod.splits dest: quiet_active_plan)

lemma quiet_run_compact: "run_compact e opts s = (r, s') \<Longrightarrow> quiet s s'"
  by (auto simp: run_compact_def dest: quiet_on_mgr)

lemma quiet_top_up: "precompact_top_up e n a s = (r, s') \<Longrightarrow> quiet s s'"
  by (auto simp: precompact_top_up_def split: prod.splits dest!: quiet_clearAtLeastNow quiet_fallback intro: quiet_trans)

lemma quiet_resume: "reclaimForResume s = (r, s') \<Longrightarrow> quiet s s'"
  by (auto simp: reclaimForResume_def Let_def split: prod.splits dest: quiet_fallback)

lemma quiet_unload: "quiet s (unloadForResume e n s)"
proof (cases "SlotUsage (cm_CtxID s) (cm_mgr s)")
  case (Inr u)
  obtain used mx where u: "u = (used, mx)" by (cases u)
  obtain l s1 where l: "clearAtLeastNow e s = (l, s1)" by fastforce
  have "quiet s (snd (runMechanicalFallback t s1))" for t
    using quiet_clearAtLeastNow [OF l] quiet_fallback [of t s1] by (metis prod.collapse quiet_trans)
  then show ?thesis using Inr u l by (simp add: unloadForResume_def Let_def)
qed (simp add: unloadForResume_def)

section \<open>One failure\<close>

text \<open>
  The life of the automatic compaction as its events tell it: ready, in an attempt, failed (until the
  latch is reported), latched. Precompaction and reclaiming happen beside it. \<open>None\<close>: a sequence the
  automaton does not have.
\<close>

datatype auto_state = AutoReady | AutoAttempt | AutoFailed | AutoLatched

fun auto_event :: "auto_state \<Rightarrow> compact_event \<Rightarrow> auto_state option" where
  "auto_event a (CompactStarted n) = (if a = AutoReady then Some AutoAttempt else None)"
| "auto_event a (CompactFailed n t r) =
     (if t = ''token_threshold'' then (if a = AutoAttempt then Some AutoFailed else None)
      else if a \<in> {AutoReady, AutoLatched} then Some a else None)"
| "auto_event a (CompactDone n t r) =
     (if t = ''token_threshold'' then (if a = AutoAttempt then Some AutoReady else None)
      else if a \<in> {AutoReady, AutoLatched} then Some a else None)"
| "auto_event a (CompactLatch n) = (if a = AutoFailed then Some AutoLatched else None)"
| "auto_event a CompactUnlatched = (if a = AutoLatched then Some AutoReady else None)"
| "auto_event a (CompactTopUp n r) = (if a \<in> {AutoReady, AutoLatched} then Some a else None)"
| "auto_event a (CtxReclaim n r) = (if a \<in> {AutoReady, AutoLatched} then Some a else None)"

definition auto_run :: "compact_event list \<Rightarrow> auto_state option" where
  "auto_run evs = fold_opt (\<lambda>ev a. auto_event a ev) evs AutoReady"

text \<open>What may happen to a process: the operations of the file, each with its own surroundings.\<close>

datatype 'e compact_op =
    OpReclaim "'e compact_env" int
  | OpAuto "'e compact_env" int
  | OpPrecompact "'e compact_env" nat int
  | OpResumeReclaim
  | OpUnload "'e compact_env" int
  | OpClearLatch
  | OpTrackRead string string int
  | OpOthers "'e Manager \<Rightarrow> 'e Manager" bool

fun compact_do :: "'e compact_op \<Rightarrow> 'e compactor \<Rightarrow> 'e compactor" where
  "compact_do (OpReclaim e step) s = reclaimLeakedIfNeeded e step s"
| "compact_do (OpAuto e step) s = autoCompactIfNeeded e step s"
| "compact_do (OpPrecompact e n step) s = snd (preCompactForToolCalls e n step s)"
| "compact_do OpResumeReclaim s = snd (reclaimForResume s)"
| "compact_do (OpUnload e n) s = unloadForResume e n s"
| "compact_do OpClearLatch s = ClearCompactLatch s"
| "compact_do (OpTrackRead path content now) s = trackReadFile path content now s"
| "compact_do (OpOthers f busy) s = s\<lparr>cm_mgr := f (cm_mgr s), cm_compactMu := busy\<rparr>"

definition automaton_agrees :: "'e compactor \<Rightarrow> bool" where
  "automaton_agrees s \<longleftrightarrow> auto_run (cm_events s) = Some (if cm_CompactLatched s then AutoLatched else AutoReady)"

lemma fold_opt_snoc: "fold_opt f (xs @ [x]) b = Option.bind (fold_opt f xs b) (f x)"
  by (induction xs arbitrary: b) (auto split: option.split)

lemma auto_run_snoc: "auto_run (evs @ [ev]) = Option.bind (auto_run evs) (\<lambda>a. auto_event a ev)"
  by (simp add: auto_run_def fold_opt_snoc)

lemma auto_run_two: "auto_run (evs @ [ev, ev']) = Option.bind (auto_run (evs @ [ev])) (\<lambda>a. auto_event a ev')"
  using auto_run_snoc [of "evs @ [ev]" ev'] by simp

lemma quiet_agrees: "quiet s s' \<Longrightarrow> automaton_agrees s' = automaton_agrees s"
  by (simp add: quiet_def automaton_agrees_def)

lemma beside_agrees:
  assumes "automaton_agrees s" and "auto_event AutoReady ev = Some AutoReady" and "auto_event AutoLatched ev = Some AutoLatched"
  shows "automaton_agrees (emit ev s)"
  using assms by (simp add: automaton_agrees_def auto_run_snoc)

lemma reclaim_agrees: "automaton_agrees s \<Longrightarrow> automaton_agrees (reclaimLeakedIfNeeded e step s)"
  unfolding reclaimLeakedIfNeeded_def Let_def
  by (auto split: prod.splits sum.splits if_splits dest!: quiet_on_mgr simp: quiet_agrees intro!: beside_agrees)

lemma clear_agrees: "automaton_agrees s \<Longrightarrow> automaton_agrees (ClearCompactLatch s)"
  by (simp add: ClearCompactLatch_def automaton_agrees_def auto_run_snoc)

lemma precompact_agrees: "automaton_agrees s \<Longrightarrow> automaton_agrees (snd (preCompactForToolCalls e n step s))"
proof -
  have c: "automaton_agrees (ClearReadFileState s') = automaton_agrees s'" for s' :: "'a compactor"
    by (simp add: automaton_agrees_def ClearReadFileState_def)
  assume "automaton_agrees s"
  then show ?thesis
    unfolding preCompactForToolCalls_def Let_def
    by (auto split: prod.splits sum.splits if_splits dest!: quiet_compact_opts quiet_run_compact quiet_top_up
        simp: quiet_agrees c intro!: beside_agrees)
qed

lemma auto_failed_events:
  assumes "\<not> cm_CompactLatched s"
  obtains fb where "cm_events (auto_failed step t usage s) = cm_events s @ [CompactFailed step t fb, CompactLatch step]"
    "cm_CompactLatched (auto_failed step t usage s)"
proof -
  obtain fb s1 where f: "runMechanicalFallback \<lparr>ft_NeedSlots = 0, ft_ClearAtLeast = clearAtLeastForLanding s usage\<rparr> s = (fb, s1)"
    by fastforce
  then show ?thesis using quiet_fallback [OF f] assms that [of fb] by (auto simp: auto_failed_def quiet_def Let_def emit_def)
qed

text \<open>An automatic step: nothing, a success, or a failure that latches.\<close>

lemma auto_cases:
  obtains (Nothing) "quiet s (autoCompactIfNeeded e step s)"
  | (Done) r where "\<not> cm_CompactLatched s" "\<not> cm_CompactLatched (autoCompactIfNeeded e step s)"
      "cm_events (autoCompactIfNeeded e step s) = cm_events s @ [CompactStarted step, CompactDone step ''token_threshold'' r]"
  | (Failed) fb where "\<not> cm_CompactLatched s" "cm_CompactLatched (autoCompactIfNeeded e step s)"
      "cm_events (autoCompactIfNeeded e step s) =
         cm_events s @ [CompactStarted step, CompactFailed step ''token_threshold'' fb, CompactLatch step]"
proof -
  consider "cm_CompactionDisabled s \<or> cm_CompactLatched s \<or> cm_compactMu s" |
    "\<not> cm_CompactionDisabled s" "\<not> cm_CompactLatched s" "\<not> cm_compactMu s" by blast
  then show ?thesis
  proof cases
    case 1
    then have "autoCompactIfNeeded e step s = s" by (auto simp: autoCompactIfNeeded_def)
    then show ?thesis using Nothing by simp
  next
    case 2
    obtain u s1 where u: "on_mgr (TokenUsage (ce_sections e) (cm_CtxID s)) s = (u, s1)" by fastforce
    obtain opts s2 where o: "compact_opts e ''token_threshold'' s1 = (opts, s2)" by fastforce
    obtain r s3 where r: "run_compact e opts (emit (CompactStarted step) s2) = (r, s3)" by fastforce
    note q = quiet_on_mgr [OF u] quiet_compact_opts [OF o] quiet_run_compact [OF r]
    have l: "\<not> cm_CompactLatched s3" and ev: "cm_events s3 = cm_events s @ [CompactStarted step]"
      using q 2(2) by (simp_all add: quiet_def)
    show ?thesis
    proof (cases u)
      case (Inl err)
      then show ?thesis using Nothing 2 u q(1) by (simp add: autoCompactIfNeeded_def)
    next
      case (Inr usage)
      note e1 = autoCompactIfNeeded_def [of e step s]
      show ?thesis
      proof (cases "percentage usage \<le> effectiveCompactThreshold s1 \<or>
          not_worth_compacting (EstimateTokens (cm_FinalSystemPrompt s2)) opts usage")
        case True
        then show ?thesis using Nothing 2 u Inr o q(1) quiet_trans [OF q(1) q(2)] by (auto simp: e1)
      next
        case False
        show ?thesis
        proof (cases r)
          case (Inl err)
          then have "autoCompactIfNeeded e step s = auto_failed step ''token_threshold'' usage s3"
            using 2 u Inr o r False by (simp add: e1)
          then show ?thesis using auto_failed_events [OF l] Failed 2(2) ev by (metis append.assoc append_Cons append_Nil)
        next
          case (Inr res)
          then have "autoCompactIfNeeded e step s =
              emit (CompactDone step ''token_threshold'' res) ((ClearReadFileState s3)\<lparr>cm_CompactLatched := False\<rparr>)"
            using 2 u \<open>u = Inr usage\<close> o r False by (simp add: e1)
          then show ?thesis using Done [of res] 2(2) ev by (simp add: emit_def ClearReadFileState_def)
        qed
      qed
    qed
  qed
qed

lemma auto_agrees: "automaton_agrees s \<Longrightarrow> automaton_agrees (autoCompactIfNeeded e step s)"
proof (cases rule: auto_cases [of s e step])
  case (Failed fb)
  then show "automaton_agrees s \<Longrightarrow> ?thesis"
    using auto_run_snoc [of "cm_events s @ [CompactStarted step, CompactFailed step ''token_threshold'' fb]" "CompactLatch step"]
    by (simp add: automaton_agrees_def auto_run_two auto_run_snoc)
next
  case Nothing
  then show "automaton_agrees s \<Longrightarrow> ?thesis" by (simp add: quiet_agrees)
qed (simp_all add: automaton_agrees_def auto_run_two auto_run_snoc)

lemma do_agrees: "automaton_agrees s \<Longrightarrow> automaton_agrees (compact_do a s)"
proof (cases a)
  case OpResumeReclaim
  then show "automaton_agrees s \<Longrightarrow> ?thesis"
    using quiet_agrees [OF quiet_resume [of s "fst (reclaimForResume s)" "snd (reclaimForResume s)"]] by simp
next
  case (OpTrackRead path content now)
  then show "automaton_agrees s \<Longrightarrow> ?thesis" by (simp add: trackReadFile_def automaton_agrees_def)
next
  case (OpOthers f busy)
  then show "automaton_agrees s \<Longrightarrow> ?thesis" by (simp add: automaton_agrees_def)
qed (simp_all add: reclaim_agrees auto_agrees precompact_agrees clear_agrees quiet_agrees [OF quiet_unload])

lemma do_many_agrees: "automaton_agrees s \<Longrightarrow> automaton_agrees (fold compact_do ops s)"
  by (induction ops arbitrary: s) (simp_all add: do_agrees)

text \<open>A run of the automaton has at most one failure more than it was unlatched.\<close>

definition auto_failures :: "compact_event list \<Rightarrow> nat" where
  "auto_failures evs = length (filter (\<lambda>ev. case ev of CompactFailed n t r \<Rightarrow> t = ''token_threshold'' | _ \<Rightarrow> False) evs)"

definition unlatchings :: "compact_event list \<Rightarrow> nat" where
  "unlatchings evs = length (filter (\<lambda>ev. ev = CompactUnlatched) evs)"

lemma auto_failures_bound:
  "auto_run evs = Some a \<Longrightarrow> auto_failures evs = unlatchings evs + (if a \<in> {AutoFailed, AutoLatched} then 1 else 0)"
proof (induction evs arbitrary: a rule: rev_induct)
  case Nil
  then show ?case by (auto simp: auto_run_def auto_failures_def unlatchings_def)
next
  case (snoc ev evs)
  from snoc.prems obtain b where b: "auto_run evs = Some b" "auto_event b ev = Some a"
    by (auto simp: auto_run_snoc bind_eq_Some_conv)
  from snoc.IH [OF b(1)] b(2) show ?case
    by (cases ev) (auto simp: auto_failures_def unlatchings_def split: if_splits)
qed


definition demo_env :: "llm \<Rightarrow> unit compact_env" where
  "demo_env call = \<lparr>ce_llm = call, ce_skillLoader = None, ce_scale = (\<lambda>n b t. n), ce_prompt = (\<lambda>i. i), ce_sections = (),
     ce_others = (\<lambda>m. m)\<rparr>"

definition demo_compactor :: "ctx_Message list \<Rightarrow> int \<Rightarrow> int \<Rightarrow> unit compactor" where
  "demo_compactor msgs maxSize tokenLimit =
     \<lparr>cm_mgr = \<lparr>mgr_contexts = [1 \<mapsto> \<lparr>cx_ID = 1, cx_SystemPrompt = [], cx_Sections = None, cx_Messages = msgs,
                                cx_MaxSize = maxSize, cx_TokenLimit = tokenLimit\<rparr>], mgr_nextID = 1\<rparr>,
      cm_CtxID = 1, cm_FinalSystemPrompt = [], cm_CompactionDisabled = False, cm_CompactLatched = False, cm_compactMu = False,
      cm_CompactThreshold = 0, cm_ReadFileState = [], cm_Skills = [], cm_events = []\<rparr>"


section \<open>Room for a tool round\<close>

definition keeps_contexts :: "'e compactor \<Rightarrow> 'e compactor \<Rightarrow> bool" where
  "keeps_contexts s s' \<longleftrightarrow> cm_CtxID s' = cm_CtxID s \<and> dom (mgr_contexts (cm_mgr s')) = dom (mgr_contexts (cm_mgr s))"

lemma keeps_trans: "keeps_contexts s s' \<Longrightarrow> keeps_contexts s' s'' \<Longrightarrow> keeps_contexts s s''"
  by (simp add: keeps_contexts_def)

lemma on_context_dom: "dom (mgr_contexts (snd (on_context opn cid f m))) = dom (mgr_contexts m)"
  by (cases "mgr_contexts m cid") (auto simp: on_context_def split: prod.split)

lemma keeps_on_mgr:
  assumes "on_mgr f s = (r, s')" and "\<And>m. dom (mgr_contexts (snd (f m))) = dom (mgr_contexts m)"
  shows "keeps_contexts s s'"
  using assms by (simp add: keeps_contexts_def on_mgr_eq [OF assms(1)])

lemmas mgr_doms = on_context_dom TokenUsage_def BuildPrompt_def PruneToolResults_def DropOldestRounds_def

lemma keeps_usage: "on_mgr (TokenUsage x cid) s = (r, s') \<Longrightarrow> keeps_contexts s s'"
  by (erule keeps_on_mgr) (simp add: mgr_doms)

lemma keeps_prune: "on_mgr (PruneToolResults cid opts) s = (r, s') \<Longrightarrow> keeps_contexts s s'"
  by (erule keeps_on_mgr) (simp add: mgr_doms)

lemma keeps_drop: "on_mgr (DropOldestRounds cid opts) s = (r, s') \<Longrightarrow> keeps_contexts s s'"
  by (erule keeps_on_mgr) (simp add: mgr_doms)

lemma keeps_fallback: "runMechanicalFallback t s = (r, s') \<Longrightarrow> keeps_contexts s s'"
  by (auto simp: runMechanicalFallback_def Let_def split: prod.splits sum.splits if_splits
      dest!: keeps_prune keeps_drop intro: keeps_trans)

lemma keeps_top_up: "precompact_top_up e n a s = (r, s') \<Longrightarrow> keeps_contexts s s'"
  by (auto simp: precompact_top_up_def clearAtLeastNow_def split: prod.splits sum.splits
      dest!: keeps_usage keeps_fallback intro: keeps_trans)

lemma keeps_compact_opts: "compact_opts e t s = (opts, s') \<Longrightarrow> keeps_contexts s s'"
proof -
  have "on_mgr (BuildPrompt x cid) s = (r, s') \<Longrightarrow> keeps_contexts s s'" for x cid r s'
    by (erule keeps_on_mgr) (simp add: mgr_doms)
  then show "compact_opts e t s = (opts, s') \<Longrightarrow> ?thesis"
    by (fastforce simp: compact_opts_def active_plan_def split: prod.splits sum.splits)
qed

lemma compact_commit_dom: "dom (mgr_contexts (compact_commit cid ms m)) = dom (mgr_contexts m)"
  by (auto simp: compact_commit_def split: option.split)

lemma keeps_run_compact:
  assumes "run_compact e opts s = (r, s')" and "ce_others e = (\<lambda>m. m)"
  shows "keeps_contexts s s'"
  using assms(1) unfolding run_compact_def
  by (rule keeps_on_mgr) (auto simp: Compact_def Let_def assms(2) compact_commit_dom split: option.splits sum.splits)

lemma slots_decide_append:
  assumes "mgr_contexts (cm_mgr s) (cm_CtxID s) = Some c" and "length calls < 2147483647"
  shows "1 + int (length calls) \<le> slots_or_zero s \<longleftrightarrow>
    fst (AppendAssistantWithToolCalls (cm_CtxID s) content reasoning blocks calls (cm_mgr s)) = Inr ()"
  using assms
  by (auto simp: slots_or_zero_def AvailableSlots_def AppendAssistantWithToolCalls_def on_context_Some Let_def unlimitedSlots_def)

text \<open>A pre-compaction without error leaves the slots, one with an error does not.\<close>

lemma top_up_verdict:
  "precompact_top_up e n a s = ((fb, ok), s') \<Longrightarrow> ok \<longleftrightarrow> n \<le> slots_or_zero s'"
  by (auto simp: precompact_top_up_def split: prod.splits)

lemma keeps_emit [simp]: "keeps_contexts s (emit ev s') = keeps_contexts s s'"
  by (simp add: keeps_contexts_def)

lemma keeps_clear [simp]: "keeps_contexts s (ClearReadFileState s') = keeps_contexts s s'"
  by (simp add: keeps_contexts_def ClearReadFileState_def)

lemma slots_emit [simp]: "slots_or_zero (emit ev s) = slots_or_zero s"
  by (simp add: slots_or_zero_def)

lemma precompact_verdict:
  assumes "preCompactForToolCalls e n step s = (ok, s')" and "\<not> cm_compactMu s" and "ce_others e = (\<lambda>m. m)"
    and "mgr_contexts (cm_mgr s) (cm_CtxID s) \<noteq> None"
  shows "keeps_contexts s s' \<and> (ok \<longleftrightarrow> 1 + int n \<le> slots_or_zero s')"
proof -
  obtain avail where av: "AvailableSlots (cm_CtxID s) (cm_mgr s) = Inr avail"
    using assms(4) by (auto simp: AvailableSlots_def)
  obtain opts s1 where o: "compact_opts e ''precompact'' s = (opts, s1)" by fastforce
  obtain r s2 where r: "run_compact e opts s1 = (r, s2)" by fastforce
  note k2 = keeps_trans [OF keeps_compact_opts [OF o] keeps_run_compact [OF r assms(3)]]
  show ?thesis
  proof (cases "1 + int n \<le> avail")
    case True
    then show ?thesis using assms(1) av by (auto simp: preCompactForToolCalls_def slots_or_zero_def keeps_contexts_def)
  next
    case short: False
    show ?thesis
    proof (cases r)
      case (Inl err)
      obtain fb ok' s3 where t: "precompact_top_up e (1 + int n) avail s2 = ((fb, ok'), s3)" by (metis prod_cases3 surj_pair)
      have "preCompactForToolCalls e n step s = (ok', emit (CompactFailed step ''precompact'' fb) s3)"
        using short assms(2) av o r t Inl by (simp add: preCompactForToolCalls_def)
      then show ?thesis using assms(1) top_up_verdict [OF t] keeps_trans [OF k2 keeps_top_up [OF t]] by auto
    next
      case (Inr res)
      let ?s3 = "emit (CompactDone step ''precompact'' res) (ClearReadFileState s2)"
      obtain fb ok' s4 where t: "precompact_top_up e (1 + int n) (slots_or_zero ?s3) ?s3 = ((fb, ok'), s4)"
        by (metis prod_cases3 surj_pair)
      have k3: "keeps_contexts s ?s3" using k2 by simp
      have "preCompactForToolCalls e n step s =
          (if 1 + int n \<le> slots_or_zero ?s3 then (True, ?s3) else (ok', emit (CompactTopUp step fb) s4))"
        using short assms(2) av o r t Inr by (simp add: preCompactForToolCalls_def Let_def)
      then show ?thesis using assms(1) top_up_verdict [OF t] keeps_trans [OF k3 keeps_top_up [OF t]] k3
        by (auto split: if_splits)
    qed
  qed
qed


definition demo_rounds :: "unit compactor" where
  "demo_rounds = demo_compactor
     (concat (replicate 3 [plain_message RoleUser ''a'', plain_message RoleAssistant ''b''])) 7 0"

lemma demo_rounds_room:
  "fst (preCompactForToolCalls (demo_env (\<lambda>n ms. Inl ''down'')) 2 1 demo_rounds)"
  "\<not> fst (preCompactForToolCalls (demo_env (\<lambda>n ms. Inl ''down'')) 7 1 demo_rounds)"
  by code_simp+


section \<open>The plan\<close>

lemma build_system_messages [simp]: "cx_Messages (snd (build_system x c)) = cx_Messages c"
  by (auto simp: build_system_def split: option.split prod.split)

text \<open>Reading the usage or the prompt may compute sections, the messages stay.\<close>

lemma usage_messages:
  assumes "on_mgr (TokenUsage x cid) s = (r, s')" and "mgr_contexts (cm_mgr s) cid = Some c"
  obtains c' where "mgr_contexts (cm_mgr s') cid = Some c'" "cx_Messages c' = cx_Messages c"
proof -
  let ?f = "\<lambda>c. case build_system x c of (t, c') \<Rightarrow>
       (Inr \<lparr>tst_Used = EstimateTokens t + estimateMessagesTokens (cx_Messages c), tst_Limit = effectiveTokenLimit c,
             tst_SlotUsed = length (cx_Messages c), tst_SlotMax = cx_MaxSize c\<rparr>, c')"
  have "cx_Messages (snd (?f c :: (ContextError + TokenStats) \<times> _)) = cx_Messages c"
    using build_system_messages [of x c] by (cases "build_system x c") simp
  moreover have "mgr_contexts (cm_mgr s') cid = Some (snd (?f c :: (ContextError + TokenStats) \<times> _))"
    using on_mgr_eq(5) [OF assms(1)] by (simp add: TokenUsage_def on_context_Some [OF assms(2)])
  ultimately show ?thesis by (rule that [rotated])
qed

lemma active_plan_messages:
  assumes "active_plan e s = (p, s')" and "mgr_contexts (cm_mgr s) (cm_CtxID s) = Some c"
  obtains c' where "mgr_contexts (cm_mgr s') (cm_CtxID s) = Some c'" "cx_Messages c' = cx_Messages c"
    "p = extractActivePlan (cx_Messages c)" "cm_CtxID s' = cm_CtxID s"
proof -
  obtain t c' where b: "build_system (ce_sections e) c = (t, c')" by fastforce
  then have "cx_Messages c' = cx_Messages c" using build_system_messages [of "ce_sections e" c] by simp
  then show ?thesis using assms that [of c'] b
    by (auto simp: active_plan_def on_mgr_def BuildPrompt_def on_context_Some)
qed

lemma run_compact_success:
  assumes "run_compact e opts s = (Inr r, s')" and "ce_others e = (\<lambda>m. m)" and "mgr_contexts (cm_mgr s) (cm_CtxID s) = Some c"
  obtains c' summary where "mgr_contexts (cm_mgr s') (cm_CtxID s) = Some c'"
    "cx_Messages c' = compact_replacement opts (estimateMessagesTokens (cx_Messages c)) summary"
proof -
  let ?C = "Compact (ce_scale e) (ce_prompt e) (ce_others e) (cm_CtxID s) opts (cm_mgr s)"
  have f: "fst ?C = Inr r" and m: "cm_mgr s' = snd ?C"
    using assms(1) by (auto simp: run_compact_def on_mgr_def split: prod.splits)
  from Compact_success [OF f] obtain summary where
    "snd ?C = compact_commit (cm_CtxID s) (compact_replacement opts (estimateMessagesTokens (cx_Messages c)) summary) (cm_mgr s)"
    using assms(2,3) by auto
  then show ?thesis using that assms(3) by (simp add: m compact_commit_def)
qed

lemma auto_done:
  assumes "cm_events (autoCompactIfNeeded e step s) = cm_events s @ [CompactStarted step, CompactDone step t r]"
    and "ce_others e = (\<lambda>m. m)" and "mgr_contexts (cm_mgr s) (cm_CtxID s) = Some c"
  obtains c' opts n summary where "mgr_contexts (cm_mgr (autoCompactIfNeeded e step s)) (cm_CtxID s) = Some c'"
    "cx_Messages c' = compact_replacement opts n summary" "co_ActivePlan opts = extractActivePlan (cx_Messages c)"
proof -
  let ?s' = "autoCompactIfNeeded e step s"
  have g: "\<not> (cm_CompactionDisabled s \<or> cm_CompactLatched s \<or> cm_compactMu s)"
  proof
    assume "cm_CompactionDisabled s \<or> cm_CompactLatched s \<or> cm_compactMu s"
    then have "?s' = s" by (auto simp: autoCompactIfNeeded_def)
    with assms(1) show False by simp
  qed
  obtain u s1 where u: "on_mgr (TokenUsage (ce_sections e) (cm_CtxID s)) s = (u, s1)" by fastforce
  obtain usage where us: "u = Inr usage"
    using assms(1) g u quiet_on_mgr [OF u] by (cases u) (auto simp: autoCompactIfNeeded_def quiet_def)
  obtain opts s2 where o: "compact_opts e ''token_threshold'' s1 = (opts, s2)" by fastforce
  note q2 = quiet_trans [OF quiet_on_mgr [OF u] quiet_compact_opts [OF o]]
  have t: "\<not> percentage usage \<le> effectiveCompactThreshold s1"
    "\<not> not_worth_compacting (EstimateTokens (cm_FinalSystemPrompt s2)) opts usage"
    using assms(1) g u us o quiet_on_mgr [OF u] q2 by (auto simp: autoCompactIfNeeded_def quiet_def split: if_splits)
  obtain rr s3 where r: "run_compact e opts (emit (CompactStarted step) s2) = (rr, s3)" by fastforce
  have ev: "cm_events s3 = cm_events s @ [CompactStarted step]" "\<not> cm_CompactLatched s3"
    using quiet_run_compact [OF r] q2 g by (simp_all add: quiet_def)
  obtain res where res: "rr = Inr res"
  proof (cases rr)
    case (Inl err)
    then have "?s' = auto_failed step ''token_threshold'' usage s3" using g u us o r t by (simp add: autoCompactIfNeeded_def)
    then show ?thesis using auto_failed_events [OF ev(2), of step "''token_threshold''" usage] assms(1) ev(1) by auto
  qed
  have s': "cm_mgr ?s' = cm_mgr s3" using g u us o r t res by (simp add: autoCompactIfNeeded_def emit_def ClearReadFileState_def)
  have id: "cm_CtxID s1 = cm_CtxID s" using on_mgr_eq(3) [OF u] .
  obtain c1 where c1: "mgr_contexts (cm_mgr s1) (cm_CtxID s1) = Some c1" "cx_Messages c1 = cx_Messages c"
    using usage_messages [OF u assms(3)] id by metis
  obtain p where p: "active_plan e s1 = (p, s2)" "co_ActivePlan opts = p"
    using o by (auto simp: compact_opts_def split: prod.splits)
  from active_plan_messages [OF p(1) c1(1)] obtain c2 where
    c2: "mgr_contexts (cm_mgr s2) (cm_CtxID s1) = Some c2" "p = extractActivePlan (cx_Messages c1)" "cm_CtxID s2 = cm_CtxID s1" by metis
  have "mgr_contexts (cm_mgr (emit (CompactStarted step) s2)) (cm_CtxID (emit (CompactStarted step) s2)) = Some c2"
    using c2(1,3) by simp
  from run_compact_success [OF r [unfolded res] assms(2) this] obtain c' summary where
    "mgr_contexts (cm_mgr s3) (cm_CtxID s2) = Some c'" "cx_Messages c' = compact_replacement opts (estimateMessagesTokens (cx_Messages c2)) summary"
    by auto
  then show ?thesis using that [of c' opts _ summary] s' c2(2,3) id p(2) c1(2) by simp
qed

definition is_plan :: "ctx_Message \<Rightarrow> bool" where
  "is_plan m \<longleftrightarrow> m_Role m = RoleAssistant \<and> take 6 (m_Content m) = ''[Plan]''"

lemma no_plan: "(\<forall>m \<in> set msgs. \<not> is_plan m) \<Longrightarrow> extractActivePlan msgs = []"
proof -
  assume "\<forall>m \<in> set msgs. \<not> is_plan m"
  then have "find is_plan (rev msgs) = None" by (simp add: find_None_iff)
  then show ?thesis by (simp add: extractActivePlan_def is_plan_def [abs_def])
qed

text \<open>
  The plan survives one compaction only. The first restores it as a user message, but the search
  for the active plan looks at assistant messages: after a successful compaction it finds none, whatever
  follows except a new plan, and the next compaction restores nothing of it.
\<close>

lemma second_compaction_loses_plan:
  assumes "cm_events (autoCompactIfNeeded e step s) = cm_events s @ [CompactStarted step, CompactDone step t r]"
    and "ce_others e = (\<lambda>m. m)" and "mgr_contexts (cm_mgr s) (cm_CtxID s) = Some c"
  shows "\<exists>c'. mgr_contexts (cm_mgr (autoCompactIfNeeded e step s)) (cm_CtxID s) = Some c' \<and>
    (extractActivePlan (cx_Messages c) \<noteq> [] \<longrightarrow>
       plain_message RoleUser (''[Post-compact restore: plan]'' @ [CHR 0x0A] @ extractActivePlan (cx_Messages c)) \<in> set (cx_Messages c')) \<and>
    (\<forall>later. (\<forall>m \<in> set later. \<not> is_plan m) \<longrightarrow> extractActivePlan (cx_Messages c' @ later) = [])"
proof -
  from auto_done [OF assms] obtain c' opts n summary where c':
    "mgr_contexts (cm_mgr (autoCompactIfNeeded e step s)) (cm_CtxID s) = Some c'"
    "cx_Messages c' = compact_replacement opts n summary" "co_ActivePlan opts = extractActivePlan (cx_Messages c)" by blast
  have "\<forall>m \<in> set (cx_Messages c'). \<not> is_plan m"
    using replacement_users unfolding c'(2) by (fastforce simp: is_plan_def role_defs)
  then have "(\<forall>m \<in> set later. \<not> is_plan m) \<Longrightarrow> extractActivePlan (cx_Messages c' @ later) = []" for later
    using no_plan [of "cx_Messages c' @ later"] by auto
  moreover have "co_ActivePlan opts \<noteq> [] \<Longrightarrow>
      plain_message RoleUser (''[Post-compact restore: plan]'' @ [CHR 0x0A] @ co_ActivePlan opts) \<in> set (cx_Messages c')"
    unfolding c'(2) by (simp add: compact_replacement_def restore_all_def restorePlan_def)
  ultimately show ?thesis using c'(1) by (auto simp flip: c'(3))
qed

definition planned_messages :: "ctx_Message list" where
  "planned_messages = [plain_message RoleUser (replicate 60 (CHR ''x'')), plain_message RoleAssistant ''[Plan] one, two, three'']"

definition planned :: "unit compactor" where
  "planned = demo_compactor planned_messages 0 1"

lemma planned_facts:
  "estimateMessagesTokens planned_messages = 25" "length planned_messages = 2"
  "EstimateMessageTokens (plain_message RoleUser (CHR ''['' # ''Post-compact restore: plan]'' @ [CHR 0x0A] @ ''[Plan] one, two, three'')) = 15"
  by code_simp+

lemma planned_plan: "extractActivePlan planned_messages = ''[Plan] one, two, three''"
  by code_simp

lemma planned_compacts:
  "cm_events (autoCompactIfNeeded (demo_env (\<lambda>n ms. Inr ''s'')) 4 planned) \<noteq> [] \<and>
   \<not> cm_CompactLatched (autoCompactIfNeeded (demo_env (\<lambda>n ms. Inr ''s'')) 4 planned)"
proof -
  have p: "estimateMessagesTokens planned_messages = 25" "length planned_messages = Suc (Suc 0)"
    using planned_facts by simp_all
  show ?thesis using planned_facts(3)
    by (simp add: autoCompactIfNeeded_def planned_def demo_compactor_def demo_env_def on_mgr_def TokenUsage_def on_context_def
      getContext_def put_context_def build_system_def p percentage_def effectiveTokenLimit_def effectiveCompactThreshold_def
      DefaultCompactThreshold_def compact_opts_def active_plan_def BuildPrompt_def BuildActiveSkills_def not_worth_compacting_def
      EstimateRestoreTokens_def restoreFiles_def restoreSkills_def restorePlan_def EstimateTokens_def minCompactionFractionPct_def
      planned_plan run_compact_def emit_def Compact_def minMessagesForCompact_def compact_summary_def compactWithPTLRetry_def
      shrinkToolResultsForCompact_def maxPTLRetries_def numeral_eq_Suc ClearReadFileState_def Let_def)
qed

end
