(* ===== verification/ToolExecProps.thy ===== *)
theory ToolExecProps
  imports ToolExec AutoCompactProps
begin

text \<open>
  What a step's tool calls leave in the conversation: one result per call, in order, right behind the
  message that made the calls, for every mix of parse errors, unknown tools, VFS calls and the actions
  that answer; and how the plan action breaks that order.
\<close>

section \<open>The conversation under the shared steps\<close>

definition conversation :: "('e, 'w) tool_state \<Rightarrow> 'e Context option" where
  "conversation s = mgr_contexts (cm_mgr (tl_comp s)) (cm_CtxID (tl_comp s))"

lemma conversation_same [simp]:
  "conversation (upd_kern f s) = conversation s" "conversation (finish e p code reason err s) = conversation s"
  "conversation (s\<lparr>tl_breaker := b\<rparr>) = conversation s" "conversation (s\<lparr>tl_records := r\<rparr>) = conversation s"
  "conversation (s\<lparr>tl_perms := pm\<rparr>) = conversation s" "conversation (s\<lparr>tl_world := w\<rparr>) = conversation s"
  "conversation (s\<lparr>tl_kern := k\<rparr>) = conversation s" "conversation (s\<lparr>tl_SkillBodies := bs\<rparr>) = conversation s"
  "conversation (s\<lparr>tl_SkillDirs := bs\<rparr>) = conversation s" "conversation (set_skills p skills s) = conversation s"
  by (simp_all add: conversation_def upd_kern_def finish_def set_skills_def)

text \<open>\<open>answered s s' id\<close>: the conversation of \<open>s'\<close> has one message more, a result for the call \<open>id\<close>.\<close>

definition answered :: "('e, 'w) tool_state \<Rightarrow> ('e, 'w) tool_state \<Rightarrow> string \<Rightarrow> bool" where
  "answered s s' callID \<longleftrightarrow>
     (\<exists>c content. conversation s = Some c \<and>
        conversation s' = Some (c\<lparr>cx_Messages := cx_Messages c @ [tool_message (callID, content)]\<rparr>))"

definition room_for :: "nat \<Rightarrow> ('e, 'w) tool_state \<Rightarrow> bool" where
  "room_for n s \<longleftrightarrow> (\<exists>c. conversation s = Some c \<and> (cx_MaxSize c \<le> 0 \<or> int (length (cx_Messages c) + n) \<le> cx_MaxSize c))"

lemma append_room:
  assumes "room_for 1 s"
  obtains s' where "appendToolResult callID content s = (True, s')" "append_ignoring callID content s = s'"
    "answered s s' callID" "tl_kern s' = tl_kern s" "tl_breaker s' = tl_breaker s" "tl_perms s' = tl_perms s"
proof -
  obtain c where c: "conversation s = Some c" "\<not> is_full c" using assms by (auto simp: room_for_def is_full_def)
  let ?c = "c\<lparr>cx_Messages := cx_Messages c @ [tool_message (callID, content)]\<rparr>"
  let ?s = "s\<lparr>tl_comp := (tl_comp s)\<lparr>cm_mgr := put_context (cm_CtxID (tl_comp s)) ?c (cm_mgr (tl_comp s))\<rparr>\<rparr>"
  have "appendToolResult callID content s = (True, ?s)"
    using c by (simp add: appendToolResult_def on_ctx_def AppendToolResult_def on_context_Some conversation_def tool_message_def)
  moreover have "answered s ?s callID" using c(1) by (auto simp: answered_def conversation_def)
  ultimately show ?thesis using that [of ?s] by (simp add: append_ignoring_def)
qed

lemma answered_cong:
  assumes "answered s s' callID" and "conversation t = conversation s" and "conversation t' = conversation s'"
  shows "answered t t' callID"
  using assms by (simp add: answered_def)

lemma room_cong: "conversation t = conversation s \<Longrightarrow> room_for n t = room_for n s"
  by (simp add: room_for_def)

lemma answered_room: "answered s s' callID \<Longrightarrow> room_for (Suc n) s \<Longrightarrow> room_for n s'"
  by (auto simp: answered_def room_for_def)

lemma breaker_error_same: "breaker_error e p code path s = (t, s') \<Longrightarrow> conversation s' = conversation s"
  by (auto simp: breaker_error_def Let_def split: prod.splits if_splits)

section \<open>Calls that answer\<close>

text \<open>
  The calls whose result follows at once: all but the actions that end the process (\<open>Complete\<close>), write
  a message of their own (\<open>EnterPlanMode\<close>, a skill body without a section registry) or do nothing.
\<close>

definition answering :: "proc_config \<Rightarrow> llmToolCall \<Rightarrow> bool" where
  "answering p tc \<longleftrightarrow>
     lc_ParseError tc \<noteq> [] \<or> lc_Name tc = ''think'' \<or> lc_Name tc = ''thinking'' \<or>
     (case resolve_tool (pc_toolMap p) (lc_Name tc) of
        None \<Rightarrow> True
      | Some mapping \<Rightarrow> tm_Type mapping = ''vfs'' \<or>
          tm_Type mapping = ''meta'' \<and>
          (tm_Action mapping \<in> {ActionSpawn, ActionReplan, ActionDiscoverSkill, ActionDeferredSkillPlaceholder} \<or>
           tm_Action mapping = ActionSpecialize \<and> pc_HasSections p))"

lemma append_ignoring_answers: "room_for 1 s \<Longrightarrow> answered s (append_ignoring callID content s) callID"
  by (metis append_room)

lemma failed_call_answers:
  assumes "room_for 1 s" and "failed_call e p tc code msg s = (ctl, s')"
  shows "answered s s' (lc_ID tc) \<and> ctl \<in> {LoopNext, LoopReturn}"
proof -
  obtain s1 where s1: "appendToolResult (lc_ID tc) msg s = (True, s1)" "answered s s1 (lc_ID tc)"
    using append_room [OF assms(1)] by metis
  obtain t s2 where t: "breaker_error e p code (lc_Name tc) s1 = (t, s2)" by fastforce
  show ?thesis using assms(2) s1 t answered_cong [OF s1(2) refl breaker_error_same [OF t]]
    by (auto simp: failed_call_def split: if_splits)
qed

lemma vfs_call_answers:
  assumes "room_for 1 s" and "vfs_call e p tc mapping s = (ctl, s')"
  shows "answered s s' (lc_ID tc) \<and> ctl \<in> {LoopNext, LoopReturn}"
proof -
  let ?s0 = "upd_kern (updProc (pc_PID p) IncToolCallCount) s"
  obtain r s1 where x: "executeVFSTool e tc mapping ?s0 = (r, s1)" by fastforce
  have conv: "conversation s1 = conversation s"
    using x by (auto simp: executeVFSTool_def split: option.splits prod.splits)
  then have room: "room_for 1 s1" using assms(1) room_cong by metis
  show ?thesis
  proof (cases r)
    case (Inr result)
    obtain s2 where s2: "appendToolResult (lc_ID tc) result s1 = (True, s2)" "answered s1 s2 (lc_ID tc)"
      using append_room [OF room] by metis
    show ?thesis using assms(2) x Inr s2(1) answered_cong [OF s2(2) conv [symmetric], of s']
      by (auto simp: vfs_call_def vfs_succeeded_def Let_def)
  next
    case (Inl failure)
    let ?msg = "''Tool error ('' @ lc_Name tc @ ''): '' @ te_errText e (vf_err failure)"
    obtain s2 where s2: "appendToolResult (lc_ID tc) ?msg s1 = (True, s2)" "answered s1 s2 (lc_ID tc)"
      using append_room [OF room] by metis
    have "vfs_failed e p tc mapping failure s1 = (ctl, s')" using assms(2) x Inl by (simp add: vfs_call_def)
    then have "conversation s' = conversation s2 \<and> ctl \<in> {LoopNext, LoopReturn}"
      using s2(1) by (auto simp: vfs_failed_def Let_def split: if_splits prod.splits dest: breaker_error_same)
    then show ?thesis using answered_cong [OF s2(2) conv [symmetric]] by blast
  qed
qed

lemma spawn_error_answers:
  assumes "room_for 1 s" and "spawn_error e p tc msg cancelled s = (r, s')"
  shows "answered s s' (lc_ID tc)"
  using assms(2) append_ignoring_answers [OF assms(1), of "lc_ID tc" msg]
  by (auto simp: spawn_error_def Let_def split: if_splits prod.splits dest!: breaker_error_same intro: answered_cong)

lemma child_finished_answers:
  assumes "room_for 1 s" and "child_finished e p tc childPID st res s = (r, s')"
  shows "answered s s' (lc_ID tc)"
proof -
  let ?result = "if res = [] then ''child PID '' @ print_int (int childPID) @ '' exited: '' @ exit_Reason st @
                      '' (code '' @ print_int (exit_Code st) @ '')'' else res"
  have "conversation s' = conversation (append_ignoring (lc_ID tc) ?result s)"
    using assms(2) by (auto simp: child_finished_def Let_def split: if_splits prod.splits)
  then show ?thesis using answered_cong [OF append_ignoring_answers [OF assms(1)] refl] by metis
qed

text \<open>A spawn answers the call, unless the parent is cancelled while it waits: then it returns.\<close>

lemma spawn_action_answers:
  assumes "room_for 1 s" and "spawn_action e p tc s = (r, s')"
  shows "answered s s' (lc_ID tc) \<or> \<not> r \<and> conversation s' = conversation s"
proof (cases "pc_Depth p + 1 > MaxSpawnDepth")
  case True
  then have "spawn_error e p tc (depth_message (pc_Depth p)) False s = (r, s')" using assms(2) by (simp add: spawn_action_def)
  from spawn_error_answers [OF assms(1) this] show ?thesis ..
next
  case deep: False
  show ?thesis
  proof (cases "resolve_agent e (input_str tc ''agent'')")
    case (Inl err)
    then have "spawn_error e p tc (fst err) (snd err) s = (r, s')" using assms(2) deep by (auto simp: spawn_action_def split: prod.splits)
    from spawn_error_answers [OF assms(1) this] show ?thesis ..
  next
    case (Inr agent)
    obtain o1 k w where sp: "te_spawn e (spawn_opts e p tc agent s) (tl_kern s, tl_world s) = (o1, k, w)" by (metis prod_cases3)
    let ?s1 = "s\<lparr>tl_kern := k, tl_world := w\<rparr>"
    have conv: "conversation ?s1 = conversation s" by simp
    then have room: "room_for 1 ?s1" using assms(1) room_cong by metis
    note u = assms(2) deep Inr sp
    show ?thesis
    proof (cases o1)
      case (SpawnFailed err cancelled)
      then have "spawn_error e p tc (''Agent failed: '' @ te_errText e err) cancelled ?s1 = (r, s')"
        using u by (simp add: spawn_action_def Let_def)
      from spawn_error_answers [OF room this] show ?thesis using answered_cong [OF _ conv [symmetric]] by blast
    next
      case WaitCancelled
      then show ?thesis using u by (auto simp: spawn_action_def Let_def)
    next
      case (ChildExited childPID st res)
      then have "child_finished e p tc childPID st res ?s1 = (r, s')" using u by (simp add: spawn_action_def Let_def)
      from child_finished_answers [OF room this] show ?thesis using answered_cong [OF _ conv [symmetric]] by blast
    qed
  qed
qed

lemma load_skill_answers:
  assumes "room_for 1 s" and "pc_HasSections p"
  shows "answered s (load_skill e p tc skillName sk s) (lc_ID tc)"
proof -
  obtain pm added withheld where g: "specialize_grant (te_describer e) (te_registry e) (sk_AllowedTools sk) (tl_perms s) = (pm, added, withheld)"
    by (metis prod_cases3)
  let ?s1 = "set_skills p (cm_Skills (tl_comp s) @ [skillName]) s"
  let ?s2 = "?s1\<lparr>tl_perms := pm,
      tl_SkillBodies := (if sk_Body sk \<noteq> [] then AList.update skillName (skill_body sk) (tl_SkillBodies ?s1) else tl_SkillBodies ?s1),
      tl_SkillDirs := (if sk_Dir sk \<noteq> [] then AList.update skillName (sk_Dir sk) (tl_SkillDirs ?s1) else tl_SkillDirs ?s1)\<rparr>"
  let ?msg = "''skill '' @ te_quote e skillName @ '' loaded successfully'' @ (if 0 < withheld then '' ('' @ print_int withheld @
      '' declared tool(s) outside this process's permission whitelist were not granted)'' else [])"
  have e: "load_skill e p tc skillName sk s = append_ignoring (lc_ID tc) ?msg ?s2"
    unfolding load_skill_def g by (simp add: Let_def assms(2))
  have conv: "conversation ?s2 = conversation s" by (simp add: conversation_def set_skills_def upd_kern_def)
  have room: "room_for 1 ?s2" using assms(1) by (simp only: room_cong [OF conv])
  show ?thesis unfolding e by (rule answered_cong [OF append_ignoring_answers [OF room] conv [symmetric] refl])
qed

lemma specialize_action_answers:
  assumes "room_for 1 s" and "pc_HasSections p"
  shows "answered s (specialize_action e p tc s) (lc_ID tc)"
  using append_ignoring_answers [OF assms(1)] load_skill_answers [OF assms]
  by (auto simp: specialize_action_def Let_def split: option.split sum.split)

lemma meta_answers:
  assumes "room_for 1 s" and "executeMetaAction e p tc action s = (r, s')"
    and "action \<in> {ActionSpawn, ActionReplan, ActionDiscoverSkill, ActionDeferredSkillPlaceholder} \<or>
      action = ActionSpecialize \<and> pc_HasSections p"
  shows "answered s s' (lc_ID tc) \<or> \<not> r \<and> conversation s' = conversation s"
  using assms(2,3) spawn_action_answers [OF assms(1), of e p tc r s'] append_ignoring_answers [OF assms(1)]
    specialize_action_answers [OF assms(1), of p e tc]
  by (auto simp: executeMetaAction_def)

lemma tool_call_answers:
  assumes "room_for 1 s" and "tool_call e p tc s = (ctl, s')" and "answering p tc"
  shows "answered s s' (lc_ID tc) \<and> ctl \<in> {LoopNext, LoopReturn} \<or> ctl = LoopReturn \<and> conversation s' = conversation s"
proof (cases "lc_ParseError tc \<noteq> []")
  case True
  then have "\<exists>code msg. failed_call e p tc code msg s = (ctl, s')" using assms(2) by (auto simp: tool_call_def)
  then show ?thesis using failed_call_answers [OF assms(1)] by blast
next
  case parsed: False
  show ?thesis
  proof (cases "lc_Name tc = ''think'' \<or> lc_Name tc = ''thinking''")
    case True
    then show ?thesis using parsed assms(2) append_ignoring_answers [OF assms(1)] by (auto simp: tool_call_def)
  next
    case named: False
    show ?thesis
    proof (cases "resolve_tool (pc_toolMap p) (lc_Name tc)")
      case None
      then have "\<exists>code msg. failed_call e p tc code msg s = (ctl, s')"
        using parsed named assms(2) by (auto simp: tool_call_def)
      then show ?thesis using failed_call_answers [OF assms(1)] by blast
    next
      case (Some mapping)
      show ?thesis
      proof (cases "tm_Type mapping = ''vfs''")
        case True
        then have "vfs_call e p tc mapping s = (ctl, s')" using parsed named Some assms(2) by (simp add: tool_call_def)
        then show ?thesis using vfs_call_answers [OF assms(1)] by blast
      next
        case False
        obtain r s1 where m: "executeMetaAction e p tc (tm_Action mapping) s = (r, s1)" by fastforce
        have meta: "tm_Type mapping = ''meta''"
          "tm_Action mapping \<in> {ActionSpawn, ActionReplan, ActionDiscoverSkill, ActionDeferredSkillPlaceholder} \<or>
           tm_Action mapping = ActionSpecialize \<and> pc_HasSections p"
          using assms(3) parsed named Some False by (auto simp: answering_def)
        have "ctl = (if r then LoopNext else LoopReturn) \<and> s' = s1"
          using assms(2) parsed named Some meta(1) m by (auto simp: tool_call_def)
        then show ?thesis using meta_answers [OF assms(1) m meta(2)] by auto
      qed
    qed
  qed
qed

section \<open>A round\<close>

lemma tool_loop_answers:
  assumes "room_for (length calls) s" and "tool_loop e p calls s = (ctl, s')" and "\<forall>tc \<in> set calls. answering p tc"
  shows "\<exists>c results. conversation s = Some c \<and> conversation s' = Some (c\<lparr>cx_Messages := cx_Messages c @ map tool_message results\<rparr>) \<and>
    map fst results = map lc_ID (take (length results) calls) \<and> length results \<le> length calls \<and>
    (ctl = LoopNext \<and> length results = length calls \<or> ctl = LoopReturn)"
  using assms
proof (induction calls arbitrary: s)
  case Nil
  then show ?case by (auto simp: room_for_def intro: exI [of _ "[]"])
next
  case (Cons tc calls)
  obtain ctl1 s1 where t: "tool_call e p tc s = (ctl1, s1)" by fastforce
  obtain c where c: "conversation s = Some c" using Cons.prems(1) by (auto simp: room_for_def)
  have "room_for 1 s" "answering p tc" using Cons.prems(1,3) by (auto simp: room_for_def)
  from tool_call_answers [OF this(1) t this(2)] consider
    (Answer) "answered s s1 (lc_ID tc)" "ctl1 = LoopNext \<or> ctl1 = LoopReturn" |
    (Cancel) "ctl1 = LoopReturn" "conversation s1 = conversation s" by blast
  then show ?case
  proof cases
    case Cancel
    then show ?thesis using Cons.prems(2) c t by (auto intro!: exI [of _ "[]"])
  next
    case Answer
    then obtain content where c1: "conversation s1 = Some (c\<lparr>cx_Messages := cx_Messages c @ [tool_message (lc_ID tc, content)]\<rparr>)"
      using c by (auto simp: answered_def)
    show ?thesis
    proof (cases "ctl1 = LoopReturn")
      case True
      then show ?thesis using Cons.prems(2) c c1 t by (auto intro!: exI [of _ "[(lc_ID tc, content)]"])
    next
      case False
      then have run: "tool_loop e p calls s1 = (ctl, s')" using Answer(2) Cons.prems(2) t by simp
      have "room_for (length calls) s1" using answered_room [OF Answer(1)] Cons.prems(1) by simp
      from Cons.IH [OF this run] Cons.prems(3) obtain c' results where
        r: "conversation s1 = Some c'" "conversation s' = Some (c'\<lparr>cx_Messages := cx_Messages c' @ map tool_message results\<rparr>)"
          "map fst results = map lc_ID (take (length results) calls)" "length results \<le> length calls"
          "ctl = LoopNext \<and> length results = length calls \<or> ctl = LoopReturn" by auto
      then show ?thesis using c c1 by (auto intro!: exI [of _ "(lc_ID tc, content) # results"])
    qed
  qed
qed

section \<open>Reclaiming keeps results with their calls\<close>

definition paired :: "'e compactor \<Rightarrow> bool" where
  "paired s \<longleftrightarrow> (\<exists>c. mgr_contexts (cm_mgr s) (cm_CtxID s) = Some c \<and> pair_ok {} (cx_Messages c))"

text \<open>An operation of the manager whose effect on the messages keeps the pairs.\<close>

lemma paired_on_mgr:
  assumes "paired s" and "on_mgr (on_context opn (cm_CtxID s) f) s = (r, s')"
    and "\<And>c. pair_ok {} (cx_Messages c) \<Longrightarrow> pair_ok {} (cx_Messages (snd (f c)))"
  shows "paired s' \<and> cm_CtxID s' = cm_CtxID s"
proof -
  obtain c where c: "mgr_contexts (cm_mgr s) (cm_CtxID s) = Some c" "pair_ok {} (cx_Messages c)"
    using assms(1) by (auto simp: paired_def)
  then show ?thesis using assms(2) assms(3) [OF c(2)] by (auto simp: on_mgr_def on_context_Some [OF c(1)] paired_def)
qed

lemma pair_ok_cleared:
  assumes "pair_ok S msgs" and "cleared_at ph P msgs msgs'"
  shows "pair_ok S msgs'"
  using assms
proof (induction msgs arbitrary: S P msgs')
  case (Cons m msgs)
  then obtain m' ms' where m': "msgs' = m' # ms'" by (cases msgs') (auto simp: cleared_at_def)
  have h: "m_Role m' = m_Role m \<and> m_ToolCallID m' = m_ToolCallID m \<and> m_ToolCalls m' = m_ToolCalls m"
    using Cons.prems(2) unfolding m' cleared_at_def by (auto dest!: spec [of _ 0] split: if_splits)
  have t: "cleared_at ph ({i. Suc i \<in> P}) msgs ms'"
    unfolding cleared_at_def
  proof (intro conjI allI impI)
    show "length ms' = length msgs" using Cons.prems(2) by (simp add: m' cleared_at_def)
    fix i assume "i < length msgs"
    then have "ms' ! i = (if Suc i \<in> P then with_content ph (msgs ! i) else msgs ! i)"
      using Cons.prems(2) unfolding m' cleared_at_def by (auto dest!: spec [of _ "Suc i"] split: if_splits)
    then show "ms' ! i = (if i \<in> {i. Suc i \<in> P} then with_content ph (msgs ! i) else msgs ! i)" by simp
  qed
  show ?case using Cons.prems(1) Cons.IH [OF _ t] h by (auto simp: m' split: if_splits)
qed (simp add: cleared_at_def)

lemma paired_prune:
  assumes "paired s" and "on_mgr (PruneToolResults (cm_CtxID s) opts) s = (r, s')" and "po_Placeholder opts = []"
  shows "paired s' \<and> cm_CtxID s' = cm_CtxID s"
proof (rule paired_on_mgr [OF assms(1) assms(2) [unfolded PruneToolResults_def]])
  fix c :: "'a Context"
  assume ok: "pair_ok {} (cx_Messages c)"
  obtain r1 ms where p: "prune_messages opts (cx_Messages c) = (r1, ms)" by fastforce
  from prune_messages_effect [OF assms(3), of "cx_Messages c"] obtain P where
    "cleared_at DefaultPrunePlaceholder P (cx_Messages c) ms" unfolding p by auto
  then show "pair_ok {} (cx_Messages (snd (case prune_messages opts (cx_Messages c) of (r, msgs) \<Rightarrow>
      (Inr r :: ContextError + PruneResult, c\<lparr>cx_Messages := msgs\<rparr>))))"
    using pair_ok_cleared [OF ok] by (simp add: p)
qed

lemma paired_drop:
  assumes "paired s" and "on_mgr (DropOldestRounds (cm_CtxID s) opts) s = (r, s')"
  shows "paired s' \<and> cm_CtxID s' = cm_CtxID s"
proof (rule paired_on_mgr [OF assms(1) assms(2) [unfolded DropOldestRounds_def]])
  fix c :: "'a Context"
  assume ok: "pair_ok {} (cx_Messages c)"
  obtain r1 ms where p: "drop_messages opts (cx_Messages c) = (r1, ms)" by fastforce
  have "pair_ok {} ms"
  proof (cases "dr_DroppedRounds r1 = 0")
    case True
    then show ?thesis using drop_messages_effect [where opts = opts and msgs = "cx_Messages c"] ok by (auto simp: p)
  next
    case False
    then obtain n where n: "ms = plain_message RoleUser droppedHistoryMarker # drop n (cx_Messages c)" "2 \<le> length (drop n (cx_Messages c))"
      "m_Role (hd (drop n (cx_Messages c))) = RoleAssistant"
      using drop_messages_effect [where opts = opts and msgs = "cx_Messages c"] by (auto simp: p)
    have "pair_ok {} (drop n (cx_Messages c))"
      using pair_ok_suffix [of "{}" "take n (cx_Messages c)" "drop n (cx_Messages c)" "{}"] n(2,3) ok by fastforce
    then show ?thesis by (simp add: n(1) plain_message_def role_defs)
  qed
  then show "pair_ok {} (cx_Messages (snd (if do_NeedSlots opts \<le> 0 then (Inr no_drop, c)
      else case drop_messages opts (cx_Messages c) of (r, msgs) \<Rightarrow>
         (Inr r :: ContextError + DropResult, if dr_DroppedRounds r = 0 then c
                 else c\<lparr>cx_Messages := msgs, cx_Sections := map_option sections_Invalidate (cx_Sections c)\<rparr>))))"
    using ok by (simp add: p)
qed

lemma paired_usage:
  assumes "paired s" and "on_mgr (TokenUsage x (cm_CtxID s)) s = (r, s')"
  shows "paired s' \<and> cm_CtxID s' = cm_CtxID s"
proof -
  obtain c where c: "mgr_contexts (cm_mgr s) (cm_CtxID s) = Some c" "pair_ok {} (cx_Messages c)"
    using assms(1) by (auto simp: paired_def)
  from usage_messages [OF assms(2) c(1)] show ?thesis using c(2) on_mgr_eq(3) [OF assms(2)] by (metis paired_def)
qed

lemma paired_fallback:
  assumes "paired s" and "runMechanicalFallback t s = (r, s')"
  shows "paired s' \<and> cm_CtxID s' = cm_CtxID s"
proof -
  obtain r1 s1 where p: "on_mgr (PruneToolResults (cm_CtxID s)
      \<lparr>po_TargetTokens = 0, po_MinTokens = 0, po_ClearAtLeast = ft_ClearAtLeast t, po_Placeholder = []\<rparr>) s = (r1, s1)" by fastforce
  obtain r2 s2 where d: "on_mgr (DropOldestRounds (cm_CtxID s) \<lparr>do_NeedSlots = ft_NeedSlots t, do_KeepRounds = 0\<rparr>) s1 = (r2, s2)"
    by fastforce
  have s1: "paired s1 \<and> cm_CtxID s1 = cm_CtxID s" by (rule paired_prune [OF assms(1) p]) simp
  then have "paired s2 \<and> cm_CtxID s2 = cm_CtxID s1" using paired_drop [of s1] d by simp
  then show ?thesis using assms(2) s1 p d
    by (auto simp: runMechanicalFallback_def Let_def split: if_splits sum.splits)
qed

lemma paired_top_up:
  assumes "paired s" and "precompact_top_up e n a s = (r, s')"
  shows "paired s' \<and> cm_CtxID s' = cm_CtxID s"
proof -
  obtain u s0 where u: "on_mgr (TokenUsage (ce_sections e) (cm_CtxID s)) s = (u, s0)" by fastforce
  have s0: "paired s0 \<and> cm_CtxID s0 = cm_CtxID s" by (rule paired_usage [OF assms(1) u])
  obtain l where l: "clearAtLeastNow e s = (l, s0)" using u by (cases u) (simp_all add: clearAtLeastNow_def)
  show ?thesis using assms(2) l s0 paired_fallback [of s0] by (fastforce simp: precompact_top_up_def split: prod.splits)
qed

lemma paired_compact_opts:
  assumes "paired s" and "compact_opts e t s = (opts, s')"
  shows "paired s' \<and> cm_CtxID s' = cm_CtxID s"
proof -
  obtain c where c: "mgr_contexts (cm_mgr s) (cm_CtxID s) = Some c" "pair_ok {} (cx_Messages c)"
    using assms(1) by (auto simp: paired_def)
  obtain p where p: "active_plan e s = (p, s')" using assms(2) by (auto simp: compact_opts_def split: prod.splits)
  from active_plan_messages [OF p c(1)] show ?thesis using c(2) by (metis paired_def)
qed

lemma paired_run_compact:
  assumes "paired s" and "run_compact e opts s = (r, s')" and "ce_others e = (\<lambda>m. m)"
  shows "paired s' \<and> cm_CtxID s' = cm_CtxID s"
proof (cases r)
  case (Inl err)
  then have "cm_mgr s' = cm_mgr s" "cm_CtxID s' = cm_CtxID s"
    using assms(2,3) by (auto simp: run_compact_def on_mgr_def Compact_def Let_def split: prod.splits option.splits sum.splits if_splits)
  then show ?thesis using assms(1) by (simp add: paired_def)
next
  case (Inr res)
  obtain c where c: "mgr_contexts (cm_mgr s) (cm_CtxID s) = Some c" using assms(1) by (auto simp: paired_def)
  obtain c' su where n: "mgr_contexts (cm_mgr s') (cm_CtxID s) = Some c'"
    "cx_Messages c' = compact_replacement opts (estimateMessagesTokens (cx_Messages c)) su"
    by (rule run_compact_success [OF assms(2) [unfolded Inr] assms(3) c])
  have "pair_ok {} (cx_Messages c')" using pair_ok_users [of "cx_Messages c'" "{}" "[]"] replacement_users unfolding n(2) by simp
  moreover have "cm_CtxID s' = cm_CtxID s" using quiet_run_compact [OF assms(2)] by (simp add: quiet_def)
  ultimately show ?thesis using n(1) by (auto simp: paired_def)
qed

lemma paired_emit: "paired (emit ev s) = paired s"
  by (simp add: paired_def)

lemma paired_clear: "paired (ClearReadFileState s) = paired s" "cm_CtxID (ClearReadFileState s) = cm_CtxID s"
  by (simp_all add: paired_def ClearReadFileState_def)

lemma paired_precompact:
  assumes "paired s" and "ce_others e = (\<lambda>m. m)"
  shows "paired (snd (preCompactForToolCalls e n step s)) \<and> cm_CtxID (snd (preCompactForToolCalls e n step s)) = cm_CtxID s"
proof -
  obtain avail where av: "AvailableSlots (cm_CtxID s) (cm_mgr s) = Inr avail"
    using assms(1) by (auto simp: AvailableSlots_def paired_def)
  obtain opts s1 where o: "compact_opts e ''precompact'' s = (opts, s1)" by fastforce
  obtain r s2 where r: "run_compact e opts s1 = (r, s2)" by fastforce
  have s1: "paired s1 \<and> cm_CtxID s1 = cm_CtxID s" by (rule paired_compact_opts [OF assms(1) o])
  have s2: "paired s2 \<and> cm_CtxID s2 = cm_CtxID s" using paired_run_compact [OF _ r assms(2)] s1 by simp
  show ?thesis
  proof (cases "1 + int n \<le> avail \<or> cm_compactMu s")
    case True
    then show ?thesis using assms(1) av by (auto simp: preCompactForToolCalls_def)
  next
    case short: False
    show ?thesis
    proof (cases r)
      case (Inl err)
      obtain v s3 where t: "precompact_top_up e (1 + int n) avail s2 = (v, s3)" by fastforce
      have "paired s3 \<and> cm_CtxID s3 = cm_CtxID s" using paired_top_up [OF _ t] s2 by simp
      then show ?thesis using short av o r t Inl by (cases v) (simp add: preCompactForToolCalls_def paired_emit)
    next
      case (Inr res)
      let ?s3 = "emit (CompactDone step ''precompact'' res) (ClearReadFileState s2)"
      obtain v s4 where t: "precompact_top_up e (1 + int n) (slots_or_zero ?s3) ?s3 = (v, s4)" by fastforce
      have s3: "paired ?s3 \<and> cm_CtxID ?s3 = cm_CtxID s" using s2 by (simp add: paired_emit paired_clear)
      then have "paired s4 \<and> cm_CtxID s4 = cm_CtxID s" using paired_top_up [OF _ t] by simp
      then show ?thesis using short av o r t Inr s3
        by (cases v) (simp add: preCompactForToolCalls_def Let_def paired_emit split: if_splits)
    qed
  qed
qed

lemma pair_ok_append: "pair_ok S msgs \<Longrightarrow> (\<And>U. pair_ok U ys) \<Longrightarrow> pair_ok S (msgs @ ys)"
  by (induction msgs arbitrary: S) auto

lemma pair_ok_round:
  assumes "pair_ok S msgs" and "m_Role asst = RoleAssistant" and "set (map fst results) \<subseteq> set (map tc_ID (m_ToolCalls asst))"
  shows "pair_ok S (msgs @ asst # map tool_message results)"
proof -
  have r: "set (map fst rs) \<subseteq> T \<Longrightarrow> pair_ok T (map tool_message rs)" for rs T
    by (induction rs) (auto simp: tool_message_def plain_message_def role_defs)
  have "pair_ok U (asst # map tool_message results)" for U using r [OF assms(3)] assms(2) by simp
  with assms(1) show ?thesis by (rule pair_ok_append)
qed

text \<open>
  C27: a step whose calls all answer keeps the conversation in the order the providers demand: either the
  message with the calls did not fit and nothing is written, or it stands behind what pre-compaction
  left, followed by one result for each call in the order of the calls, up to the last call that was
  run, which is the last of all when the step goes on. Whatever the calls are (unparsable, unknown, refused, failed,
  served, a child, a skill), no result is separated from its call and none is lost.
\<close>

theorem tool_round_answers_in_order:
  assumes "executeToolCalls e p resp step s = (continue, s')" and "\<forall>tc \<in> set (lr_ToolCalls resp). answering p tc"
    and "paired (tl_comp s)" and "ce_others (te_compact e) = (\<lambda>m. m)"
  shows "paired (tl_comp s') \<and>
    (\<exists>c0. mgr_contexts (cm_mgr (snd (preCompactForToolCalls (te_compact e) (length (lr_ToolCalls resp)) step (tl_comp s))))
        (cm_CtxID (tl_comp s)) = Some c0 \<and>
      (\<not> continue \<and> conversation s' = Some c0 \<or>
       (\<exists>asst results. m_Role asst = RoleAssistant \<and> m_ToolCalls asst = convertToolCalls (lr_ToolCalls resp) \<and>
          conversation s' = Some (c0\<lparr>cx_Messages := cx_Messages c0 @ asst # map tool_message results\<rparr>) \<and>
          map fst results = map lc_ID (take (length results) (lr_ToolCalls resp)) \<and>
          (continue \<longrightarrow> length results = length (lr_ToolCalls resp)))))"
proof -
  let ?calls = "lr_ToolCalls resp"
  let ?pc = "snd (preCompactForToolCalls (te_compact e) (length ?calls) step (tl_comp s))"
  let ?s0 = "s\<lparr>tl_breaker := (fst (tl_breaker s), []), tl_records := [], tl_comp := ?pc\<rparr>"
  have pc: "paired ?pc" "cm_CtxID ?pc = cm_CtxID (tl_comp s)" using paired_precompact [OF assms(3,4)] by blast+
  then obtain c0 where c0: "mgr_contexts (cm_mgr ?pc) (cm_CtxID (tl_comp s)) = Some c0" "pair_ok {} (cx_Messages c0)"
    by (auto simp: paired_def)
  let ?asst = "(plain_message RoleAssistant (lr_Content resp))\<lparr>m_ToolCalls := convertToolCalls ?calls,
      m_ReasoningBlocks := lr_ReasoningBlocks resp, m_Reasoning := lr_Reasoning resp\<rparr>"
  let ?c1 = "c0\<lparr>cx_Messages := cx_Messages c0 @ [?asst]\<rparr>"
  let ?full = "0 < cx_MaxSize c0 \<and> cx_MaxSize c0 < int (length (cx_Messages c0)) + (1 + int (length ?calls))"
  have ap: "AppendAssistantWithToolCalls (cm_CtxID (tl_comp ?s0)) (lr_Content resp) (lr_Reasoning resp) (lr_ReasoningBlocks resp)
      (convertToolCalls ?calls) (cm_mgr (tl_comp ?s0)) =
      (if ?full then (Inl (ContextError ''AppendAssistantWithToolCalls'' (cm_CtxID (tl_comp s)) ErrInternal True), put_context (cm_CtxID (tl_comp s)) c0 (cm_mgr ?pc))
       else (Inr (), put_context (cm_CtxID (tl_comp s)) ?c1 (cm_mgr ?pc)))"
    using c0(1) pc(2) by (simp add: AppendAssistantWithToolCalls_def on_context_Some convertToolCalls_def Let_def)
  show ?thesis
  proof (cases ?full)
    case True
    have "\<not> continue \<and> tl_comp s' = ?pc\<lparr>cm_mgr := put_context (cm_CtxID (tl_comp s)) c0 (cm_mgr ?pc)\<rparr>"
      using assms(1) True ap by (auto simp: executeToolCalls_def Let_def append_failed_def finish_def upd_kern_def split: prod.splits option.splits)
    then show ?thesis using c0 pc(2) by (auto simp: conversation_def paired_def)
  next
    case False
    let ?s1 = "?s0\<lparr>tl_comp := ?pc\<lparr>cm_mgr := put_context (cm_CtxID (tl_comp s)) ?c1 (cm_mgr ?pc)\<rparr>\<rparr>"
    have conv: "conversation ?s1 = Some ?c1" using pc(2) by (simp add: conversation_def)
    obtain ctl s2 where lp: "tool_loop e p ?calls ?s1 = (ctl, s2)" by fastforce
    have "room_for (length ?calls) ?s1" using False conv by (auto simp: room_for_def)
    from tool_loop_answers [OF this lp assms(2)] conv obtain results where r:
      "conversation s2 = Some (?c1\<lparr>cx_Messages := cx_Messages ?c1 @ map tool_message results\<rparr>)"
      "map fst results = map lc_ID (take (length results) ?calls)"
      "ctl = LoopNext \<and> length results = length ?calls \<or> ctl = LoopReturn" by auto
    have fin: "s' = s2 \<and> (continue \<longrightarrow> ctl = LoopNext)"
      using assms(1) False ap lp r(3) by (auto simp: executeToolCalls_def Let_def)
    have "set (map fst results) \<subseteq> set (map tc_ID (m_ToolCalls ?asst))"
      unfolding r(2) by (auto simp: convertToolCalls_def dest: in_set_takeD)
    from pair_ok_round [OF c0(2) _ this] have "pair_ok {} (cx_Messages c0 @ ?asst # map tool_message results)"
      by (simp add: plain_message_def)
    then have "paired (tl_comp s')" using r(1) fin by (auto simp: paired_def conversation_def)
    moreover have "m_Role ?asst = RoleAssistant \<and> m_ToolCalls ?asst = convertToolCalls ?calls" by (simp add: plain_message_def)
    moreover have "conversation s' = Some (c0\<lparr>cx_Messages := cx_Messages c0 @ ?asst # map tool_message results\<rparr>)"
      using r(1) fin by simp
    moreover have "continue \<longrightarrow> length results = length ?calls" using fin r(3) by auto
    ultimately show ?thesis using c0(1) r(2) by blast
  qed
qed

definition demo_tools :: "(unit, unit, unit, unit, unit) tool_env" where
  "demo_tools =
     \<lparr>te_kenv = \<lparr>e_now = 0, e_goroutine = (\<lambda>p. GNone), e_unmount = (\<lambda>p. (None, 0)), e_reopen = (\<lambda>p. Inr 3), e_spanID = [],
                e_template = (\<lambda>p. [])\<rparr>,
      te_compact = demo_env (\<lambda>n ms. Inl ''down''),
      te_vfs = (\<lambda>tc m w. (Inr ''text'', w)), te_spawn = (\<lambda>r kw. (WaitCancelled, kw)), te_agentLoader = None, te_skillLoader = None,
      te_discover = (\<lambda>sk tc. []), te_describer = (\<lambda>d. None), te_registry = None, te_errText = (\<lambda>err. ''error''), te_quote = (\<lambda>t. t)\<rparr>"

definition demo_process :: proc_config where
  "demo_process = \<lparr>pc_PID = 1, pc_Depth = 0, pc_Provider = [],
     pc_toolMap = [(''Read'', \<lparr>tm_Type = ''vfs'', tm_VFSPath = ''/dev/fs'', tm_Action = ActionNone, tm_FSOperation = ''Read''\<rparr>),
                   (''EnterPlanMode'', \<lparr>tm_Type = ''meta'', tm_VFSPath = [], tm_Action = ActionPlan, tm_FSOperation = []\<rparr>)],
     pc_HasSections = True, pc_Planning = True\<rparr>"

definition demo_state :: "(unit, unit) tool_state" where
  "demo_state = \<lparr>tl_kern = NewKernel {}, tl_comp = demo_compactor [plain_message RoleUser ''go''] 0 0, tl_breaker = (zero_counter, []),
     tl_perms = \<lparr>pm_DeniedDevices = [], pm_AllowedDevices = [], pm_AllowedTools = []\<rparr>, tl_SkillBodies = [], tl_SkillDirs = [],
     tl_records = [], tl_world = ()\<rparr>"

definition demo_tool_call :: "string \<Rightarrow> string \<Rightarrow> llmToolCall" where
  "demo_tool_call callID name = \<lparr>lc_ID = callID, lc_Name = name, lc_Input = [], lc_ParseError = []\<rparr>"

definition demo_response :: "string list \<Rightarrow> llmResponse" where
  "demo_response names = \<lparr>lr_Content = [], lr_Reasoning = [],
     lr_ToolCalls = map (\<lambda>n. demo_tool_call (CHR ''c'' # n) n) names, lr_ReasoningBlocks = []\<rparr>"

lemma demo_state_facts:
  "paired (tl_comp demo_state)" "ce_others (te_compact demo_tools) = (\<lambda>m. m)"
  "\<exists>c. conversation demo_state = Some c \<and> cx_MaxSize c \<le> 0"
  by (simp_all add: paired_def demo_state_def demo_compactor_def plain_message_def role_defs demo_tools_def demo_env_def conversation_def)

theorem tool_round_answers_in_order_witness:
  "paired (tl_comp (snd (executeToolCalls demo_tools demo_process (demo_response [''Read'', ''nope'', ''think'']) 1 demo_state)))"
proof -
  have ans: "\<forall>tc \<in> set (lr_ToolCalls (demo_response [''Read'', ''nope'', ''think''])). answering demo_process tc"
    by (simp add: demo_response_def demo_tool_call_def answering_def resolve_tool_def demo_process_def)
  obtain go s' where x: "executeToolCalls demo_tools demo_process (demo_response [''Read'', ''nope'', ''think'']) 1 demo_state = (go, s')"
    by fastforce
  show ?thesis using tool_round_answers_in_order [OF x ans demo_state_facts(1,2)] unfolding x snd_conv by (rule conjunct1)
qed

section \<open>The plan action\<close>

text \<open>
  C28: the plan action breaks that order. It writes the plan as an assistant message of its own before the
  result of its call, so the result is separated from the message that made the call, whatever the
  conversation was; the step goes on and the next request carries it.
\<close>

theorem plan_action_separates_result:
  assumes "conversation s = Some c" and "cx_MaxSize c \<le> 0" and "pc_Planning p" and "lr_ToolCalls resp = [tc]"
    and "lc_ParseError tc = []" and "lc_Name tc \<noteq> ''think''" and "lc_Name tc \<noteq> ''thinking''"
    and "resolve_tool (pc_toolMap p) (lc_Name tc) = Some mapping" and "tm_Type mapping = ''meta''" and "tm_Action mapping = ActionPlan"
  shows "\<exists>s' asst. executeToolCalls e p resp step s = (True, s') \<and> m_ToolCalls asst = convertToolCalls [tc] \<and>
    conversation s' = Some (c\<lparr>cx_Messages := cx_Messages c @
      [asst, plain_message RoleAssistant (plan_text (plan_steps tc)), tool_message (lc_ID tc, plan_text (plan_steps tc))]\<rparr>) \<and>
    \<not> pair_ok {} (cx_Messages c @
      [asst, plain_message RoleAssistant (plan_text (plan_steps tc)), tool_message (lc_ID tc, plan_text (plan_steps tc))])"
proof -
  let ?plan = "plan_text (plan_steps tc)" and ?cid = "cm_CtxID (tl_comp s)"
  let ?asst = "(plain_message RoleAssistant (lr_Content resp))\<lparr>m_ToolCalls := convertToolCalls [tc],
      m_ReasoningBlocks := lr_ReasoningBlocks resp, m_Reasoning := lr_Reasoning resp\<rparr>"
  let ?new = "[?asst, plain_message RoleAssistant ?plan, tool_message (lc_ID tc, ?plan)]"
  have c: "mgr_contexts (cm_mgr (tl_comp s)) ?cid = Some c" using assms(1) by (simp add: conversation_def)
  have pre: "preCompactForToolCalls (te_compact e) (Suc 0) step (tl_comp s) = (True, tl_comp s)"
    using c assms(2) by (simp add: preCompactForToolCalls_def AvailableSlots_def unlimitedSlots_def)
  define s1 where "s1 = s\<lparr>tl_breaker := (fst (tl_breaker s), []), tl_records := [],
    tl_comp := (tl_comp s)\<lparr>cm_mgr := put_context ?cid (c\<lparr>cx_Messages := cx_Messages c @ [?asst]\<rparr>) (cm_mgr (tl_comp s))\<rparr>\<rparr>"
  have conv1: "conversation s1 = Some (c\<lparr>cx_Messages := cx_Messages c @ [?asst]\<rparr>)" by (simp add: s1_def conversation_def)
  obtain s2 where s2: "on_ctx (\<lambda>cid. AppendMessage cid RoleAssistant ?plan) s1 = (True, s2)"
    "conversation s2 = Some (c\<lparr>cx_Messages := cx_Messages c @ [?asst, plain_message RoleAssistant ?plan]\<rparr>)"
    using conv1 assms(2) by (simp add: on_ctx_def AppendMessage_def on_context_Some conversation_def is_full_def)
  obtain s3 where s3: "append_ignoring (lc_ID tc) ?plan s2 = s3"
    "conversation s3 = Some (c\<lparr>cx_Messages := cx_Messages c @ ?new\<rparr>)"
    using s2(2) assms(2)
    by (simp add: append_ignoring_def appendToolResult_def on_ctx_def AppendToolResult_def on_context_Some conversation_def
        is_full_def tool_message_def)
  have "tool_call e p tc s1 = (LoopNext, s3)"
    using assms s2(1) s3(1) by (simp add: tool_call_def executeMetaAction_def plan_action_def Let_def)
  moreover have "AppendAssistantWithToolCalls ?cid (lr_Content resp) (lr_Reasoning resp) (lr_ReasoningBlocks resp)
      (convertToolCalls [tc]) (cm_mgr (tl_comp s)) = (Inr (), put_context ?cid (c\<lparr>cx_Messages := cx_Messages c @ [?asst]\<rparr>) (cm_mgr (tl_comp s)))"
    using c assms(2) by (simp add: AppendAssistantWithToolCalls_def on_context_Some Let_def)
  ultimately have "executeToolCalls e p resp step s = (True, s3)"
    using assms(4) pre by (simp add: executeToolCalls_def Let_def s1_def)
  moreover have "\<not> pair_ok U (msgs @ ?new)" for U msgs
    by (induction msgs arbitrary: U) (auto simp: tool_message_def plain_message_def role_defs)
  ultimately show ?thesis using s3(2) by (intro exI [of _ s3] exI [of _ ?asst]) simp
qed

theorem plan_action_separates_result_witness:
  "\<exists>s' c. executeToolCalls demo_tools demo_process (demo_response [''EnterPlanMode'']) 1 demo_state = (True, s') \<and>
     conversation s' = Some c \<and> \<not> pair_ok {} (cx_Messages c)"
proof -
  obtain c where c: "conversation demo_state = Some c" "cx_MaxSize c \<le> 0" using demo_state_facts(3) by blast
  let ?m = "\<lparr>tm_Type = ''meta'', tm_VFSPath = [], tm_Action = ActionPlan, tm_FSOperation = []\<rparr>"
  have "pc_Planning demo_process" "lr_ToolCalls (demo_response [''EnterPlanMode'']) = [demo_tool_call (CHR ''c'' # ''EnterPlanMode'') ''EnterPlanMode'']"
    "resolve_tool (pc_toolMap demo_process) ''EnterPlanMode'' = Some ?m"
    by (simp_all add: demo_process_def demo_response_def resolve_tool_def)
  from plan_action_separates_result [OF c this(1,2), of ?m demo_tools 1] this(3) show ?thesis
    by (force simp: demo_tool_call_def)
qed

end
