(* ===== verification/QuotaWake.thy ===== *)
theory QuotaWake
  imports Signals KernelInv
begin

text \<open>
  Waiting for a provider (\<open>kernel/retry_backoff.go\<close>, \<open>kernel/quota_wake.go\<close>): how long a rate-limited request
  waits before it is tried again, when the process is suspended for a quota window instead, and the
  scan that wakes it when the window opens. Times and durations are nanoseconds, the zero time is \<open>None\<close>.
\<close>

section \<open>The wait before a retry\<close>

definition maxInProcessWait :: int where "maxInProcessWait = 60 * 1000000000"
definition maxRateLimitRetries :: int where "maxRateLimitRetries = 3"
definition rateLimitBackoffBase :: int where "rateLimitBackoffBase = 2 * 1000000000"
definition rateLimitBackoffMaxDelay :: int where "rateLimitBackoffMaxDelay = 30 * 1000000000"
definition heartbeatRefreshInterval :: int where "heartbeatRefreshInterval = 10 * 1000000000"
definition quotaWakeRetryBackoff :: int where "quotaWakeRetryBackoff = 5 * 60 * 1000000000"

definition localRateLimitBackoff :: "int \<Rightarrow> int" where
  "localRateLimitBackoff attempt =
     (let shift = (if attempt < 1 then 1 else attempt) - 1
      in if shift > 30 then rateLimitBackoffMaxDelay
         else let d = i64 (rateLimitBackoffBase * 2 ^ nat shift)
              in if d \<le> 0 \<or> d > rateLimitBackoffMaxDelay then rateLimitBackoffMaxDelay else d)"

text \<open>
  What the server declared (\<open>llm.RateLimitWaitOf\<close>): a duration, an instant, who named it; \<open>None\<close> when it
  declared nothing.
\<close>

record server_wait =
  sw_retryAfter :: int
  sw_resetAt :: "int option"
  sw_source :: string

record rate_delay =
  rd_baseDelay :: int
  rd_source :: string
  rd_serverStated :: bool
  rd_retryAfter :: int
  rd_resetAt :: "int option"

definition resolveRateLimitDelay :: "int \<Rightarrow> server_wait option \<Rightarrow> int \<Rightarrow> rate_delay" where
  "resolveRateLimitDelay now w attempt =
     (let local = \<lparr>rd_baseDelay = localRateLimitBackoff attempt, rd_source = ''backoff'', rd_serverStated = False,
                   rd_retryAfter = 0, rd_resetAt = None\<rparr>
      in case w of
           None \<Rightarrow> local
         | Some sw \<Rightarrow>
             if 0 < sw_retryAfter sw
             then \<lparr>rd_baseDelay = sw_retryAfter sw, rd_source = sw_source sw, rd_serverStated = True,
                   rd_retryAfter = sw_retryAfter sw, rd_resetAt = sw_resetAt sw\<rparr>
             else case sw_resetAt sw of
                    None \<Rightarrow> local
                  | Some t \<Rightarrow>
                      if 0 < t - now
                      then \<lparr>rd_baseDelay = t - now, rd_source = sw_source sw, rd_serverStated = True,
                            rd_retryAfter = sw_retryAfter sw, rd_resetAt = sw_resetAt sw\<rparr>
                      else local)"

text \<open>The wait that decides between retry and suspension: the longer of the two declarations.\<close>

definition effectiveWait :: "int \<Rightarrow> rate_delay \<Rightarrow> int" where
  "effectiveWait now d =
     (case rd_resetAt d of None \<Rightarrow> rd_baseDelay d | Some t \<Rightarrow> max (rd_baseDelay d) (t - now))"

definition deriveQuotaResumeAt :: "int \<Rightarrow> int \<Rightarrow> int option \<Rightarrow> int option \<times> string" where
  "deriveQuotaResumeAt now retryAfter resetAt =
     (case resetAt of
        Some t \<Rightarrow>
          if now < t then (Some t, ''reset_at'')
          else if 0 < retryAfter then (Some (now + retryAfter), ''retry_after'') else (None, [])
      | None \<Rightarrow> if 0 < retryAfter then (Some (now + retryAfter), ''retry_after'') else (None, []))"

text \<open>
  The wait in chunks: \<open>cancelled\<close> says of every chunk whether the process is cancelled during it. The
  result says whether the wait was interrupted; the heartbeat is touched after every full chunk.
\<close>

function backoff_wait :: "(nat \<Rightarrow> bool) \<Rightarrow> (nat \<Rightarrow> int) \<Rightarrow> PID \<Rightarrow> nat \<Rightarrow> int \<Rightarrow> kernel \<Rightarrow> bool \<times> kernel" where
  "backoff_wait cancelled clock pid i remaining k =
     (if remaining \<le> 0 then (False, k)
      else if cancelled i then (True, k)
      else backoff_wait cancelled clock pid (Suc i) (remaining - min remaining heartbeatRefreshInterval)
             (updProc pid (TouchHeartbeat (clock i)) k))"
  by pat_completeness auto
termination
  by (relation "measure (\<lambda>(c, cl, pid, i, r, k). nat r)") (auto simp: heartbeatRefreshInterval_def)

declare backoff_wait.simps [simp del]

definition backoffWaitInterruptible :: "(nat \<Rightarrow> bool) \<Rightarrow> (nat \<Rightarrow> int) \<Rightarrow> PID \<Rightarrow> int \<Rightarrow> kernel \<Rightarrow> bool \<times> kernel" where
  "backoffWaitInterruptible cancelled clock pid d k = backoff_wait cancelled clock pid 0 d k"

section \<open>Suspending for a quota\<close>

definition SuspendReasonQuotaExhausted :: string where
  "SuspendReasonQuotaExhausted = ''quota_exhausted''"

definition SetResumeAt :: "int option \<Rightarrow> Process \<Rightarrow> Process" where
  "SetResumeAt t p = p\<lparr>pr_ResumeAt := t\<rparr>"

definition quotaSuspendProcess :: "kenv \<Rightarrow> PID \<Rightarrow> int \<Rightarrow> string \<Rightarrow> int option \<Rightarrow> kernel \<Rightarrow> kernel" where
  "quotaSuspendProcess env pid step rateKind resumeAt k =
     (let k1 = updProc pid (SetResumeAt resumeAt) k;
          k2 = emitEvent pid ''ReasonStep''
                 [(''step'', AInt step), (''action'', AStr ''quota_suspend''), (''rate_limit_kind'', AStr rateKind)] None k1
      in case selfSuspend env pid SuspendReasonQuotaExhausted ExitSuspended k2 of
           (None, k3) \<Rightarrow> k3
         | (Some err, k3) \<Rightarrow>
             finishProcess env pid (ExitStatus 1 ''quota_exhausted + suspend failed'' [] (Some err)) (updProc pid (SetResumeAt None) k3))"

section \<open>Waking\<close>

text \<open>\<open>registered\<close> says whether the file system knows the device a process would reopen.\<close>

record wake_env =
  we_kenv :: kenv
  we_projectOpener :: "PID \<Rightarrow> bool"
  we_registered :: "string \<Rightarrow> bool"

definition isQuotaWakeCandidate :: "Process \<Rightarrow> int \<Rightarrow> bool" where
  "isQuotaWakeCandidate p now \<longleftrightarrow>
     pr_State p = StateSuspended \<and> pr_SuspendReason p = SuspendReasonQuotaExhausted \<and>
     (case pr_ResumeAt p of None \<Rightarrow> False | Some t \<Rightarrow> \<not> now < t)"

definition probeQuotaWakeReopen :: "wake_env \<Rightarrow> Process \<Rightarrow> bool" where
  "probeQuotaWakeReopen w p \<longleftrightarrow>
     pr_PrimaryDevice p = [] \<or> we_projectOpener w (pr_PID p) \<or> we_registered w (pr_PrimaryDevice p)"

definition postponeQuotaWake :: "PID \<Rightarrow> int \<Rightarrow> kernel \<Rightarrow> kernel" where
  "postponeQuotaWake pid now k =
     (let newResumeAt = now + quotaWakeRetryBackoff
      in emitEvent pid ''Resume'' [(''pid'', ANat pid), (''action'', AStr ''quota_wake_failed''), (''resume_at'', AInt newResumeAt)] None
           (saveProcInfo pid (updProc pid (SetResumeAt (Some newResumeAt)) k)))"

definition wakeQuotaProcess :: "wake_env \<Rightarrow> int \<Rightarrow> PID \<Rightarrow> kernel \<Rightarrow> kernel" where
  "wakeQuotaProcess w now pid k =
     (case GetProcess k pid of
        None \<Rightarrow> k
      | Some p \<Rightarrow>
          if \<not> isQuotaWakeCandidate p now then k
          else let k1 = emitEvent pid ''Resume'' [(''pid'', ANat pid), (''action'', AStr ''quota_window_wake'')] None k
               in if \<not> probeQuotaWakeReopen w p then postponeQuotaWake pid now k1
                  else case resumeOneForSubtreeQuotaWake (we_kenv w) pid k1 of
                         (None, k2) \<Rightarrow> k2
                       | (Some err, k2) \<Rightarrow>
                           (case GetProcess k2 pid of
                              None \<Rightarrow> k2
                            | Some p2 \<Rightarrow>
                                if pr_State p2 \<noteq> StateSuspended \<or> pr_SuspendReason p2 \<noteq> SuspendReasonQuotaExhausted then k2
                                else postponeQuotaWake pid now k2))"

text \<open>
  The scan collects the candidates without a lock, then wakes each under the resume lock. Between the
  two, and between two wakes, \<open>others\<close> may run.
\<close>

definition due_processes :: "int \<Rightarrow> kernel \<Rightarrow> PID list" where
  "due_processes now k =
     sm_range (\<lambda>pid p due. (True, if isQuotaWakeCandidate p now then due @ [pid] else due)) (k_procTable k) []"

definition scanQuotaWakeups :: "wake_env \<Rightarrow> (kernel \<Rightarrow> kernel) \<Rightarrow> int \<Rightarrow> kernel \<Rightarrow> kernel" where
  "scanQuotaWakeups w others now k =
     fold (\<lambda>pid k. wakeQuotaProcess w now pid (others k)) (due_processes now k) k"

section \<open>A wake attempt\<close>

definition woken :: "Process \<Rightarrow> bool" where
  "woken q \<longleftrightarrow> pr_State q = StateRunning \<and> pr_SuspendReason q = [] \<and> pr_ResumeAt q = None"

definition postponed :: "int \<Rightarrow> Process \<Rightarrow> bool" where
  "postponed now q \<longleftrightarrow> pr_State q = StateSuspended \<and> pr_SuspendReason q = SuspendReasonQuotaExhausted \<and>
     pr_ResumeAt q = Some (now + quotaWakeRetryBackoff)"

lemma GetProcess_postpone:
  "GetProcess (postponeQuotaWake pid now k) x =
     (if x = pid then map_option (SetResumeAt (Some (now + quotaWakeRetryBackoff))) (GetProcess k x) else GetProcess k x)"
  by (simp add: postponeQuotaWake_def Let_def GetProcess_upd)

text \<open>Resuming a suspended process for a wake: it runs, or it is suspended for the quota as before.\<close>

lemma resume_quota_wake:
  assumes "GetProcess k pid = Some p" and "pr_State p = StateSuspended"
  shows "\<exists>q r. resumeOneForSubtreeQuotaWake env pid k = (r, snd (resumeOneForSubtreeQuotaWake env pid k)) \<and>
    GetProcess (snd (resumeOneForSubtreeQuotaWake env pid k)) pid = Some q \<and>
    (r = None \<and> woken q \<or> r \<noteq> None \<and> pr_State q = StateSuspended \<and> pr_SuspendReason q = SuspendReasonQuotaExhausted) \<and>
    (\<forall>x. x \<noteq> pid \<longrightarrow> GetProcess (snd (resumeOneForSubtreeQuotaWake env pid k)) x = GetProcess k x)"
proof -
  obtain p1 where u: "Unsuspend p = Inr p1" "pr_State p1 = StateRunning"
    using assms(2) by (simp add: Unsuspend_def Transition_def transitionLocked_def Let_def)
  have r: "pr_State (resumed_fields t p1) = StateRunning" "pr_SuspendReason (resumed_fields t p1) = []"
    "pr_ResumeAt (resumed_fields t p1) = None" for t
    using u(2) by (simp_all add: resumed_fields_def Let_def split: option.split)
  have roll: "pr_State q = StateRunning \<Longrightarrow>
      pr_State (rollbackQuotaWakeResume t q) = StateSuspended \<and> pr_SuspendReason (rollbackQuotaWakeResume t q) = ''quota_exhausted''" for q t
    by (simp add: rollbackQuotaWakeResume_def Suspend_def Transition_def transitionLocked_def suspended_fields_def)
  show ?thesis
  proof (cases "pr_PrimaryDevice (resumed_fields (e_now env) p1) = []")
    case True
    then show ?thesis using assms(1) u r
      by (simp add: resumeOneForSubtreeQuotaWake_def resumeOneForSubtreeMode_def Let_def GetProcess_put woken_def)
  next
    case False
    show ?thesis
    proof (cases "e_reopen env pid")
      case (Inl err)
      then show ?thesis using assms(1) u r False roll
        by (simp add: resumeOneForSubtreeQuotaWake_def resumeOneForSubtreeMode_def Let_def GetProcess_put woken_def
            SuspendReasonQuotaExhausted_def)
    next
      case (Inr fd)
      then show ?thesis using assms(1) u r False
        by (simp add: resumeOneForSubtreeQuotaWake_def resumeOneForSubtreeMode_def Let_def GetProcess_put woken_def)
    qed
  qed
qed

lemma wake_effect:
  assumes "GetProcess k pid = Some p" and "isQuotaWakeCandidate p now"
  shows "\<exists>q. GetProcess (wakeQuotaProcess w now pid k) pid = Some q \<and> (woken q \<or> postponed now q)"
    and "x \<noteq> pid \<Longrightarrow> GetProcess (wakeQuotaProcess w now pid k) x = GetProcess k x"
proof -
  let ?k1 = "emitEvent pid ''Resume'' [(''pid'', ANat pid), (''action'', AStr ''quota_window_wake'')] None k"
  have sus: "pr_State p = StateSuspended" "pr_SuspendReason p = SuspendReasonQuotaExhausted"
    using assms(2) by (simp_all add: isQuotaWakeCandidate_def)
  have k1: "GetProcess ?k1 pid = Some p" using assms(1) by simp
  from resume_quota_wake [OF k1 sus(1), of "we_kenv w"] obtain q r k2 where
    r: "resumeOneForSubtreeQuotaWake (we_kenv w) pid ?k1 = (r, k2)" "GetProcess k2 pid = Some q"
      "r = None \<and> woken q \<or> r \<noteq> None \<and> pr_State q = StateSuspended \<and> pr_SuspendReason q = SuspendReasonQuotaExhausted"
      "\<And>x. x \<noteq> pid \<Longrightarrow> GetProcess k2 x = GetProcess k x" by (metis GetProcess_frame(3))
  have e: "wakeQuotaProcess w now pid k =
      (if \<not> probeQuotaWakeReopen w p then postponeQuotaWake pid now ?k1 else if r = None then k2 else postponeQuotaWake pid now k2)"
    using assms r(1-3) by (auto simp: wakeQuotaProcess_def Let_def split: option.split)
  show "\<exists>q. GetProcess (wakeQuotaProcess w now pid k) pid = Some q \<and> (woken q \<or> postponed now q)"
    unfolding e using assms(1) sus r(2,3) by (auto simp: GetProcess_postpone postponed_def SetResumeAt_def)
  show "x \<noteq> pid \<Longrightarrow> GetProcess (wakeQuotaProcess w now pid k) x = GetProcess k x"
    unfolding e using r(4) by (simp add: GetProcess_postpone)
qed

lemma wake_skips:
  assumes "\<And>p. GetProcess k pid = Some p \<Longrightarrow> \<not> isQuotaWakeCandidate p now"
  shows "wakeQuotaProcess w now pid k = k"
  using assms by (simp add: wakeQuotaProcess_def split: option.split)

section \<open>A scan\<close>

lemma due_exact:
  assumes "unique_keys (k_procTable k)"
  shows "distinct (due_processes now k)"
    and "pid \<in> set (due_processes now k) \<longleftrightarrow> (\<exists>p. GetProcess k pid = Some p \<and> isQuotaWakeCandidate p now)"
proof -
  have f: "sm_range (\<lambda>pid p due. (True, if isQuotaWakeCandidate p now then due @ [pid] else due)) m due =
      due @ map fst (filter (\<lambda>e. isQuotaWakeCandidate (snd e) now) m)" for m :: "(PID, Process) SyncMap" and due
    by (induction m arbitrary: due) auto
  have d: "due_processes now k = map fst (filter (\<lambda>e. isQuotaWakeCandidate (snd e) now) (k_procTable k))"
    by (simp add: due_processes_def f)
  show "distinct (due_processes now k)" unfolding d using assms by (simp add: distinct_map_filter)
  show "pid \<in> set (due_processes now k) \<longleftrightarrow> (\<exists>p. GetProcess k pid = Some p \<and> isQuotaWakeCandidate p now)"
    unfolding d GetProcess_def sm_load_def using assms by (auto simp: image_iff map_of_eq_Some_iff)
qed

lemma wake_list:
  assumes "distinct pids"
  shows "GetProcess (fold (wakeQuotaProcess w now) pids k) x =
      (if x \<in> set pids then GetProcess (fold (wakeQuotaProcess w now) pids k) x else GetProcess k x)"
    and "x \<in> set pids \<Longrightarrow> GetProcess k x = Some p \<Longrightarrow> isQuotaWakeCandidate p now \<Longrightarrow>
      \<exists>q. GetProcess (fold (wakeQuotaProcess w now) pids k) x = Some q \<and> (woken q \<or> postponed now q)"
proof -
  have step: "GetProcess (wakeQuotaProcess w now pid k) y = GetProcess k y" if "y \<noteq> pid" for pid y k
    using wake_effect(2) [OF _ _ that, of k _ now w] wake_skips [of k pid now w] by metis
  have out: "y \<notin> set pids \<Longrightarrow> GetProcess (fold (wakeQuotaProcess w now) pids k) y = GetProcess k y" for y pids k
    by (induction pids arbitrary: k) (simp_all add: step)
  show "GetProcess (fold (wakeQuotaProcess w now) pids k) x =
      (if x \<in> set pids then GetProcess (fold (wakeQuotaProcess w now) pids k) x else GetProcess k x)"
    using out by simp
  show "x \<in> set pids \<Longrightarrow> GetProcess k x = Some p \<Longrightarrow> isQuotaWakeCandidate p now \<Longrightarrow>
      \<exists>q. GetProcess (fold (wakeQuotaProcess w now) pids k) x = Some q \<and> (woken q \<or> postponed now q)"
    using assms
  proof (induction pids arbitrary: k)
    case (Cons pid pids)
    show ?case
    proof (cases "x = pid")
      case True
      then show ?thesis using wake_effect(1) [OF Cons.prems(2,3), of w] Cons.prems(4) out [of x pids] by simp
    next
      case False
      then show ?thesis using Cons.IH [of "wakeQuotaProcess w now pid k"] Cons.prems step by simp
    qed
  qed simp
qed

text \<open>
  C33: a scan for due quota windows ends no process and loses none: every process that is due runs again
  with its suspension cleared, or, when its device cannot be reopened, is suspended for its
  quota as before with the next attempt five minutes from now; every other process is left as it is. So
  right after a scan nothing is due, whatever failed.
\<close>

theorem quota_scan_wakes_or_postpones:
  assumes "unique_keys (k_procTable k)"
  shows "let k' = scanQuotaWakeups w id now k
     in (\<forall>pid p. GetProcess k pid = Some p \<longrightarrow>
           (if isQuotaWakeCandidate p now then \<exists>q. GetProcess k' pid = Some q \<and> (woken q \<or> postponed now q)
            else GetProcess k' pid = Some p)) \<and>
        (\<forall>pid q. GetProcess k' pid = Some q \<longrightarrow> \<not> isQuotaWakeCandidate q now)"
proof -
  let ?pids = "due_processes now k"
  define k' where "k' = scanQuotaWakeups w id now k"
  have e: "k' = fold (wakeQuotaProcess w now) ?pids k" by (simp add: scanQuotaWakeups_def k'_def)
  note d = due_exact [OF assms]
  have calm: "woken q \<or> postponed now q \<Longrightarrow> \<not> isQuotaWakeCandidate q now" for q
    by (auto simp: woken_def postponed_def isQuotaWakeCandidate_def quotaWakeRetryBackoff_def)
  have due: "GetProcess k pid = Some p \<Longrightarrow> isQuotaWakeCandidate p now \<Longrightarrow>
      \<exists>q. GetProcess k' pid = Some q \<and> (woken q \<or> postponed now q)" for pid p
    unfolding e using wake_list(2) [OF d(1)] d(2) by blast
  have rest: "pid \<notin> set ?pids \<Longrightarrow> GetProcess k' pid = GetProcess k pid" for pid
    unfolding e using wake_list(1) [OF d(1) [of now], where w = w and now = now and k = k and x = pid] by simp
  have quiet: "\<not> isQuotaWakeCandidate q now" if q: "GetProcess k' pid = Some q" for pid q
  proof (cases "pid \<in> set ?pids")
    case True
    then obtain p where "GetProcess k pid = Some p" "isQuotaWakeCandidate p now" using d(2) by blast
    from due [OF this] q calm show ?thesis by auto
  next
    case False
    then show ?thesis using rest [OF False] q d(2) by auto
  qed
  have "GetProcess k' pid = Some p" if "GetProcess k pid = Some p" "\<not> isQuotaWakeCandidate p now" for pid p
    using rest [of pid] that d(2) by auto
  with due have all: "if isQuotaWakeCandidate p now then \<exists>q. GetProcess k' pid = Some q \<and> (woken q \<or> postponed now q)
      else GetProcess k' pid = Some p" if "GetProcess k pid = Some p" for pid p
    using that by (cases "isQuotaWakeCandidate p now") simp_all
  show ?thesis unfolding Let_def k'_def [symmetric] using all quiet by blast
qed

definition due_process :: Process where
  "due_process = (NewProcess 7 ''u7'' 1 ''watch'' [] 0)
     \<lparr>pr_State := StateSuspended, pr_SuspendReason := ''quota_exhausted'', pr_ResumeAt := Some 90, pr_PrimaryDevice := ''/dev/llm/x''\<rparr>"

definition gone_device :: wake_env where
  "gone_device = \<lparr>we_kenv = \<lparr>e_now = 100, e_goroutine = (\<lambda>_. GNone), e_unmount = (\<lambda>_. (None, 0)), e_reopen = (\<lambda>_. Inr 3),
     e_spanID = [], e_template = (\<lambda>_. [])\<rparr>, we_projectOpener = (\<lambda>_. False), we_registered = (\<lambda>_. False)\<rparr>"

theorem quota_scan_wakes_or_postpones_witness:
  "isQuotaWakeCandidate due_process 100 \<and>
   (\<exists>q. GetProcess (scanQuotaWakeups gone_device id 100 (AddProcess due_process (NewKernel {}))) 7 = Some q \<and>
      (woken q \<or> postponed 100 q))"
proof -
  let ?k = "AddProcess due_process (NewKernel {})"
  have t: "k_procTable ?k = sm_store 7 due_process NewSyncMap"
    by (simp add: AddProcess_def NewKernel_def due_process_def NewProcess_def)
  have u: "unique_keys (k_procTable ?k)" unfolding t by (rule sm_unique_keys(1)) (simp add: NewSyncMap_def)
  have g: "GetProcess ?k 7 = Some due_process" unfolding GetProcess_def t by (simp add: sm.lookup_store)
  have c: "isQuotaWakeCandidate due_process 100"
    by (simp add: isQuotaWakeCandidate_def due_process_def SuspendReasonQuotaExhausted_def)
  note all = quota_scan_wakes_or_postpones [OF u, of gone_device 100, unfolded Let_def, THEN conjunct1, rule_format, OF g]
  show ?thesis using all c unfolding if_P [OF c] by blast
qed

end
