(* ===== verification/ProviderGate.thy ===== *)
theory ProviderGate
  imports QuotaWake
begin

text \<open>
  The limit on concurrent requests to one provider (\<open>kernel/provider_gate.go\<close>): a buffered channel of
  slots per provider, taken before a request and given back after it. Any number of reasoning loops
  run against each other; a wait is a select over a slot, a cancellation and a timer of ten
  seconds, until it has lasted a minute. A request that names no provider is not limited. The count of
  waiting loops only feeds an event; its updates are part of the step they belong to.
\<close>

section \<open>The gate\<close>

record gateEntry =
  ge_slots :: nat
  ge_limit :: nat
  ge_waiters :: int

type_synonym providerGate = "string \<Rightarrow> gateEntry option"

definition defaultMaxConcurrency :: nat where "defaultMaxConcurrency = 4"
definition gateAcquireTimeout :: int where "gateAcquireTimeout = maxInProcessWait"

text \<open>The limit of a provider: the project's, else the daemon's (nil is \<open>None\<close>), else the default.\<close>

definition resolveProviderConcurrencyLimit :: "(string \<Rightarrow> int) \<Rightarrow> (string \<Rightarrow> int) option \<Rightarrow> string \<Rightarrow> int" where
  "resolveProviderConcurrencyLimit project_limit global_limit provider =
     (if 0 < project_limit provider then project_limit provider
      else case global_limit of
             None \<Rightarrow> int defaultMaxConcurrency
           | Some f \<Rightarrow> if 0 < f provider then f provider else int defaultMaxConcurrency)"

definition newProviderGate :: providerGate where
  "newProviderGate = (\<lambda>_. None)"

text \<open>The entry of a provider, made with its slots filled when it is first seen.\<close>

definition gate_entry :: "string \<Rightarrow> nat \<Rightarrow> providerGate \<Rightarrow> gateEntry \<times> providerGate" where
  "gate_entry provider limit g =
     (case g provider of
        Some e \<Rightarrow> (e, g)
      | None \<Rightarrow> let e = \<lparr>ge_slots = limit, ge_limit = limit, ge_waiters = 0\<rparr> in (e, g(provider \<mapsto> e)))"

definition gate_take :: "string \<Rightarrow> providerGate \<Rightarrow> providerGate option" where
  "gate_take provider g =
     (case g provider of
        None \<Rightarrow> None
      | Some e \<Rightarrow> if 0 < ge_slots e then Some (g(provider \<mapsto> e\<lparr>ge_slots := ge_slots e - 1\<rparr>)) else None)"

definition gate_release :: "string \<Rightarrow> providerGate \<Rightarrow> providerGate" where
  "gate_release provider g =
     (case g provider of
        None \<Rightarrow> g
      | Some e \<Rightarrow> if ge_slots e < ge_limit e then g(provider \<mapsto> e\<lparr>ge_slots := ge_slots e + 1\<rparr>) else g)"

definition gate_waiters :: "int \<Rightarrow> string \<Rightarrow> providerGate \<Rightarrow> providerGate" where
  "gate_waiters d provider g =
     (case g provider of None \<Rightarrow> g | Some e \<Rightarrow> g(provider \<mapsto> e\<lparr>ge_waiters := ge_waiters e + d\<rparr>))"

text \<open>A reasoning loop outside, in the wait (with the time waited) or with a request on its way.\<close>

datatype requester = Outside | Waiting string int | Requesting string

definition acquire_begin :: "string \<Rightarrow> int \<Rightarrow> providerGate \<Rightarrow> requester \<times> providerGate" where
  "acquire_begin provider limit g =
     (if provider = [] then (Requesting provider, g)
      else case gate_entry provider (if limit \<le> 0 then defaultMaxConcurrency else nat limit) g of
             (_, g1) \<Rightarrow>
               (case gate_take provider g1 of
                  Some g2 \<Rightarrow> (Requesting provider, g2)
                | None \<Rightarrow> (Waiting provider 0, gate_waiters 1 provider g1)))"

text \<open>The three arms of the select.\<close>

definition acquire_slot :: "string \<Rightarrow> providerGate \<Rightarrow> (requester \<times> providerGate) option" where
  "acquire_slot provider g = map_option (\<lambda>g1. (Requesting provider, gate_waiters (- 1) provider g1)) (gate_take provider g)"

definition acquire_cancel :: "string \<Rightarrow> providerGate \<Rightarrow> requester \<times> providerGate" where
  "acquire_cancel provider g = (Outside, gate_waiters (- 1) provider g)"

definition acquire_tick :: "string \<Rightarrow> int \<Rightarrow> providerGate \<Rightarrow> requester \<times> providerGate" where
  "acquire_tick provider waited g =
     (let waited' = waited + min (gateAcquireTimeout - waited) heartbeatRefreshInterval
      in if gateAcquireTimeout \<le> waited' then (Outside, gate_waiters (- 1) provider g) else (Waiting provider waited', g))"

definition request_end :: "string \<Rightarrow> providerGate \<Rightarrow> requester \<times> providerGate" where
  "request_end provider g = (Outside, gate_release provider g)"

section \<open>Any number of requesters\<close>

type_synonym gate_sys = "requester list \<times> providerGate"

inductive gate_step :: "gate_sys \<Rightarrow> gate_sys \<Rightarrow> bool" where
  Begin: "i < length rs \<Longrightarrow> rs ! i = Outside \<Longrightarrow> acquire_begin provider limit g = (r, g') \<Longrightarrow> gate_step (rs, g) (rs[i := r], g')"
| Slot: "i < length rs \<Longrightarrow> rs ! i = Waiting provider w \<Longrightarrow> acquire_slot provider g = Some (r, g') \<Longrightarrow> gate_step (rs, g) (rs[i := r], g')"
| Cancelled: "i < length rs \<Longrightarrow> rs ! i = Waiting provider w \<Longrightarrow> acquire_cancel provider g = (r, g') \<Longrightarrow> gate_step (rs, g) (rs[i := r], g')"
| Tick: "i < length rs \<Longrightarrow> rs ! i = Waiting provider w \<Longrightarrow> acquire_tick provider w g = (r, g') \<Longrightarrow> gate_step (rs, g) (rs[i := r], g')"
| End: "i < length rs \<Longrightarrow> rs ! i = Requesting provider \<Longrightarrow> request_end provider g = (r, g') \<Longrightarrow> gate_step (rs, g) (rs[i := r], g')"

inductive gate_reach :: "nat \<Rightarrow> gate_sys \<Rightarrow> bool" for n where
  Start: "gate_reach n (replicate n Outside, newProviderGate)"
| Step: "gate_reach n s \<Longrightarrow> gate_step s s' \<Longrightarrow> gate_reach n s'"

definition requesting :: "string \<Rightarrow> requester list \<Rightarrow> nat" where
  "requesting provider rs = length (filter (\<lambda>r. r = Requesting provider) rs)"

definition is_waiting :: "string \<Rightarrow> requester \<Rightarrow> bool" where
  "is_waiting provider r \<longleftrightarrow> (\<exists>w. r = Waiting provider w)"

definition waiting :: "string \<Rightarrow> requester list \<Rightarrow> nat" where
  "waiting provider rs = length (filter (is_waiting provider) rs)"

definition gate_ok :: "gate_sys \<Rightarrow> bool" where
  "gate_ok s \<longleftrightarrow>
     (\<forall>p. case snd s p of
            None \<Rightarrow> waiting p (fst s) = 0 \<and> (p \<noteq> [] \<longrightarrow> requesting p (fst s) = 0)
          | Some e \<Rightarrow> p \<noteq> [] \<and> 0 < ge_limit e \<and> ge_slots e + requesting p (fst s) = ge_limit e \<and>
              ge_waiters e = int (waiting p (fst s))) \<and>
     (\<forall>p w. Waiting p w \<in> set (fst s) \<longrightarrow> 0 \<le> w \<and> w < gateAcquireTimeout)"

text \<open>Replacing one requester moves the counts by what it was and what it becomes.\<close>

lemma filter_update:
  "i < length rs \<Longrightarrow> length (filter P (rs[i := r])) + (if P (rs ! i) then 1 else 0) = length (filter P rs) + (if P r then 1 else 0)"
proof (induction rs arbitrary: i)
  case (Cons x rs)
  then show ?case by (cases i) auto
qed simp

lemma requesting_update:
  "i < length rs \<Longrightarrow> requesting p (rs[i := r]) + (if rs ! i = Requesting p then 1 else 0) = requesting p rs + (if r = Requesting p then 1 else 0)"
  unfolding requesting_def by (rule filter_update)

lemma waiting_update:
  "i < length rs \<Longrightarrow> waiting p (rs[i := r]) + (if is_waiting p (rs ! i) then 1 else 0) = waiting p rs + (if is_waiting p r then 1 else 0)"
  unfolding waiting_def by (rule filter_update)

lemma is_waiting_simps [simp]:
  "is_waiting p (Waiting q w) \<longleftrightarrow> p = q" "\<not> is_waiting p Outside" "\<not> is_waiting p (Requesting q)"
  by (auto simp: is_waiting_def)

lemma waits_update:
  assumes "\<forall>p w. Waiting p w \<in> set rs \<longrightarrow> Q w" and "\<And>p w. r = Waiting p w \<Longrightarrow> Q w"
  shows "\<forall>p w. Waiting p w \<in> set (rs[i := r]) \<longrightarrow> Q w"
  using assms set_update_subset_insert [of rs i r] by blast

section \<open>The invariant\<close>

definition entry_ok :: "requester list \<Rightarrow> string \<Rightarrow> gateEntry \<Rightarrow> bool" where
  "entry_ok rs p e \<longleftrightarrow>
     p \<noteq> [] \<and> 0 < ge_limit e \<and> ge_slots e + requesting p rs = ge_limit e \<and> ge_waiters e = int (waiting p rs)"

definition unseen_ok :: "requester list \<Rightarrow> string \<Rightarrow> bool" where
  "unseen_ok rs p \<longleftrightarrow> waiting p rs = 0 \<and> (p \<noteq> [] \<longrightarrow> requesting p rs = 0)"

definition prov_ok :: "requester list \<Rightarrow> providerGate \<Rightarrow> string \<Rightarrow> bool" where
  "prov_ok rs g p \<longleftrightarrow> (case g p of None \<Rightarrow> unseen_ok rs p | Some e \<Rightarrow> entry_ok rs p e)"

lemma gate_ok_iff:
  "gate_ok (rs, g) \<longleftrightarrow> (\<forall>p. prov_ok rs g p) \<and> (\<forall>p w. Waiting p w \<in> set rs \<longrightarrow> 0 \<le> w \<and> w < gateAcquireTimeout)"
  by (simp add: gate_ok_def prov_ok_def unseen_ok_def entry_ok_def cong: option.case_cong)

text \<open>A step of a loop at one provider leaves the others alone.\<close>

definition touches :: "string \<Rightarrow> requester \<Rightarrow> bool" where
  "touches p r \<longleftrightarrow> r = Requesting p \<or> is_waiting p r"

lemma prov_ok_other:
  assumes "i < length rs" "\<not> touches p (rs ! i)" "\<not> touches p r" "g' p = g p" "prov_ok rs g p"
  shows "prov_ok (rs[i := r]) g' p"
  using assms requesting_update [of i rs p r] waiting_update [of i rs p r]
  by (auto simp: prov_ok_def touches_def unseen_ok_def entry_ok_def split: option.splits)

lemma touches_simps [simp]:
  "touches p (Waiting q w) \<longleftrightarrow> p = q" "\<not> touches p Outside" "touches p (Requesting q) \<longleftrightarrow> p = q"
  by (auto simp: touches_def)

lemma begin_prov_ok:
  assumes "i < length rs" "rs ! i = Outside" "acquire_begin q limit g = (r, g')" "\<forall>p. prov_ok rs g p"
  shows "prov_ok (rs[i := r]) g' p"
proof (cases "p = q \<and> q \<noteq> []")
  case True
  then show ?thesis
    using assms(1-3) requesting_update [of i rs p r] waiting_update [of i rs p r] spec [OF assms(4), of p]
    by (auto simp: acquire_begin_def gate_entry_def gate_take_def gate_waiters_def prov_ok_def unseen_ok_def entry_ok_def
        Let_def defaultMaxConcurrency_def split: option.splits if_splits)
next
  case False
  show ?thesis
  proof (cases "p = q")
    case True
    then show ?thesis
      using assms(1-3) False requesting_update [of i rs p r] waiting_update [of i rs p r] spec [OF assms(4), of p]
      by (auto simp: acquire_begin_def prov_ok_def unseen_ok_def entry_ok_def split: option.splits)
  next
    case other: False
    have "\<not> touches p r" "g' p = g p"
      using assms(3) other
      by (auto simp: acquire_begin_def gate_entry_def gate_take_def gate_waiters_def Let_def split: option.splits if_splits)
    then show ?thesis using assms by (intro prov_ok_other) auto
  qed
qed

lemma acquire_slotD:
  assumes "acquire_slot q g = Some (r, g')"
  obtains e where "g q = Some e" "0 < ge_slots e" "r = Requesting q"
    "g' = g(q \<mapsto> e\<lparr>ge_slots := ge_slots e - 1, ge_waiters := ge_waiters e - 1\<rparr>)"
proof (cases "g q")
  case None
  then show ?thesis using assms by (simp add: acquire_slot_def gate_take_def)
next
  case (Some e)
  then show ?thesis using assms that [OF Some]
    by (cases "0 < ge_slots e") (simp_all add: acquire_slot_def gate_take_def gate_waiters_def)
qed

lemma slot_prov_ok:
  assumes "i < length rs" "rs ! i = Waiting q w" "acquire_slot q g = Some (r, g')" "\<forall>p. prov_ok rs g p"
  shows "prov_ok (rs[i := r]) g' p"
proof -
  from assms(3) obtain e where e: "g q = Some e" "0 < ge_slots e" "r = Requesting q"
    "g' = g(q \<mapsto> e\<lparr>ge_slots := ge_slots e - 1, ge_waiters := ge_waiters e - 1\<rparr>)" by (rule acquire_slotD)
  show ?thesis
  proof (cases "p = q")
    case True
    then show ?thesis
      using assms(1,2) e requesting_update [of i rs p r] waiting_update [of i rs p r] spec [OF assms(4), of p]
      by (auto simp: prov_ok_def entry_ok_def)
  next
    case False
    then show ?thesis using assms e by (intro prov_ok_other) auto
  qed
qed

lemma leave_prov_ok:
  assumes "i < length rs" "rs ! i = Waiting q w" "\<forall>p. prov_ok rs g p"
  shows "prov_ok (rs[i := Outside]) (gate_waiters (- 1) q g) p"
proof (cases "p = q")
  case True
  then show ?thesis
    using assms(1,2) requesting_update [of i rs p Outside] waiting_update [of i rs p Outside] spec [OF assms(3), of p]
    by (auto simp: gate_waiters_def prov_ok_def entry_ok_def unseen_ok_def split: option.splits)
next
  case False
  then have "gate_waiters (- 1) q g p = g p" by (simp add: gate_waiters_def split: option.split)
  then show ?thesis using assms False by (intro prov_ok_other) auto
qed

lemma rewait_prov_ok:
  assumes "i < length rs" "rs ! i = Waiting q w" "\<forall>p. prov_ok rs g p"
  shows "prov_ok (rs[i := Waiting q w']) g p"
  using assms(1,2) requesting_update [of i rs p "Waiting q w'"] waiting_update [of i rs p "Waiting q w'"] spec [OF assms(3), of p]
  by (auto simp: prov_ok_def entry_ok_def unseen_ok_def split: option.splits)

lemma end_prov_ok:
  assumes "i < length rs" "rs ! i = Requesting q" "\<forall>p. prov_ok rs g p"
  shows "prov_ok (rs[i := Outside]) (gate_release q g) p"
proof (cases "p = q")
  case True
  then show ?thesis
    using assms(1,2) requesting_update [of i rs p Outside] waiting_update [of i rs p Outside] spec [OF assms(3), of p]
    by (auto simp: gate_release_def prov_ok_def entry_ok_def unseen_ok_def split: option.splits)
next
  case False
  then have "gate_release q g p = g p" by (simp add: gate_release_def split: option.split)
  then show ?thesis using assms False by (intro prov_ok_other) auto
qed

lemma begin_wait: "acquire_begin q limit g = (Waiting p w, g') \<Longrightarrow> w = 0"
  by (auto simp: acquire_begin_def split: if_splits prod.splits option.splits)

lemma gate_step_ok:
  assumes "gate_step (rs, g) (rs', g')" and "gate_ok (rs, g)"
  shows "gate_ok (rs', g')"
proof -
  let ?Q = "\<lambda>w. 0 \<le> w \<and> w < gateAcquireTimeout"
  have ok: "\<forall>p. prov_ok rs g p" and waits: "\<forall>p w. Waiting p w \<in> set rs \<longrightarrow> ?Q w"
    using assms(2) by (simp_all add: gate_ok_iff)
  from assms(1) show ?thesis
  proof cases
    case (Begin i q limit r)
    have "\<forall>p w. Waiting p w \<in> set (rs[i := r]) \<longrightarrow> ?Q w"
    proof (rule waits_update [OF waits])
      fix p w
      assume "r = Waiting p w"
      then have "w = 0" using Begin(4) begin_wait by blast
      then show "?Q w" by (simp add: gateAcquireTimeout_def maxInProcessWait_def)
    qed
    then show ?thesis using Begin(1) begin_prov_ok [OF Begin(2-4) ok] by (simp add: gate_ok_iff)
  next
    case (Slot i q w r)
    then have r: "r = Requesting q" by (auto elim: acquire_slotD)
    have "\<forall>p w. Waiting p w \<in> set (rs[i := r]) \<longrightarrow> ?Q w" by (rule waits_update [OF waits]) (simp add: r)
    then show ?thesis using Slot(1) slot_prov_ok [OF Slot(2-4) ok] by (simp add: gate_ok_iff)
  next
    case (Cancelled i q w r)
    then have r: "r = Outside" "g' = gate_waiters (- 1) q g" by (simp_all add: acquire_cancel_def)
    have "\<forall>p w. Waiting p w \<in> set (rs[i := r]) \<longrightarrow> ?Q w" by (rule waits_update [OF waits]) (simp add: r)
    then show ?thesis using Cancelled(1) leave_prov_ok [OF Cancelled(2,3) ok] r by (simp add: gate_ok_iff)
  next
    case (Tick i q w r)
    have "Waiting q w \<in> set rs" using Tick(2,3) by (metis nth_mem)
    then have w: "0 \<le> w" "w < gateAcquireTimeout" using waits by blast+
    let ?w = "w + min (gateAcquireTimeout - w) heartbeatRefreshInterval"
    have w': "0 \<le> ?w" using w by (simp add: heartbeatRefreshInterval_def)
    from Tick(4) consider "r = Outside" "g' = gate_waiters (- 1) q g" | "r = Waiting q ?w" "g' = g" "?w < gateAcquireTimeout"
      by (auto simp: acquire_tick_def Let_def split: if_splits)
    then show ?thesis
    proof cases
      case 1
      have "\<forall>p w. Waiting p w \<in> set (rs[i := r]) \<longrightarrow> ?Q w" by (rule waits_update [OF waits]) (simp add: 1)
      then show ?thesis using Tick(1) leave_prov_ok [OF Tick(2,3) ok] 1 by (simp add: gate_ok_iff)
    next
      case 2
      have "\<forall>p w. Waiting p w \<in> set (rs[i := r]) \<longrightarrow> ?Q w" by (rule waits_update [OF waits]) (use 2 w' in simp)
      then show ?thesis using Tick(1) rewait_prov_ok [OF Tick(2,3) ok] 2 by (simp add: gate_ok_iff)
    qed
  next
    case (End i q r)
    then have r: "r = Outside" "g' = gate_release q g" by (simp_all add: request_end_def)
    have "\<forall>p w. Waiting p w \<in> set (rs[i := r]) \<longrightarrow> ?Q w" by (rule waits_update [OF waits]) (simp add: r)
    then show ?thesis using End(1) end_prov_ok [OF End(2,3) ok] r by (simp add: gate_ok_iff)
  qed
qed

lemma gate_start_ok: "gate_ok (replicate n Outside, newProviderGate)"
  by (auto simp: gate_ok_iff prov_ok_def unseen_ok_def newProviderGate_def requesting_def waiting_def)

lemma gate_reach_ok: "gate_reach n s \<Longrightarrow> gate_ok s"
proof (induction rule: gate_reach.induct)
  case Start
  then show ?case by (rule gate_start_ok)
next
  case (Step s s')
  then show ?case using gate_step_ok by (cases s; cases s') blast
qed

text \<open>C34: However many reasoning loops run and whatever limits they name, the requests on their way to a provider
  never exceed the limit its entry was made with: free slots and requests add up to that limit, the
  count of waiting loops is exact, and no loop is still waiting after a minute.\<close>

theorem provider_gate_bounds_requests:
  assumes "gate_reach n (rs, g)" and "g provider = Some e"
  shows "requesting provider rs \<le> ge_limit e \<and> ge_slots e + requesting provider rs = ge_limit e \<and>
    ge_waiters e = int (waiting provider rs) \<and>
    (\<forall>w. Waiting provider w \<in> set rs \<longrightarrow> 0 \<le> w \<and> w < maxInProcessWait)"
  using gate_reach_ok [OF assms(1)] assms(2)
  by (auto simp: gate_ok_iff prov_ok_def entry_ok_def gateAcquireTimeout_def dest: spec [where x = provider])

lemma gate_two_loops:
  "gate_reach 2 ([Requesting ''p'', Waiting ''p'' 0], [''p'' \<mapsto> \<lparr>ge_slots = 0, ge_limit = 1, ge_waiters = 1\<rparr>])"
proof -
  let ?g1 = "[''p'' \<mapsto> \<lparr>ge_slots = 0, ge_limit = 1, ge_waiters = 0\<rparr>]"
  have "gate_reach 2 ([Outside, Outside], newProviderGate)"
    using gate_reach.Start [of 2] by (simp add: numeral_2_eq_2)
  moreover have "gate_step ([Outside, Outside], newProviderGate) ([Requesting ''p'', Outside], ?g1)"
    using gate_step.Begin [where i = 0 and rs = "[Outside, Outside]" and provider = "''p''" and limit = 1 and g = newProviderGate
        and r = "Requesting ''p''" and g' = ?g1]
    by (simp add: acquire_begin_def gate_entry_def gate_take_def newProviderGate_def Let_def)
  moreover have "gate_step ([Requesting ''p'', Outside], ?g1)
      ([Requesting ''p'', Waiting ''p'' 0], [''p'' \<mapsto> \<lparr>ge_slots = 0, ge_limit = 1, ge_waiters = 1\<rparr>])"
    using gate_step.Begin [where i = 1 and rs = "[Requesting ''p'', Outside]" and provider = "''p''" and limit = 3 and g = ?g1
        and r = "Waiting ''p'' 0" and g' = "[''p'' \<mapsto> \<lparr>ge_slots = 0, ge_limit = 1, ge_waiters = 1\<rparr>]"]
    by (simp add: acquire_begin_def gate_entry_def gate_take_def gate_waiters_def)
  ultimately show ?thesis by (blast intro: gate_reach.Step)
qed

theorem provider_gate_bounds_requests_witness:
  "ge_slots \<lparr>ge_slots = 0, ge_limit = 1, ge_waiters = 1\<rparr> + requesting ''p'' [Requesting ''p'', Waiting ''p'' 0] = 1"
  using provider_gate_bounds_requests [OF gate_two_loops, of "''p''"] by simp

end
