(* ===== verification/RateLimit.thy ===== *)
theory RateLimit
  imports QuotaWake Compact
begin

text \<open>
  The errors of the language-model drivers (\<open>drivers/llm/errors.go\<close>, \<open>ratelimit.go\<close>, \<open>retryafter.go\<close>) and how the
  kernel reads them (\<open>kernel/reason.go\<close>): the split of rate limits, the wait a provider declares in its
  headers or its text, and the tests that decide about a retry. An error is the chain of its causes,
  outermost first. Instants are nanoseconds since 1970 UTC. The regular expressions are matched by hand,
  their case folding is that of the ASCII letters; \<open>http.ParseTime\<close> is a parameter.
\<close>

section \<open>Errors\<close>

datatype llm_sentinel =
    LlmErrRateLimit | LlmErrAuth | LlmErrLoginRequired | LlmErrContextLength | LlmErrModelNotFound | LlmErrTimeout
  | LlmErrTransient | LlmErrStreamIncomplete | LlmErrMaxTurns | LlmErrRateLimitThrottle | LlmErrQuotaExhausted
  | LlmErrServerOverloaded

fun sentinel_text :: "llm_sentinel \<Rightarrow> string" where
  "sentinel_text LlmErrRateLimit = ''llm: rate limit exceeded''"
| "sentinel_text LlmErrAuth = ''llm: authentication failed''"
| "sentinel_text LlmErrLoginRequired = ''llm: login required''"
| "sentinel_text LlmErrContextLength = ''llm: context length exceeded''"
| "sentinel_text LlmErrModelNotFound = ''llm: model not found''"
| "sentinel_text LlmErrTimeout = ''llm: request timed out''"
| "sentinel_text LlmErrTransient = ''llm: transient error''"
| "sentinel_text LlmErrStreamIncomplete = ''llm: stream ended without result''"
| "sentinel_text LlmErrMaxTurns = ''llm: agent loop exhausted max turns''"
| "sentinel_text LlmErrRateLimitThrottle = ''llm: rate limit exceeded (retryable throttle)''"
| "sentinel_text LlmErrQuotaExhausted = ''llm: rate limit exceeded (quota window exhausted)''"
| "sentinel_text LlmErrServerOverloaded = ''llm: server overloaded''"

text \<open>The sentinels of an error's chain below a sentinel: two of them wrap the public one.\<close>

fun sentinel_wraps :: "llm_sentinel \<Rightarrow> llm_sentinel list" where
  "sentinel_wraps LlmErrRateLimitThrottle = [LlmErrRateLimitThrottle, LlmErrRateLimit]"
| "sentinel_wraps LlmErrQuotaExhausted = [LlmErrQuotaExhausted, LlmErrRateLimit]"
| "sentinel_wraps s = [s]"

datatype RateLimitKind = KindThrottle | KindQuota | KindOverload

fun kind_text :: "RateLimitKind \<Rightarrow> string" where
  "kind_text KindQuota = ''quota''"
| "kind_text KindOverload = ''overload''"
| "kind_text KindThrottle = ''throttle''"

record RateLimitError =
  rl_Kind :: RateLimitKind
  rl_Message :: string
  rl_RetryAfter :: int
  rl_ResetAt :: "int option"
  rl_Source :: string

fun kind_sentinel :: "RateLimitKind \<Rightarrow> llm_sentinel" where
  "kind_sentinel KindQuota = LlmErrQuotaExhausted"
| "kind_sentinel KindOverload = LlmErrServerOverloaded"
| "kind_sentinel KindThrottle = LlmErrRateLimitThrottle"

definition displaySentinel :: "RateLimitError \<Rightarrow> llm_sentinel" where
  "displaySentinel e = (if rl_Kind e = KindOverload then LlmErrServerOverloaded else LlmErrRateLimit)"

definition RateLimitError_text :: "RateLimitError \<Rightarrow> string" where
  "RateLimitError_text e =
     (if rl_Message e = [] then sentinel_text (displaySentinel e) else rl_Message e @ '': '' @ sentinel_text (displaySentinel e))"

text \<open>
  A link of the chain: \<open>Wrapping\<close> has a text of its own and wraps the rest (\<open>LLMError\<close>, \<open>VFSError\<close>, \<open>%w\<close>),
  the others end it; \<open>GateError\<close> is the kernel's own, \<open>True\<close> for a timeout.
\<close>

datatype err_link =
    Wrapping string
  | Sentinel llm_sentinel
  | RateLimited RateLimitError
  | StreamInterrupted string
  | GateError bool string
  | OtherError string

type_synonym llm_error = "err_link list"

fun link_text :: "err_link \<Rightarrow> string" where
  "link_text (Wrapping t) = t"
| "link_text (Sentinel s) = sentinel_text s"
| "link_text (RateLimited e) = RateLimitError_text e"
| "link_text (StreamInterrupted partial) = ''llm: stream interrupted by cancellation ('' @ print_int (int (length partial)) @ '' bytes partial content)''"
| "link_text (GateError timeout provider) = ''provider concurrency gate '' @ (if timeout then ''timeout: '' else ''cancelled: '') @ provider"
| "link_text (OtherError t) = t"

definition err_text :: "llm_error \<Rightarrow> string" where
  "err_text err = (case err of [] \<Rightarrow> [] | l # _ \<Rightarrow> link_text l)"

fun link_sentinels :: "err_link \<Rightarrow> llm_sentinel list" where
  "link_sentinels (Sentinel s) = sentinel_wraps s"
| "link_sentinels (RateLimited e) = sentinel_wraps (kind_sentinel (rl_Kind e))"
| "link_sentinels _ = []"

definition errors_Is :: "llm_error \<Rightarrow> llm_sentinel \<Rightarrow> bool" where
  "errors_Is err s \<longleftrightarrow> list_ex (\<lambda>l. s \<in> set (link_sentinels l)) err"

definition IsTransient :: "llm_error \<Rightarrow> bool" where
  "IsTransient err \<longleftrightarrow> errors_Is err LlmErrTransient \<or> errors_Is err LlmErrTimeout \<or> errors_Is err LlmErrStreamIncomplete"

definition IsRateLimited :: "llm_error \<Rightarrow> bool" where
  "IsRateLimited err \<longleftrightarrow> errors_Is err LlmErrRateLimit \<or> errors_Is err LlmErrServerOverloaded"

definition RateLimitKindOf :: "llm_error \<Rightarrow> RateLimitKind option" where
  "RateLimitKindOf err =
     (if errors_Is err LlmErrQuotaExhausted then Some KindQuota
      else if errors_Is err LlmErrServerOverloaded then Some KindOverload
      else if errors_Is err LlmErrRateLimitThrottle then Some KindThrottle
      else None)"

text \<open>\<open>errors.As\<close> finds the first rate-limit error of the chain.\<close>

fun as_rate_limit :: "llm_error \<Rightarrow> RateLimitError option" where
  "as_rate_limit [] = None"
| "as_rate_limit (RateLimited e # ls) = Some e"
| "as_rate_limit (_ # ls) = as_rate_limit ls"

definition RateLimitWaitOf :: "llm_error \<Rightarrow> server_wait option" where
  "RateLimitWaitOf err =
     (case as_rate_limit err of
        None \<Rightarrow> None
      | Some e \<Rightarrow>
          if rl_RetryAfter e \<le> 0 \<and> rl_ResetAt e = None then None
          else Some \<lparr>sw_retryAfter = rl_RetryAfter e, sw_resetAt = rl_ResetAt e, sw_source = rl_Source e\<rparr>)"

section \<open>The kernel's reading\<close>

text \<open>
  \<open>strings.ToLower\<close> as far as a search for ASCII text can tell: beside the ASCII letters the Kelvin sign and the
  dotted capital i have a lower case in ASCII.
\<close>

fun lower_text :: "string \<Rightarrow> string" where
  "lower_text [] = []"
| "lower_text (c # s) =
     (if c = CHR 0xE2 \<and> take 2 s = [CHR 0x84, CHR 0xAA] then CHR 0x6B # lower_text (drop 2 s)
      else if c = CHR 0xC4 \<and> take 1 s = [CHR 0xB0] then CHR 0x69 # lower_text (drop 1 s)
      else ascii_lower c # lower_text s)"

definition containsAnyMarker :: "string \<Rightarrow> string list \<Rightarrow> bool" where
  "containsAnyMarker lower markers \<longleftrightarrow> list_ex (str_contains lower) markers"

text \<open>The first link that wraps another is the outermost one; below a sentinel only sentinels are wrapped.\<close>

definition unwrapped :: "llm_error \<Rightarrow> llm_error" where
  "unwrapped err = (case err of Wrapping _ # rest \<Rightarrow> rest | _ \<Rightarrow> [])"

definition inner_markers :: "string list" where
  "inner_markers = [''socket'', ''connection'', ''overloaded'', ''eof'', ''reset by peer'', ''timeout'', ''timed out'', ''stream'']"

definition outer_markers :: "string list" where
  "outer_markers = [''socket'', ''connection'', ''overloaded'', ''timeout'', ''timed out'', ''stream ended without result'']"

definition isTransientLLMError :: "llm_error \<Rightarrow> bool" where
  "isTransientLLMError err \<longleftrightarrow>
     (if errors_Is err LlmErrAuth \<or> errors_Is err LlmErrLoginRequired \<or> errors_Is err LlmErrContextLength \<or>
         errors_Is err LlmErrModelNotFound then False
      else if IsTransient err then True
      else if IsRateLimited err then True
      else if unwrapped err \<noteq> [] \<and> (IsTransient (unwrapped err) \<or> IsRateLimited (unwrapped err) \<or>
         containsAnyMarker (lower_text (err_text (unwrapped err))) inner_markers) then True
      else containsAnyMarker (lower_text (err_text err)) outer_markers)"

definition llmErrCode :: "llm_error option \<Rightarrow> ErrCode" where
  "llmErrCode err0 =
     (case err0 of
        None \<Rightarrow> ErrDriver
      | Some err \<Rightarrow>
          if IsRateLimited err then ErrRateLimit
          else if errors_Is err LlmErrAuth \<or> errors_Is err LlmErrLoginRequired then ErrPermission
          else if errors_Is err LlmErrContextLength then ErrResourceExhausted
          else if errors_Is err LlmErrModelNotFound then ErrNotFound
          else if errors_Is err LlmErrTimeout \<or> errors_Is err LlmErrStreamIncomplete then ErrTimeout
          else ErrDriver)"

definition is_gate_error :: "llm_error \<Rightarrow> bool" where
  "is_gate_error err \<longleftrightarrow> list_ex (\<lambda>l. case l of GateError _ _ \<Rightarrow> True | _ \<Rightarrow> False) err"

fun partial_of :: "llm_error \<Rightarrow> string" where
  "partial_of [] = []"
| "partial_of (StreamInterrupted t # ls) = t"
| "partial_of (_ # ls) = partial_of ls"

section \<open>The kind of a rate limit\<close>

definition rateLimitQuotaMarkers :: "string list" where
  "rateLimitQuotaMarkers = [''insufficient_quota'', ''quota has been exhausted'', ''quota will reset'', ''usage limit reached'']"

definition rateLimitThrottleMarkers :: "string list" where
  "rateLimitThrottleMarkers =
     [''rate limit'', ''requests per minute'', ''try again after'', ''too many requests'', ''temporarily limiting'', ''quota exhausted'']"

definition classifyRateLimitBody :: "string \<Rightarrow> string \<Rightarrow> RateLimitKind" where
  "classifyRateLimitBody msg errType =
     (let lower = lower_text (msg @ '' '' @ errType)
      in if containsAnyMarker lower rateLimitQuotaMarkers then KindQuota
         else if containsAnyMarker lower rateLimitThrottleMarkers then KindThrottle
         else KindThrottle)"

section \<open>The wait in the headers\<close>

definition millisecond :: int where "millisecond = 1000000"
definition second :: int where "second = 1000000000"
definition minute :: int where "minute = 60 * second"

definition maxDuration :: int where "maxDuration = 9223372036854775807"

definition scaleDuration :: "int \<Rightarrow> int \<Rightarrow> int" where
  "scaleDuration v unit = (if v > maxDuration div unit then maxDuration else i64 (v * unit))"

text \<open>\<open>strconv.ParseInt\<close> to base ten: a sign, then digits, within 64 bits.\<close>

definition is_digit :: "char \<Rightarrow> bool" where
  "is_digit c \<longleftrightarrow> (let n = (of_char c :: nat) in 48 \<le> n \<and> n \<le> 57)"

definition digits_value :: "string \<Rightarrow> int" where
  "digits_value ds = fold (\<lambda>c v. 10 * v + (of_char c - 48)) ds 0"

definition parse_digits :: "string \<Rightarrow> int option" where
  "parse_digits ds = (if ds \<noteq> [] \<and> list_all is_digit ds then Some (digits_value ds) else None)"

definition ParseInt :: "string \<Rightarrow> int option" where
  "ParseInt s =
     (let neg = (take 1 s = ''-'');
          ds = (if take 1 s = ''-'' \<or> take 1 s = ''+'' then drop 1 s else s)
      in case parse_digits ds of
           None \<Rightarrow> None
         | Some n \<Rightarrow> if in_i64 (if neg then - n else n) then Some (if neg then - n else n) else None)"

text \<open>\<open>Time.Sub\<close> saturates.\<close>

definition time_sub :: "int \<Rightarrow> int \<Rightarrow> int" where
  "time_sub t u = max (- maxDuration - 1) (min maxDuration (t - u))"

definition after_ms :: "(string \<Rightarrow> string) \<Rightarrow> int option" where
  "after_ms h =
     (case ParseInt (TrimSpace (h ''retry-after-ms'')) of
        Some v \<Rightarrow> if 0 < v then Some (scaleDuration v millisecond) else None
      | None \<Rightarrow> None)"

definition parseRetryAfter :: "(string \<Rightarrow> int option) \<Rightarrow> (string \<Rightarrow> string) option \<Rightarrow> int \<Rightarrow> int option" where
  "parseRetryAfter ParseTime header now =
     (case header of
        None \<Rightarrow> None
      | Some h \<Rightarrow>
          (case after_ms h of
             Some d \<Rightarrow> Some d
           | None \<Rightarrow>
               let ra = TrimSpace (h ''retry-after'')
               in if ra = [] then None
                  else case ParseInt ra of
                         Some v \<Rightarrow> if v \<le> 0 then None else Some (scaleDuration v second)
                       | None \<Rightarrow>
                           (case ParseTime ra of
                              Some t \<Rightarrow> if 0 < time_sub t now then Some (time_sub t now) else None
                            | None \<Rightarrow> None)))"

section \<open>Dates\<close>

definition is_leap :: "int \<Rightarrow> bool" where
  "is_leap y \<longleftrightarrow> y mod 4 = 0 \<and> (y mod 100 \<noteq> 0 \<or> y mod 400 = 0)"

definition days_in_year :: "int \<Rightarrow> int" where
  "days_in_year y = (if is_leap y then 366 else 365)"

definition month_days :: "bool \<Rightarrow> int list" where
  "month_days leap = [31, if leap then 29 else 28, 31, 30, 31, 30, 31, 31, 30, 31, 30, 31]"

text \<open>The days from 1 January 1970 to 1 January of a year, and the instant of a date; days run over into the next month.\<close>

definition leaps :: "int \<Rightarrow> int" where
  "leaps y = y div 4 - y div 100 + y div 400"

definition days_before_year :: "int \<Rightarrow> int" where
  "days_before_year y = 365 * (y - 1970) + leaps (y - 1) - leaps 1969"

definition date_day :: "int \<Rightarrow> int \<Rightarrow> int \<Rightarrow> int" where
  "date_day y month day = days_before_year y + sum_list (take (nat (month - 1)) (month_days (is_leap y))) + (day - 1)"

definition time_Date :: "int \<Rightarrow> int \<Rightarrow> int \<Rightarrow> int \<Rightarrow> int \<Rightarrow> int \<Rightarrow> int" where
  "time_Date y month day hour mins secs = second * (86400 * date_day y month day + 3600 * hour + 60 * mins + secs)"

text \<open>The year of a day since 1970: walk the years.\<close>

function year_walk :: "int \<Rightarrow> int \<Rightarrow> int" where
  "year_walk y n = (if n < days_in_year y then y else year_walk (y + 1) (n - days_in_year y))"
  by pat_completeness auto
termination
  by (relation "measure (\<lambda>(y, n). nat n)") (auto simp: days_in_year_def split: if_splits)

declare year_walk.simps [simp del]

definition Year :: "int \<Rightarrow> int" where
  "Year t = year_walk 1970 (t div (86400 * second))"

section \<open>The wait in the text\<close>

definition is_word :: "char \<Rightarrow> bool" where
  "is_word c \<longleftrightarrow> is_digit c \<or> c = CHR 0x5F \<or> (let n = (of_char (ascii_lower c) :: nat) in 97 \<le> n \<and> n \<le> 122)"

text \<open>A fixed text, case folded; a run of one or two digits; optional white space; a word that ends.\<close>

definition match_text :: "string \<Rightarrow> string \<Rightarrow> string option" where
  "match_text t s = (if map ascii_lower (take (length t) s) = t then Some (drop (length t) s) else None)"

definition match_digits :: "nat \<Rightarrow> nat \<Rightarrow> string \<Rightarrow> (int \<times> string) option" where
  "match_digits least most s =
     (let ds = takeWhile is_digit (take most s)
      in if least \<le> length ds then Some (digits_value ds, drop (length ds) s) else None)"

definition skip_space :: "string \<Rightarrow> string" where
  "skip_space = dropWhile (\<lambda>c. c \<in> {CHR 0x09, CHR 0x0A, CHR 0x0C, CHR 0x0D, CHR 0x20})"

fun match_word :: "string list \<Rightarrow> string \<Rightarrow> string option" where
  "match_word [] s = None"
| "match_word (w # ws) s =
     (case match_text w s of
        Some rest \<Rightarrow> if rest = [] \<or> \<not> is_word (hd rest) then Some w else match_word ws s
      | None \<Rightarrow> match_word ws s)"

fun leftmost :: "(string \<Rightarrow> 'a option) \<Rightarrow> string \<Rightarrow> 'a option" where
  "leftmost m [] = m []"
| "leftmost m (c # s) = (case m (c # s) of Some x \<Rightarrow> Some x | None \<Rightarrow> leftmost m s)"

definition reset_at_here :: "string \<Rightarrow> (int \<times> int \<times> int \<times> int \<times> int) option" where
  "reset_at_here s =
     Option.bind (match_text ''reset at '' s) (\<lambda>s1.
     Option.bind (match_digits 1 2 s1) (\<lambda>(month, s2).
     Option.bind (match_text ''-'' s2) (\<lambda>s3.
     Option.bind (match_digits 1 2 s3) (\<lambda>(day, s4).
     Option.bind (match_text '' '' s4) (\<lambda>s5.
     Option.bind (match_digits 1 2 s5) (\<lambda>(hour, s6).
     Option.bind (match_text '':'' s6) (\<lambda>s7.
     Option.bind (match_digits 2 2 s7) (\<lambda>(mins, s8).
     Option.bind (match_text '':'' s8) (\<lambda>s9.
     Option.bind (match_digits 2 2 s9) (\<lambda>(secs, s10).
     Option.bind (match_word [''utc'', ''gmt'', ''z''] (skip_space s10)) (\<lambda>_.
     Some (month, day, hour, mins, secs))))))))))))"

definition retry_after_here :: "string \<Rightarrow> (int \<times> string) option" where
  "retry_after_here s =
     Option.bind (match_text ''try again after '' s) (\<lambda>s1.
     Option.bind (match_digits 1 (length s1) s1) (\<lambda>(n, s2).
     Option.bind (match_word [''seconds'', ''second'', ''minutes'', ''minute'', ''s'', ''m''] (skip_space s2)) (\<lambda>unit.
     Some (n, unit))))"

text \<open>
  \<open>parseWaitFromBody\<close>; \<open>zone\<close> is the offset of the daemon's local time, whose year the code takes. \<open>None\<close> is
  \<open>ok = false\<close>.
\<close>

definition reset_instant :: "int \<Rightarrow> int \<times> int \<times> int \<times> int \<times> int \<Rightarrow> int \<Rightarrow> int option" where
  "reset_instant zone m now =
     (case m of (month, day, hour, mins, secs) \<Rightarrow>
        if month < 1 \<or> month > 12 \<or> day < 1 \<or> day > 31 \<or> hour > 23 \<or> mins > 59 \<or> secs > 59 then None
        else let y = Year (now + zone);
                 candidate = time_Date y month day hour mins secs
             in if day > month_days (is_leap y) ! nat (month - 1) then None
                else Some (if candidate < now then time_Date (y + 1) month day hour mins secs else candidate))"

definition parseWaitFromBody :: "int \<Rightarrow> string \<Rightarrow> int \<Rightarrow> (int \<times> int option) option" where
  "parseWaitFromBody zone msg now =
     (case leftmost reset_at_here msg of
        Some m \<Rightarrow> map_option (\<lambda>t. (0, Some t)) (reset_instant zone m now)
      | None \<Rightarrow>
          (case leftmost retry_after_here msg of
             None \<Rightarrow> None
           | Some (n, unit) \<Rightarrow>
               if n > maxDuration \<or> n \<le> 0 then None
               else Some (scaleDuration n (if take 1 unit = ''m'' then minute else second), None)))"

definition resolveRateLimitWait ::
  "(string \<Rightarrow> int option) \<Rightarrow> int \<Rightarrow> (string \<Rightarrow> string) option \<Rightarrow> string \<Rightarrow> int \<Rightarrow> int \<times> int option \<times> string" where
  "resolveRateLimitWait ParseTime zone header msg now =
     (case parseRetryAfter ParseTime header now of
        Some d \<Rightarrow> (d, None, ''header'')
      | None \<Rightarrow>
          (case parseWaitFromBody zone msg now of
             Some (ra, at) \<Rightarrow> if 0 < ra \<or> at \<noteq> None then (ra, at, ''body'') else (0, None, [])
           | None \<Rightarrow> (0, None, [])))"

text \<open>
  The status of a failed request (\<open>classifyError\<close> of the Anthropic driver): the two classes of rate limits
  carry the wait, the others a sentinel. Its first argument formats the \<open>LLMError\<close>.
\<close>

definition classify_status ::
  "(int \<Rightarrow> string \<Rightarrow> string) \<Rightarrow> (string \<Rightarrow> int option) \<Rightarrow> int \<Rightarrow> (string \<Rightarrow> string) option \<Rightarrow> int \<Rightarrow> string \<Rightarrow> int \<Rightarrow> llm_error" where
  "classify_status format ParseTime zone header status msg now =
     (case resolveRateLimitWait ParseTime zone header msg now of
        (retryAfter, resetAt, source) \<Rightarrow>
          let limited = (\<lambda>kind. RateLimited \<lparr>rl_Kind = kind, rl_Message = msg, rl_RetryAfter = retryAfter, rl_ResetAt = resetAt, rl_Source = source\<rparr>);
              cause = (\<lambda>s. [Wrapping (msg @ '': '' @ sentinel_text s), Sentinel s]);
              chain = (if status = 401 then cause LlmErrAuth
                       else if status = 429 then [limited (classifyRateLimitBody msg [])]
                       else if status = 529 \<or> status = 503 then [limited KindOverload]
                       else if status = 404 then cause LlmErrModelNotFound
                       else if status = 400 \<and> containsAnyMarker (lower_text msg) [''context'', ''token''] then cause LlmErrContextLength
                       else [OtherError msg])
          in Wrapping (format status (err_text chain)) # chain)"

section \<open>The calendar\<close>

lemma div_pred:
  fixes y k :: int
  assumes "0 < k"
  shows "y div k = (y - 1) div k + (if y mod k = 0 then 1 else 0)"
proof (cases "y mod k = 0")
  case True
  have "y - 1 = k * (y div k - 1) + (k - 1)" using True div_mult_mod_eq [of y k] by (simp add: algebra_simps)
  then have "(y - 1) div k = y div k - 1" using assms by (intro int_div_pos_eq [where r = "k - 1"]) auto
  then show ?thesis using True by simp
next
  case False
  have "y - 1 = k * (y div k) + (y mod k - 1)" by (simp add: algebra_simps)
  moreover have "0 < y mod k" "y mod k < k" using False assms pos_mod_sign [of k y] by (simp_all add: le_less)
  ultimately have "(y - 1) div k = y div k" by (intro int_div_pos_eq [where r = "y mod k - 1"]) auto
  then show ?thesis using False by simp
qed

lemma mod_0_imp_mod_0:
  fixes y k l :: int
  assumes "y mod k = 0" and "l dvd k"
  shows "y mod l = 0"
proof -
  have "k dvd y" using assms(1) by (rule mod_0_imp_dvd)
  with assms(2) have "l dvd y" by (rule dvd_trans)
  then show ?thesis by (rule dvd_imp_mod_0)
qed

lemma leaps_step: "leaps y = leaps (y - 1) + (if is_leap y then 1 else 0)"
proof -
  note d = div_pred [of 4 y, simplified] div_pred [of 100 y, simplified] div_pred [of 400 y, simplified]
  have m: "y mod 400 = 0 \<Longrightarrow> y mod 100 = 0" "y mod 100 = 0 \<Longrightarrow> y mod 4 = 0"
    by (rule mod_0_imp_mod_0 [of y 400], simp_all) (rule mod_0_imp_mod_0 [of y 100], simp_all)
  show ?thesis
  proof (cases "y mod 100 = 0")
    case True
    then show ?thesis using m(2) unfolding leaps_def is_leap_def d by simp
  next
    case False
    then have "y mod 400 \<noteq> 0" by (rule contrapos_nn) (rule m(1))
    then show ?thesis using False unfolding leaps_def is_leap_def d by simp
  qed
qed

lemma next_year: "days_before_year (y + 1) = days_before_year y + days_in_year y"
  by (simp add: days_before_year_def days_in_year_def leaps_step [of y])

text \<open>A date is at least 365 days after the same date of the year before.\<close>

lemma month_cases: "1 \<le> (m::int) \<Longrightarrow> m \<le> 12 \<Longrightarrow> m \<in> {1, 2, 3, 4, 5, 6, 7, 8, 9, 10, 11, 12}"
  by simp presburger

lemma months_before:
  assumes "1 \<le> m" and "m \<le> 12"
  shows "sum_list (take (nat (m - 1)) (month_days leap)) =
    sum_list (take (nat (m - 1)) (month_days False)) + (if leap \<and> 2 < m then 1 else 0)"
  using month_cases [OF assms] by (elim insertE emptyE) (simp_all add: month_days_def eval_nat_numeral)

lemma date_next_year:
  assumes "1 \<le> m" and "m \<le> 12"
  shows "date_day y m d + 365 \<le> date_day (y + 1) m d"
  using months_before [OF assms, of "is_leap y"] months_before [OF assms, of "is_leap (y + 1)"]
  by (simp add: date_day_def next_year days_in_year_def)

lemma Date_next_year:
  assumes "1 \<le> m" and "m \<le> 12"
  shows "time_Date y m d h i s + 365 * 86400 * second \<le> time_Date (y + 1) m d h i s"
  using date_next_year [OF assms, of y d] by (simp add: time_Date_def second_def)

text \<open>The walk over the years finds the year of a day.\<close>

lemma year_walk_ok:
  assumes "0 \<le> n"
  shows "days_before_year y + n < days_before_year (year_walk y n + 1) \<and> days_before_year (year_walk y n) \<le> days_before_year y + n"
  using assms
proof (induction y n rule: year_walk.induct)
  case (1 y n)
  show ?case
  proof (cases "n < days_in_year y")
    case True
    then show ?thesis using 1(2) by (simp add: year_walk.simps [of y n] next_year)
  next
    case False
    then show ?thesis using 1(1) by (simp add: year_walk.simps [of y n] next_year)
  qed
qed

lemma Year_ok:
  assumes "0 \<le> t"
  shows "days_before_year (Year t) * 86400 * second \<le> t \<and> t < days_before_year (Year t + 1) * 86400 * second"
proof -
  define D q where "D = 86400 * second" and "q = t div D"
  have D: "0 < D" by (simp add: D_def second_def)
  have "0 \<le> q" using assms D by (simp add: q_def pos_imp_zdiv_nonneg_iff)
  moreover have "days_before_year 1970 = 0" by (simp add: days_before_year_def)
  ultimately have w: "q + 1 \<le> days_before_year (Year t + 1)" "days_before_year (Year t) \<le> q"
    using year_walk_ok [of q 1970] by (simp_all add: Year_def q_def D_def)
  have "q * D \<le> t" "t < (q + 1) * D"
    using D pos_mod_bound [of D t] pos_mod_sign [of D t] div_mult_mod_eq [of t D] unfolding q_def distrib_right by linarith+
  moreover have "days_before_year (Year t) * D \<le> q * D" "(q + 1) * D \<le> days_before_year (Year t + 1) * D"
    using w D by (simp_all add: mult_right_mono)
  ultimately show ?thesis by (simp add: D_def mult.assoc)
qed

section \<open>An instant that has just passed\<close>

definition valid_reset :: "int \<Rightarrow> int \<times> int \<times> int \<times> int \<times> int \<Rightarrow> bool" where
  "valid_reset y m \<longleftrightarrow>
     (case m of (month, day, hour, mins, secs) \<Rightarrow>
        1 \<le> month \<and> month \<le> 12 \<and> 1 \<le> day \<and> day \<le> month_days (is_leap y) ! nat (month - 1) \<and>
        0 \<le> hour \<and> hour \<le> 23 \<and> 0 \<le> mins \<and> mins \<le> 59 \<and> 0 \<le> secs \<and> secs \<le> 59)"

definition instant_of :: "int \<Rightarrow> int \<times> int \<times> int \<times> int \<times> int \<Rightarrow> int" where
  "instant_of y m = (case m of (month, day, hour, mins, secs) \<Rightarrow> time_Date y month day hour mins secs)"

lemma month_days_le:
  assumes "1 \<le> m" and "m \<le> 12"
  shows "month_days b ! nat (m - 1) \<le> 31"
  using month_cases [OF assms] by (elim insertE emptyE) (auto simp: month_days_def eval_nat_numeral)

lemma reset_instant_valid:
  assumes "valid_reset (Year (now + zone)) m"
  shows "reset_instant zone m now =
    Some (if instant_of (Year (now + zone)) m < now then instant_of (Year (now + zone) + 1) m else instant_of (Year (now + zone)) m)"
proof -
  obtain month day hour mins secs where m: "m = (month, day, hour, mins, secs)" by (cases m) auto
  have "day \<le> 31" using assms month_days_le [of month "is_leap (Year (now + zone))"] by (simp add: valid_reset_def m)
  then show ?thesis using assms by (simp add: valid_reset_def reset_instant_def instant_of_def m Let_def)
qed

lemma instant_next_year:
  assumes "valid_reset y m"
  shows "instant_of y m + 365 * 86400 * second \<le> instant_of (y + 1) m"
proof -
  obtain month day hour mins secs where m: "m = (month, day, hour, mins, secs)" by (cases m) auto
  show ?thesis using assms Date_next_year [of month y day hour mins secs] by (simp add: valid_reset_def instant_of_def m)
qed

text \<open>
  A body that names an instant of this year which passed at most a day ago declares a wait of a year
  less a day or more, and the kernel takes it for longer than it may wait itself.
\<close>

lemma just_past_declares_a_year:
  assumes "leftmost reset_at_here msg = Some m" and "valid_reset (Year (now + zone)) m"
    and "instant_of (Year (now + zone)) m < now" and "now \<le> instant_of (Year (now + zone)) m + 86400 * second"
  defines "t \<equiv> instant_of (Year (now + zone) + 1) m"
  shows "resolveRateLimitWait P zone None msg now = (0, Some t, ''body'')"
    and "now + 364 * 86400 * second \<le> t"
    and "maxInProcessWait < effectiveWait now (resolveRateLimitDelay now (Some \<lparr>sw_retryAfter = 0, sw_resetAt = Some t, sw_source = src\<rparr>) attempt)"
    and "deriveQuotaResumeAt now 0 (Some t) = (Some t, ''reset_at'')"
proof -
  show "resolveRateLimitWait P zone None msg now = (0, Some t, ''body'')"
    using assms(1,3) reset_instant_valid [OF assms(2)]
    by (simp add: resolveRateLimitWait_def parseRetryAfter_def parseWaitFromBody_def t_def)
  show t: "now + 364 * 86400 * second \<le> t"
    using instant_next_year [OF assms(2)] assms(4) by (simp add: t_def second_def)
  then have pos: "maxInProcessWait < t - now" by (simp add: second_def maxInProcessWait_def)
  then show "maxInProcessWait < effectiveWait now (resolveRateLimitDelay now (Some \<lparr>sw_retryAfter = 0, sw_resetAt = Some t, sw_source = src\<rparr>) attempt)"
    by (simp add: effectiveWait_def resolveRateLimitDelay_def Let_def maxInProcessWait_def)
  from pos show "deriveQuotaResumeAt now 0 (Some t) = (Some t, ''reset_at'')"
    by (simp add: deriveQuotaResumeAt_def maxInProcessWait_def)
qed

end
