(* ===== verification/ReasonLoop.thy ===== *)
theory ReasonLoop
  imports ToolExec LoopDetect ProviderGate RateLimit
begin

text \<open>
  The reasoning loop of a process (\<open>reasonStep\<close>, \<open>attemptFallback\<close>, \<open>handleInterruptedWrite\<close>, \<open>handleLoopDetection\<close> in
  \<open>kernel/reason.go\<close>) and the breakpoints of the debugger (\<open>kernel/breakpoint.go\<close>). A step builds the prompt, asks the
  language model, retries, falls back or suspends when that fails, checks the budgets, runs the tool calls
  or ends the process with the answer. What the devices answer, the clock and what the other goroutines
  do while the loop waits are the environment, asked by the number of the step, which no two turns of
  the loop share. A call that blocks is taken to return. Events, logs, step records, checkpoints, metrics
  and the raw captures are left out, as is the number format of costs.
\<close>

section \<open>Breakpoints\<close>

datatype BreakpointType = BPSyscall | BPReasoning | BPQuality | BPBudget

datatype BreakpointCondition =
    SyscallCondition string
  | ReasoningCondition
  | QualityPattern "(string \<Rightarrow> bool) option"
  | QualityEval string
  | BudgetCondition int bool

record Breakpoint =
  bp_ID :: int
  bp_Type :: BreakpointType
  bp_Condition :: "BreakpointCondition option"
  bp_Enabled :: bool
  bp_HitCount :: int

record BreakpointContext =
  bc_Type :: BreakpointType
  bc_SyscallName :: string
  bc_LLMResponse :: string
  bc_TokensUsed :: int

text \<open>A budget condition fires once: the match returns the condition it leaves behind.\<close>

fun bp_match :: "BreakpointContext \<Rightarrow> BreakpointCondition \<Rightarrow> bool \<times> BreakpointCondition" where
  "bp_match c (SyscallCondition name) = (bc_SyscallName c = name, SyscallCondition name)"
| "bp_match c ReasoningCondition = (True, ReasoningCondition)"
| "bp_match c (QualityPattern None) = (False, QualityPattern None)"
| "bp_match c (QualityPattern (Some re)) = (re (bc_LLMResponse c), QualityPattern (Some re))"
| "bp_match c (QualityEval expr) = (\<not> str_contains (bc_LLMResponse c) expr, QualityEval expr)"
| "bp_match c (BudgetCondition threshold fired) =
     (if fired then (False, BudgetCondition threshold fired)
      else if threshold \<le> bc_TokensUsed c then (True, BudgetCondition threshold True)
      else (False, BudgetCondition threshold fired))"

fun CheckBreakpoint :: "BreakpointContext \<Rightarrow> Breakpoint list \<Rightarrow> Breakpoint option \<times> Breakpoint list" where
  "CheckBreakpoint c [] = (None, [])"
| "CheckBreakpoint c (bp # bps) =
     (let skip = (case CheckBreakpoint c bps of (hit, bps') \<Rightarrow> (hit, bp # bps'))
      in if \<not> bp_Enabled bp \<or> bp_Type bp \<noteq> bc_Type c then skip
         else case bp_Condition bp of
                None \<Rightarrow> skip
              | Some cond \<Rightarrow>
                  (case bp_match c cond of
                     (True, cond') \<Rightarrow>
                       let bp' = bp\<lparr>bp_Condition := Some cond', bp_HitCount := bp_HitCount bp + 1\<rparr> in (Some bp', bp' # bps)
                   | (False, cond') \<Rightarrow> skip))"

definition AddBreakpoint :: "int \<Rightarrow> Breakpoint \<Rightarrow> Breakpoint list \<Rightarrow> Breakpoint list" where
  "AddBreakpoint bid bp bps = bps @ [bp\<lparr>bp_ID := bid\<rparr>]"

fun RemoveBreakpoint :: "int \<Rightarrow> Breakpoint list \<Rightarrow> bool \<times> Breakpoint list" where
  "RemoveBreakpoint bid [] = (False, [])"
| "RemoveBreakpoint bid (bp # bps) =
     (if bp_ID bp = bid then (True, bps)
      else case RemoveBreakpoint bid bps of (found, bps') \<Rightarrow> (found, bp # bps'))"

text \<open>What the debugger keeps of a process.\<close>

record gdb =
  gd_breakpoints :: "Breakpoint list"
  gd_stepReasoning :: bool
  gd_envVars :: "(string \<times> string) list"

section \<open>Configuration, environment, state\<close>

record reason_config =
  rc_proc :: proc_config
  rc_MaxSteps :: int
  rc_PrimaryDevice :: string
  rc_FallbackDevice :: string
  rc_MaxTokens :: int
  rc_MaxCost :: rat
  rc_costPerToken :: "(string \<Rightarrow> rat) option"
  rc_isCLI :: bool

record llm_answer =
  la_resp :: llmResponse
  la_StopReason :: string
  la_TokensUsed :: int
  la_InputTokens :: int
  la_CostUSD :: rat

text \<open>The points where the loop waits or looks again, and others have run.\<close>

datatype loop_point = AtStart | AtPause | AtGdb | AtWrite | AtRead | AtBackoff | AtFallback | AtVerdict

text \<open>
  A read answers with an error or with the parsed response, \<open>None\<close> when it does not parse. The step
  cancel is the heartbeat monitor's.
\<close>

record ('e, 'w, 'f, 'v, 'd) reason_env =
  re_tool :: "('e, 'w, 'f, 'v, 'd) tool_env"
  re_others :: "loop_point \<Rightarrow> int \<Rightarrow> kernel \<Rightarrow> kernel"
  re_debugger :: "loop_point \<Rightarrow> int \<Rightarrow> gdb \<Rightarrow> gdb"
  re_now :: "int \<Rightarrow> int"
  re_select :: "int \<Rightarrow> bool"
  re_marshal :: "int \<Rightarrow> bool"
  re_gate :: "string \<Rightarrow> int \<Rightarrow> llm_error option"
  re_write :: "int \<Rightarrow> llm_error option"
  re_stepCancelled :: "int \<Rightarrow> bool"
  re_read :: "int \<Rightarrow> llm_error + llm_answer option"
  re_jitter :: "int \<Rightarrow> rat"
  re_waitCancelled :: "int \<Rightarrow> nat \<Rightarrow> bool"
  re_clock :: "int \<Rightarrow> nat \<Rightarrow> int"
  re_fbOpen :: "int \<Rightarrow> bool"
  re_fbMarshal :: "int \<Rightarrow> bool"
  re_fbWrite :: "int \<Rightarrow> llm_error option"
  re_fbRead :: "int \<Rightarrow> llm_error + llm_answer option"
  re_detail :: "llm_error \<Rightarrow> string"
  re_inputJSON :: "(string \<times> json) list \<Rightarrow> string"

record ('e, 'w) loop_state =
  ls_tools :: "('e, 'w) tool_state"
  ls_transient :: int
  ls_rateLimit :: int
  ls_lastHash :: "64 word"
  ls_detector :: LoopDetector
  ls_UsedCost :: rat
  ls_gdb :: gdb

definition others ::
  "('e, 'w, 'f, 'v, 'd) reason_env \<Rightarrow> loop_point \<Rightarrow> int \<Rightarrow> ('e, 'w) loop_state \<Rightarrow> ('e, 'w) loop_state" where
  "others e pt step s =
     s\<lparr>ls_tools := upd_kern (re_others e pt step) (ls_tools s), ls_gdb := re_debugger e pt step (ls_gdb s)\<rparr>"

definition the_proc :: "reason_config \<Rightarrow> (Process \<Rightarrow> 'a) \<Rightarrow> 'a \<Rightarrow> ('e, 'w) loop_state \<Rightarrow> 'a" where
  "the_proc c f d s = proc_field (rc_proc c) f d (tl_kern (ls_tools s))"

definition cancelled :: "reason_config \<Rightarrow> ('e, 'w) loop_state \<Rightarrow> bool" where
  "cancelled c = the_proc c pr_cancelled False"

definition suspend_asked :: "reason_config \<Rightarrow> ('e, 'w) loop_state \<Rightarrow> bool" where
  "suspend_asked c = the_proc c pr_suspendRequested False"

definition upd_proc :: "reason_config \<Rightarrow> (Process \<Rightarrow> Process) \<Rightarrow> ('e, 'w) loop_state \<Rightarrow> ('e, 'w) loop_state" where
  "upd_proc c f s = s\<lparr>ls_tools := upd_kern (updProc (pc_PID (rc_proc c)) f) (ls_tools s)\<rparr>"

definition finish_with ::
  "('e, 'w, 'f, 'v, 'd) reason_env \<Rightarrow> reason_config \<Rightarrow> int \<Rightarrow> string \<Rightarrow> go_error option \<Rightarrow> ('e, 'w) loop_state \<Rightarrow> ('e, 'w) loop_state" where
  "finish_with e c code reason err s = s\<lparr>ls_tools := finish (re_tool e) (rc_proc c) code reason err (ls_tools s)\<rparr>"

text \<open>\<open>selfSuspend\<close>, with the status the process is finished with when that fails.\<close>

definition suspend_or_finish ::
  "('e, 'w, 'f, 'v, 'd) reason_env \<Rightarrow> reason_config \<Rightarrow> string \<Rightarrow> int \<Rightarrow> (go_error \<Rightarrow> int \<times> string \<times> go_error option)
   \<Rightarrow> ('e, 'w) loop_state \<Rightarrow> ('e, 'w) loop_state" where
  "suspend_or_finish e c reason exitCode otherwise s =
     (case selfSuspend (te_kenv (re_tool e)) (pc_PID (rc_proc c)) reason exitCode (tl_kern (ls_tools s)) of
        (err, k) \<Rightarrow>
          let s1 = s\<lparr>ls_tools := (ls_tools s)\<lparr>tl_kern := k\<rparr>\<rparr>
          in case err of
               None \<Rightarrow> s1
             | Some er \<Rightarrow> (case otherwise er of (code, r, fin) \<Rightarrow> finish_with e c code r fin s1))"

text \<open>A part of a step: \<open>Inl\<close> when the loop returns or goes on to the next step (\<open>True\<close>), \<open>Inr\<close> when the step goes on.\<close>

type_synonym ('a, 'e, 'w) part = "(bool \<times> ('e, 'w) loop_state) + ('a \<times> ('e, 'w) loop_state)"

definition gdb_stop ::
  "('e, 'w, 'f, 'v, 'd) reason_env \<Rightarrow> reason_config \<Rightarrow> int \<Rightarrow> ('e, 'w) loop_state \<Rightarrow> (unit, 'e, 'w) part" where
  "gdb_stop e c step s =
     (let s1 = others e AtGdb step s
      in if cancelled c s1 then Inl (False, finish_with e c 1 ''context cancelled while gdb-paused'' None s1) else Inr ((), s1))"

definition gdb_check ::
  "('e, 'w, 'f, 'v, 'd) reason_env \<Rightarrow> reason_config \<Rightarrow> int \<Rightarrow> BreakpointContext \<Rightarrow> ('e, 'w) loop_state \<Rightarrow> (unit, 'e, 'w) part" where
  "gdb_check e c step ctx s =
     (case CheckBreakpoint ctx (gd_breakpoints (ls_gdb s)) of
        (hit, bps) \<Rightarrow>
          let s1 = s\<lparr>ls_gdb := (ls_gdb s)\<lparr>gd_breakpoints := bps\<rparr>\<rparr>
          in case hit of None \<Rightarrow> Inr ((), s1) | Some _ \<Rightarrow> gdb_stop e c step s1)"

section \<open>The start of a step\<close>

definition pause_check ::
  "('e, 'w, 'f, 'v, 'd) reason_env \<Rightarrow> reason_config \<Rightarrow> int \<Rightarrow> ('e, 'w) loop_state \<Rightarrow> (unit, 'e, 'w) part" where
  "pause_check e c step s =
     (if \<not> the_proc c pr_paused False s then Inr ((), s)
      else let s1 = others e AtPause step s
           in if cancelled c s1 \<and> (the_proc c pr_paused False s1 \<or> re_select e step)
              then Inl (False, if suspend_asked c s1 then s1
                               else finish_with e c 1 ''context cancelled while paused'' None s1)
              else Inr ((), s1))"

definition cancel_check ::
  "('e, 'w, 'f, 'v, 'd) reason_env \<Rightarrow> reason_config \<Rightarrow> int \<Rightarrow> ('e, 'w) loop_state \<Rightarrow> (unit, 'e, 'w) part" where
  "cancel_check e c step s =
     (if \<not> cancelled c s then Inr ((), s)
      else Inl (False, if suspend_asked c s then s else finish_with e c 1 ''context cancelled'' None s))"

definition step_mode ::
  "('e, 'w, 'f, 'v, 'd) reason_env \<Rightarrow> reason_config \<Rightarrow> int \<Rightarrow> ('e, 'w) loop_state \<Rightarrow> (unit, 'e, 'w) part" where
  "step_mode e c step s =
     (if gd_stepReasoning (ls_gdb s) then gdb_stop e c step (s\<lparr>ls_gdb := (ls_gdb s)\<lparr>gd_stepReasoning := False\<rparr>\<rparr>) else Inr ((), s))"

definition bind_part :: "('a, 'e, 'w) part \<Rightarrow> ('a \<Rightarrow> ('e, 'w) loop_state \<Rightarrow> ('b, 'e, 'w) part) \<Rightarrow> ('b, 'e, 'w) part" where
  "bind_part m f = (case m of Inl r \<Rightarrow> Inl r | Inr (x, s) \<Rightarrow> f x s)"

definition begin_step ::
  "('e, 'w, 'f, 'v, 'd) reason_env \<Rightarrow> reason_config \<Rightarrow> int \<Rightarrow> ('e, 'w) loop_state \<Rightarrow> (unit, 'e, 'w) part" where
  "begin_step e c step s =
     bind_part (pause_check e c step (others e AtStart step (upd_proc c (TouchHeartbeat (re_now e step)) s))) (\<lambda>_ s1.
     bind_part (cancel_check e c step s1) (\<lambda>_ s2.
     bind_part (gdb_check e c step \<lparr>bc_Type = BPReasoning, bc_SyscallName = [], bc_LLMResponse = [], bc_TokensUsed = 0\<rparr> s2) (\<lambda>_ s3.
     step_mode e c step s3)))"

section \<open>The request\<close>

definition newline :: string where "newline = [CHR 0x0A]"

definition env_section :: "(string \<times> string) list \<Rightarrow> string" where
  "env_section vars =
     (if vars = [] then []
      else newline @ newline @ ''[GDB Environment Variables]'' @ newline @ concat (map (\<lambda>(k, v). k @ ''='' @ v @ newline) vars))"

fun comma_join :: "string list \<Rightarrow> string" where
  "comma_join [] = []"
| "comma_join [x] = x"
| "comma_join (x # xs) = x @ '', '' @ comma_join xs"

definition skills_section :: "string list \<Rightarrow> string" where
  "skills_section skills =
     (if skills = [] then []
      else newline @ newline @ ''# Loaded Skills'' @ newline @ ''Currently loaded: '' @ comma_join skills @ ''.'' @ newline @
           ''Skill instructions are delivered out-of-band.'')"

definition build_request ::
  "('e, 'w, 'f, 'v, 'd) reason_env \<Rightarrow> reason_config \<Rightarrow> int \<Rightarrow> ('e, 'w) loop_state \<Rightarrow> (unit, 'e, 'w) part" where
  "build_request e c step s =
     (let t = ls_tools s
      in case on_mgr (BuildPrompt (ce_sections (te_compact (re_tool e))) (cm_CtxID (tl_comp t))) (tl_comp t) of
           (Inl err, cp) \<Rightarrow>
             Inl (False, finish_with e c 1 ''build prompt failed'' (Some (PlainError ''no such context'')) (s\<lparr>ls_tools := t\<lparr>tl_comp := cp\<rparr>\<rparr>))
         | (Inr (prompt, msgs), cp) \<Rightarrow>
             let sysPrompt = (if pc_HasSections (rc_proc c) then prompt
                              else prompt @ env_section (gd_envVars (ls_gdb s)) @ skills_section (cm_Skills cp));
                 cp1 = (if cm_FinalSystemPrompt cp = [] then cp\<lparr>cm_FinalSystemPrompt := sysPrompt\<rparr> else cp);
                 s1 = s\<lparr>ls_tools := t\<lparr>tl_comp := cp1\<rparr>\<rparr>
             in if re_marshal e step then Inr ((), s1)
                else Inl (False, finish_with e c 1 ''marshal request failed'' (Some (PlainError ''marshal'')) s1))"

section \<open>When the request fails\<close>

definition handleInterruptedWrite ::
  "('e, 'w, 'f, 'v, 'd) reason_env \<Rightarrow> reason_config \<Rightarrow> llm_error \<Rightarrow> ('e, 'w) loop_state \<Rightarrow> ('e, 'w) loop_state" where
  "handleInterruptedWrite e c err s =
     (let partial = partial_of err;
          s1 = (if partial \<noteq> [] then upd_proc c (\<lambda>p. p\<lparr>pr_Result := ''[partial] '' @ partial\<rparr>) s else s)
      in finish_with e c 1 ''interrupted'' (Some (PlainError (err_text err))) s1)"

text \<open>A failure seen while a suspension or a cancellation is under way; \<open>None\<close> when it is neither.\<close>

definition torn_down ::
  "('e, 'w, 'f, 'v, 'd) reason_env \<Rightarrow> reason_config \<Rightarrow> llm_error \<Rightarrow> ('e, 'w) loop_state \<Rightarrow> ('e, 'w) loop_state option" where
  "torn_down e c err s =
     (if \<not> cancelled c s then None
      else if suspend_asked c s then Some s
      else Some (handleInterruptedWrite e c err s))"

definition applyRateLimitJitter :: "rat \<Rightarrow> int \<Rightarrow> int" where
  "applyRateLimitJitter r d = d + \<lfloor>r * (1 / 4) * of_int d\<rfloor>"

definition quota_suspend ::
  "('e, 'w, 'f, 'v, 'd) reason_env \<Rightarrow> reason_config \<Rightarrow> int \<Rightarrow> string \<Rightarrow> int option \<Rightarrow> ('e, 'w) loop_state \<Rightarrow> ('e, 'w) loop_state" where
  "quota_suspend e c step kind resumeAt s =
     s\<lparr>ls_tools := upd_kern (quotaSuspendProcess (te_kenv (re_tool e)) (pc_PID (rc_proc c)) step kind resumeAt) (ls_tools s)\<rparr>"

definition backoff ::
  "('e, 'w, 'f, 'v, 'd) reason_env \<Rightarrow> reason_config \<Rightarrow> int \<Rightarrow> llm_error \<Rightarrow> int \<Rightarrow> ('e, 'w) loop_state \<Rightarrow> bool \<times> ('e, 'w) loop_state" where
  "backoff e c step err delay s =
     (case backoffWaitInterruptible (re_waitCancelled e step) (re_clock e step) (pc_PID (rc_proc c)) delay (tl_kern (ls_tools s)) of
        (interrupted, k) \<Rightarrow>
          let s1 = others e AtBackoff step (s\<lparr>ls_tools := (ls_tools s)\<lparr>tl_kern := k\<rparr>\<rparr>)
          in if \<not> interrupted then (True, s1)
             else if suspend_asked c s1 \<and> cancelled c s1 then (False, s1)
             else (False, handleInterruptedWrite e c err s1))"

text \<open>A rate-limited request: suspended, retried after a wait, or (\<open>None\<close>) handed to the fallback.\<close>

definition rate_limited ::
  "('e, 'w, 'f, 'v, 'd) reason_env \<Rightarrow> reason_config \<Rightarrow> int \<Rightarrow> llm_error \<Rightarrow> RateLimitKind \<Rightarrow> ('e, 'w) loop_state
   \<Rightarrow> (bool \<times> ('e, 'w) loop_state) option" where
  "rate_limited e c step err kind s =
     (let now = re_now e step; wait = RateLimitWaitOf err
      in if kind = KindQuota \<and> wait = None then Some (False, quota_suspend e c step (kind_text kind) None s)
         else let d = resolveRateLimitDelay now wait (ls_rateLimit s + 1)
              in if maxInProcessWait < effectiveWait now d
                 then Some (False, quota_suspend e c step (kind_text kind) (fst (deriveQuotaResumeAt now (rd_retryAfter d) (rd_resetAt d))) s)
                 else if ls_rateLimit s < maxRateLimitRetries
                 then Some (backoff e c step err (min (applyRateLimitJitter (re_jitter e step) (rd_baseDelay d)) maxInProcessWait)
                              (s\<lparr>ls_rateLimit := ls_rateLimit s + 1\<rparr>))
                 else None)"

definition retry_or_suspend ::
  "('e, 'w, 'f, 'v, 'd) reason_env \<Rightarrow> reason_config \<Rightarrow> int \<Rightarrow> llm_error \<Rightarrow> ('e, 'w) loop_state \<Rightarrow> (bool \<times> ('e, 'w) loop_state) option" where
  "retry_or_suspend e c step err s =
     (if \<not> isTransientLLMError err \<or> is_gate_error err then None
      else case RateLimitKindOf err of
             Some kind \<Rightarrow> rate_limited e c step err kind s
           | None \<Rightarrow>
               if ls_transient s < 2 then Some (True, s\<lparr>ls_transient := ls_transient s + 1\<rparr>) else None)"

text \<open>
  The fallback device: the first failure stays the error when the device cannot be opened, else the two
  are joined and the second is wrapped.
\<close>

definition trim_llm :: "string \<Rightarrow> string" where
  "trim_llm device = (if take 9 device = ''/dev/llm/'' then drop 9 device else device)"

definition joined :: "reason_config \<Rightarrow> llm_error \<Rightarrow> llm_error \<Rightarrow> llm_error" where
  "joined c primaryErr err =
     Wrapping (''primary '' @ rc_PrimaryDevice c @ '': '' @ err_text primaryErr @ ''; fallback '' @ rc_FallbackDevice c @ '': '' @ err_text err) # err"

definition attemptFallback ::
  "('e, 'w, 'f, 'v, 'd) reason_env \<Rightarrow> reason_config \<Rightarrow> int \<Rightarrow> llm_error \<Rightarrow> llm_error + llm_answer option" where
  "attemptFallback e c step primaryErr =
     (if rc_FallbackDevice c = [] then Inl primaryErr
      else if \<not> re_fbOpen e step then Inl primaryErr
      else if \<not> re_fbMarshal e step then Inl primaryErr
      else case re_gate e (trim_llm (rc_FallbackDevice c)) step of
             Some err \<Rightarrow> Inl (joined c primaryErr err)
           | None \<Rightarrow>
               (case re_fbWrite e step of
                  Some err \<Rightarrow> Inl (joined c primaryErr err)
                | None \<Rightarrow>
                    (case re_fbRead e step of
                       Inl err \<Rightarrow> Inl (joined c primaryErr err)
                     | Inr answer \<Rightarrow> Inr answer)))"

definition with_detail :: "string \<Rightarrow> string \<Rightarrow> string" where
  "with_detail reason detail = (if detail \<noteq> [] then reason @ '': '' @ detail else reason)"

definition fall_back ::
  "('e, 'w, 'f, 'v, 'd) reason_env \<Rightarrow> reason_config \<Rightarrow> int \<Rightarrow> llm_error \<Rightarrow> ('e, 'w) loop_state \<Rightarrow> (llm_answer option, 'e, 'w) part" where
  "fall_back e c step err s =
     (let s1 = others e AtFallback step s
      in case attemptFallback e c step err of
           Inr answer \<Rightarrow> Inr (answer, s1)
         | Inl fbErr \<Rightarrow>
             let reason = (if rc_FallbackDevice c \<noteq> [] then ''all providers exhausted'' else ''llm write failed'');
                 detail = (if IsRateLimited err \<and> re_detail e err \<noteq> [] then re_detail e err else re_detail e fbErr)
             in Inl (False, finish_with e c 1 (with_detail reason detail) (Some (PlainError (err_text fbErr))) s1))"

definition write_failed ::
  "('e, 'w, 'f, 'v, 'd) reason_env \<Rightarrow> reason_config \<Rightarrow> int \<Rightarrow> llm_error \<Rightarrow> ('e, 'w) loop_state \<Rightarrow> (llm_answer option, 'e, 'w) part" where
  "write_failed e c step err s =
     (if re_stepCancelled e step \<and> \<not> cancelled c s then Inl (True, s)
      else case torn_down e c err s of
             Some s1 \<Rightarrow> Inl (False, s1)
           | None \<Rightarrow>
               (case retry_or_suspend e c step err s of
                  Some r \<Rightarrow> Inl r
                | None \<Rightarrow> fall_back e c step err s))"

definition read_failed ::
  "('e, 'w, 'f, 'v, 'd) reason_env \<Rightarrow> reason_config \<Rightarrow> llm_error \<Rightarrow> ('e, 'w) loop_state \<Rightarrow> ('e, 'w) loop_state" where
  "read_failed e c err s =
     (case torn_down e c err s of
        Some s1 \<Rightarrow> s1
      | None \<Rightarrow> finish_with e c 1 (with_detail ''llm read failed'' (re_detail e err)) (Some (PlainError (err_text err))) s)"

definition send_request ::
  "('e, 'w, 'f, 'v, 'd) reason_env \<Rightarrow> reason_config \<Rightarrow> int \<Rightarrow> ('e, 'w) loop_state \<Rightarrow> (llm_answer option, 'e, 'w) part" where
  "send_request e c step s =
     (let s1 = others e AtWrite step s
      in case (case re_gate e (pc_Provider (rc_proc c)) step of Some err \<Rightarrow> Some err | None \<Rightarrow> re_write e step) of
           Some err \<Rightarrow> write_failed e c step err s1
         | None \<Rightarrow>
             let s2 = others e AtRead step (s1\<lparr>ls_transient := 0, ls_rateLimit := 0\<rparr>)
             in case re_read e step of
                  Inl err \<Rightarrow> Inl (False, read_failed e c err s2)
                | Inr answer \<Rightarrow> Inr (answer, s2))"

section \<open>The answer\<close>

definition empty_answer :: "llm_answer \<Rightarrow> bool" where
  "empty_answer a \<longleftrightarrow> lr_Content (la_resp a) = [] \<and> la_TokensUsed a = 0 \<and> lr_ToolCalls (la_resp a) = []"

definition check_answer ::
  "('e, 'w, 'f, 'v, 'd) reason_env \<Rightarrow> reason_config \<Rightarrow> llm_answer option \<Rightarrow> ('e, 'w) loop_state \<Rightarrow> (llm_answer, 'e, 'w) part" where
  "check_answer e c answer s =
     (case answer of
        None \<Rightarrow>
          Inl (False, if suspend_asked c s \<and> cancelled c s then s
                      else finish_with e c 1 ''unmarshal response failed'' (Some (PlainError ''unmarshal'')) s)
      | Some a \<Rightarrow>
          if la_StopReason a = ''max_turns'' \<and> lr_ToolCalls (la_resp a) = []
          then Inl (False, finish_with e c ExitSuspended ''max_turns_reached'' None s)
          else if empty_answer a
          then Inl (False, finish_with e c 1 ''empty_llm_response'' (Some (PlainError ''LLM returned empty response'')) s)
          else Inr (a, s))"

text \<open>The final count replaces the one streamed during the step.\<close>

definition count_tokens :: "reason_config \<Rightarrow> int \<Rightarrow> int \<Rightarrow> llm_answer \<Rightarrow> Process \<Rightarrow> Process" where
  "count_tokens c step now a p =
     (let p1 = p\<lparr>pr_StreamTokensUsed := 0, pr_StreamInputTokens := 0,
                pr_UsageProvenance := mergeProvenance (pr_UsageProvenance p) (if rc_isCLI c then ''cli_stream'' else ''api_response''),
                pr_TokensUsed := i64 (pr_TokensUsed p + la_TokensUsed a)\<rparr>
      in AppendTokenSnapshot step (pr_TokensUsed p1) ((now - pr_CreatedAt p1) div 1000000) p1)"

definition add_cost :: "reason_config \<Rightarrow> llm_answer \<Rightarrow> rat \<Rightarrow> rat" where
  "add_cost c a used =
     (if 0 < rc_MaxCost c
      then if 0 < la_CostUSD a then used + la_CostUSD a
           else used + of_int (la_TokensUsed a) *
                  max 0 (case rc_costPerToken c of None \<Rightarrow> 0 | Some f \<Rightarrow> f (pc_Provider (rc_proc c)))
      else used)"

definition over_budget :: "reason_config \<Rightarrow> int \<Rightarrow> rat \<Rightarrow> bool" where
  "over_budget c tokens used \<longleftrightarrow>
     (0 < rc_MaxTokens c \<and> rc_MaxTokens c \<le> tokens) \<or> (0 < rc_MaxCost c \<and> rc_MaxCost c \<le> used)"

definition check_budgets ::
  "('e, 'w, 'f, 'v, 'd) reason_env \<Rightarrow> reason_config \<Rightarrow> int \<Rightarrow> llm_answer \<Rightarrow> ('e, 'w) loop_state \<Rightarrow> (unit, 'e, 'w) part" where
  "check_budgets e c step a s =
     (let s1 = upd_proc c (count_tokens c step (re_now e step) a) s;
          budget = the_proc c pr_ContextBudget 0 s1;
          tokens = the_proc c pr_TokensUsed 0 s1
      in if 0 < budget \<and> budget \<le> la_InputTokens a
         then Inl (False, suspend_or_finish e c ''context_full'' ExitContextFull
                            (\<lambda>_. (ExitContextFull, ''context_full'', Some (PlainError ''context budget exceeded''))) s1)
         else let s2 = s1\<lparr>ls_UsedCost := add_cost c a (ls_UsedCost s1)\<rparr>
              in if over_budget c tokens (ls_UsedCost s2)
                 then Inl (False, suspend_or_finish e c ''budget_exhausted'' ExitSuspended
                                    (\<lambda>_. (ExitError, ''budget_exhausted + suspend failed'', None)) s2)
                 else gdb_check e c step \<lparr>bc_Type = BPBudget, bc_SyscallName = [], bc_LLMResponse = [], bc_TokensUsed = tokens\<rparr> s2)"

section \<open>Tool calls\<close>

definition handleLoopDetection ::
  "('e, 'w, 'f, 'v, 'd) reason_env \<Rightarrow> reason_config \<Rightarrow> LoopStatus \<Rightarrow> ('e, 'w) loop_state \<Rightarrow> (unit, 'e, 'w) part" where
  "handleLoopDetection e c status s =
     (if status = LoopSuspend
      then Inl (False, suspend_or_finish e c ''loop_detected'' ExitSuspended
                         (\<lambda>_. (ExitError, ''loop detected + suspend failed'', None)) s)
      else Inr ((), s))"

definition detect_loop ::
  "('e, 'w, 'f, 'v, 'd) reason_env \<Rightarrow> reason_config \<Rightarrow> llmToolCall \<Rightarrow> ('e, 'w) loop_state \<Rightarrow> (unit, 'e, 'w) part" where
  "detect_loop e c tc s =
     (case CheckDual (ActionHash ''tool_call'' (lc_Name tc) (re_inputJSON e (lc_Input tc)))
             (CoarseActionHash ''tool_call'' (lc_Name tc)) (ls_lastHash s) (ls_detector s) of
        (status, d) \<Rightarrow> handleLoopDetection e c status (s\<lparr>ls_detector := d\<rparr>))"

text \<open>The step record shows the conversation after the calls; reading it builds the prompt once more.\<close>

definition fresh_prompt ::
  "('e, 'w, 'f, 'v, 'd) reason_env \<Rightarrow> ('e, 'w) tool_state \<Rightarrow> ('e, 'w) tool_state" where
  "fresh_prompt e t =
     (if tl_records t = [] then t
      else t\<lparr>tl_comp := snd (on_mgr (BuildPrompt (ce_sections (te_compact (re_tool e))) (cm_CtxID (tl_comp t))) (tl_comp t))\<rparr>)"

definition run_tools ::
  "('e, 'w, 'f, 'v, 'd) reason_env \<Rightarrow> reason_config \<Rightarrow> int \<Rightarrow> llm_answer \<Rightarrow> ('e, 'w) loop_state \<Rightarrow> bool \<times> ('e, 'w) loop_state" where
  "run_tools e c step a s =
     (case executeToolCalls (re_tool e) (rc_proc c) (la_resp a) step (ls_tools s) of
        (continue, t0) \<Rightarrow>
          let t = fresh_prompt e t0; s1 = s\<lparr>ls_tools := t\<rparr>
          in if \<not> continue then (False, s1)
             else let ce = te_compact (re_tool e);
                      s2 = s1\<lparr>ls_lastHash := ToolResultHash (map (\<lambda>r. (tr_Name r, tr_Result r, tr_Error r)) (tl_records t)),
                              ls_tools := t\<lparr>tl_comp := autoCompactIfNeeded ce step (reclaimLeakedIfNeeded ce step (tl_comp t))\<rparr>\<rparr>
                  in (True, upd_proc c (\<lambda>p. p\<lparr>pr_LastCompletedStep := step\<rparr>) s2))"

section \<open>The final text\<close>

definition final_text ::
  "('e, 'w, 'f, 'v, 'd) reason_env \<Rightarrow> reason_config \<Rightarrow> int \<Rightarrow> llm_answer \<Rightarrow> ('e, 'w) loop_state \<Rightarrow> bool \<times> ('e, 'w) loop_state" where
  "final_text e c step a s =
     (case gdb_check e c step \<lparr>bc_Type = BPQuality, bc_SyscallName = [], bc_LLMResponse = lr_Content (la_resp a), bc_TokensUsed = 0\<rparr> s of
        Inl r \<Rightarrow> r
      | Inr (_, s1) \<Rightarrow>
          let s2 = upd_proc c (\<lambda>p. p\<lparr>pr_Result := lr_Content (la_resp a)\<rparr>) s1;
              failed = the_proc c pr_failedChildren 0 s2;
              s3 = others e AtVerdict step (upd_proc c (\<lambda>p. p\<lparr>pr_LastCompletedStep := step\<rparr>) s2)
          in case completionVerdict (rc_proc c) (tl_kern (ls_tools s3))
                    (if 0 < failed then ''completed_with_'' @ print_int failed @ ''_failed_children'' else ''completed'')
                    (if 0 < failed then 1 else 0) of
               (reason, code) \<Rightarrow> (False, finish_with e c code reason None s3))"

section \<open>The loop\<close>

definition finish_step ::
  "('e, 'w, 'f, 'v, 'd) reason_env \<Rightarrow> reason_config \<Rightarrow> int \<Rightarrow> llm_answer \<Rightarrow> ('e, 'w) loop_state \<Rightarrow> (bool, 'e, 'w) part" where
  "finish_step e c step a s =
     (case lr_ToolCalls (la_resp a) of
        [] \<Rightarrow> Inl (final_text e c step a s)
      | tc # _ \<Rightarrow> bind_part (detect_loop e c tc s) (\<lambda>_ s1. Inl (run_tools e c step a s1)))"

definition reason_step ::
  "('e, 'w, 'f, 'v, 'd) reason_env \<Rightarrow> reason_config \<Rightarrow> int \<Rightarrow> ('e, 'w) loop_state \<Rightarrow> bool \<times> ('e, 'w) loop_state" where
  "reason_step e c step s =
     (case bind_part (begin_step e c step s) (\<lambda>_ s1.
           bind_part (build_request e c step s1) (\<lambda>_ s2.
           bind_part (send_request e c step s2) (\<lambda>answer s3.
           bind_part (check_answer e c answer s3) (\<lambda>a s4.
           bind_part (check_budgets e c step a s4) (\<lambda>_ s5.
           finish_step e c step a s5))))) of
        Inl r \<Rightarrow> r
      | Inr r \<Rightarrow> r)"

text \<open>
  The loop runs without end when no number of steps is set, so it has fuel: \<open>None\<close> is not having
  returned. A step that is tried again is a turn of the loop like any other.
\<close>

fun reason_loop ::
  "nat \<Rightarrow> ('e, 'w, 'f, 'v, 'd) reason_env \<Rightarrow> reason_config \<Rightarrow> int \<Rightarrow> ('e, 'w) loop_state \<Rightarrow> ('e, 'w) loop_state option" where
  "reason_loop 0 e c step s = None"
| "reason_loop (Suc fuel) e c step s =
     (if rc_MaxSteps c = 0 \<or> step \<le> rc_MaxSteps c
      then case reason_step e c step s of
             (True, s1) \<Rightarrow> reason_loop fuel e c (step + 1) s1
           | (False, s1) \<Rightarrow> Some s1
      else Some (finish_with e c 1 ''max steps exceeded'' None s))"

text \<open>The deferred function: acknowledge a suspension, or end a process that nobody ended.\<close>

definition loop_exit ::
  "('e, 'w, 'f, 'v, 'd) reason_env \<Rightarrow> reason_config \<Rightarrow> ('e, 'w) loop_state \<Rightarrow> ('e, 'w) loop_state" where
  "loop_exit e c s =
     (if suspend_asked c s then s\<lparr>ls_tools := upd_kern (notifySuspendDone (pc_PID (rc_proc c))) (ls_tools s)\<rparr>
      else if the_proc c pr_State StateDead s = StateRunning then finish_with e c 1 ''unexpected exit'' None s
      else s)"

text \<open>\<open>reasonStep\<close>; \<open>None\<close> is also the panic of \<open>make\<close> for a loop threshold too large.\<close>

definition reasonStep ::
  "nat \<Rightarrow> ('e, 'w, 'f, 'v, 'd) reason_env \<Rightarrow> reason_config \<Rightarrow> int \<Rightarrow> rat \<Rightarrow> gdb \<Rightarrow> ('e, 'w) tool_state \<Rightarrow> ('e, 'w) loop_state option" where
  "reasonStep fuel e c StartStep used g t =
     (case (case GetProcess (tl_kern t) (pc_PID (rc_proc c)) of
              None \<Rightarrow> None
            | Some p \<Rightarrow> NewLoopDetector (effectiveLoopThreshold p) (effectiveCoarseLoopThreshold p)) of
        None \<Rightarrow> None
      | Some d \<Rightarrow>
          map_option (loop_exit e c)
            (reason_loop fuel e c (if 0 < StartStep then StartStep else 1)
               \<lparr>ls_tools = t, ls_transient = 0, ls_rateLimit = 0, ls_lastHash = 0, ls_detector = d, ls_UsedCost = used, ls_gdb = g\<rparr>))"

end
