(* ===== verification/ReasonProps.thy ===== *)
theory ReasonProps
  imports ReasonLoop ToolExecProps SubtreeProps
begin

text \<open>
  What the reasoning loop promises: it returns and leaves no process running behind it, a rate limit does not
  end a process before its retries are used up, and where retries and clocks defeat it.
\<close>

section \<open>The process behind the loop\<close>

definition proc_of :: "reason_config \<Rightarrow> ('e, 'w) loop_state \<Rightarrow> Process option" where
  "proc_of c s = GetProcess (tl_kern (ls_tools s)) (pc_PID (rc_proc c))"

lemma the_proc_simps:
  "proc_of c s = Some p \<Longrightarrow> the_proc c f d s = f p" "proc_of c s = None \<Longrightarrow> the_proc c f d s = d"
  by (simp_all add: the_proc_def proc_of_def proc_field_def)

lemma proc_of_finish [simp]: "proc_of c (finish_with e c code reason err s) = map_option (finished (ExitStatus code reason [] err)) (proc_of c s)"
  by (simp add: proc_of_def finish_with_def finish_def upd_kern_def GetProcess_finish)

lemma proc_of_upd [simp]: "proc_of c (upd_proc c f s) = map_option f (proc_of c s)"
  by (simp add: proc_of_def upd_proc_def upd_kern_def GetProcess_upd)

lemma proc_of_same [simp]:
  "proc_of c (s\<lparr>ls_transient := n\<rparr>) = proc_of c s" "proc_of c (s\<lparr>ls_rateLimit := n\<rparr>) = proc_of c s"
  "proc_of c (s\<lparr>ls_detector := d\<rparr>) = proc_of c s" "proc_of c (s\<lparr>ls_UsedCost := u\<rparr>) = proc_of c s"
  "proc_of c (s\<lparr>ls_gdb := g\<rparr>) = proc_of c s" "proc_of c (s\<lparr>ls_lastHash := h\<rparr>) = proc_of c s"
  by (simp_all add: proc_of_def)

lemma finished_not_running: "pr_State (finished ex p) \<noteq> StateRunning"
proof -
  obtain e q where f: "finish_locked ex p = (e, q)" by fastforce
  show ?thesis
    by (cases "pr_State q") (auto simp: finished_def f terminate_ignore_def Terminate_def transitionLocked_def send_done_def split: option.split)
qed

section \<open>The loop ends\<close>

lemma loop_returns:
  assumes "rc_MaxSteps c \<noteq> 0" and "rc_MaxSteps c - step + 1 < int n" and "0 < n"
  shows "\<exists>s'. reason_loop n e c step s = Some s'"
  using assms(2,3)
proof (induction n arbitrary: step s)
  case (Suc n)
  show ?case
  proof (cases "step \<le> rc_MaxSteps c")
    case True
    then have "0 < n" "rc_MaxSteps c - (step + 1) + 1 < int n" using Suc.prems by simp_all
    from Suc.IH [OF this(2,1)] True show ?thesis by (simp split: prod.split bool.split)
  qed (simp add: assms(1))
qed simp

lemma exit_settles:
  assumes "proc_of c (loop_exit e c s) = Some q"
  shows "pr_State q \<noteq> StateRunning \<or> pr_suspendRequested q"
proof (cases "proc_of c s")
  case None
  then have "loop_exit e c s = s" by (simp add: loop_exit_def suspend_asked_def the_proc_simps)
  then show ?thesis using assms None by simp
next
  case (Some p)
  show ?thesis
  proof (cases "pr_suspendRequested p")
    case True
    then have "proc_of c (loop_exit e c s) = map_option (\<lambda>p. send_done (case pr_Exit p of Some e \<Rightarrow> e
        | None \<Rightarrow> ExitStatus ExitSuspended ''suspended'' [] None) p) (Some p)"
      using Some by (simp add: loop_exit_def suspend_asked_def the_proc_simps upd_kern_def notifySuspendDone_def proc_of_def GetProcess_upd)
    then show ?thesis using assms True by (auto simp: send_done_def split: option.splits)
  next
    case False
    then have e: "loop_exit e c s = (if pr_State p = StateRunning then finish_with e c 1 ''unexpected exit'' None s else s)"
      using Some by (simp add: loop_exit_def suspend_asked_def the_proc_simps)
    show ?thesis
      using assms Some finished_not_running unfolding e by (cases "pr_State p = StateRunning") auto
  qed
qed

text \<open>
  C29: With a step limit the loop returns, whatever the devices answer, whatever other goroutines do and however often a step
  is tried again, within as many turns as the limit; when it has returned, the process is not running
  any more, or a suspension that asked for it is about to take it over.
\<close>

theorem reasoning_always_settles:
  assumes "0 < rc_MaxSteps c" and "nat (rc_MaxSteps c) < fuel"
    and "GetProcess (tl_kern t) (pc_PID (rc_proc c)) = Some p"
    and "NewLoopDetector (effectiveLoopThreshold p) (effectiveCoarseLoopThreshold p) = Some d"
  shows "\<exists>s. reasonStep fuel e c start used g t = Some s \<and>
    (\<forall>q. GetProcess (tl_kern (ls_tools s)) (pc_PID (rc_proc c)) = Some q \<longrightarrow> pr_State q \<noteq> StateRunning \<or> pr_suspendRequested q)"
proof -
  let ?s = "\<lparr>ls_tools = t, ls_transient = 0, ls_rateLimit = 0, ls_lastHash = 0, ls_detector = d, ls_UsedCost = used, ls_gdb = g\<rparr>"
  let ?start = "if 0 < start then start else 1"
  have "rc_MaxSteps c - ?start + 1 < int fuel" "0 < fuel" using assms(1,2) by auto
  then obtain s' where s': "reason_loop fuel e c ?start ?s = Some s'" using loop_returns [of c ?start fuel e ?s] assms(1) by auto
  then have "reasonStep fuel e c start used g t = Some (loop_exit e c s')" using assms(3,4) by (simp add: reasonStep_def)
  then show ?thesis using exit_settles [of c e s'] by (auto simp: proc_of_def)
qed

section \<open>Rate limits\<close>

lemma quota_suspends:
  assumes "proc_of c s = Some p" and "pr_State p = StateRunning"
  shows "\<exists>q. proc_of c (quota_suspend e c step kind resumeAt s) = Some q \<and> pr_State q = StateSuspended \<and>
    pr_SuspendReason q = SuspendReasonQuotaExhausted \<and> pr_ResumeAt q = resumeAt"
proof -
  let ?pid = "pc_PID (rc_proc c)" and ?k = "tl_kern (ls_tools s)"
  let ?k2 = "updProc ?pid RequestSuspend (emitEvent ?pid ''ReasonStep''
      [(''step'', AInt step), (''action'', AStr ''quota_suspend''), (''rate_limit_kind'', AStr kind)] None
      (updProc ?pid (SetResumeAt resumeAt) ?k))"
  let ?p = "RequestSuspend (SetResumeAt resumeAt p)"
  have "touched ?pid ?p ?k2 ?k2"
    using assms(1) by (intro touched_refl) (simp add: proc_of_def GetProcess_upd)
  moreover have "pr_State ?p = StateRunning" "pr_ResumeAt ?p = resumeAt"
    using assms(2) by (simp_all add: RequestSuspend_def SetResumeAt_def)
  ultimately obtain k' where k': "suspendProcess (te_kenv (re_tool e)) ?pid SuspendReasonQuotaExhausted ExitSuspended ?k2 = (None, k')"
    "touched ?pid (suspended_fields (e_now (te_kenv (re_tool e))) SuspendReasonQuotaExhausted ExitSuspended
        (?p\<lparr>pr_FDTable := [], pr_checkpointErr := False, pr_State := StateSuspended\<rparr>)) ?k2 k'"
    using suspendProcess_running by blast
  have "tl_kern (ls_tools (quota_suspend e c step kind resumeAt s)) = k'"
    using k'(1) by (simp add: quota_suspend_def upd_kern_def quotaSuspendProcess_def selfSuspend_def Let_def)
  then show ?thesis
    using k'(2) \<open>pr_ResumeAt ?p = resumeAt\<close> by (simp add: proc_of_def touched_def suspended_fields_def)
qed

lemma backoff_wait_frame:
  "\<forall>j. \<not> cncl j \<Longrightarrow> fst (backoff_wait cncl clk pid i r k) = False \<and>
     map_option (\<lambda>p. p\<lparr>pr_LastHeartbeat := None\<rparr>) (GetProcess (snd (backoff_wait cncl clk pid i r k)) x) =
     map_option (\<lambda>p. p\<lparr>pr_LastHeartbeat := None\<rparr>) (GetProcess k x)"
proof (induction cncl clk pid i r k rule: backoff_wait.induct)
  case (1 cncl clk pid i r k)
  show ?case
  proof (cases "r \<le> 0")
    case True
    then show ?thesis by (simp add: backoff_wait.simps)
  next
    case False
    then have "\<not> cncl i" using 1(2) by blast
    then show ?thesis
      using 1(1) [OF False _ 1(2)] False
      by (simp add: backoff_wait.simps [of cncl clk pid i] GetProcess_upd TouchHeartbeat_def option.map_comp comp_def)
  qed
qed

lemma backoff_survives:
  assumes "\<forall>j. \<not> re_waitCancelled e step j" and "\<And>k. re_others e AtBackoff step k = k"
    and "proc_of c s = Some p"
  shows "\<exists>s' q. backoff e c step err delay s = (True, s') \<and> proc_of c s' = Some q \<and> pr_State q = pr_State p \<and>
    ls_rateLimit s' = ls_rateLimit s"
proof -
  let ?w = "backoff_wait (re_waitCancelled e step) (re_clock e step) (pc_PID (rc_proc c)) 0 delay (tl_kern (ls_tools s))"
  from backoff_wait_frame [OF assms(1), of "re_clock e step" "pc_PID (rc_proc c)" 0 delay "tl_kern (ls_tools s)" "pc_PID (rc_proc c)"]
  have w: "\<not> fst ?w"
    "map_option (\<lambda>p. p\<lparr>pr_LastHeartbeat := None\<rparr>) (GetProcess (snd ?w) (pc_PID (rc_proc c))) = Some (p\<lparr>pr_LastHeartbeat := None\<rparr>)"
    using assms(3) by (simp_all add: proc_of_def)
  from w(2) obtain q where q: "GetProcess (snd ?w) (pc_PID (rc_proc c)) = Some q" "q\<lparr>pr_LastHeartbeat := None\<rparr> = p\<lparr>pr_LastHeartbeat := None\<rparr>"
    by auto
  then have "pr_State (q\<lparr>pr_LastHeartbeat := None\<rparr>) = pr_State (p\<lparr>pr_LastHeartbeat := None\<rparr>)" by simp
  then have "pr_State q = pr_State p" by simp
  obtain k' where k': "?w = (False, k')" using w(1) by (cases ?w) auto
  show ?thesis
    using q(1) \<open>pr_State q = pr_State p\<close> assms(2) k'
    by (simp add: backoff_def backoffWaitInterruptible_def Let_def others_def upd_kern_def proc_of_def)
qed


definition demo_running :: Process where
  "demo_running = (NewProcess 1 ''u'' 0 ''work'' [] 0)\<lparr>pr_State := StateRunning\<rparr>"

definition demo_config :: reason_config where
  "demo_config = \<lparr>rc_proc = demo_process, rc_MaxSteps = 1, rc_PrimaryDevice = ''/dev/llm/a'', rc_FallbackDevice = ''/dev/llm/b'',
     rc_MaxTokens = 0, rc_MaxCost = 0, rc_costPerToken = None, rc_isCLI = False\<rparr>"

definition demo_answer :: llm_answer where
  "demo_answer = \<lparr>la_resp = \<lparr>lr_Content = ''done'', lr_Reasoning = [], lr_ToolCalls = [], lr_ReasoningBlocks = []\<rparr>,
     la_StopReason = [], la_TokensUsed = 5, la_InputTokens = 4, la_CostUSD = 0\<rparr>"

definition demo_reason :: "llm_error \<Rightarrow> (unit, unit, unit, unit, unit) reason_env" where
  "demo_reason err = \<lparr>re_tool = demo_tools, re_others = (\<lambda>pt step k. k), re_debugger = (\<lambda>pt step g. g), re_now = (\<lambda>step. 100 * second),
     re_select = (\<lambda>step. False), re_marshal = (\<lambda>step. True), re_gate = (\<lambda>provider step. None), re_write = (\<lambda>step. Some err),
     re_stepCancelled = (\<lambda>step. False), re_read = (\<lambda>step. Inr (Some demo_answer)), re_jitter = (\<lambda>step. 1 / 2),
     re_waitCancelled = (\<lambda>step i. False), re_clock = (\<lambda>step i. 0), re_fbOpen = (\<lambda>step. True), re_fbMarshal = (\<lambda>step. True),
     re_fbWrite = (\<lambda>step. None), re_fbRead = (\<lambda>step. Inr (Some demo_answer)), re_detail = err_text, re_inputJSON = (\<lambda>input. [])\<rparr>"

definition demo_tool_state :: "(unit, unit) tool_state" where
  "demo_tool_state = demo_state\<lparr>tl_kern := AddProcess demo_running (NewKernel {})\<rparr>"

definition demo_gdb :: gdb where
  "demo_gdb = \<lparr>gd_breakpoints = [], gd_stepReasoning = False, gd_envVars = []\<rparr>"

definition demo_loop :: "(unit, unit) loop_state" where
  "demo_loop = \<lparr>ls_tools = demo_tool_state, ls_transient = 0, ls_rateLimit = 0, ls_lastHash = 0,
     ls_detector = \<lparr>ld_window = [], ld_pos = 0, ld_size = 0, ld_threshold = 0, ld_warned = False, ld_fineDisabled = True, ld_coarseWindow = [],
        ld_coarsePos = 0, ld_coarseSize = 0, ld_coarseThreshold = 0, ld_coarseWarned = False, ld_coarseDisabled = True,
        ld_LastTriggeredThreshold = 0, ld_LastTriggeredTrack = []\<rparr>, ls_UsedCost = 0, ls_gdb = demo_gdb\<rparr>"

lemma demo_table: "GetProcess (tl_kern demo_tool_state) 1 = Some demo_running"
  by (simp add: demo_tool_state_def GetProcess_def AddProcess_def sm.lookup_store demo_running_def NewProcess_def)

lemma demo_loop_proc: "proc_of demo_config demo_loop = Some demo_running"
  using demo_table by (simp add: proc_of_def demo_loop_def demo_config_def demo_process_def)

lemma demo_running_facts: "pr_State demo_running = StateRunning" "\<not> pr_cancelled demo_running" "\<not> pr_paused demo_running"
  by (simp_all add: demo_running_def NewProcess_def)

theorem reasoning_always_settles_witness:
  "\<exists>s. reasonStep 2 (demo_reason [Sentinel LlmErrTimeout]) demo_config 0 0 demo_gdb demo_tool_state = Some s \<and>
     (\<forall>q. GetProcess (tl_kern (ls_tools s)) 1 = Some q \<longrightarrow> pr_State q \<noteq> StateRunning \<or> pr_suspendRequested q)"
proof -
  have pid: "pc_PID (rc_proc demo_config) = 1" by (simp add: demo_config_def demo_process_def)
  have "effectiveLoopThreshold demo_running = 30" "effectiveCoarseLoopThreshold demo_running = 60"
    by (simp_all add: demo_running_def NewProcess_def effectiveLoopThreshold_def effectiveCoarseLoopThreshold_def
        DefaultLoopThreshold_def DefaultCoarseLoopThreshold_def)
  then obtain d where d: "NewLoopDetector (effectiveLoopThreshold demo_running) (effectiveCoarseLoopThreshold demo_running) = Some d"
    by (simp add: NewLoopDetector_def make_window_def i64_def)
  show ?thesis
    using reasoning_always_settles [of demo_config 2 demo_tool_state demo_running d "demo_reason [Sentinel LlmErrTimeout]" 0 0 demo_gdb]
      demo_table d unfolding pid by (simp add: demo_config_def)
qed

definition demo_throttle :: llm_error where
  "demo_throttle = [RateLimited \<lparr>rl_Kind = KindThrottle, rl_Message = ''slow down'', rl_RetryAfter = 6 * second, rl_ResetAt = None, rl_Source = ''header''\<rparr>]"


section \<open>A retry is a step\<close>

lemma finished_running:
  assumes "pr_State p = StateRunning"
  shows "\<exists>e. pr_State (finished ex p) = StateZombie \<and> pr_Exit (finished ex p) = Some e \<and> exit_Code e = exit_Code ex \<and>
    exit_Reason e = exit_Reason ex"
proof -
  obtain e q where f: "finish_locked ex p = (e, q)" by fastforce
  note keeps = finish_locked_keeps [OF f]
  show ?thesis
    by (intro exI [of _ e])
      (simp add: finished_def f terminate_ignore_def Terminate_def transitionLocked_def send_done_def keeps assms split: option.split)
qed

text \<open>
  C31: A retry is said to repeat the current step, but it counts as one: when a request of the last step allowed fails in
  a way the loop means to try again, with both of its retries left, the process ends with
  "max steps exceeded". The request is not repeated and the fallback device is not asked.
\<close>

theorem last_retry_ends_process:
  assumes "begin_step e c (rc_MaxSteps c) s = Inr ((), s1)" and "build_request e c (rc_MaxSteps c) s1 = Inr ((), s2)"
    and "0 < rc_MaxSteps c" and "re_gate e (pc_Provider (rc_proc c)) (rc_MaxSteps c) = None" and "re_write e (rc_MaxSteps c) = Some err"
    and "isTransientLLMError err" and "\<not> is_gate_error err" and "RateLimitKindOf err = None" and "ls_transient s2 < 2"
    and "\<not> re_stepCancelled e (rc_MaxSteps c)" and "proc_of c (others e AtWrite (rc_MaxSteps c) s2) = Some p"
    and "pr_State p = StateRunning" and "\<not> pr_cancelled p"
  shows "\<exists>s' q ex. reason_loop (Suc (Suc fuel)) e c (rc_MaxSteps c) s = Some s' \<and> proc_of c s' = Some q \<and>
    pr_State q = StateZombie \<and> pr_Exit q = Some ex \<and> exit_Code ex = 1 \<and> exit_Reason ex = ''max steps exceeded''"
proof -
  let ?s = "others e AtWrite (rc_MaxSteps c) s2"
  let ?s' = "?s\<lparr>ls_transient := ls_transient ?s + 1\<rparr>"
  have c: "\<not> cancelled c ?s" using assms(11,13) by (simp add: cancelled_def the_proc_simps)
  have t: "ls_transient ?s < 2" using assms(9) by (simp add: others_def)
  have "retry_or_suspend e c (rc_MaxSteps c) err ?s = Some (True, ?s')"
    using assms(6-8) t by (simp add: retry_or_suspend_def)
  then have "write_failed e c (rc_MaxSteps c) err ?s = Inl (True, ?s')"
    using c assms(10) by (simp add: write_failed_def torn_down_def)
  then have "send_request e c (rc_MaxSteps c) s2 = Inl (True, ?s')"
    using assms(4,5) by (simp add: send_request_def Let_def)
  then have step: "reason_step e c (rc_MaxSteps c) s = (True, ?s')"
    using assms(1,2) by (simp add: reason_step_def bind_part_def)
  have "reason_loop (Suc (Suc fuel)) e c (rc_MaxSteps c) s = Some (finish_with e c 1 ''max steps exceeded'' None ?s')"
    using step assms(3) by simp
  moreover have "proc_of c ?s' = Some p" using assms(11) by simp
  ultimately show ?thesis
    using finished_running [OF assms(12), of "ExitStatus 1 ''max steps exceeded'' [] None"] by auto
qed

text \<open>A step that starts undisturbed.\<close>

lemma calm_begin:
  assumes "others e AtStart step (upd_proc c (TouchHeartbeat (re_now e step)) s) = upd_proc c (TouchHeartbeat (re_now e step)) s"
    and "proc_of c s = Some p" and "\<not> pr_paused p" and "\<not> pr_cancelled p"
    and "gd_breakpoints (ls_gdb s) = []" and "\<not> gd_stepReasoning (ls_gdb s)"
  shows "begin_step e c step s = Inr ((), upd_proc c (TouchHeartbeat (re_now e step)) s)"
proof -
  let ?s = "upd_proc c (TouchHeartbeat (re_now e step)) s"
  have p: "proc_of c ?s = Some (TouchHeartbeat (re_now e step) p)" using assms(2) by simp
  have g: "gd_breakpoints (ls_gdb ?s) = []" "\<not> gd_stepReasoning (ls_gdb ?s)" using assms(5,6) by (simp_all add: upd_proc_def)
  have "pause_check e c step ?s = Inr ((), ?s)"
    using assms(3) by (simp add: pause_check_def the_proc_simps(1) [OF p] TouchHeartbeat_def)
  moreover have "cancel_check e c step ?s = Inr ((), ?s)"
    using assms(4) by (simp add: cancel_check_def cancelled_def the_proc_simps(1) [OF p] TouchHeartbeat_def)
  moreover have "gdb_check e c step ctx ?s = Inr ((), ?s)" for ctx using g(1) by (simp add: gdb_check_def)
  moreover have "step_mode e c step ?s = Inr ((), ?s)" using g(2) by (simp add: step_mode_def)
  ultimately show ?thesis by (simp add: begin_step_def assms(1) bind_part_def)
qed

theorem last_retry_ends_process_witness:
  "rc_FallbackDevice demo_config \<noteq> [] \<and>
   (\<exists>s' q ex. reason_loop 2 (demo_reason [Sentinel LlmErrTimeout]) demo_config 1 demo_loop = Some s' \<and> proc_of demo_config s' = Some q \<and>
      pr_State q = StateZombie \<and> pr_Exit q = Some ex \<and> exit_Reason ex = ''max steps exceeded'')"
proof -
  let ?e = "demo_reason [Sentinel LlmErrTimeout]"
  have same: "others ?e pt i s = s" for pt i s by (simp add: others_def upd_kern_def demo_reason_def)
  let ?s0 = "upd_proc demo_config (TouchHeartbeat (100 * second)) demo_loop"
  have p0: "proc_of demo_config ?s0 = Some (TouchHeartbeat (100 * second) demo_running)" using demo_loop_proc by simp
  have b: "begin_step ?e demo_config 1 demo_loop = Inr ((), ?s0)"
    using calm_begin [of ?e 1 demo_config demo_loop demo_running] same demo_loop_proc demo_running_facts
    by (simp add: demo_reason_def demo_loop_def demo_gdb_def)
  define r where "r = build_request ?e demo_config 1 ?s0"
  have "\<exists>s2. r = Inr ((), s2) \<and> ls_transient s2 = 0 \<and> tl_kern (ls_tools s2) = tl_kern (ls_tools ?s0)"
    by (simp add: r_def build_request_def on_mgr_def BuildPrompt_def on_context_def getContext_def demo_loop_def upd_proc_def upd_kern_def
        demo_tool_state_def demo_state_def demo_compactor_def build_system_def Let_def)
      (simp add: demo_reason_def demo_tools_def)
  then obtain s2 where s2: "build_request ?e demo_config 1 ?s0 = Inr ((), s2)" "ls_transient s2 = 0" "proc_of demo_config s2 = proc_of demo_config ?s0"
    by (auto simp: r_def proc_of_def)
  have one: "rc_MaxSteps demo_config = 1" by (simp add: demo_config_def)
  let ?p = "TouchHeartbeat (100 * second) demo_running"
  have env: "re_gate ?e (pc_Provider (rc_proc demo_config)) 1 = None" "re_write ?e 1 = Some [Sentinel LlmErrTimeout]"
    "\<not> re_stepCancelled ?e 1" by (simp_all add: demo_reason_def)
  have err: "isTransientLLMError [Sentinel LlmErrTimeout]" "\<not> is_gate_error [Sentinel LlmErrTimeout]" "RateLimitKindOf [Sentinel LlmErrTimeout] = None"
    by (simp_all add: isTransientLLMError_def errors_Is_def IsTransient_def is_gate_error_def RateLimitKindOf_def)
  have p: "proc_of demo_config (others ?e AtWrite 1 s2) = Some ?p" "pr_State ?p = StateRunning" "\<not> pr_cancelled ?p" "ls_transient s2 < 2"
    using s2 p0 demo_running_facts by (simp_all add: same TouchHeartbeat_def)
  have "rc_FallbackDevice demo_config \<noteq> []" by (simp add: demo_config_def)
  moreover note last_retry_ends_process [where e = ?e and c = demo_config and s = demo_loop and fuel = 0, unfolded one,
      OF b s2(1) zero_less_one env(1,2) err p(4) env(3) p(1-3)]
  ultimately show ?thesis unfolding numeral_2_eq_2 by blast
qed

text \<open>
  A suspension that arrives while the debugger holds the process: unlike at every other point, the loop ends
  the process when it is let go, so that there is nothing left to suspend.
\<close>

lemma gdb_stop_ends_suspending_process:
  assumes "proc_of c (others e AtGdb step s) = Some p" and "pr_State p = StateRunning" and "pr_cancelled p" and "pr_suspendRequested p"
  shows "\<exists>s' q. gdb_stop e c step s = Inl (False, s') \<and> proc_of c s' = Some q \<and> pr_State q = StateZombie"
  using assms finished_running [OF assms(2)]
  by (simp add: gdb_stop_def cancelled_def the_proc_simps(1) [OF assms(1)])

section \<open>A window that has just opened\<close>

text \<open>
  C32: A provider that names the instant its quota comes back without a year is read as meaning the next such
  instant, so when the answer arrives after that instant, by a slow connection or a clock that is ahead, the process is not tried
  again but suspended for about a year, although its window is open.
\<close>

theorem passed_reset_suspends_for_a_year:
  assumes "leftmost reset_at_here msg = Some m" and "valid_reset (Year (now + zone)) m"
    and "instant_of (Year (now + zone)) m < now" and "now \<le> instant_of (Year (now + zone)) m + 86400 * second"
    and "proc_of c s = Some p" and "pr_State p = StateRunning" and "\<not> pr_cancelled p" and "\<not> re_stepCancelled e step" and "re_now e step = now"
  shows "\<exists>s' q t. write_failed e c step (classify_status format P zone None 429 msg now) s = Inl (False, s') \<and> proc_of c s' = Some q \<and>
    pr_State q = StateSuspended \<and> pr_ResumeAt q = Some t \<and> now + 364 * 86400 * second \<le> t"
proof -
  let ?t = "instant_of (Year (now + zone) + 1) m" and ?kind = "classifyRateLimitBody msg []"
  let ?w = "\<lparr>sw_retryAfter = 0, sw_resetAt = Some ?t, sw_source = ''body''\<rparr>"
  let ?rl = "\<lparr>rl_Kind = ?kind, rl_Message = msg, rl_RetryAfter = 0, rl_ResetAt = Some ?t, rl_Source = ''body''\<rparr>"
  note year = just_past_declares_a_year [OF assms(1-4)]
  define err where "err = classify_status format P zone None 429 msg now"
  have err: "err = [Wrapping (format 429 (RateLimitError_text ?rl)), RateLimited ?rl]"
    by (simp add: err_def classify_status_def year(1) Let_def err_text_def)
  have kind: "?kind = KindQuota \<or> ?kind = KindThrottle" by (simp add: classifyRateLimitBody_def Let_def)
  note defs = RateLimitKindOf_def errors_Is_def isTransientLLMError_def IsTransient_def IsRateLimited_def
  have k: "RateLimitKindOf err = Some ?kind" "isTransientLLMError err"
    unfolding err using kind by (cases ?kind; simp add: defs)+
  have k': "\<not> is_gate_error err" "RateLimitWaitOf err = Some ?w"
    by (simp_all add: err is_gate_error_def RateLimitWaitOf_def)
  let ?d = "resolveRateLimitDelay now (Some ?w) (ls_rateLimit s + 1)"
  have d: "maxInProcessWait < effectiveWait now ?d" by (rule year(3))
  have pos: "0 < ?t - now" using year(2) by (simp add: second_def)
  then have at: "fst (deriveQuotaResumeAt now (rd_retryAfter ?d) (rd_resetAt ?d)) = Some ?t"
    by (simp add: resolveRateLimitDelay_def Let_def deriveQuotaResumeAt_def)
  have "rate_limited e c step err ?kind s = Some (False, quota_suspend e c step (kind_text ?kind) (Some ?t) s)"
    using d at by (simp add: rate_limited_def Let_def k'(2) assms(9))
  moreover have "\<not> cancelled c s" using assms(5,7) by (simp add: cancelled_def the_proc_simps)
  ultimately have "write_failed e c step err s = Inl (False, quota_suspend e c step (kind_text ?kind) (Some ?t) s)"
    using k k' assms(8) by (simp add: write_failed_def torn_down_def retry_or_suspend_def)
  then show ?thesis
    using quota_suspends [OF assms(5,6), of e step "kind_text ?kind" "Some ?t"] year(2) unfolding err_def by blast
qed

definition demo_body :: string where
  "demo_body = ''The quota will reset at 01-01 00:00:00 UTC.''"

lemma demo_body_match: "leftmost reset_at_here demo_body = Some (1, 1, 0, 0, 0)"
  by code_simp

lemma demo_year: "Year (100 * second + 0) = 1970"
  by (simp add: Year_def second_def year_walk.simps days_in_year_def is_leap_def)

theorem passed_reset_suspends_for_a_year_witness:
  "\<exists>s' q t. write_failed (demo_reason []) demo_config 1 (classify_status (\<lambda>status msg. msg) (\<lambda>ra. None) 0 None 429 demo_body (100 * second)) demo_loop =
       Inl (False, s') \<and> proc_of demo_config s' = Some q \<and> pr_State q = StateSuspended \<and> pr_ResumeAt q = Some t \<and>
     100 * second + 364 * 86400 * second \<le> t"
proof -
  have v: "valid_reset (Year (100 * second + 0)) (1, 1, 0, 0, 0)"
    unfolding demo_year by (simp add: valid_reset_def month_days_def)
  have t: "instant_of (Year (100 * second + 0)) (1, 1, 0, 0, 0) = 0"
    unfolding demo_year by (simp add: instant_of_def time_Date_def date_day_def days_before_year_def leaps_def)
  have past: "instant_of (Year (100 * second + 0)) (1, 1, 0, 0, 0) < 100 * second"
    "100 * second \<le> instant_of (Year (100 * second + 0)) (1, 1, 0, 0, 0) + 86400 * second"
    unfolding t by (simp_all add: second_def)
  have env: "\<not> re_stepCancelled (demo_reason []) 1" "re_now (demo_reason []) 1 = 100 * second" by (simp_all add: demo_reason_def)
  show ?thesis
    by (rule passed_reset_suspends_for_a_year [OF demo_body_match v past demo_loop_proc demo_running_facts(1,2) env])
qed

end
