(* ===== verification/ComposeEngine.thy ===== *)
theory ComposeEngine
  imports DagBuild Budget Compact
begin

text \<open>
  The engine of compose files (\<open>compose/engine.go\<close>): the layers of the dependency graph run one after the other, the
  agents of a layer at the same time. An agent has two steps, its spawn and its end, and the steps of a layer happen in any
  order the schedule gives. The kernel the engine spawns into, the agent loader and the reputation store
  are the environment. Service levels, the synergy matrix, trace identifiers and durations are left out.
\<close>

section \<open>Results and requests\<close>

datatype node_error =
    NodeUpstreamFailed
  | NodeLoadFailed go_error
  | NodeSpawnFailed go_error
  | NodeCancelled
  | NodeWaitFailed go_error
  | NodeExited int string
  | NodeBudgetExhausted

record ScheduleResult =
  sr_Name :: string
  sr_PID :: PID
  sr_ExitCode :: int
  sr_Output :: string
  sr_Err :: "node_error option"
  sr_TokensUsed :: int

record HistoricalNodeResult =
  hr_PID :: PID
  hr_Output :: string
  hr_ExitCode :: int
  hr_Tokens :: int
  hr_SpanID :: string

text \<open>The fields of an agent's entry and of the file that only the engine reads.\<close>

record NodeOpts =
  no_Model :: string
  no_Provider :: string
  no_ReasoningEffort :: string
  no_MaxTokens :: int
  no_TimeoutMs :: int
  no_Candidates :: "string list"

record 'a ComposeSpawnOpts =
  so_Intent :: string
  so_Agent :: "'a option"
  so_Model :: string
  so_Provider :: string
  so_ReasoningEffort :: string
  so_MaxTokens :: int
  so_TimeoutMs :: int
  so_Node :: string
  so_Deps :: "string list"
  so_SystemPrompt :: string
  so_ParentSpanID :: string

record 'a Engine =
  en_spec :: ComposeSpec
  en_opts :: "string \<Rightarrow> NodeOpts"
  en_defaults :: NodeOpts
  en_dag :: "AgentSpec DAG"
  en_agentLoader :: "(string \<Rightarrow> go_error + 'a) option"
  en_selectBest :: "(string list \<Rightarrow> string option) option"

text \<open>A wait ends with the status of the process, with an error, or because the run is cancelled.\<close>

datatype wait_outcome = WaitDone int string "go_error option" | WaitCtxDone

datatype sched_event = SchedStart string | SchedEnd string

record ('a, 'k) engine_env =
  ee_spawn :: "'a ComposeSpawnOpts \<Rightarrow> 'k \<Rightarrow> (go_error + PID) \<times> 'k"
  ee_wait :: "PID \<Rightarrow> 'k \<Rightarrow> wait_outcome \<times> 'k"
  ee_result :: "PID \<Rightarrow> 'k \<Rightarrow> string option"
  ee_tokens :: "PID \<Rightarrow> 'k \<Rightarrow> int option"
  ee_span :: "PID \<Rightarrow> 'k \<Rightarrow> string option"
  ee_seed :: "PID \<Rightarrow> string \<Rightarrow> int \<Rightarrow> string \<Rightarrow> 'k \<Rightarrow> 'k"
  ee_schedule :: "nat \<Rightarrow> sched_event list"
  ee_cancelledAtStart :: bool
  ee_cancelledAtRun :: bool
  ee_cancelledBefore :: "nat \<Rightarrow> bool"
  ee_cancelledAfter :: "nat \<Rightarrow> bool"

record 'k engine_state =
  es_kern :: 'k
  es_pids :: "(string \<times> PID) list"
  es_pool :: "BudgetPool option"
  es_results :: "(string \<times> ScheduleResult) list"
  es_all :: "ScheduleResult list"

definition failed_result :: "string \<Rightarrow> node_error \<Rightarrow> ScheduleResult" where
  "failed_result name err = \<lparr>sr_Name = name, sr_PID = 0, sr_ExitCode = 0, sr_Output = [], sr_Err = Some err, sr_TokensUsed = 0\<rparr>"

section \<open>One node\<close>

definition computeAgentQuotas :: "ComposeSpec \<Rightarrow> (string \<times> int) list" where
  "computeAgentQuotas spec =
     (if cs_TokenBudget spec \<le> 0 then []
      else let weights = map (\<lambda>(name, a). (name, ParsePriority (as_Priority a))) (cs_Agents spec);
               totalWeight = sum_list (map snd weights)
           in if 0 < totalWeight then map (\<lambda>(name, w). (name, i64 (go_quot (i64 (cs_TokenBudget spec * w)) totalWeight))) weights else [])"

definition agent_of :: "'a Engine \<Rightarrow> string \<Rightarrow> AgentSpec" where
  "agent_of en name =
     (case map_of (cs_Agents (en_spec en)) name of
        Some a \<Rightarrow> a | None \<Rightarrow> \<lparr>as_Intent = [], as_Agent = [], as_Priority = [], as_DependsOn = []\<rparr>)"

definition selected_agent :: "'a Engine \<Rightarrow> string \<Rightarrow> string" where
  "selected_agent en name =
     (let cands = no_Candidates (en_opts en name)
      in case cands of
           [] \<Rightarrow> as_Agent (agent_of en name)
         | first # _ \<Rightarrow>
             (case en_selectBest en of
                None \<Rightarrow> first
              | Some best \<Rightarrow> (case best cands of Some b \<Rightarrow> b | None \<Rightarrow> first)))"

definition load_agent :: "'a Engine \<Rightarrow> string \<Rightarrow> go_error + 'a option" where
  "load_agent en name =
     (case en_agentLoader en of
        None \<Rightarrow> Inr None
      | Some loader \<Rightarrow>
          if selected_agent en name \<noteq> []
          then (case loader (selected_agent en name) of Inl err \<Rightarrow> Inl err | Inr a \<Rightarrow> Inr (Some a))
          else (case loader name of Inl err \<Rightarrow> Inr None | Inr a \<Rightarrow> Inr (Some a)))"

definition newline_text :: string where "newline_text = [CHR 0x0A]"

definition upstream_part :: "('a, 'k) engine_env \<Rightarrow> 'k engine_state \<Rightarrow> string \<Rightarrow> string list" where
  "upstream_part e st dep =
     (case map_of (es_pids st) dep of
        None \<Rightarrow> []
      | Some pid \<Rightarrow>
          (case ee_result e pid (es_kern st) of
             None \<Rightarrow> []
           | Some output \<Rightarrow> if output = [] then [] else [''### '' @ dep @ '' output:'' @ newline_text @ output]))"

fun join_lines :: "string list \<Rightarrow> string" where
  "join_lines [] = []"
| "join_lines [x] = x"
| "join_lines (x # xs) = x @ newline_text @ join_lines xs"

definition buildUpstreamPrompt :: "('a, 'k) engine_env \<Rightarrow> 'a Engine \<Rightarrow> string \<Rightarrow> 'k engine_state \<Rightarrow> string" where
  "buildUpstreamPrompt e en name st =
     (let parts = concat (map (upstream_part e st) (deps (en_dag en) name))
      in if parts = [] then [] else ''## Upstream Agent Output'' @ newline_text @ join_lines parts)"

definition first_set :: "string \<Rightarrow> string \<Rightarrow> string" where
  "first_set a b = (if a = [] then b else a)"

definition capped_tokens :: "int \<Rightarrow> int option \<Rightarrow> int" where
  "capped_tokens maxTokens quota =
     (case quota of
        None \<Rightarrow> maxTokens
      | Some q \<Rightarrow> if q \<le> 0 then maxTokens else if 0 < maxTokens then min q maxTokens else q)"

definition compose_spawn_request :: "('a, 'k) engine_env \<Rightarrow> 'a Engine \<Rightarrow> string \<Rightarrow> 'a option \<Rightarrow> 'k engine_state \<Rightarrow> 'a ComposeSpawnOpts" where
  "compose_spawn_request e en name agent st =
     (let o1 = en_opts en name; o0 = en_defaults en; ds = deps (en_dag en) name
      in \<lparr>so_Intent = as_Intent (agent_of en name), so_Agent = agent,
          so_Model = first_set (no_Model o1) (no_Model o0),
          so_Provider = first_set (no_Provider o1) (no_Provider o0),
          so_ReasoningEffort = first_set (no_ReasoningEffort o1) (no_ReasoningEffort o0),
          so_MaxTokens = capped_tokens (no_MaxTokens o1) (map_of (computeAgentQuotas (en_spec en)) name),
          so_TimeoutMs = no_TimeoutMs o1, so_Node = name, so_Deps = ds,
          so_SystemPrompt = buildUpstreamPrompt e en name st,
          so_ParentSpanID = (case ds of
                               [] \<Rightarrow> []
                             | dep # _ \<Rightarrow>
                                 (case map_of (es_pids st) dep of
                                    None \<Rightarrow> []
                                  | Some pid \<Rightarrow> (case ee_span e pid (es_kern st) of Some s \<Rightarrow> s | None \<Rightarrow> [])))\<rparr>)"

text \<open>The first step of \<open>executeNode\<close>: load and spawn. It ends the node, or leaves it waiting for its process.\<close>

definition start_node :: "('a, 'k) engine_env \<Rightarrow> 'a Engine \<Rightarrow> string \<Rightarrow> 'k engine_state \<Rightarrow> (ScheduleResult + PID) \<times> 'k engine_state" where
  "start_node e en name st =
     (case load_agent en name of
        Inl err \<Rightarrow> (Inl (failed_result name (NodeLoadFailed err)), st)
      | Inr agent \<Rightarrow>
          (case ee_spawn e (compose_spawn_request e en name agent st) (es_kern st) of
             (Inl err, k) \<Rightarrow> (Inl (failed_result name (NodeSpawnFailed err)), st\<lparr>es_kern := k\<rparr>)
           | (Inr pid, k) \<Rightarrow>
               (Inr pid, st\<lparr>es_kern := k, es_pids := AList.update name pid (es_pids st),
                            es_pool := map_option (\<lambda>bp. snd (AllocateQuota pid name (ParsePriority (as_Priority (agent_of en name))) bp)) (es_pool st)\<rparr>)))"

text \<open>The second step: the wait has ended.\<close>

definition end_node :: "('a, 'k) engine_env \<Rightarrow> string \<Rightarrow> PID \<Rightarrow> 'k engine_state \<Rightarrow> ScheduleResult \<times> 'k engine_state" where
  "end_node e name pid st =
     (case ee_wait e pid (es_kern st) of
        (outcome, k) \<Rightarrow>
          let st1 = st\<lparr>es_kern := k\<rparr>;
              output = (case ee_result e pid k of Some t \<Rightarrow> t | None \<Rightarrow> []);
              tokens = (case ee_tokens e pid k of Some n \<Rightarrow> n | None \<Rightarrow> 0);
              r = \<lparr>sr_Name = name, sr_PID = pid, sr_ExitCode = 0, sr_Output = output, sr_Err = None, sr_TokensUsed = tokens\<rparr>
          in case outcome of
               WaitCtxDone \<Rightarrow> (r\<lparr>sr_Output := [], sr_TokensUsed := 0, sr_Err := Some NodeCancelled\<rparr>, st1)
             | WaitDone code reason err \<Rightarrow>
                 (r\<lparr>sr_ExitCode := code,
                     sr_Err := (case err of
                                  Some er \<Rightarrow> Some (NodeWaitFailed er)
                                | None \<Rightarrow> if code \<noteq> 0 then Some (NodeExited code reason) else None)\<rparr>, st1))"

section \<open>One layer\<close>

datatype node_phase = Absent | Idle | Waiting PID | Finished ScheduleResult

definition sched_step ::
  "('a, 'k) engine_env \<Rightarrow> 'a Engine \<Rightarrow> sched_event \<Rightarrow> (string \<Rightarrow> node_phase) \<times> 'k engine_state
   \<Rightarrow> (string \<Rightarrow> node_phase) \<times> 'k engine_state" where
  "sched_step e en ev s =
     (case s of (ph, st) \<Rightarrow>
        case ev of
          SchedStart name \<Rightarrow>
            (case ph name of
               Idle \<Rightarrow>
                 (case start_node e en name st of
                    (Inl r, st') \<Rightarrow> (ph(name := Finished r), st')
                  | (Inr pid, st') \<Rightarrow> (ph(name := Waiting pid), st'))
             | _ \<Rightarrow> s)
        | SchedEnd name \<Rightarrow>
            (case ph name of
               Waiting pid \<Rightarrow> (case end_node e name pid st of (r, st') \<Rightarrow> (ph(name := Finished r), st'))
             | _ \<Rightarrow> s))"

definition deps_ok :: "(string \<times> ScheduleResult) list \<Rightarrow> string list \<Rightarrow> bool" where
  "deps_ok results ds \<longleftrightarrow> list_all (\<lambda>dep. case map_of results dep of None \<Rightarrow> True | Some r \<Rightarrow> sr_Err r = None) ds"

definition record_result :: "ScheduleResult \<Rightarrow> 'k engine_state \<Rightarrow> 'k engine_state" where
  "record_result r st =
     st\<lparr>es_pool := (if sr_PID r \<noteq> 0 \<and> 0 < sr_TokensUsed r
                   then map_option (\<lambda>bp. snd (RecordUsage (sr_PID r) (sr_TokensUsed r) bp)) (es_pool st) else es_pool st),
        es_all := es_all st @ [r],
        es_results := AList.update (sr_Name r) r (es_results st)\<rparr>"

text \<open>The layer ends when all its agents have: \<open>None\<close> is a schedule that leaves one of them waiting.\<close>

definition layer_todo :: "'k engine_state \<Rightarrow> string list \<Rightarrow> string list" where
  "layer_todo st layer = filter (\<lambda>name. map_of (es_results st) name = None) layer"

definition first_phase :: "'a Engine \<Rightarrow> 'k engine_state \<Rightarrow> string list \<Rightarrow> string \<Rightarrow> node_phase" where
  "first_phase en st layer name =
     (if name \<notin> set (layer_todo st layer) then Absent
      else if deps_ok (es_results st) (deps (en_dag en) name) then Idle
      else Finished (failed_result name NodeUpstreamFailed))"

definition phase_result :: "(string \<Rightarrow> node_phase) \<Rightarrow> string \<Rightarrow> ScheduleResult option" where
  "phase_result ph name = (case ph name of Finished r \<Rightarrow> Some r | _ \<Rightarrow> None)"

definition run_layer :: "('a, 'k) engine_env \<Rightarrow> 'a Engine \<Rightarrow> nat \<Rightarrow> string list \<Rightarrow> 'k engine_state \<Rightarrow> 'k engine_state option" where
  "run_layer e en i layer st =
     (case fold (sched_step e en) (ee_schedule e i) (first_phase en st layer, st) of
        (ph, st1) \<Rightarrow>
          (case those (map (phase_result ph) (layer_todo st layer)) of
             None \<Rightarrow> None
           | Some rs \<Rightarrow> Some (fold record_result rs st1)))"

section \<open>The layers\<close>

datatype run_error = RunCancelled | RunBudgetExhausted | RunInvalid string | RunFailed go_error

definition mark_exhausted :: "string \<Rightarrow> 'k engine_state \<Rightarrow> 'k engine_state" where
  "mark_exhausted name st =
     (case map_of (es_results st) name of
        Some _ \<Rightarrow> st
      | None \<Rightarrow>
          (let r = failed_result name NodeBudgetExhausted
           in st\<lparr>es_all := es_all st @ [r], es_results := AList.update name r (es_results st)\<rparr>))"

definition pool_exhausted :: "'k engine_state \<Rightarrow> bool" where
  "pool_exhausted st = (case es_pool st of None \<Rightarrow> False | Some bp \<Rightarrow> IsExhausted bp)"

fun run_from ::
  "('a, 'k) engine_env \<Rightarrow> 'a Engine \<Rightarrow> nat \<Rightarrow> string list list \<Rightarrow> 'k engine_state \<Rightarrow> (run_error option \<times> 'k engine_state) option" where
  "run_from e en i [] st = Some (None, st)"
| "run_from e en i (layer # layers) st =
     (if ee_cancelledBefore e i then Some (Some RunCancelled, st)
      else if pool_exhausted st then Some (Some RunBudgetExhausted, fold mark_exhausted (concat (layer # layers)) st)
      else case run_layer e en i layer st of
             None \<Rightarrow> None
           | Some st' \<Rightarrow>
               if ee_cancelledAfter e i then Some (Some RunCancelled, st') else run_from e en (Suc i) layers st')"

definition seeded_results :: "(string \<times> ScheduleResult) list \<Rightarrow> string list \<Rightarrow> ScheduleResult list" where
  "seeded_results results ns = List.map_filter (map_of results) (remdups ns)"

definition runLayers ::
  "('a, 'k) engine_env \<Rightarrow> 'a Engine \<Rightarrow> string list list \<Rightarrow> nat \<Rightarrow> 'k engine_state
   \<Rightarrow> (ScheduleResult list \<times> run_error option \<times> 'k engine_state) option" where
  "runLayers e en layers start st =
     (if ee_cancelledAtRun e then Some ([], Some RunCancelled, st)
      else case run_from e en start (drop start layers)
                  (st\<lparr>es_all := seeded_results (es_results st) (concat (take start layers))\<rparr>) of
             None \<Rightarrow> None
           | Some (err, st') \<Rightarrow> Some (es_all st', err, st'))"

section \<open>The two entry points\<close>

definition NewEngine ::
  "ComposeSpec \<Rightarrow> (string \<Rightarrow> NodeOpts) \<Rightarrow> NodeOpts \<Rightarrow> (string \<Rightarrow> go_error + 'a) option
   \<Rightarrow> (go_error \<times> string list + 'a Engine \<times> BudgetPool option) option" where
  "NewEngine spec opts defaults loader =
     (case BuildDAG spec of
        None \<Rightarrow> None
      | Some (Inl err) \<Rightarrow> Some (Inl err)
      | Some (Inr d) \<Rightarrow>
          Some (Inr (\<lparr>en_spec = spec, en_opts = opts, en_defaults = defaults, en_dag = d, en_agentLoader = loader, en_selectBest = None\<rparr>,
                     if 0 < cs_TokenBudget spec then Some (NewBudgetPool (cs_TokenBudget spec)) else None)))"

definition fresh_state :: "'k \<Rightarrow> BudgetPool option \<Rightarrow> 'k engine_state" where
  "fresh_state k pool = \<lparr>es_kern = k, es_pids = [], es_pool = pool, es_results = [], es_all = []\<rparr>"

definition Execute ::
  "('a, 'k) engine_env \<Rightarrow> 'a Engine \<Rightarrow> 'k \<Rightarrow> BudgetPool option \<Rightarrow> (ScheduleResult list \<times> run_error option \<times> 'k engine_state) option" where
  "Execute e en k pool =
     (let st = fresh_state k pool
      in if ee_cancelledAtStart e then Some ([], Some RunCancelled, st)
         else case TopologicalSort (en_dag en) of
                Inl err \<Rightarrow> Some ([], Some (RunFailed err), st)
              | Inr layers \<Rightarrow> runLayers e en layers 0 st)"

lemma walk_decreases:
  assumes "dep \<notin> set out"
  shows "card (names d - insert dep (set out)) < card (names d - set out) \<or>
    card (names d - insert dep (set out)) = card (names d - set out) \<and> deps d dep = []"
proof (cases "dep \<in> names d")
  case True
  then have "names d - insert dep (set out) \<subset> names d - set out" using assms by blast
  then show ?thesis by (simp add: psubset_card_mono)
next
  case False
  then have "names d - insert dep (set out) = names d - set out" by blast
  with deps_outside [OF False] show ?thesis by simp
qed

lemma walk_rel:
  assumes "dep \<notin> set out"
  shows "((d, deps d dep @ stack, out @ [dep]), d, dep # stack, out)
    \<in> inv_image (less_than <*lex*> less_than) (\<lambda>(d, stack, out). (card (names d - set out), length stack))"
  using walk_decreases [OF assms, of d] by (elim disjE) simp_all

text \<open>The walk over the dependencies, with its recursion as a stack: \<open>out\<close> is the set the code fills.\<close>

function walk_upstream :: "'p DAG \<Rightarrow> string list \<Rightarrow> string list \<Rightarrow> string list" where
  "walk_upstream d [] out = out"
| "walk_upstream d (dep # stack) out =
     (if dep \<in> set out then walk_upstream d stack out else walk_upstream d (deps d dep @ stack) (out @ [dep]))"
  by pat_completeness auto

termination
  by (relation "inv_image (less_than <*lex*> less_than) (\<lambda>(d, stack, out). (card (names d - set out), length stack))")
     (rule wf_inv_image, simp add: wf_lex_prod, simp, erule walk_rel)

definition TransitiveUpstream :: "'p DAG \<Rightarrow> string \<Rightarrow> string list" where
  "TransitiveUpstream d target = walk_upstream d (deps d target) []"

definition seed_result :: "string \<Rightarrow> HistoricalNodeResult \<Rightarrow> ScheduleResult" where
  "seed_result name h =
     \<lparr>sr_Name = name, sr_PID = hr_PID h, sr_ExitCode = hr_ExitCode h, sr_Output = hr_Output h, sr_Err = None, sr_TokensUsed = hr_Tokens h\<rparr>"

definition seed_node ::
  "('a, 'k) engine_env \<Rightarrow> string \<Rightarrow> HistoricalNodeResult \<Rightarrow> 'k engine_state \<Rightarrow> 'k engine_state" where
  "seed_node e name h st =
     st\<lparr>es_results := AList.update name (seed_result name h) (es_results st),
        es_pids := (if hr_PID h \<noteq> 0 then AList.update name (hr_PID h) (es_pids st) else es_pids st),
        es_kern := ee_seed e (hr_PID h) (hr_Output h) (hr_Tokens h) (hr_SpanID h) (es_kern st)\<rparr>"

definition seed_upstream ::
  "('a, 'k) engine_env \<Rightarrow> (string \<times> HistoricalNodeResult) list \<Rightarrow> string \<Rightarrow> 'k engine_state \<Rightarrow> 'k engine_state" where
  "seed_upstream e hist name st = (case map_of hist name of None \<Rightarrow> st | Some h \<Rightarrow> seed_node e name h st)"

fun layer_index :: "string \<Rightarrow> string list list \<Rightarrow> nat option" where
  "layer_index name [] = None"
| "layer_index name (l # ls) = (if name \<in> set l then Some 0 else map_option Suc (layer_index name ls))"

definition ExecuteFromNode ::
  "('a, 'k) engine_env \<Rightarrow> 'a Engine \<Rightarrow> string \<Rightarrow> HistoricalNodeResult \<Rightarrow> (string \<times> HistoricalNodeResult) list \<Rightarrow> 'k \<Rightarrow> BudgetPool option
   \<Rightarrow> (ScheduleResult list \<times> run_error option \<times> 'k engine_state) option" where
  "ExecuteFromNode e en node result hist k pool =
     (let st = fresh_state k pool
      in if ee_cancelledAtStart e then Some ([], Some RunCancelled, st)
         else if map_of (en_dag en) node = None then Some ([], Some (RunInvalid ''resumed node not in compose DAG''), st)
         else case TopologicalSort (en_dag en) of
                Inl err \<Rightarrow> Some ([], Some (RunFailed err), st)
              | Inr layers \<Rightarrow>
                  (case layer_index node layers of
                     None \<Rightarrow> Some ([], Some (RunInvalid ''resumed node not found in topological sort''), st)
                   | Some i \<Rightarrow>
                       if \<exists>dep \<in> set (TransitiveUpstream (en_dag en) node). map_of hist dep = None
                       then Some ([], Some (RunInvalid ''upstream node has no successful run''), st)
                       else runLayers e en layers (Suc i)
                              (seed_node e node result (fold (seed_upstream e hist) (concat (take i layers)) st))))"

end
