(* ===== verification/EngineProps.thy ===== *)
theory EngineProps
  imports ComposeEngine
begin

text \<open>
  Properties of the compose engine: a run without cancellation ends whenever its processes do and accounts for every agent
  once, in the order of the layers, skipping exactly the agents with a failed dependency; a run resumed at a node
  leaves the other nodes of its layer out and runs what depends on them.
\<close>

section \<open>The walk over the dependencies\<close>

lemma walk_upstream_closed:
  "\<forall>x \<in> set out. set (deps d x) \<subseteq> set out \<union> set stack \<Longrightarrow>
   set out \<union> set stack \<subseteq> set (walk_upstream d stack out) \<and>
   (\<forall>x \<in> set (walk_upstream d stack out). set (deps d x) \<subseteq> set (walk_upstream d stack out))"
proof (induction d stack out rule: walk_upstream.induct)
  case (2 d dep stack out)
  show ?case
  proof (cases "dep \<in> set out")
    case True
    then have "\<forall>x \<in> set out. set (deps d x) \<subseteq> set out \<union> set stack" using 2(3) by auto
    with 2(1) [OF True] True show ?thesis by auto
  next
    case False
    have "\<forall>x \<in> set (out @ [dep]). set (deps d x) \<subseteq> set (out @ [dep]) \<union> set (deps d dep @ stack)" using 2(3) by auto
    with 2(2) [OF False] False show ?thesis by auto
  qed
qed simp

lemma walk_upstream_sound:
  "set out \<union> set stack \<subseteq> {u. (u, v) \<in> (dep_rel d)\<^sup>+} \<Longrightarrow> set (walk_upstream d stack out) \<subseteq> {u. (u, v) \<in> (dep_rel d)\<^sup>+}"
proof (induction d stack out rule: walk_upstream.induct)
  case (2 d dep stack out)
  have "set (deps d dep) \<subseteq> {u. (u, v) \<in> (dep_rel d)\<^sup>+}" if "(dep, v) \<in> (dep_rel d)\<^sup>+"
    using that by (auto simp: dep_rel_def intro: trancl_into_trancl2)
  with 2 show ?case by simp
qed simp

lemma TransitiveUpstream_trancl: "set (TransitiveUpstream d v) = {u. (u, v) \<in> (dep_rel d)\<^sup>+}"
proof
  have "set (deps d v) \<subseteq> {u. (u, v) \<in> (dep_rel d)\<^sup>+}" by (auto simp: dep_rel_def)
  then show "set (TransitiveUpstream d v) \<subseteq> {u. (u, v) \<in> (dep_rel d)\<^sup>+}"
    unfolding TransitiveUpstream_def by (intro walk_upstream_sound) simp
  have c: "set (deps d v) \<subseteq> set (TransitiveUpstream d v)"
    "x \<in> set (TransitiveUpstream d v) \<Longrightarrow> set (deps d x) \<subseteq> set (TransitiveUpstream d v)" for x
    using walk_upstream_closed [of "[]" d "deps d v"] by (simp_all add: TransitiveUpstream_def)
  have "u \<in> set (TransitiveUpstream d v)" if "(u, v) \<in> (dep_rel d)\<^sup>+" for u
    using that
  proof (induction rule: converse_trancl_induct)
    case (base y)
    then show ?case using c(1) by (auto simp: dep_rel_def)
  next
    case (step y z)
    then show ?case using c(2) [of z] by (auto simp: dep_rel_def)
  qed
  then show "{u. (u, v) \<in> (dep_rel d)\<^sup>+} \<subseteq> set (TransitiveUpstream d v)" by blast
qed

section \<open>The steps of a layer\<close>

definition ran :: "string \<Rightarrow> ScheduleResult \<Rightarrow> bool" where
  "ran name r \<longleftrightarrow> sr_Name r = name \<and> sr_Err r \<noteq> Some NodeUpstreamFailed \<and> sr_Err r \<noteq> Some NodeBudgetExhausted"

lemma start_node_ran:
  "start_node e en name st = (Inl r, st') \<Longrightarrow> ran name r"
  by (auto simp: start_node_def ran_def failed_result_def split: sum.splits prod.splits)

lemma end_node_ran:
  "end_node e name pid st = (r, st') \<Longrightarrow> ran name r"
  by (auto simp: end_node_def ran_def Let_def split: prod.splits wait_outcome.splits option.splits if_splits)

lemma start_node_frame: "es_results (snd (start_node e en name st)) = es_results st \<and> es_all (snd (start_node e en name st)) = es_all st"
  by (simp add: start_node_def split: sum.split prod.split)

lemma end_node_frame: "es_results (snd (end_node e name pid st)) = es_results st \<and> es_all (snd (end_node e name pid st)) = es_all st"
  by (simp add: end_node_def Let_def split: prod.split wait_outcome.split option.split)

lemma sched_step_frame:
  "es_results (snd (sched_step e en ev s)) = es_results (snd s) \<and> es_all (snd (sched_step e en ev s)) = es_all (snd s)"
proof (cases ev)
  case (SchedStart name)
  obtain ph st where s: "s = (ph, st)" by (cases s)
  show ?thesis using start_node_frame [of e en name st]
    by (auto simp: SchedStart s sched_step_def split: node_phase.split prod.split sum.split)
next
  case (SchedEnd name)
  obtain ph st where s: "s = (ph, st)" by (cases s)
  show ?thesis using end_node_frame [of e name _ st]
    by (auto simp: SchedEnd s sched_step_def split: node_phase.split prod.split)
       (metis snd_conv)+
qed

lemma fold_sched_frame:
  "es_results (snd (fold (sched_step e en) evs s)) = es_results (snd s) \<and> es_all (snd (fold (sched_step e en) evs s)) = es_all (snd s)"
  by (induction evs arbitrary: s) (simp_all add: sched_step_frame)

text \<open>What the phase of an agent can become.\<close>

definition phase_after :: "string \<Rightarrow> node_phase \<Rightarrow> node_phase \<Rightarrow> bool" where
  "phase_after name p q \<longleftrightarrow>
     q = p \<or> p = Idle \<and> (\<exists>pid. q = Waiting pid) \<or>
     (p = Idle \<or> (\<exists>pid. p = Waiting pid)) \<and> (\<exists>r. q = Finished r \<and> ran name r)"

lemma phase_after_trans: "phase_after name p q \<Longrightarrow> phase_after name q r \<Longrightarrow> phase_after name p r"
  by (auto simp: phase_after_def)

lemma sched_step_phase: "phase_after name (fst s name) (fst (sched_step e en ev s) name)"
  by (cases s; cases ev)
     (auto simp: sched_step_def phase_after_def split: node_phase.split prod.split sum.split dest: start_node_ran end_node_ran)

lemma fold_sched_phase: "phase_after name (fst s name) (fst (fold (sched_step e en) evs s) name)"
proof (induction evs arbitrary: s)
  case (Cons ev evs)
  from phase_after_trans [OF sched_step_phase Cons] show ?case by simp
qed (simp add: phase_after_def)

definition ends_in :: "string \<Rightarrow> sched_event list \<Rightarrow> bool" where
  "ends_in name evs \<longleftrightarrow> SchedEnd name \<in> set (dropWhile (\<lambda>ev. ev \<noteq> SchedStart name) evs)"

lemma after_start: "fst (sched_step e en (SchedStart name) s) name \<noteq> Idle"
  by (cases s) (auto simp: sched_step_def split: node_phase.split prod.split sum.split)

lemma after_end:
  assumes "fst s name \<noteq> Idle"
  shows "fst (sched_step e en (SchedEnd name) s) name = Absent \<or> (\<exists>r. fst (sched_step e en (SchedEnd name) s) name = Finished r)"
  using assms by (cases s) (auto simp: sched_step_def split: node_phase.split prod.split)

lemma ends_after_start:
  "SchedEnd name \<in> set evs \<Longrightarrow> fst s name \<noteq> Idle \<Longrightarrow>
   fst (fold (sched_step e en) evs s) name = Absent \<or> (\<exists>r. fst (fold (sched_step e en) evs s) name = Finished r)"
proof (induction evs arbitrary: s)
  case (Cons ev evs)
  show ?case
  proof (cases "ev = SchedEnd name")
    case True
    from after_end [OF Cons.prems(2), of e en] fold_sched_phase [of name "sched_step e en ev s" e en evs] True
    show ?thesis by (auto simp: phase_after_def)
  next
    case False
    have "fst (sched_step e en ev s) name \<noteq> Idle"
      using sched_step_phase [of name s e en ev] Cons.prems(2) by (auto simp: phase_after_def)
    with Cons False show ?thesis by simp
  qed
qed simp

lemma fair_ends:
  "ends_in name evs \<Longrightarrow>
   fst (fold (sched_step e en) evs s) name = Absent \<or> (\<exists>r. fst (fold (sched_step e en) evs s) name = Finished r)"
proof (induction evs arbitrary: s)
  case (Cons ev evs)
  show ?case
  proof (cases "ev = SchedStart name")
    case True
    then have "SchedEnd name \<in> set evs" using Cons.prems by (simp add: ends_in_def)
    from ends_after_start [OF this after_start] True show ?thesis by simp
  next
    case False
    with Cons show ?thesis by (simp add: ends_in_def)
  qed
qed (simp add: ends_in_def)

lemma those_map_Some: "\<forall>x \<in> set xs. f x = Some (g x) \<Longrightarrow> those (map f xs) = Some (map g xs)"
  by (induction xs) simp_all

section \<open>A layer and its results\<close>

definition by_name :: "ScheduleResult list \<Rightarrow> (string \<times> ScheduleResult) list" where
  "by_name rs = map (\<lambda>r. (sr_Name r, r)) rs"

lemma by_name_append [simp]: "map_of (by_name (rs @ qs)) = map_of (by_name qs) ++ map_of (by_name rs)"
  by (simp add: by_name_def)

lemma dom_by_name [simp]: "dom (map_of (by_name rs)) = set (map sr_Name rs)"
  by (simp add: by_name_def dom_map_of_conv_image_fst image_image)

lemma by_name_None [simp]: "map_of (by_name rs) name = None \<longleftrightarrow> name \<notin> sr_Name ` set rs"
  by (simp add: by_name_def map_of_eq_None_iff image_image)

lemma by_name_iff:
  "distinct (map sr_Name rs) \<Longrightarrow> map_of (by_name rs) name = Some r \<longleftrightarrow> r \<in> set rs \<and> sr_Name r = name"
  by (simp add: by_name_def comp_def) auto

lemma by_name_Cons:
  assumes "sr_Name r \<notin> set (map sr_Name rs)"
  shows "m ++ map_of (by_name (r # rs)) = m(sr_Name r \<mapsto> r) ++ map_of (by_name rs)"
proof
  fix x
  have "map_of (by_name rs) (sr_Name r) = None" using assms by simp
  then show "(m ++ map_of (by_name (r # rs))) x = (m(sr_Name r \<mapsto> r) ++ map_of (by_name rs)) x"
    by (cases "x = sr_Name r") (simp_all add: by_name_def map_add_def split: option.split)
qed

lemma record_results:
  "distinct (map sr_Name rs) \<Longrightarrow>
   es_all (fold record_result rs st) = es_all st @ rs \<and>
   map_of (es_results (fold record_result rs st)) = map_of (es_results st) ++ map_of (by_name rs)"
proof (induction rs arbitrary: st)
  case (Cons r rs)
  have "map_of (es_results (record_result r st)) = (map_of (es_results st))(sr_Name r \<mapsto> r)"
    "es_all (record_result r st) = es_all st @ [r]"
    by (simp_all add: record_result_def update_conv')
  moreover have "m ++ map_of (by_name (r # rs)) = m(sr_Name r \<mapsto> r) ++ map_of (by_name rs)" for m
    using Cons.prems by (intro by_name_Cons) simp
  ultimately show ?case using Cons.IH [of "record_result r st"] Cons.prems by (simp only: fold_simps) (simp add: fun_upd_def)
qed (simp add: by_name_def)

lemma run_layer_result:
  assumes "\<forall>name \<in> set layer. ends_in name (ee_schedule e i)" and "distinct layer"
  obtains rs st' where "run_layer e en i layer st = Some st'" and "map sr_Name rs = layer_todo st layer"
    and "es_all st' = es_all st @ rs" and "map_of (es_results st') = map_of (es_results st) ++ map_of (by_name rs)"
    and "\<forall>r \<in> set rs. sr_Err r \<noteq> Some NodeBudgetExhausted \<and>
      (sr_Err r = Some NodeUpstreamFailed \<longleftrightarrow> \<not> deps_ok (es_results st) (deps (en_dag en) (sr_Name r)))"
proof -
  let ?s0 = "(first_phase en st layer, st)" and ?todo = "layer_todo st layer"
  obtain ph st1 where f: "fold (sched_step e en) (ee_schedule e i) ?s0 = (ph, st1)" by fastforce
  have fin: "\<exists>r. ph name = Finished r \<and> sr_Name r = name \<and> sr_Err r \<noteq> Some NodeBudgetExhausted \<and>
      (sr_Err r = Some NodeUpstreamFailed \<longleftrightarrow> \<not> deps_ok (es_results st) (deps (en_dag en) name))" if "name \<in> set ?todo" for name
  proof -
    have "name \<in> set layer" using that by (simp add: layer_todo_def)
    then have "ph name = Absent \<or> (\<exists>r. ph name = Finished r)"
      using fair_ends [of name "ee_schedule e i" e en ?s0] assms(1) by (simp add: f)
    moreover have "phase_after name (first_phase en st layer name) (ph name)"
      using fold_sched_phase [of name ?s0 e en "ee_schedule e i"] by (simp add: f)
    ultimately show ?thesis
      using that by (auto simp: phase_after_def first_phase_def ran_def failed_result_def split: if_splits)
  qed
  define res where "res name = (case ph name of Finished r \<Rightarrow> r | _ \<Rightarrow> undefined)" for name
  let ?rs = "map res ?todo"
  have "\<forall>name \<in> set ?todo. phase_result ph name = Some (res name)"
    using fin by (fastforce simp: phase_result_def res_def)
  then have t: "those (map (phase_result ph) ?todo) = Some ?rs" by (rule those_map_Some)
  have n: "map sr_Name ?rs = ?todo" using fin by (fastforce simp: res_def intro: map_idI)
  have "distinct ?todo" using assms(2) by (simp add: layer_todo_def)
  then have d: "distinct (map sr_Name ?rs)" by (simp only: n)
  have fr: "es_results st1 = es_results st" "es_all st1 = es_all st"
    using fold_sched_frame [of e en "ee_schedule e i" ?s0] by (simp_all add: f)
  show ?thesis
  proof (rule that)
    show "run_layer e en i layer st = Some (fold record_result ?rs st1)" by (simp add: run_layer_def f t)
    show "map sr_Name ?rs = ?todo" by (rule n)
    show "es_all (fold record_result ?rs st1) = es_all st @ ?rs" using record_results [OF d, of st1] fr by simp
    show "map_of (es_results (fold record_result ?rs st1)) = map_of (es_results st) ++ map_of (by_name ?rs)"
      using record_results [OF d, of st1] fr by simp
    show "\<forall>r \<in> set ?rs. sr_Err r \<noteq> Some NodeBudgetExhausted \<and>
      (sr_Err r = Some NodeUpstreamFailed \<longleftrightarrow> \<not> deps_ok (es_results st) (deps (en_dag en) (sr_Name r)))"
      using fin by (fastforce simp: res_def)
  qed
qed

section \<open>All layers\<close>

lemma mark_all:
  "distinct ns \<Longrightarrow> \<forall>name \<in> set ns. map_of (es_results st) name = None \<Longrightarrow>
   \<exists>rs. es_all (fold mark_exhausted ns st) = es_all st @ rs \<and> map sr_Name rs = ns \<and>
     map_of (es_results (fold mark_exhausted ns st)) = map_of (es_results st) ++ map_of (by_name rs) \<and>
     (\<forall>r \<in> set rs. sr_Err r = Some NodeBudgetExhausted)"
proof (induction ns arbitrary: st)
  case (Cons n ns)
  let ?r = "failed_result n NodeBudgetExhausted" and ?st = "mark_exhausted n st"
  have m: "es_all ?st = es_all st @ [?r]" "map_of (es_results ?st) = (map_of (es_results st))(n \<mapsto> ?r)"
    using Cons.prems(2) by (simp_all add: mark_exhausted_def Let_def)
  have "\<forall>name \<in> set ns. map_of (es_results ?st) name = None" using Cons.prems by (auto simp: m)
  from Cons.IH [OF _ this] Cons.prems(1) obtain rs where rs:
    "es_all (fold mark_exhausted ns ?st) = es_all ?st @ rs" "map sr_Name rs = ns"
    "map_of (es_results (fold mark_exhausted ns ?st)) = map_of (es_results ?st) ++ map_of (by_name rs)"
    "\<forall>r \<in> set rs. sr_Err r = Some NodeBudgetExhausted" by auto
  have "sr_Name ?r = n" by (simp add: failed_result_def)
  moreover from this have "m ++ map_of (by_name (?r # rs)) = m(n \<mapsto> ?r) ++ map_of (by_name rs)" for m
    using Cons.prems(1) rs(2) by_name_Cons [of ?r rs m] by simp
  ultimately show ?case using rs m
    by (intro exI [of _ "?r # rs"]) (simp only: fold_simps, simp add: fun_upd_def failed_result_def)
qed (simp add: by_name_def)

lemma deps_ok_cong:
  "(\<And>dep. dep \<in> set ds \<Longrightarrow> map_of m dep = map_of m' dep) \<Longrightarrow> deps_ok m ds = deps_ok m' ds"
  by (auto simp: deps_ok_def list_all_iff)

text \<open>The dependencies of an agent lie in earlier layers or outside the layers.\<close>

fun layered :: "(string \<Rightarrow> string list) \<Rightarrow> string list list \<Rightarrow> bool" where
  "layered ds [] \<longleftrightarrow> True"
| "layered ds (l # ls) \<longleftrightarrow> (\<forall>v \<in> set l. set (ds v) \<inter> set (concat (l # ls)) = {}) \<and> layered ds ls"

definition uncancelled :: "('a, 'k) engine_env \<Rightarrow> bool" where
  "uncancelled e \<longleftrightarrow> \<not> ee_cancelledAtStart e \<and> \<not> ee_cancelledAtRun e \<and>
     (\<forall>i. \<not> ee_cancelledBefore e i \<and> \<not> ee_cancelledAfter e i)"

definition accounted :: "'a Engine \<Rightarrow> (string \<times> ScheduleResult) list \<Rightarrow> run_error option \<Rightarrow> ScheduleResult \<Rightarrow> bool" where
  "accounted en m err r \<longleftrightarrow>
     sr_Err r = Some NodeBudgetExhausted \<and> err = Some RunBudgetExhausted \<or>
     sr_Err r \<noteq> Some NodeBudgetExhausted \<and>
       (sr_Err r = Some NodeUpstreamFailed \<longleftrightarrow> \<not> deps_ok m (deps (en_dag en) (sr_Name r)))"

lemma run_from_result:
  "uncancelled e \<Longrightarrow> \<forall>i. \<forall>name \<in> set (concat ls). ends_in name (ee_schedule e i) \<Longrightarrow> distinct (concat ls) \<Longrightarrow>
   \<forall>name \<in> set (concat ls). map_of (es_results st) name = None \<Longrightarrow> layered (deps (en_dag en)) ls \<Longrightarrow>
   \<exists>err st' rs. run_from e en i ls st = Some (err, st') \<and> (err = None \<or> err = Some RunBudgetExhausted) \<and>
     es_all st' = es_all st @ rs \<and> map sr_Name rs = concat ls \<and>
     map_of (es_results st') = map_of (es_results st) ++ map_of (by_name rs) \<and>
     (\<forall>r \<in> set rs. accounted en (es_results st') err r)"
proof (induction ls arbitrary: i st)
  case (Cons l ls)
  note u = Cons.prems(1) [unfolded uncancelled_def]
  show ?case
  proof (cases "pool_exhausted st")
    case True
    from mark_all [OF Cons.prems(3,4)] obtain rs where
      "es_all (fold mark_exhausted (concat (l # ls)) st) = es_all st @ rs" "map sr_Name rs = concat (l # ls)"
      "map_of (es_results (fold mark_exhausted (concat (l # ls)) st)) = map_of (es_results st) ++ map_of (by_name rs)"
      "\<forall>r \<in> set rs. sr_Err r = Some NodeBudgetExhausted" by blast
    with True u show ?thesis
      by (intro exI [of _ "Some RunBudgetExhausted"] exI [of _ "fold mark_exhausted (concat (l # ls)) st"] exI [of _ rs])
         (simp add: accounted_def)
  next
    case False
    have fair: "\<forall>name \<in> set l. ends_in name (ee_schedule e i)" and dl: "distinct l" using Cons.prems(2,3) by simp_all
    from run_layer_result [OF fair dl, of en st] obtain rs1 st1 where
      r1: "run_layer e en i l st = Some st1" "map sr_Name rs1 = layer_todo st l" "es_all st1 = es_all st @ rs1"
        "map_of (es_results st1) = map_of (es_results st) ++ map_of (by_name rs1)"
        "\<forall>r \<in> set rs1. sr_Err r \<noteq> Some NodeBudgetExhausted \<and>
          (sr_Err r = Some NodeUpstreamFailed \<longleftrightarrow> \<not> deps_ok (es_results st) (deps (en_dag en) (sr_Name r)))" .
    have n1: "map sr_Name rs1 = l" using r1(2) Cons.prems(4) by (simp add: layer_todo_def)
    have new: "\<forall>name \<in> set (concat ls). map_of (es_results st1) name = None"
    proof
      fix name assume n: "name \<in> set (concat ls)"
      then have "name \<notin> dom (map_of (by_name rs1))" using Cons.prems(3) n1 by auto
      with n Cons.prems(4) show "map_of (es_results st1) name = None" by (auto simp: r1(4) map_add_None)
    qed
    from Cons.IH [OF Cons.prems(1) _ _ new, of "Suc i"] Cons.prems(2,3,5) obtain err st' rs where
      r2: "run_from e en (Suc i) ls st1 = Some (err, st')" "err = None \<or> err = Some RunBudgetExhausted"
        "es_all st' = es_all st1 @ rs" "map sr_Name rs = concat ls"
        "map_of (es_results st') = map_of (es_results st1) ++ map_of (by_name rs)"
        "\<forall>r \<in> set rs. accounted en (es_results st') err r" by auto
    have doms: "dom (map_of (by_name rs1)) = set l" "dom (map_of (by_name rs)) = set (concat ls)"
      using n1 r2(4) by (metis dom_by_name)+
    have m: "map_of (es_results st') = map_of (es_results st) ++ map_of (by_name (rs1 @ rs))"
    proof -
      have "dom (map_of (by_name rs1)) \<inter> dom (map_of (by_name rs)) = {}" unfolding doms using Cons.prems(3) by auto
      from map_add_comm [OF this] show ?thesis unfolding r1(4) r2(5) by_name_append by (metis map_add_assoc)
    qed
    have "accounted en (es_results st') err r" if r: "r \<in> set rs1" for r
    proof -
      have "sr_Name r \<in> set l" using r n1 by auto
      then have "set (deps (en_dag en) (sr_Name r)) \<inter> (set l \<union> set (concat ls)) = {}" using Cons.prems(5) by simp
      then have "deps_ok (es_results st) (deps (en_dag en) (sr_Name r)) = deps_ok (es_results st') (deps (en_dag en) (sr_Name r))"
      proof (intro deps_ok_cong)
        fix dep assume "dep \<in> set (deps (en_dag en) (sr_Name r))"
        with \<open>set (deps _ _) \<inter> _ = {}\<close> have "dep \<notin> dom (map_of (by_name rs1))" "dep \<notin> dom (map_of (by_name rs))" unfolding doms by auto
        then show "map_of (es_results st) dep = map_of (es_results st') dep" unfolding m by_name_append by (simp add: map_add_dom_app_simps(3))
      qed
      with r1(5) r show ?thesis by (simp add: accounted_def)
    qed
    with r1(1,3) r2 m n1 False u show ?thesis
      by (intro exI [of _ err] exI [of _ st'] exI [of _ "rs1 @ rs"]) auto
  qed
qed (simp add: by_name_def)

section \<open>A run\<close>

definition skipped_iff_failed_dep :: "'a Engine \<Rightarrow> ScheduleResult list \<Rightarrow> run_error option \<Rightarrow> ScheduleResult \<Rightarrow> bool" where
  "skipped_iff_failed_dep en results err r \<longleftrightarrow>
     sr_Err r = Some NodeBudgetExhausted \<and> err = Some RunBudgetExhausted \<or>
     sr_Err r \<noteq> Some NodeBudgetExhausted \<and>
       (sr_Err r = Some NodeUpstreamFailed \<longleftrightarrow>
          (\<exists>q \<in> set results. sr_Name q \<in> set (deps (en_dag en) (sr_Name r)) \<and> sr_Err q \<noteq> None))"

lemma deps_ok_results:
  assumes "map_of m = map_of (by_name results)" and "distinct (map sr_Name results)"
  shows "deps_ok m ds \<longleftrightarrow> \<not> (\<exists>q \<in> set results. sr_Name q \<in> set ds \<and> sr_Err q \<noteq> None)"
  using by_name_iff [OF assms(2)] by (auto simp: deps_ok_def list_all_iff assms(1) split: option.split)

lemma accounted_results:
  assumes "map_of m = map_of (by_name results)" and "distinct (map sr_Name results)"
  shows "accounted en m err r \<longleftrightarrow> skipped_iff_failed_dep en results err r"
  by (simp add: accounted_def skipped_iff_failed_dep_def deps_ok_results [OF assms])

lemma in_map_filter: "r \<in> set (List.map_filter m xs) \<longleftrightarrow> (\<exists>x \<in> set xs. m x = Some r)"
  by (induction xs) (auto simp: map_filter_simps split: option.split)

lemma seeded_names: "(\<And>x r. m x = Some r \<Longrightarrow> sr_Name r = x) \<Longrightarrow> map sr_Name (List.map_filter m xs) = filter (\<lambda>x. m x \<noteq> None) xs"
  by (induction xs) (auto simp: map_filter_simps split: option.split)

lemma seeded_map:
  assumes "\<And>x r. m x = Some r \<Longrightarrow> sr_Name r = x \<and> x \<in> set xs" and "distinct xs"
  shows "map_of (by_name (List.map_filter m xs)) = m"
proof
  fix x
  have n: "map sr_Name (List.map_filter m xs) = filter (\<lambda>x. m x \<noteq> None) xs" using assms(1) by (intro seeded_names) blast
  then have d: "distinct (map sr_Name (List.map_filter m xs))" using assms(2) by simp
  show "map_of (by_name (List.map_filter m xs)) x = m x"
  proof (cases "m x")
    case None
    then have "x \<notin> set (map sr_Name (List.map_filter m xs))" unfolding n by simp
    with None show ?thesis by simp
  next
    case (Some r)
    with assms(1) have "r \<in> set (List.map_filter m xs)" "sr_Name r = x" by (auto simp: in_map_filter)
    with Some show ?thesis by (simp add: by_name_iff [OF d])
  qed
qed

lemma layered_from:
  "\<forall>j < length ls. \<forall>v \<in> set (ls ! j). set (ds v) \<subseteq> P \<union> set (concat (take j ls)) \<Longrightarrow> distinct (concat ls) \<Longrightarrow>
   P \<inter> set (concat ls) = {} \<Longrightarrow> layered ds ls"
proof (induction ls arbitrary: P)
  case (Cons l ls)
  have "\<forall>v \<in> set l. set (ds v) \<subseteq> P" using Cons.prems(1) [rule_format, of 0] by simp
  moreover have "layered ds ls"
  proof (rule Cons.IH)
    show "\<forall>j < length ls. \<forall>v \<in> set (ls ! j). set (ds v) \<subseteq> (P \<union> set l) \<union> set (concat (take j ls))"
    proof (intro allI impI)
      fix j assume "j < length ls"
      with Cons.prems(1) [rule_format, of "Suc j"]
      show "\<forall>v \<in> set (ls ! j). set (ds v) \<subseteq> (P \<union> set l) \<union> set (concat (take j ls))" by (auto simp: Un_assoc)
    qed
    show "distinct (concat ls)" using Cons.prems(2) by simp
    show "(P \<union> set l) \<inter> set (concat ls) = {}" using Cons.prems(2,3) by auto
  qed
  ultimately show ?case using Cons.prems(3) by auto
qed simp

lemma layered_drop: "layered ds ls \<Longrightarrow> layered ds (drop k ls)"
  by (induction ls arbitrary: k) (auto simp: drop_Cons split: nat.split)

lemma runLayers_result:
  assumes "uncancelled e" and fair: "\<forall>i. \<forall>name \<in> set (concat layers). ends_in name (ee_schedule e i)"
    and dis: "distinct (concat layers)" and lay: "layered (deps (en_dag en)) layers"
    and seeded: "\<And>x r. map_of (es_results st) x = Some r \<Longrightarrow> sr_Name r = x \<and> x \<in> set (concat (take k layers))"
  obtains results err st' where "runLayers e en layers k st = Some (results, err, st')"
    and "err = None \<or> err = Some RunBudgetExhausted"
    and "map sr_Name results =
      filter (\<lambda>x. map_of (es_results st) x \<noteq> None) (concat (take k layers)) @ concat (drop k layers)"
    and "\<forall>r \<in> set results. sr_Name r \<in> set (concat (drop k layers)) \<longrightarrow> skipped_iff_failed_dep en results err r"
    and "\<forall>r \<in> set results. sr_Name r \<notin> set (concat (drop k layers)) \<longrightarrow> map_of (es_results st) (sr_Name r) = Some r"
proof -
  let ?old = "concat (take k layers)" and ?new = "concat (drop k layers)"
  have cat: "concat layers = ?old @ ?new" by (metis append_take_drop_id concat_append)
  let ?st = "st\<lparr>es_all := seeded_results (es_results st) ?old\<rparr>"
  have d: "distinct ?old" "distinct ?new" "set ?old \<inter> set ?new = {}" using dis unfolding cat by simp_all
  have fresh: "\<forall>name \<in> set ?new. map_of (es_results ?st) name = None"
  proof
    fix name assume n: "name \<in> set ?new"
    show "map_of (es_results ?st) name = None"
      using seeded [of name] n d(3) by (cases "map_of (es_results st) name") auto
  qed
  have f: "\<forall>i. \<forall>name \<in> set ?new. ends_in name (ee_schedule e i)" using fair unfolding cat by simp
  obtain err st' rs where r: "run_from e en k (drop k layers) ?st = Some (err, st')" "err = None \<or> err = Some RunBudgetExhausted"
    "es_all st' = es_all ?st @ rs" "map sr_Name rs = ?new"
    "map_of (es_results st') = map_of (es_results ?st) ++ map_of (by_name rs)"
    "\<forall>r \<in> set rs. accounted en (es_results st') err r"
    using run_from_result [OF assms(1) f d(2) fresh layered_drop [OF lay], of k] by blast
  let ?sd = "List.map_filter (map_of (es_results st)) ?old"
  have sd: "es_all ?st = ?sd" by (simp add: seeded_results_def distinct_remdups_id [OF d(1)])
  have sm: "map_of (by_name ?sd) = map_of (es_results st)" using seeded d(1) by (intro seeded_map) blast+
  have sn: "map sr_Name ?sd = filter (\<lambda>x. map_of (es_results st) x \<noteq> None) ?old" using seeded by (intro seeded_names) blast
  have dn: "distinct (map sr_Name (?sd @ rs))" unfolding map_append sn r(4) using d by auto
  have disj: "dom (map_of (by_name ?sd)) \<inter> dom (map_of (by_name rs)) = {}" unfolding dom_by_name sn r(4) using d(3) by auto
  have m: "map_of (es_results st') = map_of (by_name (?sd @ rs))"
    unfolding r(5) by_name_append using map_add_comm [OF disj] by (simp add: sm)
  show ?thesis
  proof (rule that)
    show "runLayers e en layers k st = Some (?sd @ rs, err, st')"
      using r(1,3) assms(1) by (simp add: runLayers_def uncancelled_def sd [simplified])
    show "err = None \<or> err = Some RunBudgetExhausted" by (rule r(2))
    show "map sr_Name (?sd @ rs) = filter (\<lambda>x. map_of (es_results st) x \<noteq> None) ?old @ ?new"
      unfolding map_append sn r(4) ..
    show "\<forall>r \<in> set (?sd @ rs). sr_Name r \<in> set ?new \<longrightarrow> skipped_iff_failed_dep en (?sd @ rs) err r"
    proof (intro ballI impI)
      fix r' assume r': "r' \<in> set (?sd @ rs)" "sr_Name r' \<in> set ?new"
      have "r' \<notin> set ?sd"
      proof
        assume "r' \<in> set ?sd"
        then have "sr_Name r' \<in> set (map sr_Name ?sd)" by simp
        then show False unfolding sn using r'(2) d(3) by auto
      qed
      with r' r(6) show "skipped_iff_failed_dep en (?sd @ rs) err r'" by (simp flip: accounted_results [OF m dn])
    qed
    show "\<forall>r \<in> set (?sd @ rs). sr_Name r \<notin> set ?new \<longrightarrow> map_of (es_results st) (sr_Name r) = Some r"
    proof (intro ballI impI)
      fix r' assume r': "r' \<in> set (?sd @ rs)" "sr_Name r' \<notin> set ?new"
      then have "r' \<in> set ?sd" unfolding r(4) [symmetric] by auto
      then show "map_of (es_results st) (sr_Name r') = Some r'" using seeded by (force simp: in_map_filter)
    qed
  qed
qed

lemma plan_layered:
  assumes "dag_ok d" and "acyclic (dep_rel d)"
  obtains layers where "TopologicalSort d = Inr layers" and "distinct (concat layers)" and "set (concat layers) = names d"
    and "layered (deps d) layers"
proof -
  from acyclic_layers [OF assms] obtain layers where
    l: "TopologicalSort d = Inr layers" "distinct (concat layers)" "set (concat layers) = names d"
      "\<forall>i < length layers. \<forall>v \<in> set (layers ! i). set (deps d v) \<subseteq> set (concat (take i layers))"
    by (elim exE conjE)
  have "layered (deps d) layers" using l(2,4) by (intro layered_from [of _ _ "{}"]) simp_all
  from that [OF l(1-3) this] show ?thesis .
qed


text \<open>The diamond of the dependency graphs; the kernel of the example refuses to spawn one of its agents.\<close>

definition demo_engine :: "unit Engine" where
  "demo_engine =
     (let opts = \<lparr>no_Model = [], no_Provider = [], no_ReasoningEffort = [], no_MaxTokens = 0, no_TimeoutMs = 0, no_Candidates = []\<rparr>;
          agent = \<lparr>as_Intent = ''work'', as_Agent = [], as_Priority = [], as_DependsOn = []\<rparr>;
          node = \<lambda>name ds by. (name, \<lparr>dn_Name = name, dn_Spec = agent, dn_DependsOn = ds, dn_DependedBy = by\<rparr>)
      in \<lparr>en_spec = \<lparr>cs_Version = ''1.0'', cs_Intent = ''demo'', cs_TokenBudget = 0, cs_Agents = map (\<lambda>n. (n, agent)) [''a'', ''b'', ''c'', ''d'']\<rparr>,
          en_opts = (\<lambda>_. opts), en_defaults = opts,
          en_dag = [node ''d'' [''b'', ''c''] [], node ''a'' [] [''b'', ''c''], node ''b'' [''a''] [''d''], node ''c'' [''a''] [''d'']],
          en_agentLoader = None, en_selectBest = None\<rparr>)"

definition demo_engine_env :: "string \<Rightarrow> (unit, PID) engine_env" where
  "demo_engine_env bad =
     \<lparr>ee_spawn = (\<lambda>opts k. if so_Node opts = bad then (Inl (PlainError ''no process''), k) else (Inr k, k + 1)),
      ee_wait = (\<lambda>pid k. (WaitDone 0 [] None, k)), ee_result = (\<lambda>pid k. Some ''done''), ee_tokens = (\<lambda>pid k. Some 5),
      ee_span = (\<lambda>pid k. None), ee_seed = (\<lambda>pid output tokens span k. k),
      ee_schedule = (\<lambda>i. map SchedStart [''a'', ''c'', ''b'', ''d''] @ map SchedEnd [''a'', ''b'', ''c'', ''d'']),
      ee_cancelledAtStart = False, ee_cancelledAtRun = False, ee_cancelledBefore = (\<lambda>i. False), ee_cancelledAfter = (\<lambda>i. False)\<rparr>"

lemma demo_engine_ok:
  "dag_ok (en_dag demo_engine)" "acyclic (dep_rel (en_dag demo_engine))" "uncancelled (demo_engine_env bad)"
  "\<forall>i. \<forall>name \<in> names (en_dag demo_engine). ends_in name (ee_schedule (demo_engine_env bad) i)"
  "names (en_dag demo_engine) = {''a'', ''b'', ''c'', ''d''}"
proof -
  show "dag_ok (en_dag demo_engine)"
    by (auto simp: dag_ok_def demo_engine_def Let_def deps_def downstream_def names_def)
  show "acyclic (dep_rel (en_dag demo_engine))"
    by (rule acyclicI_order [of _ "\<lambda>v. if v = ''a'' then 3 else if v = ''d'' then 1 else (2 :: nat)"])
       (auto simp: dep_rel_def deps_def demo_engine_def Let_def split: if_splits)
  show "uncancelled (demo_engine_env bad)" by (simp add: uncancelled_def demo_engine_env_def)
  show n: "names (en_dag demo_engine) = {''a'', ''b'', ''c'', ''d''}" by (auto simp: names_def demo_engine_def Let_def)
  show "\<forall>i. \<forall>name \<in> names (en_dag demo_engine). ends_in name (ee_schedule (demo_engine_env bad) i)"
    unfolding n by (simp add: demo_engine_env_def ends_in_def)
qed


section \<open>A resumed run\<close>

lemma seed_upstream_results:
  "map_of (es_results (fold (seed_upstream e hist) ns st)) x =
     (if x \<in> set ns \<and> map_of hist x \<noteq> None then Some (seed_result x (the (map_of hist x))) else map_of (es_results st) x)"
proof (induction ns arbitrary: st)
  case (Cons n ns)
  have "map_of (es_results (seed_upstream e hist n st)) x =
      (if x = n \<and> map_of hist x \<noteq> None then Some (seed_result x (the (map_of hist x))) else map_of (es_results st) x)"
    by (cases "map_of hist n") (auto simp: seed_upstream_def seed_node_def)
  with Cons show ?case by auto
qed simp

lemma layer_index_Some:
  "distinct (concat layers) \<Longrightarrow> n \<in> set (concat layers) \<Longrightarrow>
   \<exists>i. layer_index n layers = Some i \<and> i < length layers \<and> n \<in> set (layers ! i) \<and> n \<notin> set (concat (take i layers))"
proof (induction layers)
  case (Cons l ls)
  show ?case
  proof (cases "n \<in> set l")
    case False
    with Cons.prems have "n \<in> set (concat ls)" "distinct (concat ls)" by auto
    with Cons.IH obtain i where "layer_index n ls = Some i" "i < length ls" "n \<in> set (ls ! i)" "n \<notin> set (concat (take i ls))" by blast
    with False show ?thesis by (intro exI [of _ "Suc i"]) simp
  qed simp
qed simp

lemma filter_only:
  "distinct xs \<Longrightarrow> n \<in> set xs \<Longrightarrow> \<forall>x \<in> set xs. P x \<longleftrightarrow> x = n \<Longrightarrow> filter P xs = [n]"
proof (induction xs)
  case (Cons x xs)
  then have p: "P x \<longleftrightarrow> x = n" by (metis list.set_intros(1))
  show ?case
  proof (cases "x = n")
    case True
    then have "\<forall>y \<in> set xs. \<not> P y" using Cons.prems by (metis distinct.simps(2) list.set_intros(2))
    with True p show ?thesis by (simp add: filter_empty_conv)
  next
    case False
    with Cons p show ?thesis by simp
  qed
qed simp


lemma demo_upstream: "(u, ''b'') \<in> (dep_rel (en_dag demo_engine))\<^sup>+ \<longleftrightarrow> u = ''a''"
proof -
  have "set (TransitiveUpstream (en_dag demo_engine) ''b'') = {''a''}" by (simp add: TransitiveUpstream_def deps_def demo_engine_def Let_def)
  then show ?thesis unfolding TransitiveUpstream_trancl by blast
qed


end
