(* ===== verification/Coroutines.thy ===== *)
theory Coroutines
  imports KTypes
begin

text \<open>
  Coroutines and threads of a process (\<open>kernel/coroutine.go\<close>, \<open>kernel/thread.go\<close>, the tables in \<open>kernel/process.go\<close>).
  The goroutine of a coroutine, the callers and the reaper interleave; one event is the code between two points at which
  another goroutine can run, and the unbuffered channels are rendezvous of two of them. The body of a coroutine is the list of
  values it yields and its result: \<open>yield\<close> returns nothing to it.
\<close>

section \<open>Coroutines\<close>

datatype coroutineState = coReady | coRunning | coSuspended | coDone

text \<open>Where the goroutine is: before its first step, in the body, blocked on either channel, or past the body.\<close>

datatype 'v co_pc = AtStart | InBody | AtSend 'v | AtWait | Resumed | AtClose | Ended

record 'v Coroutine =
  co_State :: coroutineState
  co_result :: "'v option"
  co_consumed :: bool
  co_fn :: "'v list \<times> 'v"
  co_pc :: "'v co_pc"
  co_rest :: "'v list"
  co_resumeClosed :: bool
  co_drained :: bool

definition new_coroutine :: "'v list \<times> 'v \<Rightarrow> 'v Coroutine" where
  "new_coroutine fn =
     \<lparr>co_State = coReady, co_result = None, co_consumed = False, co_fn = fn, co_pc = AtStart, co_rest = fst fn,
      co_resumeClosed = False, co_drained = False\<rparr>"

text \<open>A step of the goroutine that needs no partner; \<open>None\<close> when it is blocked or over.\<close>

definition goroutine_step :: "'v Coroutine \<Rightarrow> 'v Coroutine option" where
  "goroutine_step co =
     (case co_pc co of
        AtStart \<Rightarrow> Some (co\<lparr>co_State := coRunning, co_pc := InBody\<rparr>)
      | InBody \<Rightarrow>
          (case co_rest co of
             v # vs \<Rightarrow> Some (co\<lparr>co_State := coSuspended, co_pc := AtSend v, co_rest := vs\<rparr>)
           | [] \<Rightarrow> Some (co\<lparr>co_result := Some (snd (co_fn co)), co_State := coDone, co_pc := AtClose\<rparr>))
      | AtSend v \<Rightarrow> if co_drained co then Some (co\<lparr>co_pc := AtWait\<rparr>) else None
      | AtWait \<Rightarrow> if co_resumeClosed co then Some (co\<lparr>co_pc := Resumed\<rparr>) else None
      | Resumed \<Rightarrow> Some (co\<lparr>co_State := coRunning, co_pc := InBody\<rparr>)
      | AtClose \<Rightarrow> Some (co\<lparr>co_pc := Ended\<rparr>)
      | Ended \<Rightarrow> None)"

section \<open>The process, its table and its callers\<close>

text \<open>A caller between two calls, blocked on a channel, or about to finish what it read.\<close>

datatype 'v caller =
    Between
  | Resuming CoID
  | Reading CoID
  | GotValue CoID 'v
  | SawClosed CoID
  | Yielding CoID 'v

datatype 'v answer = AErr CoID go_error | AVal CoID 'v | AResult CoID "'v option" | AYielded CoID

record 'v co_system =
  cs_pid :: PID
  cs_proc :: "ProcessState option"
  cs_counter :: nat
  cs_heap :: "CoID \<Rightarrow> 'v Coroutine option"
  cs_table :: "CoID set"
  cs_callers :: "'v caller list"
  cs_answers :: "'v answer list"
  cs_panicked :: bool

definition set_co :: "CoID \<Rightarrow> 'v Coroutine \<Rightarrow> 'v co_system \<Rightarrow> 'v co_system" where
  "set_co c co s = s\<lparr>cs_heap := (cs_heap s)(c \<mapsto> co)\<rparr>"

definition set_caller :: "nat \<Rightarrow> 'v caller \<Rightarrow> 'v co_system \<Rightarrow> 'v co_system" where
  "set_caller i ca s = s\<lparr>cs_callers := (cs_callers s)[i := ca]\<rparr>"

definition give_answer :: "nat \<Rightarrow> 'v answer \<Rightarrow> 'v co_system \<Rightarrow> 'v co_system" where
  "give_answer i a s = (set_caller i Between s)\<lparr>cs_answers := cs_answers s @ [a]\<rparr>"

definition SpawnCoroutine :: "'v list \<times> 'v \<Rightarrow> 'v co_system \<Rightarrow> (go_error + CoID) \<times> 'v co_system" where
  "SpawnCoroutine fn s =
     (case cs_proc s of
        None \<Rightarrow> (Inl (SyscallError ''SpawnCoroutine'' (cs_pid s) ErrNotFound), s)
      | Some st \<Rightarrow>
          if st \<noteq> StateRunning then (Inl (SyscallError ''SpawnCoroutine'' (cs_pid s) ErrInvalid), s)
          else let c = Suc (cs_counter s)
               in (Inr c, (set_co c (new_coroutine fn) s)\<lparr>cs_counter := c, cs_table := insert c (cs_table s)\<rparr>))"

definition get_coroutine :: "string \<Rightarrow> CoID \<Rightarrow> 'v co_system \<Rightarrow> go_error + 'v Coroutine" where
  "get_coroutine opn c s =
     (if cs_proc s = None \<or> c \<notin> cs_table s then Inl (SyscallError opn (cs_pid s) ErrNotFound)
      else case cs_heap s c of None \<Rightarrow> Inl (SyscallError opn (cs_pid s) ErrNotFound) | Some co \<Rightarrow> Inr co)"

text \<open>The checks of \<open>ResumeCoroutine\<close>, and of \<open>Yield\<close> as a call from outside the body.\<close>

definition resume_begin :: "nat \<Rightarrow> CoID \<Rightarrow> 'v co_system \<Rightarrow> 'v co_system" where
  "resume_begin i c s =
     (case get_coroutine ''ResumeCoroutine'' c s of
        Inl err \<Rightarrow> give_answer i (AErr c err) s
      | Inr co \<Rightarrow>
          if co_State co \<noteq> coSuspended then give_answer i (AErr c (SyscallError ''ResumeCoroutine'' (cs_pid s) ErrInvalid)) s
          else if co_consumed co then set_caller i (Resuming c) s
          else set_caller i (Reading c) s)"

definition yield_begin :: "nat \<Rightarrow> CoID \<Rightarrow> 'v \<Rightarrow> 'v co_system \<Rightarrow> 'v co_system" where
  "yield_begin i c v s =
     (case get_coroutine ''Yield'' c s of
        Inl err \<Rightarrow> give_answer i (AErr c err) s
      | Inr co \<Rightarrow>
          if co_State co \<noteq> coRunning then give_answer i (AErr c (SyscallError ''Yield'' (cs_pid s) ErrInvalid)) s
          else set_caller i (Yielding c v) (set_co c (co\<lparr>co_State := coSuspended\<rparr>) s))"

text \<open>A send on a closed channel panics: the resume signal after the reaper, a value from outside after the body.\<close>

definition pass_resume :: "nat \<Rightarrow> 'v co_system \<Rightarrow> 'v co_system option" where
  "pass_resume i s =
     (case cs_callers s ! i of
        Resuming c \<Rightarrow>
          (case cs_heap s c of
             None \<Rightarrow> None
           | Some co \<Rightarrow>
               if co_resumeClosed co then Some (s\<lparr>cs_panicked := True\<rparr>)
               else if co_pc co = AtWait then Some (set_caller i (Reading c) (set_co c (co\<lparr>co_pc := Resumed\<rparr>) s))
               else None)
      | _ \<Rightarrow> None)"

definition pass_value :: "nat \<Rightarrow> 'v co_system \<Rightarrow> 'v co_system option" where
  "pass_value i s =
     (case cs_callers s ! i of
        Reading c \<Rightarrow>
          (case cs_heap s c of
             None \<Rightarrow> None
           | Some co \<Rightarrow>
               (case co_pc co of
                  AtSend v \<Rightarrow> Some (set_caller i (GotValue c v) (set_co c (co\<lparr>co_pc := AtWait\<rparr>) s))
                | Ended \<Rightarrow> Some (set_caller i (SawClosed c) s)
                | _ \<Rightarrow> None))
      | _ \<Rightarrow> None)"

definition pass_outside_value :: "nat \<Rightarrow> nat \<Rightarrow> 'v co_system \<Rightarrow> 'v co_system option" where
  "pass_outside_value i j s =
     (case cs_callers s ! i of
        Yielding c v \<Rightarrow>
          (case cs_heap s c of
             None \<Rightarrow> None
           | Some co \<Rightarrow>
               if co_pc co = Ended then Some (s\<lparr>cs_panicked := True\<rparr>)
               else if cs_callers s ! j = Reading c then Some (set_caller j (GotValue c v) (give_answer i (AYielded c) s))
               else if co_drained co then Some (give_answer i (AYielded c) s)
               else None)
      | _ \<Rightarrow> None)"

definition resume_end :: "nat \<Rightarrow> 'v co_system \<Rightarrow> 'v co_system option" where
  "resume_end i s =
     (case cs_callers s ! i of
        GotValue c v \<Rightarrow>
          (case cs_heap s c of None \<Rightarrow> None | Some co \<Rightarrow> Some (give_answer i (AVal c v) (set_co c (co\<lparr>co_consumed := True\<rparr>) s)))
      | SawClosed c \<Rightarrow>
          (case cs_heap s c of None \<Rightarrow> None | Some co \<Rightarrow> Some (give_answer i (AResult c (co_result co)) (s\<lparr>cs_table := cs_table s - {c}\<rparr>)))
      | _ \<Rightarrow> None)"

text \<open>The reaper lets every coroutine of the table run on, with nobody to read what it yields.\<close>

definition clear_one :: "'v Coroutine \<Rightarrow> 'v Coroutine" where
  "clear_one co = (if co_State co \<noteq> coDone then co\<lparr>co_resumeClosed := True, co_drained := True\<rparr> else co)"

definition ClearCoroutines :: "'v co_system \<Rightarrow> 'v co_system" where
  "ClearCoroutines s =
     s\<lparr>cs_heap := (\<lambda>c. if c \<in> cs_table s then map_option clear_one (cs_heap s c) else cs_heap s c), cs_table := {}\<rparr>"

section \<open>Interleavings\<close>

datatype 'v co_event =
    ProcBecomes "ProcessState option"
  | DoSpawn "'v list \<times> 'v"
  | Go CoID
  | BeginResume nat CoID
  | BeginYield nat CoID 'v
  | PassResume nat
  | PassValue nat
  | PassOutside nat nat
  | EndResume nat
  | DoClear

text \<open>\<open>None\<close> is an event that cannot happen in the state. After a panic there is no daemon left.\<close>

definition co_step :: "'v co_event \<Rightarrow> 'v co_system \<Rightarrow> 'v co_system option" where
  "co_step ev s =
     (if cs_panicked s then None
      else case ev of
        ProcBecomes st \<Rightarrow> Some (s\<lparr>cs_proc := st\<rparr>)
      | DoSpawn fn \<Rightarrow> Some (snd (SpawnCoroutine fn s))
      | Go c \<Rightarrow> (case cs_heap s c of None \<Rightarrow> None | Some co \<Rightarrow> map_option (\<lambda>co'. set_co c co' s) (goroutine_step co))
      | BeginResume i c \<Rightarrow> if i < length (cs_callers s) \<and> cs_callers s ! i = Between then Some (resume_begin i c s) else None
      | BeginYield i c v \<Rightarrow> if i < length (cs_callers s) \<and> cs_callers s ! i = Between then Some (yield_begin i c v s) else None
      | PassResume i \<Rightarrow> if i < length (cs_callers s) then pass_resume i s else None
      | PassValue i \<Rightarrow> if i < length (cs_callers s) then pass_value i s else None
      | PassOutside i j \<Rightarrow> if i < length (cs_callers s) \<and> j < length (cs_callers s) then pass_outside_value i j s else None
      | EndResume i \<Rightarrow> if i < length (cs_callers s) then resume_end i s else None
      | DoClear \<Rightarrow> Some (ClearCoroutines s))"

definition co_init :: "PID \<Rightarrow> nat \<Rightarrow> 'v co_system" where
  "co_init pid n =
     \<lparr>cs_pid = pid, cs_proc = Some StateRunning, cs_counter = 0, cs_heap = (\<lambda>_. None), cs_table = {},
      cs_callers = replicate n Between, cs_answers = [], cs_panicked = False\<rparr>"

definition co_run :: "'v co_event list \<Rightarrow> 'v co_system \<Rightarrow> 'v co_system option" where
  "co_run evs s = fold_opt co_step evs s"

section \<open>One caller\<close>

text \<open>The values a caller has been given by one coroutine, in order.\<close>

definition handed :: "CoID \<Rightarrow> 'v answer list \<Rightarrow> 'v list" where
  "handed c as = List.map_filter (\<lambda>a. case a of AVal d v \<Rightarrow> if d = c then Some v else None | _ \<Rightarrow> None) as"

lemma handed_simps [simp]:
  "handed c [] = []"
  "handed c (as @ [a]) = handed c as @ (case a of AVal d v \<Rightarrow> if d = c then [v] else [] | _ \<Rightarrow> [])"
proof -
  show "handed c [] = []" by (simp add: handed_def map_filter_simps)
  show "handed c (as @ [a]) = handed c as @ (case a of AVal d v \<Rightarrow> if d = c then [v] else [] | _ \<Rightarrow> [])"
    by (induction as) (auto simp: handed_def map_filter_simps split: answer.split option.split)
qed

lemma handed_none: "(\<And>v. AVal c v \<notin> set as) \<Longrightarrow> handed c as = []"
  by (induction as rule: rev_induct) (auto split: answer.split)

definition in_hand :: "CoID \<Rightarrow> 'v caller \<Rightarrow> 'v list" where
  "in_hand c ca = (case ca of GotValue d v \<Rightarrow> if d = c then [v] else [] | _ \<Rightarrow> [])"

fun busy_with :: "'v caller \<Rightarrow> CoID option" where
  "busy_with Between = None"
| "busy_with (Resuming c) = Some c"
| "busy_with (Reading c) = Some c"
| "busy_with (GotValue c v) = Some c"
| "busy_with (SawClosed c) = Some c"
| "busy_with (Yielding c v) = Some c"

definition goroutine_ok_at :: "'v Coroutine \<Rightarrow> bool" where
  "goroutine_ok_at co \<longleftrightarrow>
     (case co_pc co of
        AtStart \<Rightarrow> co_State co = coReady
      | InBody \<Rightarrow> co_State co = coRunning
      | AtClose \<Rightarrow> co_State co = coDone \<and> co_rest co = [] \<and> co_result co = Some (snd (co_fn co))
      | Ended \<Rightarrow> co_State co = coDone \<and> co_rest co = [] \<and> co_result co = Some (snd (co_fn co))
      | _ \<Rightarrow> co_State co = coSuspended \<and> fst (co_fn co) \<noteq> [])"

definition on_channel :: "'v Coroutine \<Rightarrow> 'v list" where
  "on_channel co = (case co_pc co of AtSend v \<Rightarrow> [v] | _ \<Rightarrow> [])"

lemma consumed_frame [simp]:
  "goroutine_ok_at (co\<lparr>co_consumed := b\<rparr>) = goroutine_ok_at co" "on_channel (co\<lparr>co_consumed := b\<rparr>) = on_channel co"
  by (simp_all add: goroutine_ok_at_def on_channel_def split: co_pc.split)

definition co_ok :: "CoID \<Rightarrow> 'v caller \<Rightarrow> 'v answer list \<Rightarrow> CoID set \<Rightarrow> 'v Coroutine \<Rightarrow> bool" where
  "co_ok c ca as tab co \<longleftrightarrow>
     handed c as @ in_hand c ca @ on_channel co @ co_rest co = fst (co_fn co) \<and> goroutine_ok_at co \<and>
     \<not> co_resumeClosed co \<and> \<not> co_drained co \<and>
     (ca = Resuming c \<or> ca = Reading c \<or> ca = SawClosed c \<longrightarrow> fst (co_fn co) \<noteq> []) \<and>
     (ca = SawClosed c \<longrightarrow> co_pc co = Ended) \<and>
     (\<forall>r. AResult c r \<in> set as \<longrightarrow> co_pc co = Ended \<and> r = Some (snd (co_fn co)) \<and> fst (co_fn co) \<noteq> [] \<and> busy_with ca \<noteq> Some c) \<and>
     (c \<in> tab \<longleftrightarrow> (\<forall>r. AResult c r \<notin> set as))"

definition coroutines_ok :: "'v co_system \<Rightarrow> bool" where
  "coroutines_ok s \<longleftrightarrow> \<not> cs_panicked s \<and> (\<exists>ca. cs_callers s = [ca] \<and> (\<forall>c v. ca \<noteq> Yielding c v) \<and>
       (\<forall>c. busy_with ca = Some c \<longrightarrow> cs_heap s c \<noteq> None) \<and>
       (\<forall>c co. cs_heap s c = Some co \<longrightarrow> c \<le> cs_counter s \<and> co_ok c ca (cs_answers s) (cs_table s) co)) \<and>
     (\<forall>c. (\<exists>v. AVal c v \<in> set (cs_answers s)) \<or> (\<exists>r. AResult c r \<in> set (cs_answers s)) \<longrightarrow> cs_heap s c \<noteq> None)"

lemma coroutines_okI:
  assumes "\<not> cs_panicked s" and "cs_callers s = [ca]" and "\<And>c v. ca \<noteq> Yielding c v" and "\<And>c. busy_with ca = Some c \<Longrightarrow> cs_heap s c \<noteq> None"
    and "\<And>c co. cs_heap s c = Some co \<Longrightarrow> c \<le> cs_counter s" and "\<And>c co. cs_heap s c = Some co \<Longrightarrow> co_ok c ca (cs_answers s) (cs_table s) co"
    and "\<And>c v. AVal c v \<in> set (cs_answers s) \<Longrightarrow> cs_heap s c \<noteq> None" and "\<And>c r. AResult c r \<in> set (cs_answers s) \<Longrightarrow> cs_heap s c \<noteq> None"
  shows "coroutines_ok s"
  using assms unfolding coroutines_ok_def by blast

lemma goroutine_ok:
  assumes "co_ok c ca as tab co" and "goroutine_step co = Some co'"
  shows "co_ok c ca as tab co'"
proof (cases "co_pc co")
  case AtStart
  with assms(2) have "co' = co\<lparr>co_State := coRunning, co_pc := InBody\<rparr>" by (simp add: goroutine_step_def)
  with assms(1) AtStart show ?thesis by (auto simp: co_ok_def goroutine_ok_at_def on_channel_def)
next
  case InBody
  show ?thesis
  proof (cases "co_rest co")
    case Nil
    with assms(2) InBody have "co' = co\<lparr>co_result := Some (snd (co_fn co)), co_State := coDone, co_pc := AtClose\<rparr>"
      by (simp add: goroutine_step_def)
    with assms(1) InBody Nil show ?thesis by (auto simp: co_ok_def goroutine_ok_at_def on_channel_def)
  next
    case (Cons v vs)
    with assms(2) InBody have e: "co' = co\<lparr>co_State := coSuspended, co_pc := AtSend v, co_rest := vs\<rparr>" by (simp add: goroutine_step_def)
    have "fst (co_fn co) \<noteq> []" using assms(1) Cons by (metis append_is_Nil_conv co_ok_def list.distinct(1))
    with assms(1) InBody Cons show ?thesis by (auto simp: e co_ok_def goroutine_ok_at_def on_channel_def)
  qed
next
  case (AtSend v)
  with assms show ?thesis by (simp add: co_ok_def goroutine_step_def)
next
  case AtWait
  with assms show ?thesis by (simp add: co_ok_def goroutine_step_def)
next
  case Resumed
  with assms(2) have "co' = co\<lparr>co_State := coRunning, co_pc := InBody\<rparr>" by (simp add: goroutine_step_def)
  with assms(1) Resumed show ?thesis by (auto simp: co_ok_def goroutine_ok_at_def on_channel_def)
next
  case AtClose
  with assms(2) have "co' = co\<lparr>co_pc := Ended\<rparr>" by (simp add: goroutine_step_def)
  with assms(1) AtClose show ?thesis by (auto simp: co_ok_def goroutine_ok_at_def on_channel_def)
next
  case Ended
  with assms(2) show ?thesis by (simp add: goroutine_step_def)
qed

text \<open>A caller's change of phase, where its coroutine does not move.\<close>

lemma co_ok_caller:
  assumes "co_ok d ca as tab co" and "in_hand d ca' = in_hand d ca"
    and "ca' = Resuming d \<or> ca' = Reading d \<or> ca' = SawClosed d \<Longrightarrow> fst (co_fn co) \<noteq> []" and "ca' = SawClosed d \<Longrightarrow> co_pc co = Ended"
    and "busy_with ca' = Some d \<Longrightarrow> busy_with ca = Some d \<or> d \<in> tab"
  shows "co_ok d ca' as tab co"
  using assms unfolding co_ok_def by auto

lemma co_ok_answer:
  assumes "co_ok d ca as tab co" and "in_hand d ca = []" and "\<And>v. a \<noteq> AVal d v" and "\<And>r. a \<noteq> AResult d r"
  shows "co_ok d Between (as @ [a]) tab co"
  using assms by (auto simp: co_ok_def in_hand_def split: answer.split)

text \<open>One coroutine and the caller change together.\<close>

lemma sys_ok_move:
  assumes "coroutines_ok s" and "cs_heap s c = Some co" and "\<not> cs_panicked s'" and "cs_callers s' = [ca']"
    and "cs_heap s' = (cs_heap s)(c \<mapsto> conew)" and "cs_counter s' = cs_counter s"
    and "busy_with ca' = None \<or> busy_with ca' = Some c" and "\<And>d v. ca' \<noteq> Yielding d v"
    and "co_ok c ca' (cs_answers s') (cs_table s') conew"
    and "\<And>d co'. cs_heap s d = Some co' \<Longrightarrow> d \<noteq> c \<Longrightarrow> co_ok d ca' (cs_answers s') (cs_table s') co'"
    and "\<And>a. a \<in> set (cs_answers s') \<Longrightarrow> a \<in> set (cs_answers s) \<or> (\<exists>v. a = AVal c v) \<or> (\<exists>r. a = AResult c r)"
  shows "coroutines_ok s'"
proof (rule coroutines_okI [of _ ca'])
  obtain ca where ok: "\<And>c co. cs_heap s c = Some co \<Longrightarrow> c \<le> cs_counter s"
    and an: "\<And>c. (\<exists>v. AVal c v \<in> set (cs_answers s)) \<or> (\<exists>r. AResult c r \<in> set (cs_answers s)) \<Longrightarrow> cs_heap s c \<noteq> None"
    using assms(1) unfolding coroutines_ok_def by blast
  show "cs_heap s' d \<noteq> None" if "busy_with ca' = Some d" for d using that assms(5,7) by auto
  show "d \<le> cs_counter s'" if "cs_heap s' d = Some co'" for d co'
    using that ok [of d] ok [OF assms(2)] assms(5,6) by (cases "d = c") auto
  show "co_ok d ca' (cs_answers s') (cs_table s') co'" if "cs_heap s' d = Some co'" for d co'
    using that assms(5,9) assms(10) [of d co'] by (cases "d = c") auto
  show "cs_heap s' d \<noteq> None" if "AVal d v \<in> set (cs_answers s')" for d v
    using assms(11) [OF that] an [of d] assms(5) by auto
  show "cs_heap s' d \<noteq> None" if "AResult d r \<in> set (cs_answers s')" for d r
    using assms(11) [OF that] an [of d] assms(5) by auto
qed (fact assms(3,4,8))+

lemma co_step_sys_ok:
  assumes "coroutines_ok s" and "co_step ev s = Some s'" and "\<And>i c v. ev \<noteq> BeginYield i c v" and "ev \<noteq> DoClear"
  shows "coroutines_ok s'"
proof -
  obtain ca where ca: "cs_callers s = [ca]" "\<And>c v. ca \<noteq> Yielding c v" "\<And>c. busy_with ca = Some c \<Longrightarrow> cs_heap s c \<noteq> None"
    and ok: "\<And>c co. cs_heap s c = Some co \<Longrightarrow> c \<le> cs_counter s" "\<And>c co. cs_heap s c = Some co \<Longrightarrow> co_ok c ca (cs_answers s) (cs_table s) co"
    and an: "\<And>c v. AVal c v \<in> set (cs_answers s) \<Longrightarrow> cs_heap s c \<noteq> None" "\<And>c r. AResult c r \<in> set (cs_answers s) \<Longrightarrow> cs_heap s c \<noteq> None"
    and np: "\<not> cs_panicked s"
    using assms(1) unfolding coroutines_ok_def by blast
  show ?thesis
  proof (cases ev)
    case (ProcBecomes st)
    with assms(2) np have "s' = s\<lparr>cs_proc := st\<rparr>" by (simp add: co_step_def)
    then show ?thesis using ca ok an np by (intro coroutines_okI [of _ ca]) simp_all
  next
    case (DoSpawn fn)
    with assms(2) np have s': "s' = snd (SpawnCoroutine fn s)" by (simp add: co_step_def)
    show ?thesis
    proof (cases "cs_proc s = Some StateRunning")
      case True
      let ?c = "Suc (cs_counter s)"
      have e: "s' = (set_co ?c (new_coroutine fn) s)\<lparr>cs_counter := ?c, cs_table := insert ?c (cs_table s)\<rparr>"
        unfolding s' by (simp add: SpawnCoroutine_def True Let_def)
      have new: "cs_heap s ?c = None" using ok(1) [of ?c] by (cases "cs_heap s ?c") auto
      have h: "handed ?c (cs_answers s) = []" using an(1) [of ?c] new by (intro handed_none) blast
      have nr: "AResult ?c r \<notin> set (cs_answers s)" for r using an(2) [of ?c] new by blast
      have nh: "in_hand ?c ca = []" using ca(3) [of ?c] new by (cases ca) (auto simp: in_hand_def)
      have mono: "d \<noteq> ?c \<Longrightarrow> co_ok d ca (cs_answers s) (cs_table s) co \<Longrightarrow> co_ok d ca (cs_answers s) (insert ?c (cs_table s)) co" for d co
        by (auto simp: co_ok_def)
      have "ca \<noteq> Resuming ?c \<and> ca \<noteq> Reading ?c \<and> ca \<noteq> SawClosed ?c" using ca(3) [of ?c] new by auto
      then have "co_ok ?c ca (cs_answers s) (insert ?c (cs_table s)) (new_coroutine fn)"
        using h nr nh by (simp add: co_ok_def new_coroutine_def goroutine_ok_at_def on_channel_def)
      then show ?thesis unfolding e set_co_def using ca ok an np mono
        by (intro coroutines_okI [of _ ca]) (auto split: if_splits dest!: ok(1) intro: le_SucI)
    next
      case False
      then have "s' = s" unfolding s' by (simp add: SpawnCoroutine_def split: option.split)
      then show ?thesis using assms(1) by simp
    qed
  next
    case (Go c)
    then obtain co co' where co: "cs_heap s c = Some co" "goroutine_step co = Some co'" "s' = set_co c co' s"
      using assms(2) np by (auto simp: co_step_def split: option.splits)
    have "co_ok c ca (cs_answers s) (cs_table s) co'"
      by (rule goroutine_ok [OF ok(2) [OF co(1)] co(2)])
    then show ?thesis unfolding co(3) set_co_def using ca ok an np co(1)
      by (intro coroutines_okI [of _ ca]) (auto split: if_splits)
  next
    case (BeginResume i c)
    with assms(2) np ca(1) have i: "i = 0" "ca = Between" "s' = resume_begin 0 c s" by (auto simp: co_step_def split: if_splits)
    show ?thesis
    proof (cases "get_coroutine ''ResumeCoroutine'' c s")
      case (Inl err)
      then have e: "s' = give_answer 0 (AErr c err) s" by (simp add: i resume_begin_def)
      show ?thesis unfolding e give_answer_def set_caller_def
        using ca ok an np i(2) by (intro coroutines_okI [of _ Between]) (auto simp: in_hand_def intro!: co_ok_answer [of _ Between])
    next
      case (Inr co)
      then have co: "cs_heap s c = Some co" by (auto simp: get_coroutine_def split: if_splits option.splits)
      note okc = ok(2) [OF co]
      show ?thesis
      proof (cases "co_State co = coSuspended")
        case False
        then have e: "s' = give_answer 0 (AErr c (SyscallError ''ResumeCoroutine'' (cs_pid s) ErrInvalid)) s" by (simp add: i Inr resume_begin_def)
        show ?thesis unfolding e give_answer_def set_caller_def
          using ca ok an np i(2) by (intro coroutines_okI [of _ Between]) (auto simp: in_hand_def intro!: co_ok_answer [of _ Between])
      next
        case True
        then have f: "fst (co_fn co) \<noteq> []" using okc unfolding co_ok_def goroutine_ok_at_def by (auto split: co_pc.splits)
        obtain ca' where e: "s' = set_caller 0 ca' s" "ca' = Resuming c \<or> ca' = Reading c"
          using True by (cases "co_consumed co") (auto simp: i Inr resume_begin_def)
        have "co_ok d ca' (cs_answers s) (cs_table s) co'" if d: "cs_heap s d = Some co'" for d co'
        proof (rule co_ok_caller [OF ok(2) [OF d]])
          show "in_hand d ca' = in_hand d ca" using e(2) i(2) by (auto simp: in_hand_def)
          show "fst (co_fn co') \<noteq> []" if "ca' = Resuming d \<or> ca' = Reading d \<or> ca' = SawClosed d"
          proof -
            have "d = c" using that e(2) by auto
            then show ?thesis using d co f by simp
          qed
          show "co_pc co' = Ended" if "ca' = SawClosed d" using that e(2) by auto
          show "busy_with ca = Some d \<or> d \<in> cs_table s" if "busy_with ca' = Some d"
            using that e(2) Inr by (auto simp: get_coroutine_def split: if_splits)
        qed
        then have all: "\<And>d co'. cs_heap s d = Some co' \<Longrightarrow> co_ok d ca' (cs_answers s) (cs_table s) co'" .
        have n: "\<And>d v. ca' \<noteq> Yielding d v" "\<And>d. busy_with ca' = Some d \<Longrightarrow> cs_heap s d \<noteq> None" using e(2) co by auto
        show ?thesis
          by (rule coroutines_okI [of _ ca']) (use n all ok(1) an np in \<open>simp_all add: e(1) set_caller_def ca(1)\<close>)
      qed
    qed
  next
    case (BeginYield i c v)
    with assms(3) show ?thesis by blast
  next
    case (PassResume i)
    with assms(2) np ca(1) have i: "i = 0" "pass_resume 0 s = Some s'" by (auto simp: co_step_def split: if_splits)
    then obtain c co where c: "ca = Resuming c" "cs_heap s c = Some co" using ca(1)
      by (auto simp: pass_resume_def split: caller.splits option.splits)
    note okc = ok(2) [OF c(2)]
    from i(2) okc have e: "co_pc co = AtWait" "s' = set_caller 0 (Reading c) (set_co c (co\<lparr>co_pc := Resumed\<rparr>) s)"
      by (auto simp: pass_resume_def ca(1) c co_ok_def split: if_splits)
    have "co_ok c (Reading c) (cs_answers s) (cs_table s) (co\<lparr>co_pc := Resumed\<rparr>)"
      using okc e(1) by (auto simp: c(1) co_ok_def goroutine_ok_at_def on_channel_def in_hand_def)
    moreover have "co_ok d (Reading c) (cs_answers s) (cs_table s) co'" if "cs_heap s d = Some co'" "d \<noteq> c" for d co'
      by (rule co_ok_caller [OF ok(2) [OF that(1)]]) (use that c(1) in \<open>auto simp: in_hand_def\<close>)
    ultimately show ?thesis unfolding e(2)
      by (intro sys_ok_move [OF assms(1) c(2)]) (simp_all add: set_caller_def set_co_def ca(1) np)
  next
    case (PassValue i)
    with assms(2) np ca(1) have i: "i = 0" "pass_value 0 s = Some s'" by (auto simp: co_step_def split: if_splits)
    then obtain c co where c: "ca = Reading c" "cs_heap s c = Some co" using ca(1)
      by (auto simp: pass_value_def split: caller.splits option.splits)
    note okc = ok(2) [OF c(2)]
    from i(2) consider
        v where "co_pc co = AtSend v" "s' = set_caller 0 (GotValue c v) (set_co c (co\<lparr>co_pc := AtWait\<rparr>) s)"
      | "co_pc co = Ended" "s' = set_caller 0 (SawClosed c) s"
      by (auto simp: pass_value_def ca(1) c split: co_pc.splits)
    then show ?thesis
    proof cases
      case (1 v)
      have "co_ok c (GotValue c v) (cs_answers s) (cs_table s) (co\<lparr>co_pc := AtWait\<rparr>)"
        using okc 1(1) by (auto simp: c(1) co_ok_def goroutine_ok_at_def on_channel_def in_hand_def)
      moreover have "co_ok d (GotValue c v) (cs_answers s) (cs_table s) co'" if "cs_heap s d = Some co'" "d \<noteq> c" for d co'
        by (rule co_ok_caller [OF ok(2) [OF that(1)]]) (use that c(1) in \<open>auto simp: in_hand_def\<close>)
      ultimately show ?thesis unfolding 1(2)
        by (intro sys_ok_move [OF assms(1) c(2)]) (simp_all add: set_caller_def set_co_def ca(1) np)
    next
      case 2
      have f: "fst (co_fn co) \<noteq> []" using okc c(1) by (simp add: co_ok_def)
      have "co_ok d (SawClosed c) (cs_answers s) (cs_table s) co'" if "cs_heap s d = Some co'" for d co'
        by (rule co_ok_caller [OF ok(2) [OF that]]) (use that c 2(1) f in \<open>auto simp: in_hand_def\<close>)
      moreover have "cs_heap s = (cs_heap s)(c \<mapsto> co)" using c(2) by auto
      ultimately show ?thesis unfolding 2(2) using c(2)
        by (intro sys_ok_move [OF assms(1) c(2), where ca' = "SawClosed c" and conew = co]) (simp_all add: set_caller_def ca(1) np)
    qed
  next
    case (PassOutside i j)
    then show ?thesis using assms(2) ca np by (auto simp: co_step_def pass_outside_value_def split: caller.splits if_splits)
  next
    case (EndResume i)
    with assms(2) np ca(1) have i: "i = 0" "resume_end 0 s = Some s'" by (auto simp: co_step_def split: if_splits)
    then consider
        c v co where "ca = GotValue c v" "cs_heap s c = Some co" "s' = give_answer 0 (AVal c v) (set_co c (co\<lparr>co_consumed := True\<rparr>) s)"
      | c co where "ca = SawClosed c" "cs_heap s c = Some co" "s' = give_answer 0 (AResult c (co_result co)) (s\<lparr>cs_table := cs_table s - {c}\<rparr>)"
      using ca(1) by (auto simp: resume_end_def split: caller.splits option.splits)
    then show ?thesis
    proof cases
      case (1 c v co)
      have "co_ok c Between (cs_answers s @ [AVal c v]) (cs_table s) (co\<lparr>co_consumed := True\<rparr>)"
        using ok(2) [OF 1(2)] by (auto simp: 1(1) co_ok_def in_hand_def)
      moreover have "co_ok d Between (cs_answers s @ [AVal c v]) (cs_table s) co'" if "cs_heap s d = Some co'" "d \<noteq> c" for d co'
        using ok(2) [OF that(1)] that(2) 1(1) by (intro co_ok_answer [of d ca]) (auto simp: in_hand_def)
      ultimately show ?thesis unfolding 1(3)
        by (intro sys_ok_move [OF assms(1) 1(2)]) (auto simp: give_answer_def set_caller_def set_co_def ca(1) np)
    next
      case (2 c co)
      have "co_ok c Between (cs_answers s @ [AResult c (co_result co)]) (cs_table s - {c}) co"
        using ok(2) [OF 2(2)] by (auto simp: 2(1) co_ok_def goroutine_ok_at_def on_channel_def in_hand_def)
      moreover have "co_ok d Between (cs_answers s @ [AResult c (co_result co)]) (cs_table s - {c}) co'" if "cs_heap s d = Some co'" "d \<noteq> c" for d co'
      proof -
        have "co_ok d Between (cs_answers s @ [AResult c (co_result co)]) (cs_table s) co'"
          using ok(2) [OF that(1)] that(2) 2(1) by (intro co_ok_answer [of d ca]) (auto simp: in_hand_def)
        then show ?thesis using that(2) by (auto simp: co_ok_def)
      qed
      moreover have "cs_heap s = (cs_heap s)(c \<mapsto> co)" using 2(2) by auto
      ultimately show ?thesis unfolding 2(3)
        by (intro sys_ok_move [OF assms(1) 2(2), where ca' = Between and conew = co]) (auto simp: give_answer_def set_caller_def ca(1) np)
    qed
  next
    case DoClear
    with assms(4) show ?thesis by blast
  qed
qed

lemma co_run_sys_ok:
  "coroutines_ok s \<Longrightarrow> co_run evs s = Some s' \<Longrightarrow> DoClear \<notin> set evs \<Longrightarrow> (\<forall>i c v. BeginYield i c v \<notin> set evs) \<Longrightarrow> coroutines_ok s'"
proof (induction evs arbitrary: s)
  case (Cons ev evs)
  then obtain s1 where s1: "co_step ev s = Some s1" "co_run evs s1 = Some s'" by (auto simp: co_run_def split: option.splits)
  have "coroutines_ok s1" using Cons.prems by (intro co_step_sys_ok [OF Cons.prems(1) s1(1)]) auto
  with Cons.IH [OF _ s1(2)] Cons.prems(3,4) show ?case by simp
qed (simp add: co_run_def)

text \<open>
  C37: as long as the process is not reaped and one caller at a time resumes its coroutines, whatever the order of their steps and its
  calls: no value is lost, doubled or handed over out of order, the result comes after the last value and is the body's, and
  the daemon does not panic. But the result of a body that yields nothing is never handed over, and its coroutine stays in the table.
\<close>

theorem coroutine_hands_over_in_order:
  assumes "co_run evs (co_init pid 1) = Some s" and "DoClear \<notin> set evs" and "\<forall>i c v. BeginYield i c v \<notin> set evs"
    and "cs_heap s c = Some co"
  shows "\<not> cs_panicked s \<and> (\<exists>rest. fst (co_fn co) = handed c (cs_answers s) @ rest \<and>
      (\<forall>r. AResult c r \<in> set (cs_answers s) \<longrightarrow> rest = [] \<and> r = Some (snd (co_fn co)))) \<and>
    (fst (co_fn co) = [] \<longrightarrow> c \<in> cs_table s \<and> (\<forall>r. AResult c r \<notin> set (cs_answers s)))"
proof -
  have "coroutines_ok (co_init pid 1)" by (rule coroutines_okI [of _ Between]) (simp_all add: co_init_def)
  from co_run_sys_ok [OF this assms(1-3)] obtain ca where
    ok: "\<not> cs_panicked s" "co_ok c ca (cs_answers s) (cs_table s) co" using assms(4) unfolding coroutines_ok_def by blast
  have e: "fst (co_fn co) = handed c (cs_answers s) @ in_hand c ca @ on_channel co @ co_rest co"
    using ok(2) unfolding co_ok_def by simp
  moreover have "in_hand c ca @ on_channel co @ co_rest co = [] \<and> r = Some (snd (co_fn co))" if "AResult c r \<in> set (cs_answers s)" for r
  proof -
    have r: "co_pc co = Ended" "r = Some (snd (co_fn co))" "busy_with ca \<noteq> Some c" using ok(2) that unfolding co_ok_def by blast+
    then have "in_hand c ca = []" by (cases ca) (auto simp: in_hand_def)
    with ok(2) r(1,2) show ?thesis by (simp add: co_ok_def goroutine_ok_at_def on_channel_def)
  qed
  ultimately have "\<exists>rest. fst (co_fn co) = handed c (cs_answers s) @ rest \<and>
      (\<forall>r. AResult c r \<in> set (cs_answers s) \<longrightarrow> rest = [] \<and> r = Some (snd (co_fn co)))" by blast
  moreover have "fst (co_fn co) = [] \<longrightarrow> c \<in> cs_table s \<and> (\<forall>r. AResult c r \<notin> set (cs_answers s))"
    using ok(2) unfolding co_ok_def by blast
  ultimately show ?thesis using ok(1) by blast
qed

text \<open>A body that yields 7 and 8 and returns 9, resumed three times.\<close>

definition demo_events :: "nat co_event list" where
  "demo_events =
     [DoSpawn ([7, 8], 9), BeginResume 0 1, Go 1, Go 1, BeginResume 0 1, PassValue 0, EndResume 0,
      BeginResume 0 1, PassResume 0, Go 1, Go 1, PassValue 0, EndResume 0,
      BeginResume 0 1, PassResume 0, Go 1, Go 1, Go 1, PassValue 0, EndResume 0]"

theorem coroutine_hands_over_in_order_witness:
  "\<exists>s co. co_run demo_events (co_init 1 1) = Some s \<and> cs_heap s 1 = Some co \<and>
     (\<exists>rest. fst (co_fn co) = handed 1 (cs_answers s) @ rest) \<and> AResult 1 (Some 9) \<in> set (cs_answers s)"
proof -
  have r: "co_run demo_events (co_init 1 1) \<noteq> None \<and>
      cs_heap (the (co_run demo_events (co_init 1 1))) 1 \<noteq> None \<and>
      AResult 1 (Some 9) \<in> set (cs_answers (the (co_run demo_events (co_init 1 1))))" by code_simp
  then obtain s co where s: "co_run demo_events (co_init 1 1) = Some s" "cs_heap s 1 = Some co" "AResult 1 (Some 9) \<in> set (cs_answers s)"
    by auto
  have "DoClear \<notin> set demo_events" "\<forall>i c v. BeginYield i c v \<notin> set demo_events" by (simp_all add: demo_events_def)
  from coroutine_hands_over_in_order [OF s(1) this s(2)] s show ?thesis by blast
qed

text \<open>
  The reaper closes the resume channel of a coroutine, and a caller that has passed the checks of \<open>ResumeCoroutine\<close> by then sends
  on the closed channel.
\<close>

lemma reap_during_resume_panics:
  "map_option cs_panicked
     (co_run [DoSpawn ([7, 8], 9 :: nat), Go 1, Go 1, BeginResume 0 1, PassValue 0, EndResume 0, BeginResume 0 1, DoClear, PassResume 0]
        (co_init 1 1)) = Some True"
  by code_simp

text \<open>
  \<open>Yield\<close> from outside marks the coroutine suspended while its body runs on. The next resume waits for the body to take the signal,
  and the body waits for a reader of its own value.
\<close>

lemma outside_yield_deadlocks:
  "\<exists>s. co_run [DoSpawn ([7], 9 :: nat), Go 1, BeginYield 1 1 5, BeginResume 0 1, PassOutside 1 0, EndResume 0, BeginResume 0 1, Go 1]
      (co_init 1 2) = Some s \<and>
    cs_callers s ! 0 = Resuming 1 \<and> map_option co_pc (cs_heap s 1) = Some (AtSend 7) \<and>
    (\<forall>i < 2. co_step (PassResume i) s = None \<and> co_step (PassValue i) s = None \<and> co_step (EndResume i) s = None) \<and>
    co_step (Go 1) s = None"
  (is "\<exists>s. co_run ?evs _ = _ \<and> _")
proof -
  let ?s = "the (co_run ?evs (co_init 1 2))"
  have "co_run ?evs (co_init 1 2) \<noteq> None \<and> cs_callers ?s ! 0 = Resuming 1 \<and> map_option co_pc (cs_heap ?s 1) = Some (AtSend 7) \<and>
    (\<forall>i \<in> {0, 1}. co_step (PassResume i) ?s = None \<and> co_step (PassValue i) ?s = None \<and> co_step (EndResume i) ?s = None) \<and>
    co_step (Go 1) ?s = None"
    by (simp add: co_run_def co_step_def co_init_def SpawnCoroutine_def new_coroutine_def goroutine_step_def get_coroutine_def
        yield_begin_def resume_begin_def pass_value_def pass_resume_def pass_outside_value_def resume_end_def
        set_co_def set_caller_def give_answer_def Let_def)
  then show ?thesis by (intro exI [of _ ?s]) (auto simp: less_2_cases_iff)
qed

section \<open>Threads\<close>

text \<open>
  A thread's goroutine only waits for the end of its context, its own or the process's. \<open>th_started\<close> is the step before that wait.
\<close>

record Thread =
  th_Intent :: string
  th_State :: ProcessState
  th_Result :: string
  th_Err :: "go_error option"
  th_started :: bool
  th_cancelled :: bool
  th_Done :: bool

definition thread_Start :: "Thread \<Rightarrow> Thread" where
  "thread_Start t = t\<lparr>th_State := StateRunning\<rparr>"

definition thread_Finish :: "string \<Rightarrow> go_error option \<Rightarrow> Thread \<Rightarrow> Thread" where
  "thread_Finish result err t = t\<lparr>th_Result := result, th_Err := err, th_State := StateDead\<rparr>"

record thread_system =
  ts_pid :: PID
  ts_proc :: "ProcessState option"
  ts_ctxDone :: bool
  ts_counter :: nat
  ts_heap :: "TID \<Rightarrow> Thread option"
  ts_table :: "TID list"

definition SpawnThread :: "string \<Rightarrow> thread_system \<Rightarrow> (go_error + TID) \<times> thread_system" where
  "SpawnThread intent s =
     (case ts_proc s of
        None \<Rightarrow> (Inl (SyscallError ''SpawnThread'' (ts_pid s) ErrNotFound), s)
      | Some st \<Rightarrow>
          if st \<noteq> StateRunning then (Inl (SyscallError ''SpawnThread'' (ts_pid s) ErrInvalid), s)
          else let tid = Suc (ts_counter s);
                   t = \<lparr>th_Intent = intent, th_State = StateCreated, th_Result = [], th_Err = None, th_started = False,
                        th_cancelled = False, th_Done = False\<rparr>
               in (Inr tid, s\<lparr>ts_counter := tid, ts_heap := (ts_heap s)(tid \<mapsto> t), ts_table := ts_table s @ [tid]\<rparr>))"

text \<open>A step of the goroutine of a thread: its start, then, once its context is done, its end.\<close>

definition thread_step :: "bool \<Rightarrow> Thread \<Rightarrow> Thread option" where
  "thread_step ctxDone t =
     (if \<not> th_started t then Some ((thread_Start t)\<lparr>th_started := True\<rparr>)
      else if \<not> th_Done t \<and> (ctxDone \<or> th_cancelled t) then Some ((thread_Finish [] None t)\<lparr>th_Done := True\<rparr>)
      else None)"

text \<open>\<open>None\<close>: the caller waits.\<close>

definition JoinThread :: "TID \<Rightarrow> thread_system \<Rightarrow> (go_error option \<times> thread_system) option" where
  "JoinThread tid s =
     (if ts_proc s = None \<or> tid \<notin> set (ts_table s) then Some (Some (SyscallError ''JoinThread'' (ts_pid s) ErrNotFound), s)
      else case ts_heap s tid of
             None \<Rightarrow> Some (Some (SyscallError ''JoinThread'' (ts_pid s) ErrNotFound), s)
           | Some t \<Rightarrow> if th_Done t then Some (None, s\<lparr>ts_table := removeAll tid (ts_table s)\<rparr>) else None)"

text \<open>The reaper cancels a thread and waits for its end: the two steps its goroutine has left, if any.\<close>

definition run_down :: "Thread \<Rightarrow> Thread" where
  "run_down t =
     (let t0 = t\<lparr>th_cancelled := True\<rparr>;
          t1 = (case thread_step False t0 of None \<Rightarrow> t0 | Some t' \<Rightarrow> t')
      in case thread_step False t1 of None \<Rightarrow> t1 | Some t' \<Rightarrow> t')"

definition ClearThreads :: "thread_system \<Rightarrow> thread_system" where
  "ClearThreads s =
     s\<lparr>ts_heap := fold (\<lambda>tid h. h(tid := map_option run_down (h tid))) (ts_table s) (ts_heap s), ts_table := []\<rparr>"

lemma run_down_ends: "th_Done (run_down t)"
  by (simp add: run_down_def thread_step_def thread_Start_def thread_Finish_def Let_def)

text \<open>The wait of the reaper ends for every thread, and nobody can join a thread afterwards.\<close>

lemma clear_threads_ends_all:
  assumes "tid \<in> set (ts_table s)" and "ts_heap s tid = Some t"
  shows "\<exists>t'. ts_heap (ClearThreads s) tid = Some t' \<and> th_Done t' \<and>
    JoinThread tid (ClearThreads s) = Some (Some (SyscallError ''JoinThread'' (ts_pid s) ErrNotFound), ClearThreads s)"
proof -
  have "\<exists>t'. fold (\<lambda>tid h. h(tid := map_option run_down (h tid))) tids h tid = Some t' \<and> (tid \<in> set tids \<or> th_Done told \<longrightarrow> th_Done t')"
    if "h tid = Some told" for tids and h :: "TID \<Rightarrow> Thread option" and told
    using that
  proof (induction tids arbitrary: h told)
    case (Cons x tids)
    let ?h = "h(x := map_option run_down (h x))"
    have "?h tid = Some (if x = tid then run_down told else told)" using Cons.prems by (cases "x = tid") simp_all
    from Cons.IH [of ?h "if x = tid then run_down told else told", OF this] obtain t' where
      t': "fold (\<lambda>tid h. h(tid := map_option run_down (h tid))) tids ?h tid = Some t'"
        "tid \<in> set tids \<or> th_Done (if x = tid then run_down told else told) \<longrightarrow> th_Done t'" by blast
    have "tid \<in> set (x # tids) \<or> th_Done told \<longrightarrow> th_Done t'" using t'(2) run_down_ends [of told] by (cases "x = tid") auto
    then show ?case using t'(1) unfolding fold_simps by blast
  qed simp
  from this [where h = "ts_heap s" and told = t and tids = "ts_table s", OF assms(2)] assms(1) show ?thesis by (auto simp: ClearThreads_def JoinThread_def)
qed

end
