(* ===== verification/Heartbeat.thy ===== *)
theory Heartbeat
  imports Kernel KernelInv
begin

text \<open>
  The heartbeat monitor (\<open>kernel/heartbeat_monitor.go\<close>): a scan of the process table at every tick, the records of the processes
  whose heartbeat is overdue, and the status they are reported in. Instants and durations are nanoseconds; the loop around the ticker and
  its goroutine are the environment, which calls \<open>hm_scan\<close>.
\<close>

record stallRecord =
  sl_PID :: PID
  sl_UUID :: string
  sl_ConsecutiveStalls :: int
  sl_FirstStalledAt :: int
  sl_LastActionAt :: "int option"
  sl_LastHeartbeat :: "int option"

record HeartbeatMonitor =
  hm_checkInterval :: int
  hm_stalledProcs :: "(PID \<times> stallRecord) list"
  hm_totalStalledDetected :: int
  hm_running :: bool

definition NewHeartbeatMonitor :: "int \<Rightarrow> HeartbeatMonitor" where
  "NewHeartbeatMonitor interval =
     \<lparr>hm_checkInterval = interval, hm_stalledProcs = [], hm_totalStalledDetected = 0, hm_running = False\<rparr>"

definition hm_Start :: "HeartbeatMonitor \<Rightarrow> HeartbeatMonitor" where
  "hm_Start hm = (if hm_running hm then hm else hm\<lparr>hm_running := True\<rparr>)"

definition hm_Stop :: "HeartbeatMonitor \<Rightarrow> HeartbeatMonitor" where
  "hm_Stop hm = (if hm_running hm then hm\<lparr>hm_running := False\<rparr> else hm)"

definition stall_action :: "int \<Rightarrow> string" where
  "stall_action n = (if 4 \<le> n then ''suspend'' else if 3 \<le> n then ''cancel_step'' else ''warn'')"

definition cleanupIfTracked :: "PID \<Rightarrow> HeartbeatMonitor \<Rightarrow> HeartbeatMonitor" where
  "cleanupIfTracked pid hm = hm\<lparr>hm_stalledProcs := AList.delete pid (hm_stalledProcs hm)\<rparr>"

definition ms_of :: "int \<Rightarrow> int" where "ms_of d = go_quot d 1000000"

definition handleStalled :: "int \<Rightarrow> PID \<Rightarrow> Process \<Rightarrow> int \<Rightarrow> HeartbeatMonitor \<times> kernel \<Rightarrow> HeartbeatMonitor \<times> kernel" where
  "handleStalled now pid p gap s =
     (case s of (hm, k) \<Rightarrow>
        let (r, isNew) = (case map_of (hm_stalledProcs hm) pid of
                            Some r \<Rightarrow> (r, False)
                          | None \<Rightarrow>
                              (\<lparr>sl_PID = pid, sl_UUID = pr_UUID p, sl_ConsecutiveStalls = 0, sl_FirstStalledAt = now,
                                sl_LastActionAt = None, sl_LastHeartbeat = None\<rparr>, True));
            n = sl_ConsecutiveStalls r + 1;
            action = stall_action n;
            r1 = r\<lparr>sl_ConsecutiveStalls := n, sl_LastHeartbeat := pr_LastHeartbeat p,
                   sl_LastActionAt := (if action = ''warn'' then sl_LastActionAt r else Some now)\<rparr>
        in (hm\<lparr>hm_stalledProcs := AList.update pid r1 (hm_stalledProcs hm),
               hm_totalStalledDetected := hm_totalStalledDetected hm + (if isNew then 1 else 0)\<rparr>,
            emitEvent pid ''HeartbeatMonitor''
              [(''event'', AStr ''ProcessStalled''), (''pid'', ANat pid), (''uuid'', AStr (pr_UUID p)),
               (''heartbeat_gap_ms'', AInt (ms_of gap)), (''detected_ago_ms'', AInt (ms_of (now - sl_FirstStalledAt r))),
               (''step_timeout_ms'', AInt (ms_of (pr_StepTimeout p))), (''consecutive_stalls'', AInt n), (''action'', AStr action)] None k))"

definition checkRecovery :: "int \<Rightarrow> PID \<Rightarrow> Process \<Rightarrow> HeartbeatMonitor \<times> kernel \<Rightarrow> HeartbeatMonitor \<times> kernel" where
  "checkRecovery now pid p s =
     (case s of (hm, k) \<Rightarrow>
        case map_of (hm_stalledProcs hm) pid of
          None \<Rightarrow> (hm, k)
        | Some r \<Rightarrow>
            (cleanupIfTracked pid hm,
             emitEvent pid ''HeartbeatMonitor''
               [(''event'', AStr ''ProcessRecovered''), (''pid'', ANat pid), (''uuid'', AStr (pr_UUID p)),
                (''recovered_after_ms'', AInt (ms_of (now - sl_FirstStalledAt r))),
                (''consecutive_stalls'', AInt (sl_ConsecutiveStalls r))] None k))"

definition active_child :: "kernel \<Rightarrow> Process \<Rightarrow> bool" where
  "active_child k p \<longleftrightarrow>
     (\<exists>c \<in> set (pr_Children p).
        case GetProcess k c of
          None \<Rightarrow> False
        | Some q \<Rightarrow> pr_State q = StateRunning \<or> pr_State q = StateSuspended \<or> pr_State q = StateCreated)"

text \<open>One process of the scan. The pause is the channel \<open>resumeCh\<close>.\<close>

definition scan_process :: "int \<Rightarrow> PID \<Rightarrow> Process \<Rightarrow> HeartbeatMonitor \<times> kernel \<Rightarrow> HeartbeatMonitor \<times> kernel" where
  "scan_process now pid p s =
     (case s of (hm, k) \<Rightarrow>
        if pr_State p \<noteq> StateRunning then (cleanupIfTracked pid hm, k)
        else if pr_PrimaryDevice p = [] \<and> active_child k p then (cleanupIfTracked pid hm, k)
        else if pr_StepTimeout p = 0 then (hm, k)
        else if pr_paused p then (cleanupIfTracked pid hm, k)
        else case pr_LastHeartbeat p of
               None \<Rightarrow> (hm, k)
             | Some t \<Rightarrow>
                 if now - t \<le> pr_StepTimeout p then checkRecovery now pid p s
                 else handleStalled now pid p (now - t) s)"

definition hm_scan :: "int \<Rightarrow> HeartbeatMonitor \<times> kernel \<Rightarrow> HeartbeatMonitor \<times> kernel" where
  "hm_scan now s = sm_range (\<lambda>pid p s. (True, scan_process now pid p s)) (k_procTable (snd s)) s"

record StalledProcInfo =
  si_PID :: PID
  si_UUID :: string
  si_ConsecutiveStalls :: int
  si_StalledDuration :: int
  si_HeartbeatGap :: int
  si_LastAction :: string

text \<open>A heartbeat of the zero time cannot be in a record; the gap to it is left at zero.\<close>

definition stalled_info :: "int \<Rightarrow> PID \<times> stallRecord \<Rightarrow> StalledProcInfo" where
  "stalled_info now e =
     (case e of (_, r) \<Rightarrow>
        \<lparr>si_PID = sl_PID r, si_UUID = sl_UUID r, si_ConsecutiveStalls = sl_ConsecutiveStalls r,
         si_StalledDuration = now - sl_FirstStalledAt r,
         si_HeartbeatGap = (case sl_LastHeartbeat r of None \<Rightarrow> 0 | Some t \<Rightarrow> now - t),
         si_LastAction = stall_action (sl_ConsecutiveStalls r)\<rparr>)"

definition hm_Status :: "int \<Rightarrow> HeartbeatMonitor \<Rightarrow> bool \<times> int \<times> int \<times> StalledProcInfo list" where
  "hm_Status now hm =
     (hm_running hm, hm_checkInterval hm, hm_totalStalledDetected hm, map (stalled_info now) (hm_stalledProcs hm))"

section \<open>What a scan does\<close>

definition overdue :: "int \<Rightarrow> Process \<Rightarrow> bool" where
  "overdue now p \<longleftrightarrow> (case pr_LastHeartbeat p of None \<Rightarrow> False | Some t \<Rightarrow> pr_StepTimeout p < now - t)"

text \<open>The number of consecutive overdue scans of a process, zero when it is not tracked.\<close>

definition stalls :: "HeartbeatMonitor \<Rightarrow> PID \<Rightarrow> int" where
  "stalls hm pid = (case map_of (hm_stalledProcs hm) pid of None \<Rightarrow> 0 | Some r \<Rightarrow> sl_ConsecutiveStalls r)"

definition next_stalls :: "int \<Rightarrow> kernel \<Rightarrow> Process \<Rightarrow> int \<Rightarrow> int" where
  "next_stalls now k p n =
     (if pr_State p \<noteq> StateRunning \<or> pr_PrimaryDevice p = [] \<and> active_child k p then 0
      else if pr_StepTimeout p = 0 then n
      else if pr_paused p then 0
      else if pr_LastHeartbeat p = None then n
      else if overdue now p then n + 1 else 0)"

lemma emit_procs [simp]: "k_procTable (emitEvent pid opn args err k) = k_procTable k"
  by (simp add: emitEvent_def out_def)

lemma cleanup_stalls: "stalls (cleanupIfTracked pid hm) x = (if x = pid then 0 else stalls hm x)"
  by (simp add: cleanupIfTracked_def stalls_def delete_conv')

lemma handleStalled_facts:
  "k_procTable (snd (handleStalled now pid p gap (hm, k))) = k_procTable k"
  "stalls (fst (handleStalled now pid p gap (hm, k))) x = (if x = pid then stalls hm x + 1 else stalls hm x)"
  by (cases "map_of (hm_stalledProcs hm) pid"; simp add: handleStalled_def Let_def stalls_def)+

lemma checkRecovery_facts:
  "k_procTable (snd (checkRecovery now pid p (hm, k))) = k_procTable k"
  "stalls (fst (checkRecovery now pid p (hm, k))) x = (if x = pid then 0 else stalls hm x)"
proof -
  show "k_procTable (snd (checkRecovery now pid p (hm, k))) = k_procTable k"
    by (simp add: checkRecovery_def split: option.split)
  show "stalls (fst (checkRecovery now pid p (hm, k))) x = (if x = pid then 0 else stalls hm x)"
    by (cases "map_of (hm_stalledProcs hm) pid") (simp_all add: checkRecovery_def cleanup_stalls, simp add: stalls_def)
qed

lemma scan_process_cases:
  "scan_process now pid p (hm, k) =
     (if pr_State p \<noteq> StateRunning \<or> pr_PrimaryDevice p = [] \<and> active_child k p then (cleanupIfTracked pid hm, k)
      else if pr_StepTimeout p = 0 then (hm, k)
      else if pr_paused p then (cleanupIfTracked pid hm, k)
      else if pr_LastHeartbeat p = None then (hm, k)
      else if overdue now p then handleStalled now pid p (now - the (pr_LastHeartbeat p)) (hm, k)
      else checkRecovery now pid p (hm, k))"
proof (cases "pr_LastHeartbeat p")
  case None
  then show ?thesis by (auto simp: scan_process_def)
next
  case (Some t)
  have "now - t \<le> pr_StepTimeout p \<longleftrightarrow> \<not> overdue now p" by (auto simp: overdue_def Some)
  then show ?thesis by (auto simp: scan_process_def Some)
qed

lemma scan_process_facts:
  "k_procTable (snd (scan_process now pid p (hm, k))) = k_procTable k"
  "stalls (fst (scan_process now pid p (hm, k))) x = (if x = pid then next_stalls now k p (stalls hm x) else stalls hm x)"
proof -
  let ?s = "scan_process now pid p (hm, k)"
  have "k_procTable (snd ?s) = k_procTable k \<and>
    stalls (fst ?s) x = (if x = pid then next_stalls now k p (stalls hm x) else stalls hm x)"
  proof (cases "pr_State p \<noteq> StateRunning \<or> pr_PrimaryDevice p = [] \<and> active_child k p")
    case True
    then show ?thesis unfolding scan_process_cases next_stalls_def if_P [OF True] fst_conv snd_conv cleanup_stalls by simp
  next
    case False
    note sc = scan_process_cases [of now pid p hm k, unfolded if_not_P [OF False]]
    note ns = next_stalls_def [of now k p, unfolded if_not_P [OF False]]
    consider "pr_StepTimeout p = 0 \<or> \<not> pr_paused p \<and> pr_LastHeartbeat p = None" | "pr_StepTimeout p \<noteq> 0" "pr_paused p"
      | "pr_StepTimeout p \<noteq> 0" "\<not> pr_paused p" "pr_LastHeartbeat p \<noteq> None" "overdue now p"
      | "pr_StepTimeout p \<noteq> 0" "\<not> pr_paused p" "pr_LastHeartbeat p \<noteq> None" "\<not> overdue now p" by blast
    then show ?thesis
    proof cases
      case 1
      then have "?s = (hm, k)" "next_stalls now k p n = n" for n unfolding sc ns by auto
      then show ?thesis by simp
    next
      case 2
      then have "?s = (cleanupIfTracked pid hm, k)" "next_stalls now k p n = 0" for n unfolding sc ns by auto
      then show ?thesis by (simp add: cleanup_stalls)
    next
      case 3
      then have "?s = handleStalled now pid p (now - the (pr_LastHeartbeat p)) (hm, k)" "next_stalls now k p n = n + 1" for n
        unfolding sc ns by auto
      then show ?thesis by (simp add: handleStalled_facts)
    next
      case 4
      then have "?s = checkRecovery now pid p (hm, k)" "next_stalls now k p n = 0" for n unfolding sc ns by auto
      then show ?thesis by (simp add: checkRecovery_facts)
    qed
  qed
  then show "k_procTable (snd ?s) = k_procTable k"
    "stalls (fst ?s) x = (if x = pid then next_stalls now k p (stalls hm x) else stalls hm x)" by blast+
qed

lemma next_stalls_cong: "k_procTable k' = k_procTable k \<Longrightarrow> next_stalls now k' p n = next_stalls now k p n"
  by (simp add: next_stalls_def active_child_def GetProcess_def)

lemma scan_range:
  "unique_keys m \<Longrightarrow>
   k_procTable (snd (sm_range (\<lambda>pid p s. (True, scan_process now pid p s)) m s)) = k_procTable (snd s) \<and>
   stalls (fst (sm_range (\<lambda>pid p s. (True, scan_process now pid p s)) m s)) x =
     (case map_of m x of None \<Rightarrow> stalls (fst s) x | Some p \<Rightarrow> next_stalls now (snd s) p (stalls (fst s) x))"
proof (induction m arbitrary: s)
  case (Cons e m)
  obtain pid p where e: "e = (pid, p)" by (cases e)
  obtain hm k where s: "s = (hm, k)" by (cases s)
  let ?s = "scan_process now pid p (hm, k)"
  have t: "k_procTable (snd ?s) = k_procTable k" by (rule scan_process_facts)
  have "map_of m pid = None" using Cons.prems by (simp add: e map_of_eq_None_iff)
  have u: "unique_keys m" using Cons.prems by simp
  have r: "sm_range (\<lambda>pid p s. (True, scan_process now pid p s)) (e # m) s = sm_range (\<lambda>pid p s. (True, scan_process now pid p s)) m ?s"
    by (simp add: e s)
  have c: "next_stalls now (snd ?s) q n = next_stalls now k q n" for q n by (rule next_stalls_cong [OF t])
  have i: "k_procTable (snd (sm_range (\<lambda>pid p s. (True, scan_process now pid p s)) m ?s)) = k_procTable k"
    "stalls (fst (sm_range (\<lambda>pid p s. (True, scan_process now pid p s)) m ?s)) x =
      (case map_of m x of None \<Rightarrow> stalls (fst ?s) x | Some q \<Rightarrow> next_stalls now k q (stalls (fst ?s) x))"
    using Cons.IH [OF u, of ?s] unfolding t c by blast+
  show ?case
  proof (cases "x = pid")
    case True
    with i \<open>map_of m pid = None\<close> show ?thesis unfolding r by (simp add: e s scan_process_facts(2))
  next
    case False
    then have "stalls (fst ?s) x = stalls hm x" by (simp add: scan_process_facts(2))
    with i False show ?thesis unfolding r by (cases "map_of m x") (simp_all add: e s)
  qed
qed simp

text \<open>
  C38: a scan changes no process, whatever it finds: the recovery strategy the monitor describes only logs. The counter of
  a process counts the scans in a row that found it overdue, and is cleared when it is found healthy, paused,
  waiting for a child or not running. A process that has left the table is not visited: what was counted for it stays, and the
  status lists it as stalled from then on.
\<close>

theorem heartbeat_scan_counts_and_never_acts:
  assumes "unique_keys (k_procTable k)" and "hm_scan now (hm, k) = (hm', k')"
  shows "k_procTable k' = k_procTable k \<and>
    (\<forall>pid. stalls hm' pid =
       (case GetProcess k pid of None \<Rightarrow> stalls hm pid | Some p \<Rightarrow> next_stalls now k p (stalls hm pid)))"
  using scan_range [OF assms(1), of now "(hm, k)"] assms(2)
  unfolding hm_scan_def GetProcess_def sm_load_def fst_conv snd_conv by simp

text \<open>A process found overdue, then reaped: the next scan leaves its count at one.\<close>

theorem heartbeat_scan_counts_and_never_acts_witness:
  "stalls (fst (hm_scan 200 (fst (hm_scan 100 (NewHeartbeatMonitor 10,
     AddProcess ((NewProcess 5 [] 1 [] [] 0)\<lparr>pr_State := StateRunning, pr_PrimaryDevice := ''/dev/llm'', pr_StepTimeout := 20, pr_LastHeartbeat := Some 1\<rparr>)
       (NewKernel {}))), NewKernel {}))) 5 = 1"
proof -
  let ?p = "(NewProcess 5 [] 1 [] [] 0)\<lparr>pr_State := StateRunning, pr_PrimaryDevice := ''/dev/llm'', pr_StepTimeout := 20, pr_LastHeartbeat := Some 1\<rparr>"
  let ?k = "AddProcess ?p (NewKernel {})"
  obtain hm1 k1 where s1: "hm_scan 100 (NewHeartbeatMonitor 10, ?k) = (hm1, k1)" by fastforce
  obtain hm2 k2 where s2: "hm_scan 200 (hm1, NewKernel {}) = (hm2, k2)" by fastforce
  have u: "unique_keys (k_procTable ?k)" "unique_keys (k_procTable (NewKernel {}))"
    by (simp_all add: AddProcess_def sm_store_def NewKernel_def NewSyncMap_def)
  have g: "GetProcess ?k 5 = Some ?p" "GetProcess (NewKernel {}) 5 = None"
    by (simp_all add: GetProcess_def AddProcess_def sm_load_def sm_store_def NewKernel_def NewSyncMap_def NewProcess_def)
  have "stalls (NewHeartbeatMonitor 10) 5 = 0" by (simp add: stalls_def NewHeartbeatMonitor_def)
  moreover have "next_stalls 100 ?k ?p 0 = 1" by (simp add: next_stalls_def overdue_def NewProcess_def)
  ultimately have "stalls hm1 5 = 1"
    using heartbeat_scan_counts_and_never_acts [OF u(1) s1, THEN conjunct2, rule_format, of 5] unfolding g(1) by simp
  then have "stalls hm2 5 = 1"
    using heartbeat_scan_counts_and_never_acts [OF u(2) s2, THEN conjunct2, rule_format, of 5] unfolding g(2) by simp
  then show ?thesis unfolding s1 fst_conv s2 .
qed

end
