(* ===== verification/Cron.thy ===== *)
theory Cron
  imports RateLimit
begin

text \<open>
  Cron schedules (\<open>drivers/cron/scheduler.go\<close>): parsing an expression, matching an instant, and the search for the next
  instant that matches. What the Go library reads off an instant in the daemon's time zone, the minute, hour, day, month and
  weekday, is the function \<open>clock\<close>; \<open>utc_fields\<close> is that function for UTC. Instants and durations are nanoseconds.
\<close>

section \<open>Expressions\<close>

record CronExpr =
  ce_minutes :: "int list"
  ce_hours :: "int list"
  ce_daysOfMonth :: "int list"
  ce_months :: "int list"
  ce_daysOfWeek :: "int list"
  ce_every :: int

text \<open>The loop of \<open>makeRange\<close>. The step is positive; a sum that leaves 64 bits, for a step near \<open>2^63\<close>, is not modelled.\<close>

function makeRange :: "int \<Rightarrow> int \<Rightarrow> int \<Rightarrow> int list" where
  "makeRange lo hi step = (if hi < lo \<or> step \<le> 0 then [] else lo # makeRange (lo + step) hi step)"
  by pat_completeness auto
termination
  by (relation "measure (\<lambda>(lo, hi, step). nat (hi - lo + 1))") auto

declare makeRange.simps [simp del]

text \<open>\<open>strings.Split\<close> at a character, and \<open>strings.Fields\<close>.\<close>

fun split_char :: "char \<Rightarrow> string \<Rightarrow> string list" where
  "split_char sep [] = [[]]"
| "split_char sep (c # s) =
     (if c = sep then [] # split_char sep s
      else case split_char sep s of [] \<Rightarrow> [[c]] | x # xs \<Rightarrow> (c # x) # xs)"

fun field_chunks :: "(nat \<times> nat list) list \<Rightarrow> nat list list" where
  "field_chunks [] = [[]]"
| "field_chunks ((r, bs) # cs) =
     (if unicode_space r then [] # field_chunks cs
      else case field_chunks cs of [] \<Rightarrow> [bs] | x # xs \<Rightarrow> (bs @ x) # xs)"

definition strings_Fields :: "string \<Rightarrow> string list" where
  "strings_Fields s = map (map char_of) (filter (\<lambda>bs. bs \<noteq> []) (field_chunks (rune_chunks (map of_char s))))"

definition CutPrefix :: "string \<Rightarrow> string \<Rightarrow> string option" where
  "CutPrefix s p = (if take (length p) s = p then Some (drop (length p) s) else None)"

text \<open>\<open>strconv.Atoi\<close> is \<open>ParseInt\<close> to base ten.\<close>

definition parse_value :: "string \<Rightarrow> int \<Rightarrow> int \<Rightarrow> int list option" where
  "parse_value s lo hi =
     (case ParseInt s of None \<Rightarrow> None | Some v \<Rightarrow> if v < lo \<or> hi < v then None else Some [v])"

definition cron_parseRange :: "string \<Rightarrow> int \<Rightarrow> int \<Rightarrow> int list option" where
  "cron_parseRange field lo hi =
     (let a = takeWhile (\<lambda>c. c \<noteq> CHR ''-'') field; b = drop 1 (dropWhile (\<lambda>c. c \<noteq> CHR ''-'') field)
      in if CHR ''-'' \<notin> set field then None
         else case ParseInt (TrimSpace a) of
                None \<Rightarrow> None
              | Some v \<Rightarrow>
                  (case ParseInt (TrimSpace b) of
                     None \<Rightarrow> None
                   | Some w \<Rightarrow> if v < lo \<or> hi < w \<or> w < v then None else Some (makeRange v w 1)))"

definition cron_parseSingle :: "string \<Rightarrow> int \<Rightarrow> int \<Rightarrow> int list option" where
  "cron_parseSingle part lo hi =
     (let p = TrimSpace part
      in if CHR ''-'' \<in> set p then cron_parseRange p lo hi else parse_value p lo hi)"

fun parse_parts :: "string list \<Rightarrow> int \<Rightarrow> int \<Rightarrow> int list option" where
  "parse_parts [] lo hi = Some []"
| "parse_parts (part # parts) lo hi =
     (case cron_parseSingle part lo hi of
        None \<Rightarrow> None
      | Some v \<Rightarrow> (case parse_parts parts lo hi of None \<Rightarrow> None | Some vs \<Rightarrow> Some (v @ vs)))"

definition parseField :: "string \<Rightarrow> int \<Rightarrow> int \<Rightarrow> int list option" where
  "parseField field lo hi =
     (if field = ''*'' then Some (makeRange lo hi 1)
      else case CutPrefix field ''*/'' of
             Some stepStr \<Rightarrow>
               (case ParseInt stepStr of
                  None \<Rightarrow> None
                | Some step \<Rightarrow> if step \<le> 0 then None else Some (makeRange lo hi step))
           | None \<Rightarrow>
               if CHR '','' \<in> set field then parse_parts (split_char CHR '','' field) lo hi
               else if CHR ''-'' \<in> set field then cron_parseRange field lo hi
               else parse_value field lo hi)"

definition parse_five :: "string list \<Rightarrow> CronExpr option" where
  "parse_five fs =
     (case fs of
        [f1, f2, f3, f4, f5] \<Rightarrow>
          (case (parseField f1 0 59, parseField f2 0 23, parseField f3 1 31, parseField f4 1 12, parseField f5 0 6) of
             (Some mi, Some ho, Some da, Some mo, Some we) \<Rightarrow>
               Some \<lparr>ce_minutes = mi, ce_hours = ho, ce_daysOfMonth = da, ce_months = mo, ce_daysOfWeek = we, ce_every = 0\<rparr>
           | _ \<Rightarrow> None)
      | _ \<Rightarrow> None)"

text \<open>The macros stand for expressions of five fields. \<open>ParseDuration\<close> is the library's \<open>time.ParseDuration\<close>.\<close>

definition parseMacro :: "(string \<Rightarrow> int option) \<Rightarrow> string \<Rightarrow> CronExpr option" where
  "parseMacro ParseDuration expr =
     (if expr = ''@hourly'' then parse_five (strings_Fields ''0 * * * *'')
      else if expr = ''@daily'' then parse_five (strings_Fields ''0 0 * * *'')
      else if expr = ''@weekly'' then parse_five (strings_Fields ''0 0 * * 0'')
      else if expr = ''@monthly'' then parse_five (strings_Fields ''0 0 1 * *'')
      else case CutPrefix expr ''@every '' of
             None \<Rightarrow> None
           | Some durStr \<Rightarrow>
               (case ParseDuration durStr of
                  None \<Rightarrow> None
                | Some dur \<Rightarrow>
                    if dur < minute then None
                    else Some \<lparr>ce_minutes = [], ce_hours = [], ce_daysOfMonth = [], ce_months = [], ce_daysOfWeek = [], ce_every = dur\<rparr>))"

definition ParseCron :: "(string \<Rightarrow> int option) \<Rightarrow> string \<Rightarrow> CronExpr option" where
  "ParseCron ParseDuration expr0 =
     (let expr = TrimSpace expr0
      in if expr = [] then None
         else if take 1 expr = ''@'' then parseMacro ParseDuration expr
         else parse_five (strings_Fields expr))"

section \<open>Matching\<close>

record time_fields =
  tf_minute :: int
  tf_hour :: int
  tf_day :: int
  tf_month :: int
  tf_weekday :: int

definition matches :: "(int \<Rightarrow> time_fields) \<Rightarrow> CronExpr \<Rightarrow> int \<Rightarrow> bool" where
  "matches clock c t \<longleftrightarrow>
     tf_minute (clock t) \<in> set (ce_minutes c) \<and> tf_hour (clock t) \<in> set (ce_hours c) \<and>
     tf_day (clock t) \<in> set (ce_daysOfMonth c) \<and> tf_month (clock t) \<in> set (ce_months c) \<and>
     tf_weekday (clock t) \<in> set (ce_daysOfWeek c)"

definition searchDays :: int where "searchDays = 366"

text \<open>The search goes minute by minute; \<open>None\<close> is the zero time.\<close>

function search_from :: "(int \<Rightarrow> time_fields) \<Rightarrow> CronExpr \<Rightarrow> int \<Rightarrow> int \<Rightarrow> int option" where
  "search_from clock c limit t =
     (if limit \<le> t then None else if matches clock c t then Some t else search_from clock c limit (t + minute))"
  by pat_completeness auto
termination
  by (relation "measure (\<lambda>(clock, c, limit, t). nat (limit - t))") (auto simp: minute_def second_def)

declare search_from.simps [simp del]

text \<open>\<open>Truncate\<close> counts whole minutes from the zero time, which is a whole number of minutes before 1970.\<close>

definition next_minute :: "int \<Rightarrow> int" where
  "next_minute t = t - t mod minute + minute"

definition NextAfter :: "(int \<Rightarrow> time_fields) \<Rightarrow> CronExpr \<Rightarrow> int \<Rightarrow> int option" where
  "NextAfter clock c t =
     (if 0 < ce_every c then Some (t + ce_every c)
      else search_from clock c (next_minute t + searchDays * (86400 * second)) (next_minute t))"

section \<open>The fields of an instant in UTC\<close>

fun month_walk :: "int \<Rightarrow> int list \<Rightarrow> int \<Rightarrow> int \<times> int" where
  "month_walk m [] n = (m, n + 1)"
| "month_walk m (d # ds) n = (if n < d \<or> ds = [] then (m, n + 1) else month_walk (m + 1) ds (n - d))"

definition utc_fields :: "int \<Rightarrow> time_fields" where
  "utc_fields t =
     (let mins = t div minute; day = t div (86400 * second);
          y = year_walk 1970 day;
          (mo, d) = month_walk 1 (month_days (is_leap y)) (day - days_before_year y)
      in \<lparr>tf_minute = mins mod 60, tf_hour = mins div 60 mod 24, tf_day = d, tf_month = mo, tf_weekday = (day + 4) mod 7\<rparr>)"

section \<open>Plain text\<close>

text \<open>On ASCII text the runes are the characters.\<close>

lemma rune_chunks_ascii:
  "list_all (\<lambda>c. of_char c < (128 :: nat)) s \<Longrightarrow> rune_chunks (map of_char s) = map (\<lambda>c. (of_char c, [of_char c])) s"
  by (induction s) (simp_all add: rune_chunks.simps)

definition is_space :: "char \<Rightarrow> bool" where
  "is_space c \<longleftrightarrow> unicode_space (of_char c)"

lemma TrimSpace_ascii:
  assumes "list_all (\<lambda>c. of_char c < (128 :: nat)) s"
  shows "TrimSpace s = rev (dropWhile is_space (rev (dropWhile is_space s)))"
proof -
  have d: "dropWhile (\<lambda>c. unicode_space (fst c)) (map (\<lambda>c. (of_char c, [of_char c :: nat])) t) =
      map (\<lambda>c. (of_char c, [of_char c])) (dropWhile is_space t)" for t
    by (induction t) (simp_all add: is_space_def)
  have m: "map char_of (concat (map (\<lambda>c. [of_char c :: nat]) t)) = t" for t by (induction t) simp_all
  show ?thesis unfolding TrimSpace_def rune_chunks_ascii [OF assms] Let_def d rev_map map_map comp_def snd_conv
    by (rule m)
qed

section \<open>The search finds the next match\<close>

lemma search_from_spec:
  assumes "minute dvd t"
  shows "case search_from clock c limit t of
      Some n \<Rightarrow> t \<le> n \<and> n < limit \<and> minute dvd n \<and> matches clock c n \<and>
        (\<forall>u. t \<le> u \<and> u < n \<and> minute dvd u \<longrightarrow> \<not> matches clock c u)
    | None \<Rightarrow> \<forall>u. t \<le> u \<and> u < limit \<and> minute dvd u \<longrightarrow> \<not> matches clock c u"
  using assms
proof (induction clock c limit t rule: search_from.induct)
  case (1 clock c limit t)
  have m: "0 < minute" by (simp add: minute_def second_def)
  have gap: "u = t \<or> t + minute \<le> u" if "t \<le> u" "minute dvd u" for u
  proof -
    have "minute dvd (u - t)" using that(2) 1(2) by simp
    then obtain q where q: "u - t = minute * q" by (auto elim: dvdE)
    have "q = 0 \<or> 1 \<le> q" using that(1) q m by (metis diff_ge_0_iff_ge int_one_le_iff_zero_less linorder_neqE_linordered_idom mult_pos_neg not_le)
    then show ?thesis
    proof
      assume "1 \<le> q"
      then have "minute \<le> minute * q" using m mult_left_mono [of 1 q minute] by simp
      then show ?thesis using q by simp
    qed (use q in simp)
  qed
  show ?case
  proof (cases "limit \<le> t \<or> matches clock c t")
    case True
    then show ?thesis using 1(2) by (auto simp: search_from.simps [of clock c limit t])
  next
    case False
    then have e: "search_from clock c limit t = search_from clock c limit (t + minute)"
      by (simp add: search_from.simps [of clock c limit t])
    have "minute dvd (t + minute)" using 1(2) by simp
    with 1(1) False have ih: "case search_from clock c limit (t + minute) of
        Some n \<Rightarrow> t + minute \<le> n \<and> n < limit \<and> minute dvd n \<and> matches clock c n \<and>
          (\<forall>u. t + minute \<le> u \<and> u < n \<and> minute dvd u \<longrightarrow> \<not> matches clock c u)
      | None \<Rightarrow> \<forall>u. t + minute \<le> u \<and> u < limit \<and> minute dvd u \<longrightarrow> \<not> matches clock c u" by simp
    show ?thesis
    proof (cases "search_from clock c limit (t + minute)")
      case None
      have "\<not> matches clock c u" if u: "t \<le> u" "u < limit" "minute dvd u" for u
        using gap [OF u(1,3)] ih u False unfolding None by auto
      then show ?thesis unfolding e None by simp
    next
      case (Some n)
      have "\<not> matches clock c u" if u: "t \<le> u" "u < n" "minute dvd u" for u
        using gap [OF u(1,3)] ih u False unfolding Some by auto
      then show ?thesis using ih m unfolding e Some by simp
    qed
  qed
qed

text \<open>
  For an expression of five fields and any reading of the clock, the search returns the first whole minute after the given
  instant that matches all five fields, if there is one among the 366 days that follow, and the zero time if there is none.
\<close>

theorem next_after_is_first_match:
  assumes "ce_every c = 0"
  shows "case NextAfter clock c t of
      Some n \<Rightarrow> t < n \<and> minute dvd n \<and> matches clock c n \<and>
        (\<forall>u. t < u \<and> u < n \<and> minute dvd u \<longrightarrow> \<not> matches clock c u)
    | None \<Rightarrow> \<forall>u. t < u \<and> u < next_minute t + searchDays * (86400 * second) \<and> minute dvd u \<longrightarrow> \<not> matches clock c u"
proof -
  have m: "0 < minute" by (simp add: minute_def second_def)
  have z: "minute dvd next_minute t" by (simp add: next_minute_def minus_mod_eq_mult_div)
  have gt: "t < next_minute t" using pos_mod_bound [OF m, of t] by (simp add: next_minute_def)
  have first: "next_minute t \<le> u" if "t < u" "minute dvd u" for u
  proof -
    from that(2) obtain q where q: "u = minute * q" by (auto elim: dvdE)
    have "t = minute * (t div minute) + t mod minute" by simp
    then have "minute * (t div minute) < minute * q" using that(1) q pos_mod_sign [OF m, of t] by linarith
    then have "t div minute + 1 \<le> q" using m by simp
    then have "minute * (t div minute + 1) \<le> minute * q" using m by simp
    then show ?thesis unfolding q next_minute_def by (simp add: distrib_left minus_mod_eq_mult_div)
  qed
  let ?l = "next_minute t + searchDays * (86400 * second)"
  have n: "NextAfter clock c t = search_from clock c ?l (next_minute t)" using assms by (simp add: NextAfter_def)
  from search_from_spec [OF z, where clock = clock and c = c and limit = ?l] show ?thesis
  proof (cases "search_from clock c ?l (next_minute t)")
    case None
    with search_from_spec [OF z, where clock = clock and c = c and limit = ?l] first show ?thesis unfolding n None by auto
  next
    case (Some r)
    with search_from_spec [OF z, where clock = clock and c = c and limit = ?l] first gt show ?thesis unfolding n Some by auto
  qed
qed

text \<open>Every quarter of an hour, a second after 0:44 on 1 January 1970.\<close>

theorem next_after_is_first_match_witness:
  "\<exists>c n. ce_minutes c = [0, 15, 30, 45] \<and> NextAfter utc_fields c (44 * minute + second) = Some n \<and> minute dvd n \<and> matches utc_fields c n"
proof -
  define c where "c = \<lparr>ce_minutes = [0, 15, 30, 45], ce_hours = [0], ce_daysOfMonth = [1], ce_months = [1], ce_daysOfWeek = [4], ce_every = 0\<rparr>"
  have e: "ce_every c = 0" by (simp add: c_def)
  have "NextAfter utc_fields c (44 * minute + second) = Some (45 * minute)" unfolding c_def by code_simp
  with next_after_is_first_match [OF e, where clock = utc_fields and t = "44 * minute + second"] show ?thesis by (auto simp: c_def)
qed

section \<open>A schedule on a leap day\<close>

lemma no_leap_day_walk: "month_walk 1 (month_days False) n \<noteq> (2, 29)"
  by (simp add: month_days_def)

lemma days_before_year_mono: "y \<le> z \<Longrightarrow> days_before_year y \<le> days_before_year z"
proof (induction "nat (z - y)" arbitrary: z)
  case (Suc n)
  then have "days_before_year y \<le> days_before_year (z - 1)" by simp
  also have "\<dots> \<le> days_before_year z" using next_year [of "z - 1"] by (simp add: days_in_year_def split: if_splits)
  finally show ?case .
qed simp

text \<open>
  Between 1 March 2025 and 2 March 2026 there is no 29 February, so the search gives up, although the next match is in 2028: a job
  with this schedule is accepted and never runs.
\<close>

lemma leap_day_schedule_is_given_up:
  assumes "ce_every c = 0" and "set (ce_daysOfMonth c) = {29}" and "set (ce_months c) = {2}"
    and "time_Date 2025 3 1 0 0 0 \<le> t" and "t < time_Date 2025 3 1 0 0 0 + 86400 * second"
  shows "NextAfter utc_fields c t = None"
proof (rule ccontr)
  assume "NextAfter utc_fields c t \<noteq> None"
  then obtain n where n: "NextAfter utc_fields c t = Some n" by blast
  have D: "0 < 86400 * second" by (simp add: second_def)
  have m: "0 < minute" by (simp add: minute_def second_def)
  have dates: "days_before_year 2025 = 20089" "days_before_year 2026 = 20454" "days_before_year 2027 = 20819"
    by (simp_all add: days_before_year_def leaps_def)
  have mar: "time_Date 2025 3 1 0 0 0 = 20148 * (86400 * second)"
    by (simp add: time_Date_def date_day_def dates month_days_def is_leap_def eval_nat_numeral)
  have t: "20148 * (86400 * second) \<le> t" "t < 20149 * (86400 * second)" using assms(4,5) unfolding mar by simp_all
  have f: "t < n" "matches utc_fields c n" using next_after_is_first_match [OF assms(1), where clock = utc_fields and t = t] by (simp_all add: n)
  have "n < next_minute t + searchDays * (86400 * second)"
  proof -
    have z: "minute dvd next_minute t" by (simp add: next_minute_def minus_mod_eq_mult_div)
    from search_from_spec [OF z, where clock = utc_fields and c = c and limit = "next_minute t + searchDays * (86400 * second)"] n assms(1)
    show ?thesis by (simp add: NextAfter_def)
  qed
  also have "\<dots> \<le> t + minute + searchDays * (86400 * second)" using pos_mod_sign [OF m, of t] by (simp add: next_minute_def)
  also have "\<dots> < 20516 * (86400 * second)" using t(2) by (simp add: searchDays_def minute_def second_def)
  finally have hi: "n < 20516 * (86400 * second)" .
  define q where "q = n div (86400 * second)"
  have "n = q * (86400 * second) + n mod (86400 * second)" unfolding q_def by (rule div_mult_mod_eq [symmetric])
  with pos_mod_bound [OF D, of n] pos_mod_sign [OF D, of n] t(1) f(1) hi
  have "20148 \<le> q" "q < 20516" unfolding second_def by linarith+
  let ?y = "year_walk 1970 q"
  have "days_before_year 1970 = 0" by (simp add: days_before_year_def)
  with year_walk_ok [of q 1970] \<open>20148 \<le> q\<close> have y: "q < days_before_year (?y + 1)" "days_before_year ?y \<le> q" by simp_all
  have "2025 \<le> ?y"
  proof (rule ccontr)
    assume "\<not> 2025 \<le> ?y"
    then have "days_before_year (?y + 1) \<le> days_before_year 2025" by (intro days_before_year_mono) simp
    with y(1) \<open>20148 \<le> q\<close> show False by (simp add: dates)
  qed
  moreover have "?y \<le> 2026"
  proof (rule ccontr)
    assume "\<not> ?y \<le> 2026"
    then have "days_before_year 2027 \<le> days_before_year ?y" by (intro days_before_year_mono) simp
    with y(2) \<open>q < 20516\<close> show False by (simp add: dates)
  qed
  ultimately have "?y = 2025 \<or> ?y = 2026" by linarith
  then have "is_leap ?y = False" by (auto simp: is_leap_def)
  with no_leap_day_walk have "\<not> (tf_month (utc_fields n) = 2 \<and> tf_day (utc_fields n) = 29)"
    by (auto simp: utc_fields_def q_def [symmetric] Let_def split: prod.splits)
  with f(2) assms(2,3) show False by (simp add: matches_def)
qed

end
