(* ===== verification/CronJobs.thy ===== *)
theory CronJobs
  imports Cron
begin

text \<open>
  The jobs of the cron device (\<open>drivers/cron/store.go\<close>, \<open>drivers/cron/driver.go\<close>): the store with its file of durable jobs, the
  timers, and what happens when one fires. A fire is two steps, up to the return of the spawn and after it, because other calls run
  while the agent is spawned. JSON is the library's: the content of the file is the list of jobs. The calls of one
  operation to the clock return the same instant.
\<close>

section \<open>The store\<close>

text \<open>The zero time is \<open>None\<close>.\<close>

record CronJob =
  cj_ID :: string
  cj_Schedule :: string
  cj_Prompt :: string
  cj_Agent :: string
  cj_Durable :: bool
  cj_CreatedAt :: int
  cj_NextRun :: "int option"
  cj_LastRun :: "int option"
  cj_RunCount :: int

record JobStore =
  js_jobs :: "(string \<times> CronJob) list"
  js_counter :: int
  js_dataDir :: string
  js_file :: "CronJob list option"

definition MaxActiveJobs :: nat where "MaxActiveJobs = 50"
definition NonDurableExpiry :: int where "NonDurableExpiry = 7 * 24 * 3600 * second"

definition NewJobStore :: "string \<Rightarrow> CronJob list option \<Rightarrow> JobStore" where
  "NewJobStore dir content = \<lparr>js_jobs = [], js_counter = 0, js_dataDir = dir, js_file = content\<rparr>"

definition js_Count :: "JobStore \<Rightarrow> nat" where
  "js_Count s = sm_range (\<lambda>_ _ n. (True, Suc n)) (js_jobs s) 0"

text \<open>\<open>diskOK\<close> says whether the directory and the file can be written.\<close>

definition persist :: "bool \<Rightarrow> JobStore \<Rightarrow> go_error option \<times> JobStore" where
  "persist diskOK s =
     (if js_dataDir s = [] then (None, s)
      else if \<not> diskOK then (Some (PlainError ''persist''), s)
      else (None, s\<lparr>js_file := Some (filter cj_Durable (map snd (js_jobs s)))\<rparr>))"

definition js_Add ::
  "bool \<Rightarrow> int \<Rightarrow> string \<Rightarrow> string \<Rightarrow> string \<Rightarrow> bool \<Rightarrow> int option \<Rightarrow> JobStore \<Rightarrow> (go_error + CronJob) \<times> JobStore" where
  "js_Add diskOK now schedule prompt agent durable nextRun s =
     (if MaxActiveJobs \<le> js_Count s then (Inl (PlainError ''maximum active cron jobs reached''), s)
      else let n = js_counter s + 1;
               job = \<lparr>cj_ID = ''cron-'' @ print_int n, cj_Schedule = schedule, cj_Prompt = prompt, cj_Agent = agent, cj_Durable = durable,
                      cj_CreatedAt = now, cj_NextRun = nextRun, cj_LastRun = None, cj_RunCount = 0\<rparr>;
               s1 = s\<lparr>js_counter := n, js_jobs := sm_store (cj_ID job) job (js_jobs s)\<rparr>
           in if durable
              then (case persist diskOK s1 of
                      (Some err, s2) \<Rightarrow> (Inl err, s2)
                    | (None, s2) \<Rightarrow> (Inr job, s2))
              else (Inr job, s1))"

definition js_Get :: "string \<Rightarrow> JobStore \<Rightarrow> CronJob option" where
  "js_Get jid s = sm_load (js_jobs s) jid"

definition js_Delete :: "bool \<Rightarrow> string \<Rightarrow> JobStore \<Rightarrow> bool \<times> JobStore" where
  "js_Delete diskOK jid s =
     (case sm_load (js_jobs s) jid of
        None \<Rightarrow> (False, s)
      | Some _ \<Rightarrow> (True, snd (persist diskOK (s\<lparr>js_jobs := sm_delete jid (js_jobs s)\<rparr>))))"

definition js_List :: "JobStore \<Rightarrow> CronJob list" where
  "js_List s = sm_range (\<lambda>_ job result. (True, result @ [job])) (js_jobs s) []"

definition UpdateNextRun :: "bool \<Rightarrow> int \<Rightarrow> string \<Rightarrow> int \<Rightarrow> JobStore \<Rightarrow> JobStore" where
  "UpdateNextRun diskOK now jid nextRun s =
     (case sm_load (js_jobs s) jid of
        None \<Rightarrow> s
      | Some job \<Rightarrow>
          let updated = job\<lparr>cj_LastRun := Some now, cj_NextRun := Some nextRun, cj_RunCount := cj_RunCount job + 1\<rparr>;
              s1 = s\<lparr>js_jobs := sm_store jid updated (js_jobs s)\<rparr>
          in if cj_Durable updated then snd (persist diskOK s1) else s1)"

definition PruneExpired :: "int \<Rightarrow> JobStore \<Rightarrow> nat \<times> JobStore" where
  "PruneExpired now s =
     (let expired = sm_range (\<lambda>jid job ids. (True, if \<not> cj_Durable job \<and> NonDurableExpiry < time_sub now (cj_CreatedAt job) then ids @ [jid] else ids))
                      (js_jobs s) []
      in (length expired, s\<lparr>js_jobs := fold sm_delete expired (js_jobs s)\<rparr>))"

text \<open>\<open>Sscanf\<close> with \<open>cron-%d\<close>: a sign, then as many digits as there are.\<close>

definition job_number :: "string \<Rightarrow> int option" where
  "job_number jid =
     (case CutPrefix jid ''cron-'' of
        None \<Rightarrow> None
      | Some r \<Rightarrow>
          let sgn = (if take 1 r = ''-'' \<or> take 1 r = ''+'' then 1 else 0)
          in ParseInt (take sgn r @ takeWhile is_digit (drop sgn r)))"

definition js_Load :: "JobStore \<Rightarrow> JobStore" where
  "js_Load s =
     (case js_file s of
        None \<Rightarrow> s
      | Some jobs \<Rightarrow>
          s\<lparr>js_jobs := fold (\<lambda>job m. sm_store (cj_ID job) job m) jobs (js_jobs s),
            js_counter := fold (\<lambda>job maxID. case job_number (cj_ID job) of None \<Rightarrow> maxID | Some n \<Rightarrow> max n maxID) jobs 0\<rparr>)"

section \<open>The driver\<close>

text \<open>
  An armed timer has a number, its instant and the job it was given; the table of the driver holds the number of the last timer of
  each job. A fire in progress is the job between the two steps.
\<close>

record CronDriver =
  cd_store :: JobStore
  cd_timers :: "(string \<times> nat) list"
  cd_armed :: "(nat \<times> int \<times> CronJob) list"
  cd_nextTimer :: nat
  cd_firing :: "CronJob list"
  cd_spawned :: "(string \<times> string) list"
  cd_closed :: bool

record cron_env =
  cr_clock :: "int \<Rightarrow> time_fields"
  cr_parseDuration :: "string \<Rightarrow> int option"
  cr_diskOK :: bool

definition NewDriver :: "string \<Rightarrow> CronJob list option \<Rightarrow> CronDriver" where
  "NewDriver dir content =
     \<lparr>cd_store = NewJobStore dir content, cd_timers = [], cd_armed = [], cd_nextTimer = 0, cd_firing = [], cd_spawned = [], cd_closed = False\<rparr>"

definition arm_timer :: "int \<Rightarrow> CronJob \<Rightarrow> CronDriver \<Rightarrow> CronDriver" where
  "arm_timer due job d =
     d\<lparr>cd_armed := cd_armed d @ [(cd_nextTimer d, due, job)], cd_timers := AList.update (cj_ID job) (cd_nextTimer d) (cd_timers d),
       cd_nextTimer := Suc (cd_nextTimer d)\<rparr>"

text \<open>A next run at the zero time is in the past.\<close>

definition run_is_past :: "int \<Rightarrow> CronJob \<Rightarrow> bool" where
  "run_is_past now job = (case cj_NextRun job of None \<Rightarrow> True | Some t \<Rightarrow> t < now)"

definition scheduleJob :: "cron_env \<Rightarrow> int \<Rightarrow> CronJob \<Rightarrow> CronDriver \<Rightarrow> CronDriver" where
  "scheduleJob e now job d =
     (if cd_closed d then d
      else if run_is_past now job
      then (case ParseCron (cr_parseDuration e) (cj_Schedule job) of
              None \<Rightarrow> d
            | Some expr \<Rightarrow>
                (case NextAfter (cr_clock e) expr now of
                   None \<Rightarrow> d
                 | Some next \<Rightarrow>
                     arm_timer next job (d\<lparr>cd_store := UpdateNextRun (cr_diskOK e) now (cj_ID job) next (cd_store d)\<rparr>)))
      else arm_timer (the (cj_NextRun job)) job d)"

definition LoadAndStart :: "cron_env \<Rightarrow> int \<Rightarrow> CronDriver \<Rightarrow> CronDriver" where
  "LoadAndStart e now d =
     (let d1 = d\<lparr>cd_store := snd (PruneExpired now (js_Load (cd_store d)))\<rparr>
      in fold (scheduleJob e now) (js_List (cd_store d1)) d1)"

definition stop_timer :: "nat \<Rightarrow> CronDriver \<Rightarrow> CronDriver" where
  "stop_timer i d = d\<lparr>cd_armed := filter (\<lambda>(n, _). n \<noteq> i) (cd_armed d)\<rparr>"

definition cron_Close :: "CronDriver \<Rightarrow> CronDriver" where
  "cron_Close d =
     (if cd_closed d then d
      else (fold (\<lambda>(_, i). stop_timer i) (cd_timers d) (d\<lparr>cd_closed := True\<rparr>))\<lparr>cd_timers := []\<rparr>)"

definition opCreate ::
  "cron_env \<Rightarrow> int \<Rightarrow> string \<Rightarrow> string \<Rightarrow> string \<Rightarrow> string \<Rightarrow> bool \<Rightarrow> CronDriver \<Rightarrow> (go_error + CronJob) \<times> CronDriver" where
  "opCreate e now dev schedule prompt agent durable d =
     (if schedule = [] then (Inl (DriverError ''CronCreate'' dev ErrInvalid), d)
      else if prompt = [] then (Inl (DriverError ''CronCreate'' dev ErrInvalid), d)
      else case ParseCron (cr_parseDuration e) schedule of
             None \<Rightarrow> (Inl (DriverError ''CronCreate'' dev ErrInvalid), d)
           | Some expr \<Rightarrow>
               (case js_Add (cr_diskOK e) now schedule prompt (if agent = [] then ''stem'' else agent) durable
                       (NextAfter (cr_clock e) expr now) (cd_store d) of
                  (Inl err, s) \<Rightarrow> (Inl (DriverError ''CronCreate'' dev ErrResourceExhausted), d\<lparr>cd_store := s\<rparr>)
                | (Inr job, s) \<Rightarrow> (Inr job, scheduleJob e now job (d\<lparr>cd_store := s\<rparr>))))"

definition opList :: "CronDriver \<Rightarrow> CronJob list" where
  "opList d = js_List (cd_store d)"

definition opDelete :: "cron_env \<Rightarrow> string \<Rightarrow> string \<Rightarrow> CronDriver \<Rightarrow> go_error option \<times> CronDriver" where
  "opDelete e dev jid d =
     (if jid = [] then (Some (DriverError ''CronDelete'' dev ErrInvalid), d)
      else let d1 = (case map_of (cd_timers d) jid of
                       None \<Rightarrow> d
                     | Some i \<Rightarrow> (stop_timer i d)\<lparr>cd_timers := AList.delete jid (cd_timers d)\<rparr>)
           in case js_Delete (cr_diskOK e) jid (cd_store d1) of
                (False, s) \<Rightarrow> (Some (DriverError ''CronDelete'' dev ErrNotFound), d1\<lparr>cd_store := s\<rparr>)
              | (True, s) \<Rightarrow> (None, d1\<lparr>cd_store := s\<rparr>))"

text \<open>\<open>fireJob\<close>: a timer that fires is no longer armed; \<open>None\<close> when it is not armed.\<close>

definition fire_begin :: "nat \<Rightarrow> CronDriver \<Rightarrow> CronDriver option" where
  "fire_begin i d =
     (case map_of (cd_armed d) i of
        None \<Rightarrow> None
      | Some (due, job) \<Rightarrow>
          let d1 = stop_timer i d
          in Some (if cd_closed d then d1
                   else d1\<lparr>cd_spawned := cd_spawned d @ [(cj_Prompt job, cj_Agent job)], cd_firing := cd_firing d @ [job]\<rparr>))"

definition fire_end :: "cron_env \<Rightarrow> int \<Rightarrow> CronJob \<Rightarrow> CronDriver \<Rightarrow> CronDriver" where
  "fire_end e now job d =
     (let d1 = d\<lparr>cd_firing := remove1 job (cd_firing d)\<rparr>
      in case ParseCron (cr_parseDuration e) (cj_Schedule job) of
           None \<Rightarrow> d1
         | Some expr \<Rightarrow>
             (case NextAfter (cr_clock e) expr now of
                None \<Rightarrow> d1
              | Some next \<Rightarrow>
                  scheduleJob e now job (d1\<lparr>cd_store := UpdateNextRun (cr_diskOK e) now (cj_ID job) next (cd_store d1)\<rparr>)))"

section \<open>The device file\<close>

text \<open>A JSON object that a tool call writes; \<open>None\<close> as the data of a write is text that is no JSON object.\<close>

datatype raw_value = RawStr string | RawBool bool | RawOther

type_synonym raw_object = "(string \<times> raw_value) list"

definition raw_str :: "raw_object \<Rightarrow> string \<Rightarrow> string" where
  "raw_str raw key = (case map_of raw key of Some (RawStr s) \<Rightarrow> s | _ \<Rightarrow> [])"

definition raw_bool :: "raw_object \<Rightarrow> string \<Rightarrow> bool" where
  "raw_bool raw key = (case map_of raw key of Some (RawBool b) \<Rightarrow> b | _ \<Rightarrow> False)"

datatype cron_reply = ReplyJob CronJob | ReplyJobs "CronJob list" | ReplyDeleted string

record CronFile =
  cf_devicePath :: string
  cf_buf :: "cron_reply option"
  cf_closed :: bool

definition cron_open :: "string \<Rightarrow> CronFile" where
  "cron_open subpath = \<lparr>cf_devicePath = ''/dev/cron'' @ subpath, cf_buf = None, cf_closed = False\<rparr>"

definition detectOp :: "raw_object \<Rightarrow> string" where
  "detectOp raw =
     (if map_of raw ''schedule'' \<noteq> None then ''create'' else if map_of raw ''id'' \<noteq> None then ''delete'' else ''list'')"

definition cron_write ::
  "cron_env \<Rightarrow> int \<Rightarrow> raw_object option \<Rightarrow> CronFile \<Rightarrow> CronDriver \<Rightarrow> go_error option \<times> CronFile \<times> CronDriver" where
  "cron_write e now data f d =
     (if cf_closed f then (Some (DriverError ''write'' (cf_devicePath f) ErrInvalid), f, d)
      else case data of
             None \<Rightarrow> (Some (DriverError ''write'' (cf_devicePath f) ErrInvalid), f, d)
           | Some raw \<Rightarrow>
               if detectOp raw = ''create''
               then (case opCreate e now (cf_devicePath f) (raw_str raw ''schedule'') (raw_str raw ''prompt'') (raw_str raw ''agent'')
                            (raw_bool raw ''durable'') d of
                       (Inl err, d') \<Rightarrow> (Some err, f, d')
                     | (Inr job, d') \<Rightarrow> (None, f\<lparr>cf_buf := Some (ReplyJob job)\<rparr>, d'))
               else if detectOp raw = ''list'' then (None, f\<lparr>cf_buf := Some (ReplyJobs (opList d))\<rparr>, d)
               else (case opDelete e (cf_devicePath f) (raw_str raw ''id'') d of
                       (Some err, d') \<Rightarrow> (Some err, f, d')
                     | (None, d') \<Rightarrow> (None, f\<lparr>cf_buf := Some (ReplyDeleted (raw_str raw ''id''))\<rparr>, d')))"

definition cron_read :: "CronFile \<Rightarrow> (go_error + cron_reply) \<times> CronFile" where
  "cron_read f =
     (if cf_closed f then (Inl (DriverError ''read'' (cf_devicePath f) ErrInvalid), f)
      else case cf_buf f of
             None \<Rightarrow> (Inl (DriverError ''read'' (cf_devicePath f) ErrInvalid), f)
           | Some b \<Rightarrow> (Inr b, f\<lparr>cf_buf := None\<rparr>))"

definition cron_close :: "CronFile \<Rightarrow> go_error option \<times> CronFile" where
  "cron_close f =
     (if cf_closed f then (Some (DriverError ''close'' (cf_devicePath f) ErrInvalid), f) else (None, f\<lparr>cf_closed := True\<rparr>))"

section \<open>The store keeps its bound\<close>

lemma js_Count_length: "js_Count s = length (js_jobs s)"
proof -
  have "sm_range (\<lambda>_ _ n. (True, Suc n)) m n = length m + n" for m :: "(string \<times> CronJob) list" and n
    by (induction m arbitrary: n) auto
  then show ?thesis by (simp add: js_Count_def)
qed

lemma persist_jobs [simp]: "js_jobs (snd (persist ok s)) = js_jobs s"
  by (simp add: persist_def)

lemma Add_bounded:
  assumes "length (js_jobs s) \<le> MaxActiveJobs"
  shows "length (js_jobs (snd (js_Add ok now schedule prompt agent durable next s))) \<le> MaxActiveJobs"
proof (cases "MaxActiveJobs \<le> length (js_jobs s)")
  case True
  then show ?thesis using assms by (simp add: js_Add_def js_Count_length)
next
  case False
  have "length (AList.update k v m) \<le> Suc (length m)" for k :: string and v :: CronJob and m by (induction m) auto
  from order_trans [OF this] False have "length (AList.update k v (js_jobs s)) \<le> MaxActiveJobs" for k v by simp
  with False show ?thesis
    by (auto simp: js_Add_def js_Count_length Let_def sm_store_def persist_def)
qed

text \<open>The expiry is applied only when the driver starts, and then to what its file holds, the durable jobs: nothing expires.\<close>

lemma expiry_prunes_no_durable_job:
  assumes "\<forall>job \<in> snd ` set (js_jobs s). cj_Durable job"
  shows "PruneExpired now s = (0, s)"
proof -
  have "sm_range (\<lambda>i job ids. (True, if \<not> cj_Durable job \<and> NonDurableExpiry < time_sub now (cj_CreatedAt job) then ids @ [i] else ids)) m ids = ids"
    if "\<forall>job \<in> snd ` set m. cj_Durable job" for m :: "(string \<times> CronJob) list" and ids
    using that by (induction m) auto
  from this [OF assms, of "[]"] show ?thesis by (simp add: PruneExpired_def Let_def)
qed

section \<open>After a fire\<close>

lemma UpdateNextRun_load:
  "sm_load (js_jobs (UpdateNextRun ok now jid next s)) x =
     (if x = jid then map_option (\<lambda>job. job\<lparr>cj_LastRun := Some now, cj_NextRun := Some next, cj_RunCount := cj_RunCount job + 1\<rparr>) (sm_load (js_jobs s) x)
      else sm_load (js_jobs s) x)"
  by (cases "sm_load (js_jobs s) jid") (auto simp: UpdateNextRun_def Let_def persist_def sm_load_def sm_store_def)

text \<open>
  C39: when the spawn of a job that has fired returns, the driver updates the stored job and schedules the copy of the job its timer was given.
  The run that copy names has passed, so the job is updated twice: one fire counts as two runs. And the timer is armed
  whether or not the job is still in the store: a job deleted during the spawn keeps firing.
\<close>

theorem cron_fire_counts_twice_and_outlives_delete:
  assumes "\<not> cd_closed d" and "run_is_past now job" and "ParseCron (cr_parseDuration e) (cj_Schedule job) = Some expr"
    and "NextAfter (cr_clock e) expr now = Some next" and "fire_end e now job d = d'"
  shows "js_Get (cj_ID job) (cd_store d') =
      map_option (\<lambda>j. j\<lparr>cj_LastRun := Some now, cj_NextRun := Some next, cj_RunCount := cj_RunCount j + 2\<rparr>) (js_Get (cj_ID job) (cd_store d)) \<and>
    cd_armed d' = cd_armed d @ [(cd_nextTimer d, next, job)] \<and>
    (cd_nextTimer d \<notin> fst ` set (cd_armed d) \<longrightarrow>
      (\<exists>d''. fire_begin (cd_nextTimer d) d' = Some d'' \<and> cd_spawned d'' = cd_spawned d' @ [(cj_Prompt job, cj_Agent job)] \<and>
        job \<in> set (cd_firing d'') \<and> cd_store d'' = cd_store d'))"
proof -
  let ?u = "UpdateNextRun (cr_diskOK e) now (cj_ID job) next"
  let ?d1 = "d\<lparr>cd_firing := remove1 job (cd_firing d)\<rparr>"
  have d': "d' = arm_timer next job (?d1\<lparr>cd_store := ?u (?u (cd_store d))\<rparr>)"
    using assms by (simp add: fire_end_def scheduleJob_def Let_def)
  have "js_Get (cj_ID job) (cd_store d') =
      map_option (\<lambda>j. j\<lparr>cj_LastRun := Some now, cj_NextRun := Some next, cj_RunCount := cj_RunCount j + 2\<rparr>) (js_Get (cj_ID job) (cd_store d))"
    by (cases "sm_load (js_jobs (cd_store d)) (cj_ID job)") (simp_all add: d' arm_timer_def js_Get_def UpdateNextRun_load)
  moreover have a: "cd_armed d' = cd_armed d @ [(cd_nextTimer d, next, job)]" by (simp add: d' arm_timer_def)
  moreover have "\<exists>d''. fire_begin (cd_nextTimer d) d' = Some d'' \<and> cd_spawned d'' = cd_spawned d' @ [(cj_Prompt job, cj_Agent job)] \<and>
        job \<in> set (cd_firing d'') \<and> cd_store d'' = cd_store d'" if "cd_nextTimer d \<notin> fst ` set (cd_armed d)"
  proof -
    have "map_of (cd_armed d) (cd_nextTimer d) = None" using that by (simp add: map_of_eq_None_iff)
    then have "map_of (cd_armed d') (cd_nextTimer d) = Some (next, job)" unfolding a by (simp add: map_add_def)
    moreover have "cd_closed d' = False" using assms(1) by (simp add: d' arm_timer_def)
    ultimately show ?thesis by (simp add: fire_begin_def stop_timer_def Let_def)
  qed
  ultimately show ?thesis by blast
qed

text \<open>
  A job that runs every minute fires at its first minute, and is deleted while its agent is spawned. When the spawn returns its
  timer is armed for the next minute.
\<close>

definition demo_cron_env :: cron_env where
  "demo_cron_env = \<lparr>cr_clock = utc_fields, cr_parseDuration = (\<lambda>s. if s = ''1m'' then Some minute else None), cr_diskOK = True\<rparr>"

definition demo_job :: CronJob where
  "demo_job =
     \<lparr>cj_ID = ''cron-1'', cj_Schedule = ''@every 1m'', cj_Prompt = ''check'', cj_Agent = ''stem'', cj_Durable = False, cj_CreatedAt = 5,
      cj_NextRun = Some (5 + minute), cj_LastRun = None, cj_RunCount = 0\<rparr>"

definition demo_expr :: CronExpr where
  "demo_expr = \<lparr>ce_minutes = [], ce_hours = [], ce_daysOfMonth = [], ce_months = [], ce_daysOfWeek = [], ce_every = minute\<rparr>"

lemma demo_parse: "ParseCron (cr_parseDuration demo_cron_env) ''@every 1m'' = Some demo_expr"
  by (simp add: ParseCron_def TrimSpace_ascii is_space_def unicode_space_def parseMacro_def CutPrefix_def demo_cron_env_def demo_expr_def)

definition demo_deleted :: CronDriver where
  "demo_deleted =
     snd (opDelete demo_cron_env ''/dev/cron'' ''cron-1''
       (the (fire_begin 0 (snd (opCreate demo_cron_env 5 ''/dev/cron'' ''@every 1m'' ''check'' [] False (NewDriver [] None))))))"

theorem cron_fire_counts_twice_and_outlives_delete_witness:
  "js_Get ''cron-1'' (cd_store demo_deleted) = None \<and> cd_firing demo_deleted = [demo_job] \<and>
   cd_armed (fire_end demo_cron_env (minute + 6) demo_job demo_deleted) = [(1, 2 * minute + 6, demo_job)]"
proof -
  have one: "print_int 1 = ''1''" by code_simp
  have c: "opCreate demo_cron_env 5 ''/dev/cron'' ''@every 1m'' ''check'' [] False (NewDriver [] None) =
    (Inr demo_job, arm_timer (5 + minute) demo_job ((NewDriver [] None)\<lparr>cd_store := (NewJobStore [] None)\<lparr>js_counter := 1, js_jobs := [(''cron-1'', demo_job)]\<rparr>\<rparr>))"
    by (simp add: opCreate_def demo_parse js_Add_def js_Count_length NewDriver_def NewJobStore_def MaxActiveJobs_def Let_def
        NextAfter_def demo_expr_def minute_def second_def scheduleJob_def run_is_past_def demo_job_def sm_store_def one)
  have f: "js_Get ''cron-1'' (cd_store demo_deleted) = None \<and> cd_firing demo_deleted = [demo_job] \<and> cd_armed demo_deleted = [] \<and>
    cd_nextTimer demo_deleted = 1 \<and> \<not> cd_closed demo_deleted"
    unfolding demo_deleted_def c snd_conv
    by (simp add: arm_timer_def NewDriver_def NewJobStore_def fire_begin_def stop_timer_def opDelete_def js_Delete_def js_Get_def
        sm_load_def sm_delete_def persist_def demo_job_def)
  have "run_is_past (minute + 6) demo_job" by (simp add: run_is_past_def demo_job_def)
  moreover have "ParseCron (cr_parseDuration demo_cron_env) (cj_Schedule demo_job) = Some demo_expr" by (simp add: demo_job_def demo_parse)
  moreover have "NextAfter (cr_clock demo_cron_env) demo_expr (minute + 6) = Some (2 * minute + 6)"
    by (simp add: NextAfter_def demo_expr_def minute_def second_def)
  ultimately show ?thesis using f cron_fire_counts_twice_and_outlives_delete [of demo_deleted "minute + 6" demo_job demo_cron_env demo_expr "2 * minute + 6"]
    by simp
qed

end
