(* ===== verification/Tasks.thy ===== *)
theory Tasks
  imports CronJobs
begin

text \<open>
  The task device (\<open>drivers/tasks/store.go\<close>, \<open>drivers/tasks/driver.go\<close>): the store of tasks with the dependencies between them, and
  the file a tool call writes its request to and reads the reply from. A request is the JSON object as a list of its members, with
  the spelling of the keys the device declares; the text of a reply is the function \<open>marshal\<close> of its value. \<open>now\<close> is what the clock
  returns during the operation.
\<close>

section \<open>The store\<close>

definition TaskPending :: string where "TaskPending = ''pending''"
definition TaskInProgress :: string where "TaskInProgress = ''in_progress''"
definition TaskCompleted :: string where "TaskCompleted = ''completed''"
definition TaskDeleted :: string where "TaskDeleted = ''deleted''"

definition ValidStatus :: "string \<Rightarrow> bool" where
  "ValidStatus s \<longleftrightarrow> s = TaskPending \<or> s = TaskInProgress \<or> s = TaskCompleted \<or> s = TaskDeleted"

record Task =
  tk_ID :: string
  tk_Subject :: string
  tk_Description :: string
  tk_Status :: string
  tk_Owner :: string
  tk_Blocks :: "string list"
  tk_BlockedBy :: "string list"
  tk_CreatedAt :: int
  tk_UpdatedAt :: int

record TaskStore =
  tst_tasks :: "(string, Task) SyncMap"
  tst_counter :: nat

definition NewTaskStore :: TaskStore where
  "NewTaskStore = \<lparr>tst_tasks = NewSyncMap, tst_counter = 0\<rparr>"

definition task_id :: "nat \<Rightarrow> string" where
  "task_id n = ''task-'' @ decimal n"

definition ts_Create :: "int \<Rightarrow> string \<Rightarrow> string \<Rightarrow> string \<Rightarrow> string \<Rightarrow> TaskStore \<Rightarrow> Task \<times> TaskStore" where
  "ts_Create now subject description status owner s =
     (let n = Suc (tst_counter s);
          t = \<lparr>tk_ID = task_id n, tk_Subject = subject, tk_Description = description,
               tk_Status = (if status = [] then TaskPending else status), tk_Owner = owner, tk_Blocks = [], tk_BlockedBy = [],
               tk_CreatedAt = now, tk_UpdatedAt = now\<rparr>
      in (t, s\<lparr>tst_counter := n, tst_tasks := sm_store (tk_ID t) t (tst_tasks s)\<rparr>))"

definition ts_Get :: "string \<Rightarrow> TaskStore \<Rightarrow> Task option" where
  "ts_Get k s = sm_load (tst_tasks s) k"

definition ts_Update :: "int \<Rightarrow> string \<Rightarrow> (Task \<Rightarrow> Task) \<Rightarrow> TaskStore \<Rightarrow> Task option \<times> TaskStore" where
  "ts_Update now k f s =
     (case sm_load (tst_tasks s) k of
        None \<Rightarrow> (None, s)
      | Some t \<Rightarrow> (let clone = (f t)\<lparr>tk_UpdatedAt := now\<rparr> in (Some clone, s\<lparr>tst_tasks := sm_store k clone (tst_tasks s)\<rparr>)))"

definition ts_List :: "string \<Rightarrow> TaskStore \<Rightarrow> Task list" where
  "ts_List filt s =
     sm_range (\<lambda>_ t result. (True, if filt = [] \<or> tk_Status t = filt then result @ [t] else result)) (tst_tasks s) []"

text \<open>Both tasks are copied before either is changed, and both copies are stored, the blocked one last.\<close>

definition AddBlocks :: "int \<Rightarrow> string \<Rightarrow> string \<Rightarrow> TaskStore \<Rightarrow> go_error option \<times> TaskStore" where
  "AddBlocks now k blockedID s =
     (case sm_load (tst_tasks s) k of
        None \<Rightarrow> (Some (PlainError ''task not found''), s)
      | Some blocker \<Rightarrow>
          (case sm_load (tst_tasks s) blockedID of
             None \<Rightarrow> (Some (PlainError ''task not found''), s)
           | Some blocked \<Rightarrow>
               let blockerClone = (if blockedID \<in> set (tk_Blocks blocker) then blocker
                                   else blocker\<lparr>tk_Blocks := tk_Blocks blocker @ [blockedID], tk_UpdatedAt := now\<rparr>);
                   blockedClone = (if k \<in> set (tk_BlockedBy blocked) then blocked
                                   else blocked\<lparr>tk_BlockedBy := tk_BlockedBy blocked @ [k], tk_UpdatedAt := now\<rparr>)
               in (None, s\<lparr>tst_tasks := sm_store blockedID blockedClone (sm_store k blockerClone (tst_tasks s))\<rparr>)))"

definition AddBlockedBy :: "int \<Rightarrow> string \<Rightarrow> string \<Rightarrow> TaskStore \<Rightarrow> go_error option \<times> TaskStore" where
  "AddBlockedBy now k blockerID s = AddBlocks now blockerID k s"

section \<open>Requests\<close>

datatype task_value = TStr string | TList "string list" | TNull | TOther

record task_request =
  rq_ID :: string
  rq_Subject :: string
  rq_Description :: string
  rq_Status :: string
  rq_Owner :: string
  rq_AddBlocks :: "string list"
  rq_AddBlockedBy :: "string list"

type_synonym task_object = "(string \<times> task_value) list"

text \<open>A member of another type makes the decoding fail.\<close>

definition str_member :: "task_object \<Rightarrow> string \<Rightarrow> string option" where
  "str_member obj key =
     (case map_of obj key of None \<Rightarrow> Some [] | Some (TStr s) \<Rightarrow> Some s | Some TNull \<Rightarrow> Some [] | Some _ \<Rightarrow> None)"

definition list_member :: "task_object \<Rightarrow> string \<Rightarrow> string list option" where
  "list_member obj key =
     (case map_of obj key of None \<Rightarrow> Some [] | Some (TList xs) \<Rightarrow> Some xs | Some TNull \<Rightarrow> Some [] | Some _ \<Rightarrow> None)"

definition decode_request :: "task_object \<Rightarrow> task_request option" where
  "decode_request obj =
     (case (str_member obj ''id'', str_member obj ''subject'', str_member obj ''description'', str_member obj ''status'',
            str_member obj ''owner'', list_member obj ''addBlocks'', list_member obj ''addBlockedBy'') of
        (Some i, Some su, Some de, Some st, Some ow, Some ab, Some bb) \<Rightarrow>
          Some \<lparr>rq_ID = i, rq_Subject = su, rq_Description = de, rq_Status = st, rq_Owner = ow, rq_AddBlocks = ab, rq_AddBlockedBy = bb\<rparr>
      | _ \<Rightarrow> None)"

section \<open>The device file\<close>

datatype task_reply = OneTask Task | ManyTasks "Task list"

record TasksFile =
  tf_devicePath :: string
  tf_response :: "string option"
  tf_offset :: nat
  tf_closed :: bool

definition tasks_open :: "string \<Rightarrow> TasksFile" where
  "tasks_open subpath = \<lparr>tf_devicePath = ''/dev/tasks'' @ subpath, tf_response = None, tf_offset = 0, tf_closed = False\<rparr>"

definition write_error :: "string \<Rightarrow> ErrCode \<Rightarrow> go_error" where
  "write_error dev code = DriverError ''Write'' dev code"

definition bad_status :: "string \<Rightarrow> bool" where
  "bad_status s \<longleftrightarrow> s \<noteq> [] \<and> \<not> ValidStatus s"

text \<open>Errors of a dependency are ignored.\<close>

definition add_deps :: "int \<Rightarrow> string \<Rightarrow> task_request \<Rightarrow> TaskStore \<Rightarrow> TaskStore" where
  "add_deps now k r s =
     fold (\<lambda>b s. snd (AddBlockedBy now k b s)) (rq_AddBlockedBy r)
       (fold (\<lambda>b s. snd (AddBlocks now k b s)) (rq_AddBlocks r) s)"

definition hasUpdateFields :: "task_object \<Rightarrow> bool" where
  "hasUpdateFields obj \<longleftrightarrow>
     list_ex (\<lambda>key. map_of obj key \<noteq> None) [''subject'', ''description'', ''status'', ''owner'', ''addBlocks'', ''addBlockedBy'']"

definition handleCreate :: "int \<Rightarrow> string \<Rightarrow> task_object \<Rightarrow> TaskStore \<Rightarrow> (go_error + task_reply) \<times> TaskStore" where
  "handleCreate now dev obj s =
     (case decode_request (filter (\<lambda>(key, _). key \<noteq> ''id'') obj) of
        None \<Rightarrow> (Inl (write_error dev ErrInvalid), s)
      | Some r \<Rightarrow>
          if rq_Subject r = [] then (Inl (write_error dev ErrInvalid), s)
          else if bad_status (rq_Status r) then (Inl (write_error dev ErrInvalid), s)
          else (case ts_Create now (rq_Subject r) (rq_Description r) (rq_Status r) (rq_Owner r) s of
                  (task, s1) \<Rightarrow> (Inr (OneTask task), add_deps now (tk_ID task) r s1)))"

definition update_fields :: "task_request \<Rightarrow> Task \<Rightarrow> Task" where
  "update_fields r t =
     t\<lparr>tk_Subject := (if rq_Subject r \<noteq> [] then rq_Subject r else tk_Subject t),
       tk_Description := (if rq_Description r \<noteq> [] then rq_Description r else tk_Description t),
       tk_Status := (if rq_Status r \<noteq> [] then rq_Status r else tk_Status t),
       tk_Owner := (if rq_Owner r \<noteq> [] then rq_Owner r else tk_Owner t)\<rparr>"

definition handleUpdate :: "int \<Rightarrow> string \<Rightarrow> task_object \<Rightarrow> TaskStore \<Rightarrow> (go_error + task_reply) \<times> TaskStore" where
  "handleUpdate now dev obj s =
     (case decode_request obj of
        None \<Rightarrow> (Inl (write_error dev ErrInvalid), s)
      | Some r \<Rightarrow>
          if rq_ID r = [] then (Inl (write_error dev ErrInvalid), s)
          else if bad_status (rq_Status r) then (Inl (write_error dev ErrInvalid), s)
          else (case ts_Update now (rq_ID r) (update_fields r) s of
                  (None, s1) \<Rightarrow> (Inl (write_error dev ErrNotFound), s1)
                | (Some task, s1) \<Rightarrow> (Inr (OneTask task), add_deps now (tk_ID task) r s1)))"

text \<open>A list request that does not decode lists every task.\<close>

definition handleList :: "string \<Rightarrow> task_object \<Rightarrow> TaskStore \<Rightarrow> go_error + task_reply" where
  "handleList dev obj s =
     (let status = (case str_member obj ''status'' of None \<Rightarrow> [] | Some st \<Rightarrow> st)
      in if bad_status status then Inl (write_error dev ErrInvalid) else Inr (ManyTasks (ts_List status s)))"

definition handleGet :: "string \<Rightarrow> task_object \<Rightarrow> TaskStore \<Rightarrow> go_error + task_reply" where
  "handleGet dev obj s =
     (case str_member obj ''id'' of
        None \<Rightarrow> Inl (write_error dev ErrInvalid)
      | Some k \<Rightarrow>
          if k = [] then Inl (write_error dev ErrInvalid)
          else case ts_Get k s of None \<Rightarrow> Inl (write_error dev ErrNotFound) | Some t \<Rightarrow> Inr (OneTask t))"

definition tasks_dispatch :: "int \<Rightarrow> string \<Rightarrow> task_object \<Rightarrow> TaskStore \<Rightarrow> (go_error + task_reply) \<times> TaskStore" where
  "tasks_dispatch now dev obj s =
     (if map_of obj ''id'' \<noteq> None
      then if hasUpdateFields obj then handleUpdate now dev obj s else (handleGet dev obj s, s)
      else if map_of obj ''subject'' \<noteq> None then handleCreate now dev obj s
      else (handleList dev obj s, s))"

definition tasks_Write ::
  "(task_reply \<Rightarrow> string) \<Rightarrow> int \<Rightarrow> task_object option \<Rightarrow> TasksFile \<Rightarrow> TaskStore \<Rightarrow> go_error option \<times> TasksFile \<times> TaskStore" where
  "tasks_Write marshal now data f s =
     (if tf_closed f then (Some (write_error (tf_devicePath f) ErrDriver), f, s)
      else case data of
             None \<Rightarrow> (Some (write_error (tf_devicePath f) ErrInvalid), f, s)
           | Some obj \<Rightarrow>
               (case tasks_dispatch now (tf_devicePath f) obj s of
                  (Inl err, s') \<Rightarrow> (Some err, f, s')
                | (Inr reply, s') \<Rightarrow> (None, f\<lparr>tf_response := Some (marshal reply), tf_offset := 0\<rparr>, s')))"

definition tasks_Read :: "int \<Rightarrow> TasksFile \<Rightarrow> (go_error + string) \<times> TasksFile" where
  "tasks_Read len f =
     (if tf_closed f then (Inl (DriverError ''Read'' (tf_devicePath f) ErrDriver), f)
      else case tf_response f of
             None \<Rightarrow> (Inl (DriverError ''Read'' (tf_devicePath f) ErrDriver), f)
           | Some response \<Rightarrow>
               let remaining = drop (tf_offset f) response;
                   n = (if len \<le> 0 \<or> int (length remaining) < len then length remaining else nat len)
               in if remaining = [] then (Inr [], f) else (Inr (take n remaining), f\<lparr>tf_offset := tf_offset f + n\<rparr>))"

definition tasks_Close :: "TasksFile \<Rightarrow> go_error option \<times> TasksFile" where
  "tasks_Close f =
     (if tf_closed f then (Some (DriverError ''Close'' (tf_devicePath f) ErrDriver), f)
      else (None, f\<lparr>tf_closed := True, tf_response := None, tf_offset := 0\<rparr>))"

section \<open>Dependencies have two sides\<close>

text \<open>The stores that requests lead to.\<close>

inductive task_reach :: "TaskStore \<Rightarrow> bool" where
  Empty: "task_reach NewTaskStore"
| Request: "task_reach s \<Longrightarrow> task_reach (snd (tasks_dispatch now dev obj s))"

definition blocks_of :: "TaskStore \<Rightarrow> string \<Rightarrow> string set" where
  "blocks_of s k = (case ts_Get k s of None \<Rightarrow> {} | Some t \<Rightarrow> set (tk_Blocks t))"

definition blockers_of :: "TaskStore \<Rightarrow> string \<Rightarrow> string set" where
  "blockers_of s k = (case ts_Get k s of None \<Rightarrow> {} | Some t \<Rightarrow> set (tk_BlockedBy t))"

definition deps_symmetric :: "TaskStore \<Rightarrow> bool" where
  "deps_symmetric s \<longleftrightarrow>
     (\<forall>a b. a \<noteq> b \<longrightarrow> (b \<in> blocks_of s a \<longleftrightarrow> a \<in> blockers_of s b)) \<and> (\<forall>a. a \<notin> blocks_of s a) \<and>
     (\<forall>a t. ts_Get a s = Some t \<longrightarrow> tk_ID t = a \<and> (\<exists>n \<le> tst_counter s. a = task_id n))"

declare decimal.simps [simp del]

lemma digit_value: "n < 10 \<Longrightarrow> of_char (char_of (48 + n)) - 48 = int n"
proof -
  assume "n < 10"
  have "of_char (char_of (48 + n) :: char) = int (of_char (char_of (48 + n) :: char))" by (simp only: of_nat_of_char)
  also have "\<dots> = int ((48 + n) mod 256)" by (simp only: of_char_of)
  finally show ?thesis using \<open>n < 10\<close> by simp
qed

lemma digits_value_snoc: "digits_value (ds @ [c]) = 10 * digits_value ds + (of_char c - 48)"
  by (simp add: digits_value_def)

lemma digits_value_decimal: "digits_value (decimal n) = int n"
proof (induction n rule: decimal.induct)
  case (1 n)
  show ?case
  proof (cases "n < 10")
    case True
    then show ?thesis using digit_value [OF True] by (simp add: decimal.simps [of n] digits_value_def)
  next
    case False
    have "int n = 10 * int (n div 10) + int (n mod 10)" by presburger
    with False 1 digit_value [of "n mod 10"] show ?thesis by (simp add: decimal.simps [of n] digits_value_snoc)
  qed
qed

lemma task_id_inj: "task_id m = task_id n \<longleftrightarrow> m = n"
proof
  assume "task_id m = task_id n"
  then have "digits_value (decimal m) = digits_value (decimal n)" by (simp add: task_id_def)
  then show "m = n" by (simp add: digits_value_decimal)
qed simp

lemma AddBlocks_missing:
  "ts_Get k s = None \<or> ts_Get b s = None \<Longrightarrow> snd (AddBlocks now k b s) = s"
  by (auto simp: AddBlocks_def ts_Get_def split: option.split)

lemma AddBlocks_sides:
  assumes "ts_Get k s \<noteq> None" and "ts_Get b s \<noteq> None"
  shows "blocks_of (snd (AddBlocks now k b s)) x = (if x = k \<and> k \<noteq> b then insert b (blocks_of s x) else blocks_of s x)"
    and "blockers_of (snd (AddBlocks now k b s)) x = (if x = b then insert k (blockers_of s x) else blockers_of s x)"
proof -
  obtain t u where tu: "sm_load (tst_tasks s) k = Some t" "sm_load (tst_tasks s) b = Some u"
    using assms by (auto simp: ts_Get_def)
  have l: "sm_load (sm_store i v m) j = (if j = i then Some v else sm_load m j)" for i j and v :: Task and m
    by (simp add: sm_load_def sm_store_def)
  show "blocks_of (snd (AddBlocks now k b s)) x = (if x = k \<and> k \<noteq> b then insert b (blocks_of s x) else blocks_of s x)"
    using tu by (auto simp: AddBlocks_def blocks_of_def ts_Get_def l Let_def)
  show "blockers_of (snd (AddBlocks now k b s)) x = (if x = b then insert k (blockers_of s x) else blockers_of s x)"
    using tu by (auto simp: AddBlocks_def blockers_of_def ts_Get_def l Let_def)
qed

lemma AddBlocks_tasks:
  "tst_counter (snd (AddBlocks now k b s)) = tst_counter s \<and>
   map_option tk_ID (ts_Get x (snd (AddBlocks now k b s))) = map_option tk_ID (ts_Get x s)"
  by (auto simp: AddBlocks_def ts_Get_def sm_load_def sm_store_def Let_def split: option.split)

lemma AddBlocks_symmetric:
  assumes "deps_symmetric s"
  shows "deps_symmetric (snd (AddBlocks now k b s))"
proof (cases "ts_Get k s = None \<or> ts_Get b s = None")
  case True
  then show ?thesis using assms AddBlocks_missing [OF True] by simp
next
  case False
  then have e: "ts_Get k s \<noteq> None" "ts_Get b s \<noteq> None" by simp_all
  have id: "tk_ID t = a \<and> (\<exists>n \<le> tst_counter s. a = task_id n)" if g: "ts_Get a (snd (AddBlocks now k b s)) = Some t" for a t
  proof -
    have "map_option tk_ID (ts_Get a s) = Some (tk_ID t)" using AddBlocks_tasks [of now k b s a] g by simp
    then obtain u where "ts_Get a s = Some u" "tk_ID u = tk_ID t" by auto
    with assms show ?thesis unfolding deps_symmetric_def by metis
  qed
  have c: "tst_counter (snd (AddBlocks now k b s)) = tst_counter s" using AddBlocks_tasks by blast
  have sym: "y \<in> blocks_of s x \<longleftrightarrow> x \<in> blockers_of s y" if "x \<noteq> y" for x y using assms that unfolding deps_symmetric_def by blast
  have irr: "x \<notin> blocks_of s x" for x using assms unfolding deps_symmetric_def by blast
  show ?thesis unfolding deps_symmetric_def c
  proof (intro conjI allI impI)
    show "y \<in> blocks_of (snd (AddBlocks now k b s)) x \<longleftrightarrow> x \<in> blockers_of (snd (AddBlocks now k b s)) y" if "x \<noteq> y" for x y
      using that sym [OF that] by (auto simp: AddBlocks_sides [OF e])
    show "x \<notin> blocks_of (snd (AddBlocks now k b s)) x" for x using irr [of x] by (auto simp: AddBlocks_sides [OF e])
  qed (use id in blast)+
qed

lemma add_deps_symmetric: "deps_symmetric s \<Longrightarrow> deps_symmetric (add_deps now k r s)"
proof -
  have f: "deps_symmetric (fold (\<lambda>b s. snd (AddBlocks now (f b) (g b) s)) bs s)" if "deps_symmetric s" for bs s and f g :: "string \<Rightarrow> string"
    using that by (induction bs arbitrary: s) (simp_all add: AddBlocks_symmetric)
  assume "deps_symmetric s"
  from f [OF f [OF this, of "\<lambda>_. k" "\<lambda>b. b" "rq_AddBlocks r"], of "\<lambda>b. b" "\<lambda>_. k" "rq_AddBlockedBy r"]
  show ?thesis by (simp add: add_deps_def AddBlockedBy_def)
qed

lemma Create_symmetric:
  assumes "deps_symmetric s"
  shows "deps_symmetric (snd (ts_Create now subject description status owner s))"
proof -
  let ?k = "task_id (Suc (tst_counter s))" and ?s = "snd (ts_Create now subject description status owner s)"
  have new: "ts_Get ?k s = None"
  proof (rule ccontr)
    assume "ts_Get ?k s \<noteq> None"
    then obtain n where "n \<le> tst_counter s" "?k = task_id n" using assms unfolding deps_symmetric_def by blast
    then show False by (simp add: task_id_inj)
  qed
  define t where "t = fst (ts_Create now subject description status owner s)"
  have t: "tk_ID t = ?k" "tk_Blocks t = []" "tk_BlockedBy t = []"
    "tst_counter ?s = Suc (tst_counter s)" "\<And>x. ts_Get x ?s = (if x = ?k then Some t else ts_Get x s)"
    by (simp_all add: t_def ts_Create_def Let_def ts_Get_def sm_load_def sm_store_def)
  have b: "blocks_of ?s x = blocks_of s x" "blockers_of ?s x = blockers_of s x" for x
    using new t by (auto simp: blocks_of_def blockers_of_def)
  have old: "tk_ID u = a \<and> (\<exists>n \<le> Suc (tst_counter s). a = task_id n)" if "ts_Get a s = Some u" for a u
    using assms that unfolding deps_symmetric_def by (meson le_SucI)
  have "tk_ID u = a \<and> (\<exists>n \<le> Suc (tst_counter s). a = task_id n)" if "(if a = ?k then Some t else ts_Get a s) = Some u" for a u
    using that old [of a u] t(1) by (cases "a = ?k") auto
  then show ?thesis using assms unfolding deps_symmetric_def b t(4,5) by blast
qed

lemma Update_symmetric:
  assumes "deps_symmetric s"
  shows "deps_symmetric (snd (ts_Update now k (update_fields r) s))"
proof (cases "ts_Get k s")
  case None
  then show ?thesis using assms by (simp add: ts_Update_def ts_Get_def)
next
  case (Some t)
  let ?s = "snd (ts_Update now k (update_fields r) s)"
  have g: "ts_Get x ?s = (if x = k then Some ((update_fields r t)\<lparr>tk_UpdatedAt := now\<rparr>) else ts_Get x s)" "tst_counter ?s = tst_counter s" for x
    using Some by (auto simp: ts_Update_def ts_Get_def Let_def sm_load_def sm_store_def)
  have b: "blocks_of ?s x = blocks_of s x" "blockers_of ?s x = blockers_of s x" for x
    using Some by (auto simp: blocks_of_def blockers_of_def g update_fields_def)
  have i: "tk_ID ((update_fields r t)\<lparr>tk_UpdatedAt := now\<rparr>) = tk_ID t" by (simp add: update_fields_def)
  show ?thesis using assms Some unfolding deps_symmetric_def b g by (auto simp: i)
qed

lemma dispatch_symmetric:
  assumes "deps_symmetric s"
  shows "deps_symmetric (snd (tasks_dispatch now dev obj s))"
proof -
  have "deps_symmetric (snd (handleCreate now dev obj s))"
    using Create_symmetric [OF assms] add_deps_symmetric assms
    by (auto simp: handleCreate_def split: option.split prod.split) (metis snd_conv)
  moreover have "deps_symmetric (snd (handleUpdate now dev obj s))"
    using Update_symmetric [OF assms] add_deps_symmetric assms
    by (auto simp: handleUpdate_def split: option.split prod.split) (metis snd_conv)+
  ultimately show ?thesis using assms by (simp add: tasks_dispatch_def)
qed

text \<open>
  C40: in every store that requests lead to, a task lists another among those it blocks exactly if the other lists it among its
  blockers. This fails for a task and itself: a request that makes a task block itself stores the two copies of one task, and the
  second, which only has the blocker, replaces the first.
\<close>

theorem task_dependencies_have_two_sides:
  assumes "task_reach s"
  shows "(\<forall>a b. a \<noteq> b \<longrightarrow> (b \<in> blocks_of s a \<longleftrightarrow> a \<in> blockers_of s b)) \<and>
    (\<forall>k. ts_Get k s \<noteq> None \<longrightarrow> k \<in> blockers_of (snd (AddBlocks now k k s)) k \<and> k \<notin> blocks_of (snd (AddBlocks now k k s)) k)"
proof -
  have "deps_symmetric NewTaskStore"
    by (simp add: deps_symmetric_def NewTaskStore_def blocks_of_def blockers_of_def ts_Get_def sm_load_def NewSyncMap_def)
  with assms have d: "deps_symmetric s" by (induction rule: task_reach.induct) (simp_all add: dispatch_symmetric)
  have "k \<in> blockers_of (snd (AddBlocks now k k s)) k \<and> k \<notin> blocks_of (snd (AddBlocks now k k s)) k" if k: "ts_Get k s \<noteq> None" for k
    using d by (simp add: AddBlocks_sides [OF k k] deps_symmetric_def)
  with d show ?thesis unfolding deps_symmetric_def by blast
qed

text \<open>The reply to a request that creates a task and its dependencies is the task before the dependencies are added.\<close>

lemma create_reply_has_no_dependencies:
  assumes "handleCreate now dev obj s = (Inr (OneTask t), s')"
  shows "tk_Blocks t = [] \<and> tk_BlockedBy t = []"
  using assms by (auto simp: handleCreate_def ts_Create_def Let_def split: option.splits if_splits)

text \<open>A task, and a second one that blocks it.\<close>

lemma first_ids: "task_id (Suc 0) = ''task-1''" "task_id (Suc (Suc 0)) = ''task-2''"
  by code_simp+

theorem task_dependencies_have_two_sides_witness:
  "\<exists>s. task_reach s \<and> ''task-1'' \<in> blocks_of s ''task-2'' \<and> ''task-2'' \<in> blockers_of s ''task-1''"
proof -
  let ?s1 = "snd (tasks_dispatch 1 [] [(''subject'', TStr ''build'')] NewTaskStore)"
  let ?s2 = "snd (tasks_dispatch 2 [] [(''subject'', TStr ''plan''), (''addBlocks'', TList [''task-1''])] ?s1)"
  have reach: "task_reach ?s2" by (intro task_reach.intros)
  moreover have b: "''task-1'' \<in> blocks_of ?s2 ''task-2''"
    by (simp add: tasks_dispatch_def handleCreate_def decode_request_def str_member_def list_member_def bad_status_def ts_Create_def
        add_deps_def AddBlocks_def NewTaskStore_def NewSyncMap_def first_ids blocks_of_def ts_Get_def sm_load_def sm_store_def Let_def)
  moreover have "''task-2'' \<noteq> ''task-1''" by simp
  ultimately have "''task-2'' \<in> blockers_of ?s2 ''task-1''"
    using task_dependencies_have_two_sides [of ?s2 1, THEN conjunct1, rule_format, of "''task-2''" "''task-1''"] by simp
  with reach b show ?thesis by (intro exI conjI)
qed

end
