(* ===== verification/Spec2Isabelle.thy ===== *)
theory Spec2Isabelle
  imports SignalProps Pipes SupervisorProps Budget LoopDetect DagBuild Compact MountProps PermProps
    ToolExecProps ReasonProps EngineProps Coroutines Heartbeat CronJobs Tasks
begin

text \<open>
  A model of the core of rnix, a daemon that runs language-model agents as operating-system
  processes.

  \<^bold>\<open>The program.\<close> The kernel (\<open>src/kernel\<close>) keeps a table of processes. A process is an agent: it
  has a parent and children, a state (created, running, suspended, zombie, dead), signals, a table of
  open files, a message queue, a conversation context and a token budget. Its reasoning loop
  asks a language model for the next step and runs the tool calls of the answer: files and devices
  of the virtual file system (\<open>src/vfs\<close>), servers mounted below \<open>/mnt/mcp\<close>, or actions of the
  kernel itself (spawn a child, load a skill, plan, complete). The context manager (\<open>src/context\<close>) holds
  the conversations and shrinks them when they grow too large. Supervisors restart failed children;
  compose files and intents (\<open>src/compose\<close>, \<open>src/intent\<close>) are graphs of agents run in layers.

  \<^bold>\<open>Conventions.\<close> A struct is a record with the fields the modelled code uses, an enumeration a
  datatype; strings are lists of bytes, as in Go. \<open>int\<close> is unbounded where the code only counts things
  that fit in memory and is cut to 64 bits (\<open>i64\<close>) where the code adds what callers give it. A Go map is a function to \<open>option\<close>, or an
  association list where its iteration order shows; the order of an iteration over a \<open>sync.Map\<close> is the
  order of that list, so a theorem over all lists covers every order. An operation returns the new
  state; an error is the left of a sum; a panic or a wait without end is \<open>None\<close>. What lies outside
  the modelled code (the clock, the answers of drivers and of the language model, what other
  goroutines do in between) is an argument of the operation that uses it. A body under one lock is one step; where the code drops and takes a lock
  again the model has two steps, or an argument for what happens between them. Log lines and texts that only humans
  read are left out, events and hooks are kept in the log of outgoing calls (\<open>outcall\<close>) where their order matters.

  \<^bold>\<open>Theories and code.\<close>

  \<^item> \<open>Prelude\<close>: 64-bit integers, bounded rings, association lists, runs of labelled steps, and the
    interfaces the components share (a key-value store, a ring, a simulation). \<open>KTypes\<close>: identifiers, error codes,
    signals and states (\<open>internal/types\<close>). \<open>XSync\<close>: the concurrent map, registry and ring buffer
    (\<open>internal/xsync\<close>).

  \<^item> \<open>ProcState\<close>: the process control block with its transitions, signal dispositions and histories
    (\<open>kernel/process.go\<close>, \<open>kernel/signal.go\<close>). \<open>Kernel\<close>: the process table, finishing, suspending, waiting and
    reaping (\<open>kernel/kernel.go\<close>, \<open>reason.go\<close>, \<open>suspend.go\<close>, \<open>reap.go\<close>). \<open>Signals\<close>: delivery, subtree suspension and
    resumption, the kill paths (\<open>signal.go\<close>, \<open>subtree.go\<close>, \<open>proc_query.go\<close>). \<open>KernelInv\<close>, \<open>KernelRun\<close>: the invariant of a
    process under every operation and under any sequence of operations. \<open>KernelProps\<close>, \<open>SubtreeProps\<close>,
    \<open>SignalProps\<close>: what the operations promise. \<open>History\<close>: the record of finished processes and
    its reconciliation after a restart (\<open>process_history.go\<close>, \<open>history_reconcile.go\<close>, \<open>invariant.go\<close>).

  \<^item> \<open>MsgQueue\<close>, \<open>Pipes\<close>: the two blocking queues as step relations over any number of goroutines, with
    condition variables and lost or spurious wake-ups (\<open>kernel/ipc.go\<close>). \<open>KernelIPC\<close>: the system
    calls over them and the persistence of messages (\<open>ipc_persist.go\<close>).

  \<^item> \<open>Vfs\<close>: paths, devices and descriptor tables (\<open>vfs/vfs.go\<close>, \<open>vfs/device.go\<close>). \<open>Mounts\<close>, \<open>MountSys\<close>, \<open>MountProps\<close>:
    the mount manager (\<open>vfs/mount.go\<close>, \<open>vfs/mcp.go\<close>), its operations as sequences of locked sections, their
    interleavings and the refinement to a count of owners. \<open>Permissions\<close>, \<open>PermProps\<close>: tool tables,
    whitelists, their derivation and the check before a call (\<open>toolgen.go\<close>, \<open>devices.go\<close>, \<open>spawn.go\<close>,
    \<open>tool_exec.go\<close>).

  \<^item> \<open>Utf8\<close>, \<open>Tokens\<close>: decoding and token estimates. \<open>ContextMgr\<close>: contexts and prompt sections. \<open>Prune\<close>, \<open>Compact\<close>: clearing,
    dropping and summarising (\<open>src/context\<close>). \<open>AutoCompact\<close>, \<open>AutoCompactProps\<close>: when the kernel does which, and its latch
    (\<open>kernel/compact.go\<close>).

  \<^item> \<open>Breaker\<close>, \<open>ToolExec\<close>, \<open>ToolExecProps\<close>: the tool calls of a step with the circuit breaker
    (\<open>kernel/tool_exec.go\<close>). \<open>LoopDetect\<close>: the detector of repeated actions (\<open>loop_detector.go\<close>).

  \<^item> \<open>QuotaWake\<close>: back-off delays and the parking and waking of processes whose provider is out of quota
    (\<open>retry_backoff.go\<close>, \<open>quota_wake.go\<close>). \<open>ProviderGate\<close>: the gate of concurrent requests per provider
    (\<open>provider_gate.go\<close>). \<open>RateLimit\<close>: classification of provider errors and the waits they ask for
    (\<open>drivers/llm/errors.go\<close>, \<open>ratelimit.go\<close>, \<open>retryafter.go\<close>). \<open>ReasonLoop\<close>, \<open>ReasonProps\<close>: the reasoning loop, with
    its budgets, retries, breakpoints and exits (\<open>reason.go\<close>, \<open>breakpoint.go\<close>). \<open>Heartbeat\<close>: the scan for
    stalled processes (\<open>heartbeat_monitor.go\<close>). \<open>Coroutines\<close>: values handed between a process and its
    coroutines, and the threads of a process (\<open>coroutine.go\<close>, \<open>thread.go\<close>).

  \<^item> \<open>Budget\<close>: the token pool (\<open>budget_pool.go\<close>). \<open>Supervisor\<close>, \<open>SupervisorProps\<close>: restart strategies and limits
    (\<open>supervisor.go\<close>). \<open>Dag\<close>, \<open>DagSort\<close>, \<open>DagCycle\<close>, \<open>DagBuild\<close>: dependency graphs, layers and cycle reports
    (\<open>compose\<close>, \<open>intent/dag.go\<close>). \<open>ComposeEngine\<close>, \<open>EngineProps\<close>: the run of a plan layer by layer, and a run
    resumed at a node (\<open>compose/engine.go\<close>).

  \<^item> \<open>Cron\<close>: cron expressions and the search for the next match; \<open>CronJobs\<close>: the store of jobs and their timers
    (\<open>drivers/cron\<close>). \<open>Tasks\<close>: the tasks and the dependencies between them (\<open>drivers/tasks\<close>).

  \<^bold>\<open>What the lemmas show.\<close> A component has an invariant that every operation keeps (processes, pipes,
    queues, mounts, histories, conversations), the behaviour of its operations on every branch, and where the
    code promises something simpler than it does, a refinement: mounts to owner counts, the
    compaction to an automaton, the loop detector to run lengths, quotas to fair shares, device
    resolution to the longest prefix. The components meet in three places: a finished process
    runs through table, mounts, history and its waiting parent (\<open>KernelRun\<close>); a tool step runs through
    permissions, conversation, breaker and table (\<open>ToolExec\<close>); a full conversation runs through pruning, dropping and
    compaction (\<open>AutoCompact\<close>). Several theorems state behaviour the code does not mean to have; they are the
    findings of the manifest.

  \<^bold>\<open>Bounds.\<close> A subtree is walked at most \<open>subtreeMaxDepth\<close> = 32 levels deep, as in the code; deeper
  descendants are out of its reach and the theorems say so. \<open>signalTreeRecursive\<close> takes its depth as fuel and is \<open>None\<close> when a cycle of children
  would recurse for ever. The depth-first search of a graph has fuel one more than its
  nodes, which its stack cannot exceed. A compaction tries the model \<open>maxPTLRetries\<close> + 1 times, as the code does.
  The reasoning loop has its turns as fuel: with a step limit of n it is over after n + 1 of them, which
  \<open>reasoning_always_settles\<close> proves; without a limit it may run for ever. The search of a cron schedule stops after
  366 days, the code's own limit. A run of a compose file is given the order in which its agents start
  and end; it accounts for all of them when the order has a start and an end of each.
  \<open>float64\<close> percentages are rational numbers; a token count is the ceiling of an exact quotient, which equals the
  code's below 2^40 characters.

  \<^bold>\<open>Not modelled.\<close> Input and output: the transports of the language model drivers, the device drivers behind the
  tools other than cron and tasks, the IPC server, step records, snapshots and the resumption of processes from them, the
  reconciliation with processes of the host, start-up and configuration, the loading of agents, skills and
  prompts. Scores in floating point: the immune system, reputation, service levels, synergy and the recall of the memory
  store. Texts for humans: command line, dashboard, observation and debugging tools, the test tool. Shell scripts and the
  intent engine around its graph. \<open>Spawn\<close> is modelled in its permissions, its process control block and its table
  entry, not in the loading of agents. Data races on fields that the code reads without their lock are not represented: a
  step reads a consistent state.
\<close>

end
